(* ===== verification/EunhaPrelude.thy ===== *)
theory EunhaPrelude
  imports Main "HOL-Library.Char_ord" "HOL-Library.List_Lexorder" "HOL-Library.Product_Lexorder"
begin

text \<open>
  What the components share: decimal numerals as Rust and Redis write an integer, the
  conversion of an \<^verbatim>\<open>i64\<close> to an \<^verbatim>\<open>f64\<close> that scores go through, the state-and-error
  shape of code that talks to Redis (every \<^verbatim>\<open>.await?\<close> may fail), and a weakest
  precondition calculus for it. The collection \<open>wp_rules\<close> holds one rule per
  combinator; proofs about the components apply it and then reason about values only.
\<close>

named_theorems wp_rules "weakest precondition rules of the effectful combinators"

named_theorems confined_rules "which keys an operation can touch, one rule per combinator"

section \<open>Searching a table\<close>

lemma find_map_keep: "(\<And>x. P (f x) \<longleftrightarrow> P x) \<Longrightarrow> find P (map f xs) = map_option f (find P xs)"
  by (induction xs) auto

lemma distinct_map_inj: "distinct (map f xs) \<Longrightarrow> x \<in> set xs \<Longrightarrow> y \<in> set xs \<Longrightarrow> f x = f y \<Longrightarrow> x = y"
  by (simp add: distinct_map inj_on_def)

lemma find_filter_keep: "(\<And>x. x \<in> set xs \<Longrightarrow> P x \<Longrightarrow> Q x) \<Longrightarrow> find P (filter Q xs) = find P xs"
  by (induction xs) auto

lemma find_unique: "x \<in> set xs \<Longrightarrow> P x \<Longrightarrow> (\<And>y. y \<in> set xs \<Longrightarrow> P y \<Longrightarrow> y = x) \<Longrightarrow> find P xs = Some x"
proof (cases "find P xs")
  case None
  assume "x \<in> set xs" "P x"
  then show ?thesis using None by (simp add: find_None_iff)
next
  case (Some y)
  assume unique: "\<And>y. y \<in> set xs \<Longrightarrow> P y \<Longrightarrow> y = x"
  have "y \<in> set xs" "P y" using Some by (metis find_Some_iff nth_mem)+
  then show ?thesis using Some unique by simp
qed

section \<open>\<^verbatim>\<open>db::models\<close>: visibilities\<close>

definition VIS_PUBLIC :: int where "VIS_PUBLIC = 0"
definition VIS_UNLISTED :: int where "VIS_UNLISTED = 1"
definition VIS_PRIVATE :: int where "VIS_PRIVATE = 2"

lemmas vis_defs = VIS_PUBLIC_def VIS_UNLISTED_def VIS_PRIVATE_def

section \<open>Durations, in microseconds\<close>

definition seconds :: "int \<Rightarrow> int" where
  "seconds n = n * 1000000"

section \<open>Decimal numerals\<close>

definition digit :: "nat \<Rightarrow> char" where
  "digit n = char_of (48 + n)"

fun dec_nat :: "nat \<Rightarrow> string" where
  "dec_nat n = (if n < 10 then [digit n] else dec_nat (n div 10) @ [digit (n mod 10)])"

declare dec_nat.simps [simp del]

text \<open>The decimal form of an integer, as \<^verbatim>\<open>i64::to_string\<close> and Redis replies write it.\<close>

definition dec :: "int \<Rightarrow> string" where
  "dec i = (if i < 0 then CHR ''-'' # dec_nat (nat (- i)) else dec_nat (nat i))"

definition undigit :: "char \<Rightarrow> nat" where
  "undigit c = of_char c - 48"

definition undec_nat :: "string \<Rightarrow> nat" where
  "undec_nat s = foldl (\<lambda>n c. 10 * n + undigit c) 0 s"

lemma of_char_digit: "n < 10 \<Longrightarrow> of_char (digit n) = (48 + n :: nat)"
  by (simp add: digit_def)

lemma undigit_digit [simp]: "n < 10 \<Longrightarrow> undigit (digit n) = n"
  by (simp add: undigit_def of_char_digit)

lemma undec_dec_nat [simp]: "undec_nat (dec_nat n) = n"
proof (induction n rule: dec_nat.induct)
  case (1 n)
  show ?case
  proof (cases "n < 10")
    case True
    then show ?thesis by (simp add: dec_nat.simps [of n] undec_nat_def)
  next
    case False
    with 1 have "undec_nat (dec_nat (n div 10)) = n div 10" by simp
    with False show ?thesis
      by (simp add: dec_nat.simps [of n] undec_nat_def)
  qed
qed

lemma dec_nat_inj [simp]: "dec_nat a = dec_nat b \<longleftrightarrow> a = b"
  by (metis undec_dec_nat)

lemma digit_range: "n < 10 \<Longrightarrow> (of_char (digit n) :: nat) \<in> {48..57}"
  by (simp add: of_char_digit)

lemma dec_nat_chars: "c \<in> set (dec_nat n) \<Longrightarrow> (of_char c :: nat) \<in> {48..57}"
proof (induction n rule: dec_nat.induct)
  case (1 n)
  then show ?case
    by (cases "n < 10") (auto simp: dec_nat.simps [of n] of_char_digit)
qed

lemma dec_nat_no_char:
  "(of_char c :: nat) \<notin> {48..57} \<Longrightarrow> c \<notin> set (dec_nat n)"
  using dec_nat_chars by blast

lemma dec_nat_nonempty [simp]: "dec_nat n \<noteq> []"
  by (simp add: dec_nat.simps [of n])

lemma minus_not_dec_nat [simp]: "CHR ''-'' # xs \<noteq> dec_nat n"
proof
  assume "CHR ''-'' # xs = dec_nat n"
  then have "CHR ''-'' \<in> set (dec_nat n)" by (metis list.set_intros(1))
  then show False using dec_nat_no_char [of "CHR ''-''" n] by simp
qed

lemma dec_nonempty [simp]: "dec i \<noteq> []"
  by (simp add: dec_def)

lemma dec_inj [simp]: "dec a = dec b \<longleftrightarrow> a = b"
proof
  assume eq: "dec a = dec b"
  show "a = b"
  proof (cases "a < 0"; cases "b < 0")
    assume "a < 0" "b < 0" with eq show ?thesis by (simp add: dec_def)
  next
    assume "a < 0" "\<not> b < 0" with eq show ?thesis by (simp add: dec_def)
  next
    assume "\<not> a < 0" "b < 0" with eq show ?thesis
      by (metis dec_def minus_not_dec_nat)
  next
    assume "\<not> a < 0" "\<not> b < 0" with eq show ?thesis by (simp add: dec_def)
  qed
qed simp

lemma colon_not_in_dec [simp]: "CHR '':'' \<notin> set (dec i)"
  using dec_nat_no_char [of "CHR '':''"] by (simp add: dec_def)

text \<open>A decimal followed by a colon can be read back off the front of a key.\<close>

lemma split_at_sep:
  assumes "c \<notin> set xs" and "c \<notin> set ys"
  shows "xs @ c # u = ys @ c # v \<longleftrightarrow> xs = ys \<and> u = v"
proof
  assume eq: "xs @ c # u = ys @ c # v"
  have "takeWhile (\<lambda>x. x \<noteq> c) (xs @ c # u) = xs"
    using assms(1) by (metis (mono_tags, lifting) append.right_neutral takeWhile.simps(2)
        takeWhile_append2)
  moreover have "takeWhile (\<lambda>x. x \<noteq> c) (ys @ c # v) = ys"
    using assms(2) by (metis (mono_tags, lifting) append.right_neutral takeWhile.simps(2)
        takeWhile_append2)
  ultimately have "xs = ys" using eq by metis
  with eq show "xs = ys \<and> u = v" by simp
qed simp

lemma sep_not_suffix: "c \<notin> set ys \<Longrightarrow> xs @ c # u \<noteq> ys"
  by auto

lemma dec_colon_inj [simp]: "dec a @ CHR '':'' # u = dec b @ CHR '':'' # v \<longleftrightarrow> a = b \<and> u = v"
  by (simp add: split_at_sep)

lemma dec_colon_neq [simp]: "dec a @ CHR '':'' # u \<noteq> dec b" "dec b \<noteq> dec a @ CHR '':'' # u"
  using sep_not_suffix [OF colon_not_in_dec] by metis+

section \<open>From \<^verbatim>\<open>i64\<close> to \<^verbatim>\<open>f64\<close>\<close>

text \<open>
  A Redis score is a double. \<open>as_f64\<close> is the value of the double an integer becomes
  (\<^verbatim>\<open>id as f64\<close>, or the score text Redis parses): exact up to \<open>2^53\<close>, and above that
  rounded to 53 significant bits, half to even. For the integers here the value is itself
  an integer, so scores are integers in the model.
\<close>

fun f64_shift :: "nat \<Rightarrow> nat" where
  "f64_shift n = (if n < 2 ^ 53 then 0 else Suc (f64_shift (n div 2)))"

declare f64_shift.simps [simp del]

definition round_half_even :: "nat \<Rightarrow> nat \<Rightarrow> nat" where
  "round_half_even p n =
     (let q = n div p; r = n mod p in if 2 * r < p \<or> 2 * r = p \<and> even q then q else Suc q)"

definition as_f64_nat :: "nat \<Rightarrow> nat" where
  "as_f64_nat n = (let p = 2 ^ f64_shift n in round_half_even p n * p)"

definition as_f64 :: "int \<Rightarrow> int" where
  "as_f64 i = (if i < 0 then - int (as_f64_nat (nat (- i))) else int (as_f64_nat (nat i)))"

lemma as_f64_nat_exact: "n < 2 ^ 53 \<Longrightarrow> as_f64_nat n = n"
  by (simp add: as_f64_nat_def f64_shift.simps [of n] round_half_even_def)

lemma as_f64_exact: "\<bar>i\<bar> < 2 ^ 53 \<Longrightarrow> as_f64 i = i"
  by (auto simp: as_f64_def as_f64_nat_exact)

lemma round_half_even_bounds:
  "n div p \<le> round_half_even p n" "round_half_even p n \<le> Suc (n div p)"
  by (simp_all add: round_half_even_def Let_def)

lemma round_half_even_mono:
  assumes "m \<le> n" and "0 < p"
  shows "round_half_even p m \<le> round_half_even p n"
proof (cases "m div p = n div p")
  case True
  have "m mod p \<le> n mod p"
    using assms(1) True by (metis add_le_cancel_left div_mult_mod_eq)
  then show ?thesis
    using True by (auto simp: round_half_even_def Let_def)
next
  case False
  then have "Suc (m div p) \<le> n div p"
    using div_le_mono [OF assms(1), of p] by simp
  then show ?thesis
    using round_half_even_bounds(2) [of p m] round_half_even_bounds(1) [of n p] by linarith
qed

lemma f64_shift_mono: "m \<le> n \<Longrightarrow> f64_shift m \<le> f64_shift n"
proof (induction n arbitrary: m rule: f64_shift.induct)
  case (1 n)
  show ?case
  proof (cases "m < 2 ^ 53")
    case True
    then show ?thesis by (simp add: f64_shift.simps [of m])
  next
    case False
    with "1.prems" have n: "\<not> n < 2 ^ 53" by linarith
    have "m div 2 \<le> n div 2" using "1.prems" by (rule div_le_mono)
    with "1.IH" n have "f64_shift (m div 2) \<le> f64_shift (n div 2)" by blast
    with False n show ?thesis by (simp add: f64_shift.simps [of m] f64_shift.simps [of n])
  qed
qed

lemma f64_shift_upper: "n < 2 ^ 53 * 2 ^ f64_shift n"
proof (induction n rule: f64_shift.induct)
  case (1 n)
  show ?case
  proof (cases "n < 2 ^ 53")
    case True
    then show ?thesis by (simp add: f64_shift.simps [of n])
  next
    case False
    with 1 have "n div 2 < 2 ^ 53 * 2 ^ f64_shift (n div 2)" by blast
    then have "n < 2 * (2 ^ 53 * 2 ^ f64_shift (n div 2))" by linarith
    with False show ?thesis by (simp add: f64_shift.simps [of n] mult.assoc)
  qed
qed

lemma f64_shift_lower: "0 < f64_shift n \<Longrightarrow> 2 ^ 52 * 2 ^ f64_shift n \<le> n"
proof (induction n rule: f64_shift.induct)
  case (1 n)
  then have n: "\<not> n < 2 ^ 53" by (metis f64_shift.simps less_irrefl)
  have eq: "f64_shift n = Suc (f64_shift (n div 2))" using n by (simp add: f64_shift.simps [of n])
  show ?case
  proof (cases "f64_shift (n div 2) = 0")
    case True
    with n eq show ?thesis by simp
  next
    case False
    with "1.IH" n have "2 ^ 52 * 2 ^ f64_shift (n div 2) \<le> n div 2" by blast
    then have "2 * (2 ^ 52 * 2 ^ f64_shift (n div 2)) \<le> n" by linarith
    with eq show ?thesis by (simp add: mult.assoc)
  qed
qed

text \<open>The conversion keeps the order of ids: what lets scores stand in for them.\<close>

lemma as_f64_nat_mono:
  assumes "m \<le> n"
  shows "as_f64_nat m \<le> as_f64_nat n"
proof (cases "f64_shift m = f64_shift n")
  case True
  have "round_half_even (2 ^ f64_shift n) m \<le> round_half_even (2 ^ f64_shift n) n"
    using assms by (rule round_half_even_mono) simp
  with True show ?thesis by (simp add: as_f64_nat_def Let_def mult_le_mono1)
next
  case False
  let ?a = "f64_shift m" and ?b = "f64_shift n"
  have ab: "?a < ?b" using f64_shift_mono [OF assms] False by linarith
  have "m div 2 ^ ?a < 2 ^ 53"
    using f64_shift_upper [of m] by (metis div_less_iff_less_mult zero_less_numeral zero_less_power)
  then have "round_half_even (2 ^ ?a) m \<le> 2 ^ 53"
    using round_half_even_bounds(2) [of "2 ^ ?a" m] by linarith
  then have "as_f64_nat m \<le> 2 ^ 53 * 2 ^ ?a"
    by (simp only: as_f64_nat_def Let_def mult_le_mono1)
  also have "(2::nat) ^ 53 * 2 ^ ?a = 2 ^ 52 * 2 ^ Suc ?a" by simp
  also have "(2::nat) ^ 52 * 2 ^ Suc ?a \<le> 2 ^ 52 * 2 ^ ?b"
    using ab by (intro mult_le_mono2 power_increasing) auto
  also have "2 ^ 52 \<le> n div 2 ^ ?b"
    using f64_shift_lower [of n] ab
    by (metis div_le_mono gr_implies_not0 nonzero_mult_div_cancel_right not_gr_zero
        power_not_zero zero_neq_numeral)
  then have "2 ^ 52 * 2 ^ ?b \<le> as_f64_nat n"
    using round_half_even_bounds(1) [of n "2 ^ ?b"]
    by (metis as_f64_nat_def dual_order.trans mult_le_mono1)
  finally show ?thesis .
qed

lemma as_f64_mono:
  assumes "i \<le> j"
  shows "as_f64 i \<le> as_f64 j"
proof (cases "i < 0"; cases "j < 0")
  assume "i < 0" "j < 0"
  then show ?thesis using assms as_f64_nat_mono [of "nat (- j)" "nat (- i)"]
    by (simp add: as_f64_def)
next
  assume "\<not> i < 0" "\<not> j < 0"
  then show ?thesis using assms as_f64_nat_mono [of "nat i" "nat j"] by (simp add: as_f64_def)
qed (use assms in \<open>simp_all add: as_f64_def\<close>)

lemma as_f64_less: "as_f64 i < as_f64 j \<Longrightarrow> i < j"
  using as_f64_mono by (meson not_le)

lemma f64_shift_unique:
  assumes "0 < e" and "2 ^ 52 * 2 ^ e \<le> m" and "m < 2 ^ 53 * 2 ^ e"
  shows "f64_shift m = e"
proof (rule linorder_cases [of "f64_shift m" e])
  assume lt: "f64_shift m < e"
  then have "(2::nat) ^ 53 * 2 ^ f64_shift m \<le> 2 ^ 53 * 2 ^ (e - 1)"
    by (intro mult_le_mono2 power_increasing) auto
  also have "(2::nat) ^ 53 * 2 ^ (e - 1) = 2 ^ 52 * 2 ^ e"
    using assms(1) by (cases e) auto
  finally show ?thesis using assms(2) f64_shift_upper [of m] by linarith
next
  assume lt: "e < f64_shift m"
  then have "(2::nat) ^ 52 * 2 ^ Suc e \<le> 2 ^ 52 * 2 ^ f64_shift m"
    by (intro mult_le_mono2 power_increasing) auto
  then have "2 ^ 53 * 2 ^ e \<le> m" using f64_shift_lower [of m] lt by simp
  then show ?thesis using assms(3) by linarith
qed

lemma round_half_even_mult [simp]: "0 < p \<Longrightarrow> round_half_even p (q * p) = q"
  by (simp add: round_half_even_def)

text \<open>A double converts to itself.\<close>

lemma as_f64_nat_idem [simp]: "as_f64_nat (as_f64_nat n) = as_f64_nat n"
proof (cases "f64_shift n = 0")
  case True
  then show ?thesis by (simp add: as_f64_nat_def round_half_even_def)
next
  case False
  let ?e = "f64_shift n" let ?p = "2 ^ f64_shift n :: nat"
  let ?q = "round_half_even ?p n"
  have m: "as_f64_nat n = ?q * ?p" by (simp add: as_f64_nat_def Let_def)
  have "n div ?p < 2 ^ 53"
    using f64_shift_upper [of n] by (metis div_less_iff_less_mult zero_less_numeral zero_less_power)
  then have up: "?q \<le> 2 ^ 53" using round_half_even_bounds(2) [of ?p n] by linarith
  have "2 ^ 52 \<le> n div ?p"
    using f64_shift_lower [of n] False by (simp add: less_eq_div_iff_mult_less_eq)
  then have lo: "2 ^ 52 \<le> ?q" using round_half_even_bounds(1) [of n ?p] by linarith
  show ?thesis
  proof (cases "?q = 2 ^ 53")
    case True
    then have "as_f64_nat n = 2 ^ 52 * 2 ^ Suc ?e" using m by simp
    moreover have "f64_shift (2 ^ 52 * 2 ^ Suc ?e) = Suc ?e"
      by (rule f64_shift_unique) auto
    ultimately show ?thesis
      by (simp only: as_f64_nat_def Let_def round_half_even_mult zero_less_numeral zero_less_power)
  next
    case neq: False
    with up have "?q < 2 ^ 53" by linarith
    then have "?q * ?p < 2 ^ 53 * ?p" by (simp only: mult_less_cancel2) simp
    moreover have "2 ^ 52 * ?p \<le> ?q * ?p" using lo by (rule mult_le_mono1)
    ultimately have "f64_shift (?q * ?p) = ?e"
      using False by (intro f64_shift_unique) auto
    then show ?thesis
      by (simp only: m) (simp add: as_f64_nat_def [of "?q * ?p"] Let_def)
  qed
qed

lemma as_f64_idem [simp]: "as_f64 (as_f64 i) = as_f64 i"
  by (auto simp: as_f64_def) (metis as_f64_nat_idem nat_int)+

section \<open>Effects and errors\<close>

text \<open>
  Code that awaits a Redis connection reads and writes a state of type \<open>'r\<close> the model knows
  nothing about, and may fail. An operation is a function from that state to a result and
  the next state; an error carries whatever state the failure left.
\<close>

datatype redis_error = RedisError

type_synonym ('r, 'a) io = "'r \<Rightarrow> (redis_error + 'a) \<times> 'r"

definition io_return :: "'a \<Rightarrow> ('r, 'a) io" where
  "io_return v r = (Inr v, r)"

definition io_bind :: "('r, 'a) io \<Rightarrow> ('a \<Rightarrow> ('r, 'b) io) \<Rightarrow> ('r, 'b) io" where
  "io_bind m k r = (case m r of (Inl e, r') \<Rightarrow> (Inl e, r') | (Inr v, r') \<Rightarrow> k v r')"

text \<open>\<^verbatim>\<open>unwrap_or\<close> on the result of an awaited operation.\<close>

definition io_or :: "('r, 'a) io \<Rightarrow> 'a \<Rightarrow> ('r, 'a) io" where
  "io_or m d r = (case m r of (Inl e, r') \<Rightarrow> (Inr d, r') | (Inr v, r') \<Rightarrow> (Inr v, r'))"

text \<open>A \<^verbatim>\<open>for\<close> loop whose body ends in \<^verbatim>\<open>?\<close>.\<close>

fun io_for :: "'a list \<Rightarrow> ('a \<Rightarrow> ('r, unit) io) \<Rightarrow> ('r, unit) io" where
  "io_for [] f = io_return ()"
| "io_for (x # xs) f = io_bind (f x) (\<lambda>_. io_for xs f)"

definition wp :: "('r \<Rightarrow> 's) \<Rightarrow> ('r, 'a) io \<Rightarrow> ('a \<Rightarrow> 's \<Rightarrow> bool) \<Rightarrow> ('s \<Rightarrow> bool) \<Rightarrow> 's \<Rightarrow> bool" where
  "wp view m Q E s \<longleftrightarrow> (\<forall>r. view r = s \<longrightarrow>
     (case m r of (Inl e, r') \<Rightarrow> E (view r') | (Inr v, r') \<Rightarrow> Q v (view r')))"

lemma wpD:
  assumes "wp view m Q E (view r)"
  shows "case m r of (Inl e, r') \<Rightarrow> E (view r') | (Inr v, r') \<Rightarrow> Q v (view r')"
  using assms by (simp add: wp_def)

lemma wp_InrD: "wp view m Q E (view r) \<Longrightarrow> m r = (Inr v, r') \<Longrightarrow> Q v (view r')"
  by (drule wpD) simp

lemma wp_InlD: "wp view m Q E (view r) \<Longrightarrow> m r = (Inl e, r') \<Longrightarrow> E (view r')"
  by (drule wpD) simp

lemma wp_return [wp_rules]: "Q v s \<Longrightarrow> wp view (io_return v) Q E s"
  by (simp add: wp_def io_return_def)

lemma wp_bind [wp_rules]:
  "wp view m (\<lambda>v. wp view (k v) Q E) E s \<Longrightarrow> wp view (io_bind m k) Q E s"
  by (fastforce simp: wp_def io_bind_def split: prod.splits sum.splits)

lemma wp_or [wp_rules]:
  "wp view m Q (\<lambda>s'. Q d s') s \<Longrightarrow> wp view (io_or m d) Q E s"
  by (fastforce simp: wp_def io_or_def split: prod.splits sum.splits)

lemma wp_conseq:
  assumes "wp view m Q E s" and "\<And>v s'. Q v s' \<Longrightarrow> Q' v s'" and "\<And>s'. E s' \<Longrightarrow> E' s'"
  shows "wp view m Q' E' s"
  using assms by (fastforce simp: wp_def split: prod.splits sum.splits)

lemma wp_if [wp_rules]:
  "(b \<Longrightarrow> wp view m Q E s) \<Longrightarrow> (\<not> b \<Longrightarrow> wp view m' Q E s) \<Longrightarrow>
   wp view (if b then m else m') Q E s"
  by simp

lemma wp_for:
  assumes "\<And>x s. x \<in> set xs \<Longrightarrow> I s \<Longrightarrow> wp view (f x) (\<lambda>_. I) E s" and "I s"
  shows "wp view (io_for xs f) (\<lambda>_. I) E s"
  using assms
proof (induction xs arbitrary: s)
  case Nil
  then show ?case by (simp add: wp_return)
next
  case (Cons x xs)
  have "wp view (f x) (\<lambda>_. I) E s" using Cons.prems by simp
  then have "wp view (f x) (\<lambda>_. wp view (io_for xs f) (\<lambda>_. I) E) E s"
    by (rule wp_conseq) (use Cons in auto)
  then show ?case by (simp add: wp_bind)
qed

end
