(* ===== verification/Database.thy ===== *)
theory Database
  imports EunhaPrelude
begin

text \<open>
  The tables the feed work reads and the queries of \<^verbatim>\<open>src/feed.rs\<close> over them. A table is
  the list of its rows, a \<^verbatim>\<open>SELECT\<close> is the list of rows its \<^verbatim>\<open>WHERE\<close> keeps (a column
  that may be \<^verbatim>\<open>NULL\<close> is an option, and a comparison with \<^verbatim>\<open>NULL\<close> keeps no row). The
  PostgreSQL server is outside the source: which of the queries fail is a parameter,
  \<open>db_down\<close>, and each query site decides with \<open>fetch_all\<close> or \<open>fetch_or_default\<close> what
  that does, as the code's \<^verbatim>\<open>?\<close> and \<^verbatim>\<open>unwrap_or_default\<close> do. Times are in seconds.
\<close>

section \<open>Tables\<close>

record status_row =
  st_id :: int
  st_account :: int
  st_reply :: bool
  st_in_reply_to :: "int option"
  st_in_reply_to_account :: "int option"
  st_language :: "string option"
  st_reblog_of :: "int option"
  st_visibility :: int
  st_deleted :: bool

record account_row =
  ac_id :: int
  ac_domain :: "string option"
  ac_silenced :: bool
  ac_suspended :: bool

record user_row =
  us_id :: int
  us_account :: int
  us_settings :: "string option"
  us_sign_in :: "int option"
  us_confirmed :: bool

record follow_row =
  fo_account :: int
  fo_target :: int
  fo_languages :: "string list option"
  fo_show_reblogs :: bool
  fo_notify :: bool

record list_row =
  li_id :: int
  li_account :: int
  li_replies_policy :: int
  li_exclusive :: bool

record list_account_row =
  la_list :: int
  la_account :: int
  la_follow :: "int option"

record mention_row =
  me_status :: int
  me_account :: int
  me_silent :: bool

datatype query =
    QNotAggregating | QReblogsOf | QEligible int | QSignedIn | QDistributed
  | QMentions | QFollowing | QListMembers | QLanguages | QHidingReblogs | QBlocking | QMuting
  | QDomainBlocking | QBlockedBy | QExclusive | QFollows
  | QMentionedFollowers | QFollowers | QTagFollowers | QRecipients | QLists | QReplyTargets
  | QFindList | QOwnStatuses | QTargets | QListTargets | QUnmerge | QClearStatuses
  | QClearBoosted | QClearMentions | QListsOf int | QVacuumUsers int | QVacuumLists int
  | QAccountExists int | QListsWith

record database =
  statuses :: "status_row list"
  accounts :: "account_row list"
  users :: "user_row list"
  follows :: "follow_row list"
  lists :: "list_row list"
  list_accounts :: "list_account_row list"
  mentions :: "mention_row list"
  blocks :: "(int \<times> int) list"
  mutes :: "(int \<times> int) list"
  domain_blocks :: "(int \<times> string) list"
  tag_follows :: "(int \<times> int) list"
  statuses_tags :: "(int \<times> int) list"
  account_stats :: "(int \<times> int option) list"
  db_now :: int
  db_down :: "query \<Rightarrow> bool"

datatype sqlx_error = SqlxError

definition fetch_all :: "database \<Rightarrow> query \<Rightarrow> 'a list \<Rightarrow> sqlx_error + 'a list" where
  "fetch_all db q rows = (if db_down db q then Inl SqlxError else Inr rows)"

definition fetch_or_default :: "database \<Rightarrow> query \<Rightarrow> 'a list \<Rightarrow> 'a list" where
  "fetch_or_default db q rows = (if db_down db q then [] else rows)"

text \<open>\<^verbatim>\<open>?\<close> on a result that is not a Redis one.\<close>

definition res_bind :: "'e + 'a \<Rightarrow> ('a \<Rightarrow> 'e + 'b) \<Rightarrow> 'e + 'b" where
  "res_bind m k = (case m of Inl e \<Rightarrow> Inl e | Inr v \<Rightarrow> k v)"

lemma res_bind_Inr [simp]: "res_bind (Inr v) k = k v"
  by (simp add: res_bind_def)

lemma res_bind_eq_Inr: "res_bind m k = Inr w \<longleftrightarrow> (\<exists>v. m = Inr v \<and> k v = Inr w)"
  by (cases m) (simp_all add: res_bind_def)

lemma fetch_all_Inr: "fetch_all db q rows = Inr rs \<longleftrightarrow> \<not> db_down db q \<and> rs = rows"
  by (auto simp: fetch_all_def)

lemma fetch_or_default_sub: "set (fetch_or_default db q rows) \<subseteq> set rows"
  by (simp add: fetch_or_default_def)

lemma in_fetch_or_default: "x \<in> set (fetch_or_default db q rows) \<longleftrightarrow> \<not> db_down db q \<and> x \<in> set rows"
  by (simp add: fetch_or_default_def)

fun opt_list :: "'a option \<Rightarrow> 'a list" where
  "opt_list None = []"
| "opt_list (Some x) = [x]"

lemma set_opt_list: "set (opt_list x) = {y. x = Some y}"
  by (cases x) auto

definition left_join :: "'a list \<Rightarrow> 'a option list" where
  "left_join xs = (if xs = [] then [None] else map Some xs)"

text \<open>\<^verbatim>\<open>SELECT DISTINCT\<close> keeps one row of each.\<close>

definition select_distinct :: "'a list \<Rightarrow> 'a list" where
  "select_distinct xs = remdups xs"

section \<open>\<^verbatim>\<open>db::models\<close>: reply policies\<close>

definition REPLIES_LIST :: int where "REPLIES_LIST = 0"
definition REPLIES_FOLLOWED :: int where "REPLIES_FOLLOWED = 1"
definition REPLIES_NONE :: int where "REPLIES_NONE = 2"

lemmas replies_defs = REPLIES_LIST_def REPLIES_FOLLOWED_def REPLIES_NONE_def

section \<open>Users\<close>

definition ACTIVE_DAYS :: int where
  "ACTIVE_DAYS = 7"

definition days :: "int \<Rightarrow> int" where
  "days n = n * 86400"

text \<open>\<^verbatim>\<open>current_sign_in_at >= now() - make_interval(days => ...)\<close>\<close>

definition active_user :: "database \<Rightarrow> user_row \<Rightarrow> bool" where
  "active_user db u = (case us_sign_in u of None \<Rightarrow> False
     | Some at \<Rightarrow> at \<ge> db_now db - days ACTIVE_DAYS)"

definition signed_in_recently :: "database \<Rightarrow> int list \<Rightarrow> int list" where
  "signed_in_recently db account_ids =
     (if account_ids = [] then [] else
        let active = set (fetch_or_default db QSignedIn
          [us_account u. u \<leftarrow> users db, us_account u \<in> set account_ids \<and> active_user db u])
        in filter (\<lambda>i. i \<in> active) account_ids)"

definition is_signed_in_recently :: "database \<Rightarrow> int \<Rightarrow> bool" where
  "is_signed_in_recently db account_id = (signed_in_recently db [account_id] \<noteq> [])"

text \<open>
  \<^verbatim>\<open>accounts::user_setting_bool\<close>. Parsing the JSON object is \<^verbatim>\<open>serde_json\<close>'s: \<open>json\<close> is
  what \<^verbatim>\<open>from_str\<close>, \<^verbatim>\<open>get\<close> and \<^verbatim>\<open>as_bool\<close> answer for a text and a key.
\<close>

type_synonym json_bool = "string \<Rightarrow> string \<Rightarrow> bool option"

definition user_setting_bool :: "json_bool \<Rightarrow> string option \<Rightarrow> string \<Rightarrow> bool \<Rightarrow> bool" where
  "user_setting_bool json settings key dflt =
     (case Option.bind settings (\<lambda>s. json s key) of None \<Rightarrow> dflt | Some b \<Rightarrow> b)"

definition aggregates_reblogs :: "json_bool \<Rightarrow> string option \<Rightarrow> bool" where
  "aggregates_reblogs json settings = user_setting_bool json settings ''aggregate_reblogs'' True"

definition not_aggregating :: "json_bool \<Rightarrow> database \<Rightarrow> int list \<Rightarrow> int set" where
  "not_aggregating json db account_ids =
     set (map us_account (filter (\<lambda>u. \<not> aggregates_reblogs json (us_settings u))
       (fetch_or_default db QNotAggregating
         [u. u \<leftarrow> users db, us_account u \<in> set account_ids])))"

definition aggregates :: "json_bool \<Rightarrow> database \<Rightarrow> int \<Rightarrow> bool" where
  "aggregates json db account_id = (account_id \<notin> not_aggregating json db [account_id])"

text \<open>\<^verbatim>\<open>collect\<close> into a map keeps the last row of a key.\<close>

definition collect_map :: "('k \<times> 'v) list \<Rightarrow> 'k \<rightharpoonup> 'v" where
  "collect_map xs = map_of (rev xs)"

definition reblogs_of :: "database \<Rightarrow> int list \<Rightarrow> int \<rightharpoonup> int" where
  "reblogs_of db ids = collect_map (fetch_or_default db QReblogsOf
     [(st_id s, b). s \<leftarrow> statuses db, st_id s \<in> set ids, b \<leftarrow> opt_list (st_reblog_of s)])"

lemma in_signed_in_recently:
  "i \<in> set (signed_in_recently db ids) \<longleftrightarrow>
   i \<in> set ids \<and> \<not> db_down db QSignedIn \<and> (\<exists>u \<in> set (users db). us_account u = i \<and> active_user db u)"
  by (auto simp: signed_in_recently_def fetch_or_default_def Let_def)

section \<open>The statuses a feed is filled from\<close>

text \<open>A status as the filter reads it (\<^verbatim>\<open>Candidate\<close>); the boosted status is there when it
  is kept, with its author and their domain.\<close>

record candidate =
  c_id :: int
  c_account :: int
  c_reply :: bool
  c_in_reply_to :: "int option"
  c_in_reply_to_account :: "int option"
  c_language :: "string option"
  c_reblog_of :: "int option"
  c_reblog :: "(int \<times> string option) option"

text \<open>The two left joins: the boosted status that is kept, and its account.\<close>

definition joined_reblog :: "database \<Rightarrow> status_row \<Rightarrow> (status_row \<times> account_row option) option list" where
  "joined_reblog db s = concat (map (\<lambda>r. case r of
      None \<Rightarrow> [None]
    | Some r \<Rightarrow> map (\<lambda>ra. Some (r, ra))
        (left_join [ra. ra \<leftarrow> accounts db, ac_id ra = st_account r]))
    (left_join [r. r \<leftarrow> statuses db, Some (st_id r) = st_reblog_of s \<and> \<not> st_deleted r]))"

definition candidate_of :: "status_row \<Rightarrow> (status_row \<times> account_row option) option \<Rightarrow> candidate" where
  "candidate_of s r = \<lparr>c_id = st_id s, c_account = st_account s, c_reply = st_reply s,
     c_in_reply_to = st_in_reply_to s, c_in_reply_to_account = st_in_reply_to_account s,
     c_language = st_language s, c_reblog_of = st_reblog_of s,
     c_reblog = map_option (\<lambda>(r, ra). (st_account r, Option.bind ra ac_domain)) r\<rparr>"

definition list_eligible :: "int \<Rightarrow> int option \<Rightarrow> status_row \<Rightarrow> bool" where
  "list_eligible account_id after s \<longleftrightarrow>
     st_account s = account_id \<and> \<not> st_deleted s \<and> st_visibility s \<in> {0, 1, 2} \<and>
     (case after of None \<Rightarrow> True | Some a \<Rightarrow> st_id s > a)"

definition eligible_rows :: "database \<Rightarrow> int \<Rightarrow> int option \<Rightarrow> candidate list" where
  "eligible_rows db account_id after =
     concat (map (\<lambda>s. map (candidate_of s) (joined_reblog db s))
       (filter (list_eligible account_id after) (statuses db)))"

definition eligible_statuses :: "database \<Rightarrow> int \<Rightarrow> int option \<Rightarrow> int \<Rightarrow> candidate list" where
  "eligible_statuses db account_id after limit =
     fetch_or_default db (QEligible account_id)
       (take (nat limit) (rev (sort_key c_id (eligible_rows db account_id after))))"

lemma eligible_statusesD:
  assumes "c \<in> set (eligible_statuses db a after limit)"
  shows "\<exists>s r. s \<in> set (statuses db) \<and> list_eligible a after s \<and> c = candidate_of s r"
proof -
  have "set (eligible_statuses db a after limit) \<subseteq>
      set (take (nat limit) (rev (sort_key c_id (eligible_rows db a after))))"
    unfolding eligible_statuses_def by (rule fetch_or_default_sub)
  also have "\<dots> \<subseteq> set (eligible_rows db a after)" by (metis set_rev set_sort set_take_subset)
  finally have "c \<in> set (eligible_rows db a after)" using assms by blast
  then show ?thesis by (auto simp: eligible_rows_def)
qed

lemma eligible_statuses_length: "0 \<le> limit \<Longrightarrow> length (eligible_statuses db a after limit) \<le> nat limit"
  by (simp add: eligible_statuses_def fetch_or_default_def)

end
