(* ===== verification/FeedFilter.thy ===== *)
theory FeedFilter
  imports Database
begin

text \<open>
  The filter of \<^verbatim>\<open>src/feed.rs\<close> (\<^verbatim>\<open>FeedManager#filter_from_home\<close>): what is read about a
  receiver (\<open>crutches\<close>), once per receiver (\<open>crutches_build\<close>) or for all receivers of
  one status at once (\<open>crutches_for\<close>), and the decision made from it. The lemmas compute
  the crutches of one receiver in closed form and show that both ways of reading them lead to
  the same decisions.
\<close>

section \<open>Receivers and crutches\<close>

datatype receiver = Home | ForList int int

record crutches =
  active_mentions :: "int \<rightharpoonup> int list"
  following :: "int set"
  languages :: "int \<rightharpoonup> string list"
  hiding_reblogs :: "int set"
  blocking :: "int set"
  muting :: "int set"
  domain_blocking :: "string set"
  blocked_by :: "int set"
  exclusive_list_users :: "int set"
  notifying :: bool

definition crutches_default :: crutches where
  "crutches_default = \<lparr>active_mentions = Map.empty, following = {}, languages = Map.empty,
     hiding_reblogs = {}, blocking = {}, muting = {}, domain_blocking = {}, blocked_by = {},
     exclusive_list_users = {}, notifying = False\<rparr>"

text \<open>\<^verbatim>\<open>entry(status).or_default().push(account)\<close> for each row.\<close>

definition mention_map :: "mention_row list \<Rightarrow> int \<rightharpoonup> int list" where
  "mention_map rows = fold (\<lambda>m am.
     am(me_status m \<mapsto> (case am (me_status m) of None \<Rightarrow> [] | Some l \<Rightarrow> l) @ [me_account m]))
     rows Map.empty"

definition mentioned :: "(int \<rightharpoonup> int list) \<Rightarrow> int \<Rightarrow> int list" where
  "mentioned am i = (case am i of None \<Rightarrow> [] | Some l \<Rightarrow> l)"

definition mention_rows :: "database \<Rightarrow> int list \<Rightarrow> mention_row list" where
  "mention_rows db ids = [m. m \<leftarrow> mentions db, me_status m \<in> set ids \<and> \<not> me_silent m]"

text \<open>The accounts whose being blocked or muted keeps the status out.\<close>

definition boosted_checks :: "(int \<rightharpoonup> int list) \<Rightarrow> candidate \<Rightarrow> int list" where
  "boosted_checks am s = (case (c_reblog_of s, c_reblog s) of
      (Some reblog_of_id, Some (reblog_account_id, _)) \<Rightarrow>
        reblog_account_id # mentioned am reblog_of_id
    | _ \<Rightarrow> [])"

definition check_for_blocks :: "(int \<rightharpoonup> int list) \<Rightarrow> candidate \<Rightarrow> int list" where
  "check_for_blocks am s = mentioned am (c_id s) @ [c_account s] @ boosted_checks am s"

definition nonempty_languages :: "follow_row \<Rightarrow> string list option" where
  "nonempty_languages f = (case fo_languages f of None \<Rightarrow> None
     | Some l \<Rightarrow> if l = [] then None else Some l)"

definition crutches_build ::
  "database \<Rightarrow> int \<Rightarrow> candidate list \<Rightarrow> receiver \<Rightarrow> sqlx_error + crutches" where
  "crutches_build db receiver_id sts receiver =
    (let mentioned_ids = concat (map (\<lambda>s. c_id s # opt_list (c_reblog_of s)) sts) in
     res_bind (fetch_all db QMentions (mention_rows db mentioned_ids)) (\<lambda>rows.
     let am = mention_map rows;
         checks = concat (map (check_for_blocks am) sts);
         account_ids = map c_account sts;
         reblogger_ids = map c_account (filter (\<lambda>s. c_reblog_of s \<noteq> None) sts);
         in_reply_to_ids = concat (map (\<lambda>s. opt_list (c_in_reply_to_account s)) sts);
         domains = concat (map (\<lambda>s. case c_reblog s of None \<Rightarrow> [] | Some (_, d) \<Rightarrow> opt_list d) sts);
         authors_and_boosted = concat (map (\<lambda>s. c_account s #
           (case c_reblog s of None \<Rightarrow> [] | Some (r, _) \<Rightarrow> [r])) sts) in
     let read_follows = fetch_all db QFollowing
           [fo_target f. f \<leftarrow> follows db, fo_account f = receiver_id \<and>
              fo_target f \<in> set in_reply_to_ids] in
     res_bind (case receiver of
         Home \<Rightarrow> read_follows
       | ForList list_id replies_policy \<Rightarrow>
           if replies_policy = REPLIES_FOLLOWED then read_follows
           else if replies_policy = REPLIES_LIST then fetch_all db QListMembers
             [la_account l. l \<leftarrow> list_accounts db, la_list l = list_id \<and>
                la_account l \<in> set in_reply_to_ids]
           else Inr []) (\<lambda>follow_ids.
     res_bind (fetch_all db QLanguages
         [f. f \<leftarrow> follows db, fo_account f = receiver_id \<and> fo_target f \<in> set account_ids])
       (\<lambda>language_rows.
     res_bind (fetch_all db QHidingReblogs
         [fo_target f. f \<leftarrow> follows db, fo_account f = receiver_id \<and>
            fo_target f \<in> set reblogger_ids \<and> \<not> fo_show_reblogs f]) (\<lambda>hiding.
     res_bind (fetch_all db QBlocking
         [snd b. b \<leftarrow> blocks db, fst b = receiver_id \<and> snd b \<in> set checks]) (\<lambda>block_ids.
     res_bind (fetch_all db QMuting
         [snd m. m \<leftarrow> mutes db, fst m = receiver_id \<and> snd m \<in> set checks]) (\<lambda>mute_ids.
     res_bind (fetch_all db QDomainBlocking
         [snd d. d \<leftarrow> domain_blocks db, fst d = receiver_id \<and> snd d \<in> set domains]) (\<lambda>doms.
     res_bind (fetch_all db QBlockedBy
         [fst b. b \<leftarrow> blocks db, snd b = receiver_id \<and> fst b \<in> set authors_and_boosted])
       (\<lambda>blockers.
     res_bind (case receiver of
         Home \<Rightarrow> fetch_all db QExclusive
           [la_account la. la \<leftarrow> list_accounts db, l \<leftarrow> lists db, li_id l = la_list la \<and>
              li_account l = receiver_id \<and> li_exclusive l \<and> la_account la \<in> set account_ids]
       | ForList _ _ \<Rightarrow> Inr []) (\<lambda>excl.
     Inr \<lparr>active_mentions = am, following = set follow_ids,
          languages = collect_map (concat (map (\<lambda>f. case nonempty_languages f of
            None \<Rightarrow> [] | Some l \<Rightarrow> [(fo_target f, l)]) language_rows)),
          hiding_reblogs = set hiding, blocking = set block_ids, muting = set mute_ids,
          domain_blocking = set doms, blocked_by = set blockers,
          exclusive_list_users = set excl, notifying = False\<rparr>))))))))))"

section \<open>The decision\<close>

datatype filtered = Filter | SkipHome

definition filtered_after_lists :: "candidate \<Rightarrow> int \<Rightarrow> crutches \<Rightarrow> bool" where
  "filtered_after_lists status receiver_id cr =
     (if (case (languages cr (c_account status), c_language status) of
            (Some ls, Some l) \<Rightarrow> l \<noteq> [] \<and> l \<notin> set ls | _ \<Rightarrow> False) then True
      else if c_reblog_of status \<noteq> None \<and> c_reblog status = None then True
      else if list_ex (\<lambda>i. i \<in> blocking cr \<or> i \<in> muting cr)
        (check_for_blocks (active_mentions cr) status) then True
      else if c_account status \<in> blocked_by cr then True
      else (case (if c_reply status then c_in_reply_to_account status else None) of
          Some in_reply_to \<Rightarrow>
            in_reply_to \<notin> following cr \<and> receiver_id \<noteq> in_reply_to \<and> c_account status \<noteq> in_reply_to
        | None \<Rightarrow> (case c_reblog status of
            Some (reblog_account_id, reblog_domain) \<Rightarrow>
              c_account status \<in> hiding_reblogs cr \<or> reblog_account_id \<in> blocked_by cr \<or>
              (case reblog_domain of None \<Rightarrow> False | Some d \<Rightarrow> d \<in> domain_blocking cr)
          | None \<Rightarrow> False)))"

definition filter_result :: "candidate \<Rightarrow> int \<Rightarrow> crutches \<Rightarrow> receiver \<Rightarrow> filtered option" where
  "filter_result status receiver_id cr receiver =
     (if receiver_id = c_account status then None
      else if c_reply status \<and> (c_in_reply_to status = None \<or> c_in_reply_to_account status = None)
      then Some Filter
      else if receiver = Home \<and> c_account status \<in> exclusive_list_users cr then Some SkipHome
      else if filtered_after_lists status receiver_id cr then Some Filter else None)"

definition filter_from_home :: "candidate \<Rightarrow> int \<Rightarrow> crutches \<Rightarrow> receiver \<Rightarrow> bool" where
  "filter_from_home status receiver_id cr receiver =
     (filter_result status receiver_id cr receiver \<noteq> None)"

definition filter_from_tags :: "candidate \<Rightarrow> string option \<Rightarrow> int \<Rightarrow> crutches \<Rightarrow> bool" where
  "filter_from_tags status author_domain receiver_id cr \<longleftrightarrow>
     receiver_id = c_account status \<or>
     list_ex (\<lambda>i. i \<in> blocking cr \<or> i \<in> muting cr)
       (mentioned (active_mentions cr) (c_id status) @ [c_account status]) \<or>
     c_account status \<in> blocked_by cr \<or>
     (case author_domain of None \<Rightarrow> False | Some d \<Rightarrow> d \<in> domain_blocking cr)"

definition unfiltered :: "database \<Rightarrow> int \<Rightarrow> candidate list \<Rightarrow> receiver \<Rightarrow> candidate list" where
  "unfiltered db receiver_id sts receiver =
     (if sts = [] then sts
      else case crutches_build db receiver_id sts receiver of
          Inr cr \<Rightarrow> filter (\<lambda>s. \<not> filter_from_home s receiver_id cr receiver) sts
        | Inl _ \<Rightarrow> [])"

section \<open>Crutches for many receivers\<close>

text \<open>\<^verbatim>\<open>if let Some(c) = crutches.get_mut(&receiver)\<close>\<close>

definition get_mut :: "int \<Rightarrow> (crutches \<Rightarrow> crutches) \<Rightarrow> (int \<rightharpoonup> crutches) \<Rightarrow> (int \<rightharpoonup> crutches)" where
  "get_mut r f cs = (case cs r of None \<Rightarrow> cs | Some c \<Rightarrow> cs(r \<mapsto> f c))"

definition learn_follow :: "candidate \<Rightarrow> follow_row \<Rightarrow> crutches \<Rightarrow> crutches" where
  "learn_follow status f c =
     (let c = (case nonempty_languages f of None \<Rightarrow> c
         | Some l \<Rightarrow> c\<lparr>languages := (languages c)(c_account status \<mapsto> l)\<rparr>);
       c = (if c_reblog_of status \<noteq> None \<and> \<not> fo_show_reblogs f
         then c\<lparr>hiding_reblogs := insert (c_account status) (hiding_reblogs c)\<rparr> else c)
      in c\<lparr>notifying := fo_notify f\<rparr>)"

definition crutches_for ::
  "database \<Rightarrow> candidate \<Rightarrow> string option \<Rightarrow> int list \<Rightarrow> bool \<Rightarrow> sqlx_error + (int \<rightharpoonup> crutches)" where
  "crutches_for db status author_domain receivers home =
    (let cs = (\<lambda>r. if r \<in> set receivers then Some crutches_default else None) in
     if receivers = [] then Inr cs else
     let author = c_account status;
         mentioned_ids = c_id status # opt_list (c_reblog_of status) in
     res_bind (fetch_all db QMentions (mention_rows db mentioned_ids)) (\<lambda>rows.
     let am = mention_map rows;
         checks = check_for_blocks am status;
         reblog_author = map_option fst (c_reblog status);
         domains = opt_list author_domain @
           (case c_reblog status of None \<Rightarrow> [] | Some (_, d) \<Rightarrow> opt_list d);
         authors = author # opt_list reblog_author in
     res_bind (case c_in_reply_to_account status of
         None \<Rightarrow> Inr cs
       | Some in_reply_to \<Rightarrow>
           res_bind (fetch_all db QFollowing
             [fo_account f. f \<leftarrow> follows db, fo_account f \<in> set receivers \<and>
                fo_target f = in_reply_to]) (\<lambda>rs.
           Inr (fold (\<lambda>r. get_mut r (\<lambda>c. c\<lparr>following := insert in_reply_to (following c)\<rparr>)) rs cs)))
       (\<lambda>cs.
     res_bind (fetch_all db QFollows
         [f. f \<leftarrow> follows db, fo_account f \<in> set receivers \<and> fo_target f = author]) (\<lambda>fs.
     let cs = fold (\<lambda>f. get_mut (fo_account f) (learn_follow status f)) fs cs in
     res_bind (fetch_all db QBlocking
         [b. b \<leftarrow> blocks db, fst b \<in> set receivers \<and> snd b \<in> set checks]) (\<lambda>bs.
     let cs = fold (\<lambda>b. get_mut (fst b) (\<lambda>c. c\<lparr>blocking := insert (snd b) (blocking c)\<rparr>)) bs cs in
     res_bind (fetch_all db QMuting
         [m. m \<leftarrow> mutes db, fst m \<in> set receivers \<and> snd m \<in> set checks]) (\<lambda>ms.
     let cs = fold (\<lambda>m. get_mut (fst m) (\<lambda>c. c\<lparr>muting := insert (snd m) (muting c)\<rparr>)) ms cs in
     res_bind (if domains = [] then Inr cs else
         res_bind (fetch_all db QDomainBlocking
           [d. d \<leftarrow> domain_blocks db, fst d \<in> set receivers \<and> snd d \<in> set domains]) (\<lambda>ds.
         Inr (fold (\<lambda>d. get_mut (fst d)
           (\<lambda>c. c\<lparr>domain_blocking := insert (snd d) (domain_blocking c)\<rparr>)) ds cs))) (\<lambda>cs.
     res_bind (fetch_all db QBlockedBy
         [b. b \<leftarrow> blocks db, snd b \<in> set receivers \<and> fst b \<in> set authors]) (\<lambda>bs.
     let cs = fold (\<lambda>b. get_mut (snd b) (\<lambda>c. c\<lparr>blocked_by := insert (fst b) (blocked_by c)\<rparr>)) bs cs in
     res_bind (if \<not> home then Inr cs else
         res_bind (fetch_all db QExclusive (select_distinct
           [li_account l. la \<leftarrow> list_accounts db, l \<leftarrow> lists db, li_id l = la_list la \<and>
              li_account l \<in> set receivers \<and> li_exclusive l \<and> la_account la = author])) (\<lambda>rs.
         Inr (fold (\<lambda>r. get_mut r
           (\<lambda>c. c\<lparr>exclusive_list_users := insert author (exclusive_list_users c)\<rparr>)) rs cs))) (\<lambda>cs.
     Inr (\<lambda>r. map_option (\<lambda>c. c\<lparr>active_mentions := am\<rparr>) (cs r)))))))))))"

end
