(* ===== verification/RedisKeys.thy ===== *)
theory RedisKeys
  imports EunhaPrelude
begin

text \<open>
  \<^verbatim>\<open>src/redis_keys.rs\<close> (the tenant key namespace) and the key names of
  \<^verbatim>\<open>src/feed.rs\<close> (\<^verbatim>\<open>feed_key\<close>, \<^verbatim>\<open>list_feed_key\<close>, \<^verbatim>\<open>Timeline\<close>). A string is its
  UTF-8 bytes. The lemmas show that tenants with different prefixes never share a key, that
  \<open>strip\<close> undoes \<open>key\<close>, and that the three kinds of key of a timeline, and the keys of
  different timelines, never coincide: what the proofs about the feeds rest on.
\<close>

section \<open>\<^verbatim>\<open>RedisKeyspace\<close>\<close>

record keyspace =
  ks_prefix :: string

datatype keyspace_error = PrefixHasColon | PrefixHasOtherChars

definition is_ascii_alphanumeric :: "char \<Rightarrow> bool" where
  "is_ascii_alphanumeric c =
     (let n = of_char c :: nat in
      48 \<le> n \<and> n \<le> 57 \<or> 65 \<le> n \<and> n \<le> 90 \<or> 97 \<le> n \<and> n \<le> 122)"

definition keyspace_new :: "string \<Rightarrow> keyspace_error + keyspace" where
  "keyspace_new prefix =
     (if CHR '':'' \<in> set prefix then Inl PrefixHasColon
      else if \<not> list_all (\<lambda>c. is_ascii_alphanumeric c \<or> c = CHR ''-'' \<or> c = CHR ''_'') prefix
      then Inl PrefixHasOtherChars
      else Inr \<lparr>ks_prefix = prefix\<rparr>)"

definition ks_key :: "keyspace \<Rightarrow> string \<Rightarrow> string" where
  "ks_key ks k = (if ks_prefix ks = [] then k else ks_prefix ks @ '':'' @ k)"

text \<open>\<^verbatim>\<open>str::strip_prefix\<close>.\<close>

fun strip_prefix :: "string \<Rightarrow> string \<Rightarrow> string option" where
  "strip_prefix [] s = Some s"
| "strip_prefix (p # ps) [] = None"
| "strip_prefix (p # ps) (c # cs) = (if p = c then strip_prefix ps cs else None)"

definition ks_strip :: "keyspace \<Rightarrow> string \<Rightarrow> string option" where
  "ks_strip ks k =
     (if ks_prefix ks = [] then Some k
      else Option.bind (strip_prefix (ks_prefix ks) k) (strip_prefix '':''))"

definition is_shared :: "keyspace \<Rightarrow> bool" where
  "is_shared ks \<longleftrightarrow> ks_prefix ks \<noteq> []"

lemma strip_prefix_append [simp]: "strip_prefix p (p @ s) = Some s"
  by (induction p) auto

lemma strip_prefix_SomeD: "strip_prefix p s = Some t \<Longrightarrow> s = p @ t"
  by (induction p s rule: strip_prefix.induct) (auto split: if_splits)

lemma strip_prefix_eq: "strip_prefix p s = Some t \<longleftrightarrow> s = p @ t"
  by (auto dest: strip_prefix_SomeD)

lemma ks_key_inj [simp]: "ks_key ks a = ks_key ks b \<longleftrightarrow> a = b"
  by (simp add: ks_key_def)

lemma ks_strip_key [simp]: "ks_strip ks (ks_key ks k) = Some k"
  using strip_prefix_append [of "'':''" k] by (simp add: ks_strip_def ks_key_def del: strip_prefix_append)
     (metis append_Cons append_Nil bind.bind_lunit strip_prefix_append)

lemma ks_strip_SomeD: "ks_strip ks k = Some x \<Longrightarrow> ks_key ks x = k"
  by (auto simp: ks_strip_def ks_key_def bind_eq_Some_conv strip_prefix_eq split: if_splits)

lemma keyspace_new_no_colon: "keyspace_new p = Inr ks \<Longrightarrow> ks_prefix ks = p \<and> CHR '':'' \<notin> set p"
  by (auto simp: keyspace_new_def split: if_splits)

text \<open>Keys of keyspaces that the constructor accepts, both shared, are disjoint.\<close>

lemma keyspaces_disjoint:
  assumes "keyspace_new p = Inr A" and "keyspace_new q = Inr B"
    and "is_shared A" and "is_shared B" and "p \<noteq> q"
  shows "ks_key A x \<noteq> ks_key B y"
  using assms split_at_sep [of "CHR '':''" p q x y]
  by (auto dest!: keyspace_new_no_colon simp: ks_key_def is_shared_def)

section \<open>\<^verbatim>\<open>Timeline\<close>\<close>

record timeline =
  tl_key :: string
  tl_reblogs :: string

definition feed_key :: "keyspace \<Rightarrow> int \<Rightarrow> string" where
  "feed_key keys account_id = ks_key keys (''feed:home:'' @ dec account_id)"

definition list_feed_key :: "keyspace \<Rightarrow> int \<Rightarrow> string" where
  "list_feed_key keys list_id = ks_key keys (''feed:list:'' @ dec list_id)"

definition timeline_home :: "keyspace \<Rightarrow> int \<Rightarrow> timeline" where
  "timeline_home keys account_id =
     \<lparr>tl_key = feed_key keys account_id,
      tl_reblogs = ks_key keys (''feed:home:'' @ dec account_id @ '':reblogs'')\<rparr>"

definition timeline_list :: "keyspace \<Rightarrow> int \<Rightarrow> timeline" where
  "timeline_list keys list_id =
     \<lparr>tl_key = list_feed_key keys list_id,
      tl_reblogs = ks_key keys (''feed:list:'' @ dec list_id @ '':reblogs'')\<rparr>"

definition reblog_set :: "timeline \<Rightarrow> int \<Rightarrow> string" where
  "reblog_set tm reblog_of_id = tl_reblogs tm @ '':'' @ dec reblog_of_id"

text \<open>Every key a timeline can touch.\<close>

definition tl_keys :: "timeline \<Rightarrow> string set" where
  "tl_keys tm = {tl_key tm, tl_reblogs tm} \<union> range (reblog_set tm)"

lemma reblog_set_inj [simp]: "reblog_set tm a = reblog_set tm b \<longleftrightarrow> a = b"
  by (simp add: reblog_set_def)

lemma reblog_set_neq_reblogs [simp]:
  "reblog_set tm b \<noteq> tl_reblogs tm" "tl_reblogs tm \<noteq> reblog_set tm b"
  by (simp_all add: reblog_set_def)

lemma tl_keys_mem [simp]:
  "tl_key tm \<in> tl_keys tm" "tl_reblogs tm \<in> tl_keys tm" "reblog_set tm b \<in> tl_keys tm"
  by (auto simp: tl_keys_def)

text \<open>
  The contract the feed operations need of a timeline's keys: the feed and its tracked
  boosts are different keys, and no set of held-back boosts is the feed.
\<close>

locale timeline_keys =
  fixes tm :: timeline
  assumes key_neq_reblogs: "tl_key tm \<noteq> tl_reblogs tm"
    and key_neq_set: "tl_key tm \<noteq> reblog_set tm b"
begin

lemmas keys_distinct [simp] = key_neq_reblogs key_neq_reblogs [symmetric]
  key_neq_set key_neq_set [symmetric] reblog_set_neq_reblogs

end

lemma dec_eq_sep:
  "c \<notin> set (dec a) \<Longrightarrow> c \<notin> set (dec b) \<Longrightarrow> dec a @ c # u = dec b @ c # v \<longleftrightarrow> a = b \<and> u = v"
  by (simp add: split_at_sep)

lemma ks_key_append: "ks_key ks (k @ t) = ks_key ks k @ t"
  by (simp add: ks_key_def)

lemma home_reblog_set:
  "reblog_set (timeline_home ks a) b = ks_key ks (''feed:home:'' @ dec a @ '':reblogs:'' @ dec b)"
  by (simp add: reblog_set_def timeline_home_def flip: ks_key_append)

lemma list_reblog_set:
  "reblog_set (timeline_list ks a) b = ks_key ks (''feed:list:'' @ dec a @ '':reblogs:'' @ dec b)"
  by (simp add: reblog_set_def timeline_list_def flip: ks_key_append)

lemmas timeline_key_defs =
  timeline_home_def timeline_list_def feed_key_def list_feed_key_def

lemma timeline_keys_home: "timeline_keys (timeline_home ks a)"
  by unfold_locales (simp_all add: home_reblog_set, simp_all add: timeline_key_defs)

lemma timeline_keys_list: "timeline_keys (timeline_list ks a)"
  by unfold_locales (simp_all add: list_reblog_set, simp_all add: timeline_key_defs)

interpretation home_keys: timeline_keys "timeline_home ks a" for ks a
  by (rule timeline_keys_home)

interpretation list_keys: timeline_keys "timeline_list ks a" for ks a
  by (rule timeline_keys_list)

text \<open>Different timelines of one keyspace have no key in common.\<close>

lemma home_keys_disjoint: "a \<noteq> b \<Longrightarrow> tl_keys (timeline_home ks a) \<inter> tl_keys (timeline_home ks b) = {}"
  by (auto simp: tl_keys_def home_reblog_set) (auto simp: timeline_key_defs)

lemma list_keys_disjoint: "a \<noteq> b \<Longrightarrow> tl_keys (timeline_list ks a) \<inter> tl_keys (timeline_list ks b) = {}"
  by (auto simp: tl_keys_def list_reblog_set) (auto simp: timeline_key_defs)

lemma home_list_disjoint: "tl_keys (timeline_home ks a) \<inter> tl_keys (timeline_list ks b) = {}"
  by (auto simp: tl_keys_def list_reblog_set home_reblog_set) (auto simp: timeline_key_defs)

text \<open>Every key of a timeline is a key of its keyspace.\<close>

lemma home_keys_in_keyspace: "k \<in> tl_keys (timeline_home ks a) \<Longrightarrow> k \<in> range (ks_key ks)"
  by (auto simp: tl_keys_def home_reblog_set) (auto simp: timeline_key_defs)

lemma list_keys_in_keyspace: "k \<in> tl_keys (timeline_list ks a) \<Longrightarrow> k \<in> range (ks_key ks)"
  by (auto simp: tl_keys_def list_reblog_set) (auto simp: timeline_key_defs)

end
