(* ===== verification/FeedRedis.thy ===== *)
theory FeedRedis
  imports RedisKeys
begin

text \<open>
  The interface to the Redis server that holds the feeds. The server and the \<^verbatim>\<open>redis\<close>
  crate are not part of the source, so the code's connection is a parameter of the model: a
  function \<open>exec\<close> that runs one pipeline of commands (a single command is a pipeline of
  one). What the code relies on is the locale \<open>feed_redis\<close>: there is a view of the
  server's state as sorted sets and sets, a pipeline that succeeds has the effects and the
  replies the Redis manual gives, and one that fails has had the effects of a prefix of it.
  Any failure may happen at any time. A server that implements the interface, with a
  schedule of failures, is the interpretation at the end.

  A sorted set is the list of its members with their scores, in Redis' order: by score,
  and between equal scores by the bytes of the member (here the decimal form of an id).
\<close>

section \<open>Commands\<close>

type_synonym zset = "(int \<times> int) list"

datatype score_bound = NegInf | PosInf | Incl int | ExclPosInf | ExclNegInf | Excl int

datatype feed_cmd =
    ZRevRank string int
  | ZScore string int
  | ZCard string
  | ZAdd string int int
  | ZAddNX string int int
  | ZRem string int
  | ZRange string int int
  | ZRangeWithScores string int int
  | ZRemRangeByRank string int int
  | ZRangeByScore string score_bound score_bound "(int \<times> int) option"
  | ZRevRangeByScore string score_bound score_bound "(int \<times> int) option"
  | ZRevRangeByScoreWithScores string score_bound score_bound "(int \<times> int) option"
  | SAdd string int
  | SRem string int
  | SMembers string
  | Del string

datatype freply = RNil | RInt int | RIds "int list" | RPairs zset

record feed_store =
  zs :: "string \<Rightarrow> zset"
  ss :: "string \<Rightarrow> int list"

section \<open>Documented behaviour\<close>

definition zord :: "int \<times> int \<Rightarrow> int \<times> string" where
  "zord e = (snd e, dec (fst e))"

definition zrem :: "int \<Rightarrow> zset \<Rightarrow> zset" where
  "zrem m z = filter (\<lambda>e. fst e \<noteq> m) z"

definition zadd :: "int \<Rightarrow> int \<Rightarrow> zset \<Rightarrow> zset" where
  "zadd s m z = insort_key zord (m, as_f64 s) (zrem m z)"

definition zscore :: "int \<Rightarrow> zset \<Rightarrow> int option" where
  "zscore m z = map_of z m"

definition zmem :: "zset \<Rightarrow> int set" where
  "zmem z = fst ` set z"

fun zrank :: "int \<Rightarrow> zset \<Rightarrow> nat option" where
  "zrank m [] = None"
| "zrank m (e # z) = (if fst e = m then Some 0 else map_option Suc (zrank m z))"

definition zrevrank :: "int \<Rightarrow> zset \<Rightarrow> nat option" where
  "zrevrank m z = zrank m (rev z)"

text \<open>Ranks may count from the end: \<open>-1\<close> is the last one.\<close>

definition in_ranks :: "nat \<Rightarrow> int \<Rightarrow> int \<Rightarrow> nat \<Rightarrow> bool" where
  "in_ranks n a b i \<longleftrightarrow>
     (let lo = (if a < 0 then int n + a else a); hi = (if b < 0 then int n + b else b)
      in lo \<le> int i \<and> int i \<le> hi)"

definition zrange :: "int \<Rightarrow> int \<Rightarrow> zset \<Rightarrow> zset" where
  "zrange a b z = map snd (filter (\<lambda>p. in_ranks (length z) a b (fst p)) (enumerate 0 z))"

definition zremrange :: "int \<Rightarrow> int \<Rightarrow> zset \<Rightarrow> zset" where
  "zremrange a b z = map snd (filter (\<lambda>p. \<not> in_ranks (length z) a b (fst p)) (enumerate 0 z))"

fun above :: "score_bound \<Rightarrow> int \<Rightarrow> bool" where
  "above NegInf s = True"
| "above ExclNegInf s = True"
| "above PosInf s = False"
| "above ExclPosInf s = False"
| "above (Incl x) s = (as_f64 x \<le> s)"
| "above (Excl x) s = (as_f64 x < s)"

fun below :: "score_bound \<Rightarrow> int \<Rightarrow> bool" where
  "below PosInf s = True"
| "below ExclPosInf s = True"
| "below NegInf s = False"
| "below ExclNegInf s = False"
| "below (Incl x) s = (s \<le> as_f64 x)"
| "below (Excl x) s = (s < as_f64 x)"

definition limited :: "(int \<times> int) option \<Rightarrow> 'a list \<Rightarrow> 'a list" where
  "limited l xs = (case l of None \<Rightarrow> xs
     | Some (off, n) \<Rightarrow> if off < 0 then []
         else if n < 0 then drop (nat off) xs else take (nat n) (drop (nat off) xs))"

definition zbyscore :: "score_bound \<Rightarrow> score_bound \<Rightarrow> zset \<Rightarrow> zset" where
  "zbyscore mn mx z = filter (\<lambda>e. above mn (snd e) \<and> below mx (snd e)) z"

definition set_zs :: "string \<Rightarrow> zset \<Rightarrow> feed_store \<Rightarrow> feed_store" where
  "set_zs k z s = s\<lparr>zs := (zs s)(k := z)\<rparr>"

definition set_ss :: "string \<Rightarrow> int list \<Rightarrow> feed_store \<Rightarrow> feed_store" where
  "set_ss k m s = s\<lparr>ss := (ss s)(k := m)\<rparr>"

fun feed_effect :: "feed_cmd \<Rightarrow> feed_store \<Rightarrow> feed_store" where
  "feed_effect (ZAdd k x m) s = set_zs k (zadd x m (zs s k)) s"
| "feed_effect (ZAddNX k x m) s =
     (if zscore m (zs s k) = None then set_zs k (zadd x m (zs s k)) s else s)"
| "feed_effect (ZRem k m) s = set_zs k (zrem m (zs s k)) s"
| "feed_effect (ZRemRangeByRank k a b) s = set_zs k (zremrange a b (zs s k)) s"
| "feed_effect (SAdd k m) s = set_ss k (if m \<in> set (ss s k) then ss s k else ss s k @ [m]) s"
| "feed_effect (SRem k m) s = set_ss k (filter (\<lambda>x. x \<noteq> m) (ss s k)) s"
| "feed_effect (Del k) s = set_zs k [] (set_ss k [] s)"
| "feed_effect _ s = s"

fun opt_int :: "int option \<Rightarrow> freply" where
  "opt_int None = RNil"
| "opt_int (Some i) = RInt i"

fun feed_reply :: "feed_cmd \<Rightarrow> feed_store \<Rightarrow> freply" where
  "feed_reply (ZRevRank k m) s = opt_int (map_option int (zrevrank m (zs s k)))"
| "feed_reply (ZScore k m) s = opt_int (zscore m (zs s k))"
| "feed_reply (ZCard k) s = RInt (int (length (zs s k)))"
| "feed_reply (ZAdd k x m) s = RInt (if zscore m (zs s k) = None then 1 else 0)"
| "feed_reply (ZAddNX k x m) s = RInt (if zscore m (zs s k) = None then 1 else 0)"
| "feed_reply (ZRem k m) s = RInt (if zscore m (zs s k) = None then 0 else 1)"
| "feed_reply (ZRange k a b) s = RIds (map fst (zrange a b (zs s k)))"
| "feed_reply (ZRangeWithScores k a b) s = RPairs (zrange a b (zs s k))"
| "feed_reply (ZRemRangeByRank k a b) s =
     RInt (int (length (zs s k)) - int (length (zremrange a b (zs s k))))"
| "feed_reply (ZRangeByScore k mn mx l) s = RIds (map fst (limited l (zbyscore mn mx (zs s k))))"
| "feed_reply (ZRevRangeByScore k mx mn l) s =
     RIds (map fst (limited l (rev (zbyscore mn mx (zs s k)))))"
| "feed_reply (ZRevRangeByScoreWithScores k mx mn l) s =
     RPairs (limited l (rev (zbyscore mn mx (zs s k))))"
| "feed_reply (SAdd k m) s = RInt (if m \<in> set (ss s k) then 0 else 1)"
| "feed_reply (SRem k m) s = RInt (if m \<in> set (ss s k) then 1 else 0)"
| "feed_reply (SMembers k) s = RIds (remdups (ss s k))"
| "feed_reply (Del k) s = RInt (if zs s k = [] \<and> ss s k = [] then 0 else 1)"

text \<open>The members of a set come back in no promised order.\<close>

fun reply_ok :: "feed_cmd \<Rightarrow> feed_store \<Rightarrow> freply \<Rightarrow> bool" where
  "reply_ok (SMembers k) s rp = (case rp of RIds xs \<Rightarrow> distinct xs \<and> set xs = set (ss s k) | _ \<Rightarrow> False)"
| "reply_ok c s rp = (rp = feed_reply c s)"

fun effects :: "feed_cmd list \<Rightarrow> feed_store \<Rightarrow> feed_store" where
  "effects [] s = s"
| "effects (c # cs) s = effects cs (feed_effect c s)"

fun replies_ok :: "feed_cmd list \<Rightarrow> feed_store \<Rightarrow> freply list \<Rightarrow> bool" where
  "replies_ok [] s rs = (rs = [])"
| "replies_ok (c # cs) s rs =
     (case rs of [] \<Rightarrow> False | rp # rs' \<Rightarrow> reply_ok c s rp \<and> replies_ok cs (feed_effect c s) rs')"

text \<open>What the view of a Redis is: each sorted set in order, its members distinct, its
  scores doubles; each set without repetitions.\<close>

definition zset_ok :: "zset \<Rightarrow> bool" where
  "zset_ok z \<longleftrightarrow> sorted (map zord z) \<and> distinct (map fst z) \<and> (\<forall>e \<in> set z. as_f64 (snd e) = snd e)"

definition store_ok :: "feed_store \<Rightarrow> bool" where
  "store_ok s \<longleftrightarrow> (\<forall>k. zset_ok (zs s k)) \<and> (\<forall>k. distinct (ss s k))"

section \<open>The interface\<close>

type_synonym 'r feed_exec = "feed_cmd list \<Rightarrow> ('r, freply list) io"

locale feed_redis =
  fixes exec :: "'r feed_exec" and view :: "'r \<Rightarrow> feed_store"
  assumes exec_ok: "exec cs r = (Inr rs, r') \<Longrightarrow>
      view r' = effects cs (view r) \<and> replies_ok cs (view r) rs"
    and exec_failed: "exec cs r = (Inl e, r') \<Longrightarrow>
      \<exists>n \<le> length cs. view r' = effects (take n cs) (view r)"
begin

text \<open>Whether anything the code sends can fail.\<close>

definition may_fail :: bool where
  "may_fail \<longleftrightarrow> (\<exists>cs r e r'. exec cs r = (Inl e, r'))"

lemma wp_exec:
  assumes "\<And>rs. replies_ok cs s rs \<Longrightarrow> Q rs (effects cs s)"
    and "\<And>n. may_fail \<Longrightarrow> n \<le> length cs \<Longrightarrow> E (effects (take n cs) s)"
  shows "wp view (exec cs) Q E s"
  unfolding wp_def
proof (intro allI impI)
  fix r assume v: "view r = s"
  show "case exec cs r of (Inl e, r') \<Rightarrow> E (view r') | (Inr v, r') \<Rightarrow> Q v (view r')"
  proof (cases "exec cs r")
    case (Pair res r')
    show ?thesis
    proof (cases res)
      case (Inl e)
      with Pair v obtain n where "n \<le> length cs" "view r' = effects (take n cs) s"
        using exec_failed by blast
      moreover have "may_fail" using Pair Inl unfolding may_fail_def by blast
      ultimately show ?thesis using Pair Inl assms(2) by simp
    next
      case (Inr rs)
      with Pair v exec_ok [of cs r rs r'] assms(1) show ?thesis by simp
    qed
  qed
qed

lemma wp_exec1:
  assumes "\<And>rp. reply_ok c s rp \<Longrightarrow> Q [rp] (feed_effect c s)" and "E s" and "E (feed_effect c s)"
  shows "wp view (exec [c]) Q E s"
proof (rule wp_exec)
  fix rs assume "replies_ok [c] s rs"
  then show "Q rs (effects [c] s)" using assms(1) by (auto split: list.splits)
next
  fix n assume "n \<le> length [c]"
  then have "n = 0 \<or> n = 1" by auto
  then show "E (effects (take n [c]) s)" using assms(2,3) by auto
qed

end

text \<open>A Redis that does not fail while the code talks to it.\<close>

locale reliable_feed_redis = feed_redis +
  assumes exec_Inr: "\<exists>rs. fst (exec cs r) = Inr rs"
begin

lemma not_may_fail [simp]: "\<not> may_fail"
proof
  assume may_fail
  then obtain cs r e r' where "exec cs r = (Inl e, r')" unfolding may_fail_def by blast
  with exec_Inr [of cs r] show False by simp
qed

lemma wp_no_error:
  assumes "wp view m Q E s" and "\<And>r. \<exists>v. fst (m r) = Inr v"
  shows "wp view m Q (\<lambda>_. False) s"
  using assms unfolding wp_def
  by (metis (mono_tags, lifting) case_prod_conv old.sum.simps(6) prod.collapse)

lemma wp_exec_reliable:
  assumes "\<And>rs. replies_ok cs s rs \<Longrightarrow> Q rs (effects cs s)"
  shows "wp view (exec cs) Q (\<lambda>_. False) s"
proof (rule wp_no_error)
  show "wp view (exec cs) Q (\<lambda>_. True) s" by (rule wp_exec) (auto intro: assms)
qed (rule exec_Inr)

end

section \<open>A server with the documented behaviour\<close>

text \<open>
  The server's state is the store and a schedule: what happens to the next pipelines, a
  number for one whose connection breaks after that many of its commands.
\<close>

type_synonym feed_server = "feed_store \<times> nat option list"

fun server_replies :: "feed_cmd list \<Rightarrow> feed_store \<Rightarrow> freply list" where
  "server_replies [] s = []"
| "server_replies (c # cs) s = feed_reply c s # server_replies cs (feed_effect c s)"

fun server_exec :: "feed_server feed_exec" where
  "server_exec cs (s, []) = (Inr (server_replies cs s), (effects cs s, []))"
| "server_exec cs (s, None # faults) = (Inr (server_replies cs s), (effects cs s, faults))"
| "server_exec cs (s, Some n # faults) = (Inl RedisError, (effects (take n cs) s, faults))"

definition empty_store :: feed_store where
  "empty_store = \<lparr>zs = (\<lambda>_. []), ss = (\<lambda>_. [])\<rparr>"

lemma server_replies_ok: "replies_ok cs s (server_replies cs s)"
proof (induction cs arbitrary: s)
  case (Cons c cs)
  then show ?case by (cases c) auto
qed simp

lemma server_exec_cases:
  "(\<exists>rs. fst (server_exec cs r) = Inr rs \<and> replies_ok cs (fst r) rs \<and>
     fst (snd (server_exec cs r)) = effects cs (fst r)) \<or>
   (\<exists>e n. fst (server_exec cs r) = Inl e \<and>
     fst (snd (server_exec cs r)) = effects (take n cs) (fst r))"
  by (cases "(cs, r)" rule: server_exec.cases) (auto simp: server_replies_ok)

lemma effects_take_min: "effects (take n cs) s = effects (take (min n (length cs)) cs) s"
  by (simp add: min_def)

interpretation server: feed_redis server_exec fst
proof
  fix cs r rs r'
  assume "server_exec cs r = (Inr rs, r')"
  then show "fst r' = effects cs (fst r) \<and> replies_ok cs (fst r) rs"
    using server_exec_cases [of cs r] by auto
next
  fix cs r e r'
  assume "server_exec cs r = (Inl e, r')"
  then obtain n where "fst r' = effects (take n cs) (fst r)"
    using server_exec_cases [of cs r] by auto
  then show "\<exists>n\<le>length cs. fst r' = effects (take n cs) (fst r)"
    using effects_take_min [of n cs "fst r"] by (metis min.cobounded2)
qed

text \<open>The same server, never failing.\<close>

definition steady_exec :: "feed_store feed_exec" where
  "steady_exec cs s = (Inr (server_replies cs s), effects cs s)"

interpretation steady: reliable_feed_redis steady_exec "\<lambda>s. s"
  by unfold_locales (auto simp: steady_exec_def server_replies_ok)

section \<open>Sorted sets\<close>

lemma zord_inj [simp]: "zord a = zord b \<longleftrightarrow> a = b"
  by (cases a; cases b) (auto simp: zord_def)

lemma set_zrem: "set (zrem m z) = {e \<in> set z. fst e \<noteq> m}"
  by (auto simp: zrem_def)

lemma set_zadd: "set (zadd s m z) = insert (m, as_f64 s) {e \<in> set z. fst e \<noteq> m}"
  by (simp add: zadd_def set_insort_key set_zrem)

lemma zmem_zrem [simp]: "zmem (zrem m z) = zmem z - {m}"
  by (auto simp: zmem_def set_zrem)

lemma zmem_zadd [simp]: "zmem (zadd s m z) = insert m (zmem z)"
  by (auto simp: zmem_def set_zadd image_iff)

lemma zmem_Nil [simp]: "zmem [] = {}"
  by (simp add: zmem_def)

lemma zscore_None [simp]: "zscore m z = None \<longleftrightarrow> m \<notin> zmem z"
  by (simp add: zscore_def zmem_def map_of_eq_None_iff)

lemma zscore_None' [simp]: "None = zscore m z \<longleftrightarrow> m \<notin> zmem z"
  by (metis zscore_None)

lemma zscore_Some: "zset_ok z \<Longrightarrow> zscore m z = Some s \<longleftrightarrow> (m, s) \<in> set z"
  by (simp add: zscore_def zset_ok_def)

lemma zscore_SomeD: "zscore m z = Some s \<Longrightarrow> (m, s) \<in> set z"
  by (simp add: zscore_def map_of_SomeD)

lemma zset_ok_Nil [simp]: "zset_ok []"
  by (simp add: zset_ok_def)

lemma distinct_map_fst_insort:
  "distinct (map fst (insort_key f e z)) \<longleftrightarrow> fst e \<notin> fst ` set z \<and> distinct (map fst z)"
  by (induction z) (auto simp: set_insort_key)

lemma zset_ok_zrem [simp, intro]: "zset_ok z \<Longrightarrow> zset_ok (zrem m z)"
  by (auto simp: zset_ok_def zrem_def sorted_filter distinct_map_filter)

lemma zset_ok_zadd [simp, intro]: "zset_ok z \<Longrightarrow> zset_ok (zadd s m z)"
  unfolding zset_ok_def zadd_def
  by (auto simp: sorted_insort_key sorted_filter distinct_map_fst_insort set_insort_key zrem_def
      distinct_map_filter)

lemma zset_ok_drop [simp, intro]: "zset_ok z \<Longrightarrow> zset_ok (drop n z)"
  by (auto simp: zset_ok_def sorted_wrt_drop distinct_drop drop_map [symmetric]
      dest: in_set_dropD)

lemma filter_enumerate_ge:
  "map snd (filter (\<lambda>p. n \<le> fst p) (enumerate a xs)) = drop (n - a) xs"
proof (induction xs arbitrary: a)
  case (Cons x xs)
  show ?case
  proof (cases "n \<le> a")
    case True
    then have "filter (\<lambda>p. n \<le> fst p) (enumerate (Suc a) xs) = enumerate (Suc a) xs"
      by (intro filter_True) (auto simp: in_set_enumerate_eq)
    with True show ?thesis by simp
  next
    case False
    with Cons [of "Suc a"] show ?thesis by (simp add: Suc_diff_le not_le drop_Cons' )
  qed
qed simp

lemma zremrange_newest:
  assumes "0 < n"
  shows "zremrange 0 (- (int n + 1)) z = drop (length z - n) z"
proof -
  have "in_ranks (length z) 0 (- (int n + 1)) i = (\<not> (length z - n \<le> i))" for i
    by (auto simp: in_ranks_def)
  then show ?thesis
    using filter_enumerate_ge [of "length z - n" 0 z] by (simp add: zremrange_def)
qed

lemma zrange_all [simp]: "zrange 0 (- 1) z = z"
proof -
  have "filter (\<lambda>p. in_ranks (length z) 0 (- 1) (fst p)) (enumerate 0 z) = enumerate 0 z"
    by (intro filter_True) (auto simp: in_set_enumerate_eq in_ranks_def)
  then show ?thesis by (simp add: zrange_def)
qed

lemma zrange_first: "zrange 0 0 z = take 1 z"
proof (cases z)
  case (Cons e es)
  have "filter (\<lambda>p. in_ranks (length z) 0 0 (fst p)) (enumerate (Suc 0) es) = []"
    by (auto simp: filter_empty_conv in_set_enumerate_eq in_ranks_def)
  with Cons show ?thesis by (simp add: zrange_def in_ranks_def)
qed (simp add: zrange_def)

lemma zrank_None [simp]: "zrank m z = None \<longleftrightarrow> m \<notin> zmem z"
  by (induction z) (auto simp: zmem_def)

lemma zrank_SomeD: "zrank m z = Some i \<Longrightarrow> i < length z \<and> fst (z ! i) = m"
  by (induction z arbitrary: i) (auto split: if_splits)

lemma zrank_nth: "distinct (map fst z) \<Longrightarrow> i < length z \<Longrightarrow> zrank (fst (z ! i)) z = Some i"
proof (induction z arbitrary: i)
  case (Cons e z)
  then show ?case by (cases i) (auto simp: nth_mem image_iff)
qed simp

lemma zrevrank_None [simp]: "zrevrank m z = None \<longleftrightarrow> m \<notin> zmem z"
  by (simp add: zrevrank_def) (simp add: zmem_def)

lemma store_okD: "store_ok s \<Longrightarrow> zset_ok (zs s k)" "store_ok s \<Longrightarrow> distinct (ss s k)"
  by (simp_all add: store_ok_def)

lemma zs_set_zs [simp]: "zs (set_zs k z s) = (zs s)(k := z)" "ss (set_zs k z s) = ss s"
  by (simp_all add: set_zs_def)

lemma ss_set_ss [simp]: "ss (set_ss k m s) = (ss s)(k := m)" "zs (set_ss k m s) = zs s"
  by (simp_all add: set_ss_def)

lemma store_ok_set_zs [intro]: "store_ok s \<Longrightarrow> zset_ok z \<Longrightarrow> store_ok (set_zs k z s)"
  by (simp add: store_ok_def)

lemma store_ok_set_ss [intro]: "store_ok s \<Longrightarrow> distinct m \<Longrightarrow> store_ok (set_ss k m s)"
  by (simp add: store_ok_def)

lemma store_ok_empty: "store_ok empty_store"
  by (simp add: store_ok_def empty_store_def)

text \<open>Every command keeps the view well formed, and touches no key but its own.\<close>

lemma zset_ok_zremrange [intro]:
  assumes "zset_ok z"
  shows "zset_ok (zremrange a b z)"
proof -
  have "map snd (filter P (enumerate n z)) \<in> set (subseqs z)" for P n
  proof (induction z arbitrary: n)
    case (Cons e z)
    then show ?case by (auto simp: Let_def)
  qed simp
  then have sub: "zremrange a b z \<in> set (subseqs z)" by (simp add: zremrange_def)
  have "zset_ok y" if "y \<in> set (subseqs z)" for y
    using assms that
  proof (induction z arbitrary: y)
    case (Cons e z)
    have ok: "zset_ok z" using Cons.prems(1) by (auto simp: zset_ok_def)
    have sub: "set x \<subseteq> set z" if "x \<in> set (subseqs z)" for x
      using that by (metis PowD imageI subseqs_powset)
    from Cons.prems(2) consider "y \<in> set (subseqs z)"
      | x where "x \<in> set (subseqs z)" "y = e # x" by (auto simp: Let_def)
    then show ?case
    proof cases
      case 1
      then show ?thesis using Cons.IH ok by blast
    next
      case (2 x)
      then have "zset_ok x" "set x \<subseteq> set z" using Cons.IH ok sub by blast+
      then show ?thesis using Cons.prems(1) 2 by (auto simp: zset_ok_def)
    qed
  qed simp
  then show ?thesis using sub by blast
qed

lemma store_ok_effect: "store_ok s \<Longrightarrow> store_ok (feed_effect c s)"
  by (cases c) (auto intro!: store_ok_set_zs store_ok_set_ss simp: store_okD)

lemma store_ok_effects: "store_ok s \<Longrightarrow> store_ok (effects cs s)"
  by (induction cs arbitrary: s) (auto simp: store_ok_effect)

fun cmd_key :: "feed_cmd \<Rightarrow> string" where
  "cmd_key (ZRevRank k _) = k"
| "cmd_key (ZScore k _) = k"
| "cmd_key (ZCard k) = k"
| "cmd_key (ZAdd k _ _) = k"
| "cmd_key (ZAddNX k _ _) = k"
| "cmd_key (ZRem k _) = k"
| "cmd_key (ZRange k _ _) = k"
| "cmd_key (ZRangeWithScores k _ _) = k"
| "cmd_key (ZRemRangeByRank k _ _) = k"
| "cmd_key (ZRangeByScore k _ _ _) = k"
| "cmd_key (ZRevRangeByScore k _ _ _) = k"
| "cmd_key (ZRevRangeByScoreWithScores k _ _ _) = k"
| "cmd_key (SAdd k _) = k"
| "cmd_key (SRem k _) = k"
| "cmd_key (SMembers k) = k"
| "cmd_key (Del k) = k"

definition same_at :: "string \<Rightarrow> feed_store \<Rightarrow> feed_store \<Rightarrow> bool" where
  "same_at k s s' \<longleftrightarrow> zs s k = zs s' k \<and> ss s k = ss s' k"

lemma same_at_refl [simp]: "same_at k s s"
  by (simp add: same_at_def)

lemma same_at_trans: "same_at k a b \<Longrightarrow> same_at k b c \<Longrightarrow> same_at k a c"
  by (simp add: same_at_def)

lemma effect_frame: "k \<noteq> cmd_key c \<Longrightarrow> same_at k s (feed_effect c s)"
  by (cases c) (auto simp: same_at_def)

lemma effects_frame: "k \<notin> cmd_key ` set cs \<Longrightarrow> same_at k s (effects cs s)"
  by (induction cs arbitrary: s) (auto intro: same_at_trans effect_frame)

end
