(* ===== verification/FeedCore.thy ===== *)
theory FeedCore
  imports FeedRedis
begin

text \<open>
  The feed itself, \<^verbatim>\<open>src/feed.rs\<close>: adding, removing, trimming, reading and cleaning one
  timeline in Redis. Each operation is written as the code writes it, as pipelines sent to
  \<open>redis\<close> with an early return on every \<^verbatim>\<open>?\<close>. Inside \<open>feed_redis\<close> the lemmas
  \<open>confined_...\<close> show that an operation touches no key outside its timeline, even when
  Redis fails half way.
\<close>

section \<open>Operations\<close>

definition FEED_MAX_ITEMS :: int where
  "FEED_MAX_ITEMS = 800"

definition REBLOG_FALLOFF :: int where
  "REBLOG_FALLOFF = 80"

definition io_fail :: "('r, 'a) io" where
  "io_fail r = (Inl RedisError, r)"

text \<open>Replies parsed as the type the code asks for; anything else is an error.\<close>

definition q_opt_int :: "'r feed_exec \<Rightarrow> feed_cmd \<Rightarrow> ('r, int option) io" where
  "q_opt_int redis c = io_bind (redis [c])
     (\<lambda>rs. case rs of [RNil] \<Rightarrow> io_return None | [RInt i] \<Rightarrow> io_return (Some i) | _ \<Rightarrow> io_fail)"

definition q_int :: "'r feed_exec \<Rightarrow> feed_cmd \<Rightarrow> ('r, int) io" where
  "q_int redis c = io_bind (redis [c])
     (\<lambda>rs. case rs of [RInt i] \<Rightarrow> io_return i | _ \<Rightarrow> io_fail)"

definition q_ids :: "'r feed_exec \<Rightarrow> feed_cmd \<Rightarrow> ('r, int list) io" where
  "q_ids redis c = io_bind (redis [c])
     (\<lambda>rs. case rs of [RIds xs] \<Rightarrow> io_return xs | _ \<Rightarrow> io_fail)"

definition q_pairs :: "'r feed_exec \<Rightarrow> feed_cmd \<Rightarrow> ('r, zset) io" where
  "q_pairs redis c = io_bind (redis [c])
     (\<lambda>rs. case rs of [RPairs xs] \<Rightarrow> io_return xs | _ \<Rightarrow> io_fail)"

definition q_unit :: "'r feed_exec \<Rightarrow> feed_cmd list \<Rightarrow> ('r, unit) io" where
  "q_unit redis cs = io_bind (redis cs) (\<lambda>_. io_return ())"

text \<open>The answer of a pipeline that ignores all replies but the last.\<close>

definition q_last_int :: "'r feed_exec \<Rightarrow> feed_cmd list \<Rightarrow> ('r, int) io" where
  "q_last_int redis cs = io_bind (redis cs)
     (\<lambda>rs. if rs = [] then io_fail else case last rs of RInt i \<Rightarrow> io_return i | _ \<Rightarrow> io_fail)"

definition add_to_feed ::
  "'r feed_exec \<Rightarrow> timeline \<Rightarrow> int \<Rightarrow> int option \<Rightarrow> bool \<Rightarrow> ('r, bool) io" where
  "add_to_feed redis timeline status_id reblog_of_id aggregate =
     (case (if aggregate then reblog_of_id else None) of
        Some reblog_of_id \<Rightarrow>
          io_bind (q_opt_int redis (ZRevRank (tl_key timeline) reblog_of_id)) (\<lambda>rank.
          if (case rank of Some rank \<Rightarrow> rank < REBLOG_FALLOFF | None \<Rightarrow> False) then io_return False
          else
            io_bind (q_int redis (ZAddNX (tl_reblogs timeline) (as_f64 status_id) reblog_of_id))
              (\<lambda>tracked.
            if tracked = 1 then
              io_bind (q_unit redis [ZAdd (tl_key timeline) (as_f64 status_id) status_id])
                (\<lambda>_. io_return True)
            else
              io_bind (q_unit redis [SAdd (reblog_set timeline reblog_of_id) status_id])
                (\<lambda>_. io_return False)))
      | None \<Rightarrow>
          io_bind (q_opt_int redis (ZScore (tl_reblogs timeline) status_id)) (\<lambda>boosted.
          if boosted \<noteq> None then io_return False
          else
            io_bind (q_unit redis [ZAdd (tl_key timeline) (as_f64 status_id) status_id])
              (\<lambda>_. io_return True)))"

text \<open>\<^verbatim>\<open>Iterator::min\<close>.\<close>

definition iter_min :: "int list \<Rightarrow> int option" where
  "iter_min xs = (case xs of [] \<Rightarrow> None | x # xs \<Rightarrow> Some (fold min xs x))"

definition remove_from_feed ::
  "'r feed_exec \<Rightarrow> timeline \<Rightarrow> int \<Rightarrow> int option \<Rightarrow> bool \<Rightarrow> ('r, bool) io" where
  "remove_from_feed redis timeline status_id reblog_of_id aggregate =
     (case (if aggregate then reblog_of_id else None) of
        Some reblog_of_id \<Rightarrow>
          io_bind (q_opt_int redis (ZRevRank (tl_key timeline) status_id)) (\<lambda>rank.
          if rank = None then io_return False
          else
            let set = reblog_set timeline reblog_of_id in
            io_bind (io_bind (redis [SRem set status_id, ZRem (tl_reblogs timeline) reblog_of_id,
                SMembers set])
              (\<lambda>rs. case rs of [_, _, RIds others] \<Rightarrow> io_return others | _ \<Rightarrow> io_fail)) (\<lambda>others.
            let pipe = (case iter_min others of
                None \<Rightarrow> []
              | Some other \<Rightarrow>
                  [ZAdd (tl_key timeline) (as_f64 other) other,
                   ZAdd (tl_reblogs timeline) (as_f64 other) reblog_of_id]) in
            io_bind (q_last_int redis (pipe @ [ZRem (tl_key timeline) status_id]))
              (\<lambda>removed. io_return (removed > 0))))
      | None \<Rightarrow>
          io_bind (q_last_int redis
              [Del (reblog_set timeline status_id), ZRem (tl_reblogs timeline) status_id,
               ZRem (tl_key timeline) status_id])
            (\<lambda>removed. io_return (removed > 0)))"

definition trim :: "'r feed_exec \<Rightarrow> timeline \<Rightarrow> ('r, unit) io" where
  "trim redis timeline =
     io_bind (io_bind (redis [ZRemRangeByRank (tl_key timeline) 0 (- (FEED_MAX_ITEMS + 1)),
         ZRevRangeByScoreWithScores (tl_key timeline) PosInf NegInf (Some (REBLOG_FALLOFF, 1))])
       (\<lambda>rs. case rs of [_, RPairs falloff] \<Rightarrow> io_return falloff | _ \<Rightarrow> io_fail)) (\<lambda>falloff.
     case falloff of
       [] \<Rightarrow> io_return ()
     | (_, falloff_score) # _ \<Rightarrow>
         io_bind (q_ids redis
             (ZRangeByScore (tl_reblogs timeline) (Incl 0) (Incl falloff_score) None)) (\<lambda>stale.
         if stale = [] then io_return ()
         else q_unit redis (concat (map (\<lambda>reblog_of_id.
             [ZRem (tl_reblogs timeline) reblog_of_id, Del (reblog_set timeline reblog_of_id)])
             stale))))"

definition push ::
  "'r feed_exec \<Rightarrow> timeline \<Rightarrow> int \<Rightarrow> int option \<Rightarrow> bool \<Rightarrow> ('r, bool) io" where
  "push redis timeline status_id reblog_of_id aggregate =
     io_or (io_bind (add_to_feed redis timeline status_id reblog_of_id aggregate) (\<lambda>added.
       io_bind (if added then trim redis timeline else io_return ()) (\<lambda>_. io_return added)))
     False"

definition timeline_size :: "'r feed_exec \<Rightarrow> timeline \<Rightarrow> ('r, int) io" where
  "timeline_size redis timeline = io_or (q_int redis (ZCard (tl_key timeline))) 0"

text \<open>\<^verbatim>\<open>f64 as i64\<close> saturates.\<close>

definition f64_as_i64 :: "int \<Rightarrow> int" where
  "f64_as_i64 s = max (- (2 ^ 63)) (min (2 ^ 63 - 1) s)"

definition oldest_score :: "'r feed_exec \<Rightarrow> timeline \<Rightarrow> ('r, int option) io" where
  "oldest_score redis timeline =
     io_bind (io_or (q_pairs redis (ZRangeWithScores (tl_key timeline) 0 0)) [])
       (\<lambda>oldest. io_return (case oldest of [] \<Rightarrow> None | (_, score) # _ \<Rightarrow> Some (f64_as_i64 score)))"

text \<open>Two's complement of 64 bits: what a left shift keeps.\<close>

definition wrap_i64 :: "int \<Rightarrow> int" where
  "wrap_i64 i = (i + 2 ^ 63) mod 2 ^ 64 - 2 ^ 63"

definition id_at :: "int option \<Rightarrow> int" where
  "id_at timestamp = wrap_i64 (((case timestamp of None \<Rightarrow> 0 | Some t \<Rightarrow> t) * 1000) * 2 ^ 16)"

definition get ::
  "'r feed_exec \<Rightarrow> string \<Rightarrow> int option \<Rightarrow> int option \<Rightarrow> int option \<Rightarrow> int \<Rightarrow> ('r, int list) io" where
  "get redis key max_id since_id min_id limit =
     (let max = (case max_id of None \<Rightarrow> ExclPosInf | Some i \<Rightarrow> Excl i) in
      io_or (case min_id of
          Some min_id \<Rightarrow> q_ids redis (ZRangeByScore key (Excl min_id) max (Some (0, limit)))
        | None \<Rightarrow>
            let since = (case since_id of None \<Rightarrow> ExclNegInf | Some i \<Rightarrow> Excl i) in
            q_ids redis (ZRevRangeByScore key max since (Some (0, limit))))
        [])"

definition feed_get where
  "feed_get redis keys account_id max_id since_id min_id limit =
     get redis (feed_key keys account_id) max_id since_id min_id limit"

definition list_feed_get where
  "list_feed_get redis keys list_id max_id since_id min_id limit =
     get redis (list_feed_key keys list_id) max_id since_id min_id limit"

definition home_holds :: "'r feed_exec \<Rightarrow> keyspace \<Rightarrow> int \<Rightarrow> int \<Rightarrow> ('r, bool) io" where
  "home_holds redis keys account_id status_id =
     io_bind (io_or (q_opt_int redis (ZScore (feed_key keys account_id) status_id)) None)
       (\<lambda>score. io_return (score \<noteq> None))"

definition list_holds :: "'r feed_exec \<Rightarrow> keyspace \<Rightarrow> int \<Rightarrow> int \<Rightarrow> ('r, bool) io" where
  "list_holds redis keys list_id status_id =
     io_bind (io_or (q_opt_int redis (ZScore (list_feed_key keys list_id) status_id)) None)
       (\<lambda>score. io_return (score \<noteq> None))"

definition clean_feed :: "'r feed_exec \<Rightarrow> timeline \<Rightarrow> ('r, unit) io" where
  "clean_feed redis timeline =
     io_bind (io_or (q_ids redis (ZRange (tl_reblogs timeline) 0 (- 1))) []) (\<lambda>tracked.
     io_or (q_unit redis ([Del (tl_key timeline), Del (tl_reblogs timeline)] @
         map (\<lambda>boosted. Del (reblog_set timeline boosted)) tracked)) ())"

definition delete_home_feed where
  "delete_home_feed redis keys account_id = clean_feed redis (timeline_home keys account_id)"

definition delete_list_feed where
  "delete_list_feed redis keys list_id = clean_feed redis (timeline_list keys list_id)"

section \<open>Commands confined to a timeline\<close>

lemma iter_min_Min: "xs \<noteq> [] \<Longrightarrow> iter_min xs = Some (Min (set xs))"
  by (cases xs) (simp_all add: iter_min_def flip: Min.set_eq_fold)

lemma iter_min_Nil [simp]: "iter_min [] = None"
  by (simp add: iter_min_def)

lemma iter_min_None [simp]: "iter_min xs = None \<longleftrightarrow> xs = []"
  by (simp add: iter_min_def split: list.splits)

lemma zadd_f64 [simp]: "zadd (as_f64 s) m z = zadd s m z"
  by (simp add: zadd_def)

lemma limited_first: "limited (Some (80, 1)) xs = (if length xs \<le> 80 then [] else [xs ! 80])"
  by (auto simp: limited_def hd_drop_conv_nth take_Suc)

lemma filter_all_scores [simp]: "zbyscore NegInf PosInf z = z"
  by (simp add: zbyscore_def)

definition frame :: "string set \<Rightarrow> feed_store \<Rightarrow> feed_store \<Rightarrow> bool" where
  "frame K s s' \<longleftrightarrow> (\<forall>k. k \<notin> K \<longrightarrow> same_at k s s')"

lemma frame_refl [simp]: "frame K s s"
  by (simp add: frame_def)

lemma frame_trans: "frame K a b \<Longrightarrow> frame K b c \<Longrightarrow> frame K a c"
  by (auto simp: frame_def intro: same_at_trans)

lemma frame_effects: "cmd_key ` set cs \<subseteq> K \<Longrightarrow> frame K s (effects cs s)"
  by (auto simp: frame_def intro!: effects_frame)

lemma frame_effects_take: "cmd_key ` set cs \<subseteq> K \<Longrightarrow> frame K s (effects (take n cs) s)"
  by (rule frame_effects) (auto dest: in_set_takeD)

context feed_redis
begin

text \<open>An operation whose commands all have keys in \<open>K\<close> changes nothing else, whenever it
  stops, and keeps the view well formed.\<close>

definition confined :: "string set \<Rightarrow> ('r, 'a) io \<Rightarrow> bool" where
  "confined K m \<longleftrightarrow> (\<forall>s. store_ok s \<longrightarrow>
     wp view m (\<lambda>_ s'. store_ok s' \<and> frame K s s') (\<lambda>s'. store_ok s' \<and> frame K s s') s)"

lemma confinedE:
  assumes "confined K m" and "store_ok s"
    and "\<And>v s'. store_ok s' \<and> frame K s s' \<Longrightarrow> Q v s'"
    and "\<And>s'. store_ok s' \<and> frame K s s' \<Longrightarrow> E s'"
  shows "wp view m Q E s"
  using assms(1,2) unfolding confined_def by (blast intro: wp_conseq assms(3,4))

lemma confined_return [simp, confined_rules]: "confined K (io_return v)"
  by (simp add: confined_def wp_return)

lemma confined_fail [simp, confined_rules]: "confined K io_fail"
  by (simp add: confined_def wp_def io_fail_def)

lemma confined_bind [confined_rules]:
  assumes "confined K m" and "\<And>v. confined K (k v)"
  shows "confined K (io_bind m k)"
  unfolding confined_def
proof (intro allI impI wp_bind)
  fix s assume s: "store_ok s"
  from assms(1) s show "wp view m (\<lambda>v. wp view (k v) (\<lambda>_ s'. store_ok s' \<and> frame K s s')
      (\<lambda>s'. store_ok s' \<and> frame K s s')) (\<lambda>s'. store_ok s' \<and> frame K s s') s"
  proof (rule confinedE)
    fix v s' assume s': "store_ok s' \<and> frame K s s'"
    with assms(2) [of v] show "wp view (k v) (\<lambda>_ s'. store_ok s' \<and> frame K s s')
        (\<lambda>s'. store_ok s' \<and> frame K s s') s'"
      by (auto elim!: confinedE intro: frame_trans)
  qed simp
qed

lemma confined_or [confined_rules]: "confined K m \<Longrightarrow> confined K (io_or m d)"
  unfolding confined_def by (blast intro: wp_or wp_conseq)

lemma confined_exec [confined_rules]: "cmd_key ` set cs \<subseteq> K \<Longrightarrow> confined K (exec cs)"
  unfolding confined_def
  by (auto intro!: wp_exec frame_effects frame_effects_take store_ok_effects)

lemma confined_for [confined_rules]: "(\<And>x. x \<in> set xs \<Longrightarrow> confined K (f x)) \<Longrightarrow> confined K (io_for xs f)"
  by (induction xs) (auto intro: confined_bind)

lemma confined_if [confined_rules]:
  "(b \<Longrightarrow> confined K m) \<Longrightarrow> (\<not> b \<Longrightarrow> confined K m') \<Longrightarrow> confined K (if b then m else m')"
  by simp

lemma confined_case [confined_rules]:
  "(x = None \<Longrightarrow> confined K m) \<Longrightarrow> (\<And>y. x = Some y \<Longrightarrow> confined K (f y)) \<Longrightarrow>
   confined K (case x of None \<Rightarrow> m | Some y \<Rightarrow> f y)"
  "(l = [] \<Longrightarrow> confined K m) \<Longrightarrow> (\<And>u us. l = u # us \<Longrightarrow> confined K (g u us)) \<Longrightarrow>
   confined K (case l of [] \<Rightarrow> m | u # us \<Rightarrow> g u us)"
  "(\<And>a b. p = (a, b) \<Longrightarrow> confined K (h a b)) \<Longrightarrow> confined K (case p of (a, b) \<Rightarrow> h a b)"
  by (simp_all split: option.split list.split prod.split)

lemma confined_query [confined_rules]:
  assumes "cmd_key c \<in> K"
  shows "confined K (q_opt_int exec c)" "confined K (q_int exec c)"
    "confined K (q_ids exec c)" "confined K (q_pairs exec c)"
  unfolding q_opt_int_def q_int_def q_ids_def q_pairs_def
  by (intro confined_bind confined_exec;
      use assms in \<open>simp split: list.split freply.split\<close>)+

lemma confined_pipe [confined_rules]:
  assumes "cmd_key ` set cs \<subseteq> K"
  shows "confined K (q_unit exec cs)" "confined K (q_last_int exec cs)"
  unfolding q_unit_def q_last_int_def
  by (intro confined_bind confined_exec;
      use assms in \<open>simp split: list.split freply.split\<close>)+

lemma confined_add: "confined (tl_keys t) (add_to_feed exec t i rb agg)"
  unfolding add_to_feed_def by (intro confined_rules) simp_all

lemma confined_remove: "confined (tl_keys t) (remove_from_feed exec t i rb agg)"
  unfolding remove_from_feed_def Let_def
  by (intro confined_rules) (auto split: list.splits freply.split option.splits)

lemma confined_trim: "confined (tl_keys t) (trim exec t)"
  unfolding trim_def
  by (intro confined_rules) (auto split: list.split freply.split)

lemma confined_push: "confined (tl_keys t) (push exec t i rb agg)"
  unfolding push_def by (intro confined_rules confined_add confined_trim)

lemma confined_clean: "confined (tl_keys t) (clean_feed exec t)"
  unfolding clean_feed_def by (intro confined_rules) auto

lemma confined_reads:
  "confined (tl_keys t) (timeline_size exec t)" "confined (tl_keys t) (oldest_score exec t)"
  unfolding timeline_size_def oldest_score_def by (intro confined_rules; simp)+

lemma confinedD:
  assumes "confined K m" and "store_ok (view r)" and "m r = (res, r')"
  shows "store_ok (view r') \<and> frame K (view r) (view r')"
proof -
  have "wp view m (\<lambda>_ s'. store_ok s' \<and> frame K (view r) s')
      (\<lambda>s'. store_ok s' \<and> frame K (view r) s') (view r)"
    using assms(1,2) by (rule confinedE)
  from wpD [OF this] assms(3) show ?thesis by (cases res) auto
qed

end

end
