(* ===== verification/FeedFanout.thy ===== *)
theory FeedFanout
  imports FeedFilter FeedCore
begin

text \<open>
  The fan-out of \<^verbatim>\<open>src/feed.rs\<close>: which home and list feeds a status is delivered to,
  which it is taken out of, and who is notified. What is read from the database is a value of
  the model; the Redis effects go through the parameter \<open>redis\<close>. A set iterated in the code
  (\<^verbatim>\<open>HashSet\<close>) is a list without repetitions here: it only feeds \<^verbatim>\<open>= ANY($1)\<close>.
\<close>

section \<open>What is distributed\<close>

record distributed =
  d_status :: candidate
  d_visibility :: int
  d_author_domain :: "string option"
  d_author_silenced :: bool

definition broadcastable :: "distributed \<Rightarrow> bool" where
  "broadcastable d \<longleftrightarrow> d_visibility d = VIS_PUBLIC \<and> c_reblog_of (d_status d) = None \<and>
     \<not> d_author_silenced d"

definition distributed_rows ::
  "database \<Rightarrow> int \<Rightarrow> (status_row \<times> account_row \<times> (status_row \<times> account_row option) option) list" where
  "distributed_rows db i = [(s, a, r). s \<leftarrow> statuses db, a \<leftarrow> accounts db,
     ac_id a = st_account s \<and> st_id s = i \<and> \<not> st_deleted s, r \<leftarrow> joined_reblog db s]"

definition load_distributed :: "database \<Rightarrow> int \<Rightarrow> distributed option" where
  "load_distributed db i = (case fetch_or_default db QDistributed (distributed_rows db i) of
      [] \<Rightarrow> None
    | (s, a, r) # _ \<Rightarrow>
        (let proper_suspended = (case r of
             Some (_, ra) \<Rightarrow> (case ra of None \<Rightarrow> False | Some ra \<Rightarrow> ac_suspended ra)
           | None \<Rightarrow> ac_suspended a) in
         if proper_suspended then None
         else Some \<lparr>d_status = candidate_of s r, d_visibility = st_visibility s,
           d_author_domain = ac_domain a, d_author_silenced = ac_silenced a\<rparr>))"

section \<open>Who receives it\<close>

definition mentioned_followers :: "database \<Rightarrow> int \<Rightarrow> int \<Rightarrow> int list" where
  "mentioned_followers db status_id author = fetch_or_default db QMentionedFollowers (select_distinct
     [us_account u. m \<leftarrow> mentions db, f \<leftarrow> follows db, u \<leftarrow> users db,
        fo_account f = me_account m \<and> fo_target f = author \<and> us_account u = me_account m \<and>
        me_status m = status_id \<and> active_user db u])"

definition followers_for_local_distribution :: "database \<Rightarrow> int \<Rightarrow> int list" where
  "followers_for_local_distribution db account_id = fetch_or_default db QFollowers
     [us_account u. u \<leftarrow> users db, f \<leftarrow> follows db,
        fo_account f = us_account u \<and> fo_target f = account_id \<and> active_user db u]"

definition tag_followers :: "database \<Rightarrow> int \<Rightarrow> int list" where
  "tag_followers db status_id = fetch_or_default db QTagFollowers (select_distinct
     [fst tf. tf \<leftarrow> tag_follows db, t \<leftarrow> statuses_tags db, u \<leftarrow> users db,
        snd t = snd tf \<and> us_account u = fst tf \<and> fst t = status_id \<and> active_user db u])"

definition lists_for_local_distribution :: "database \<Rightarrow> int \<Rightarrow> (int \<times> int \<times> int) list" where
  "lists_for_local_distribution db author_id = fetch_or_default db QLists (select_distinct
     [(li_id l, li_account l, li_replies_policy l). l \<leftarrow> lists db, la \<leftarrow> list_accounts db,
        u \<leftarrow> users db, la_list la = li_id l \<and> us_account u = li_account l \<and>
        la_account la = author_id \<and> (la_follow la \<noteq> None \<or> li_account l = author_id) \<and>
        active_user db u])"

definition list_ids_for_local_distribution :: "database \<Rightarrow> int \<Rightarrow> int list" where
  "list_ids_for_local_distribution db account_id =
     map (\<lambda>(i, _, _). i) (lists_for_local_distribution db account_id)"

definition recipients :: "database \<Rightarrow> int \<Rightarrow> int list" where
  "recipients db author_id = fetch_or_default db QRecipients
     [us_account u. u \<leftarrow> users db, us_account u = author_id \<or>
        active_user db u \<and> list_ex (\<lambda>f. fo_account f = us_account u \<and> fo_target f = author_id) (follows db)]"

section \<open>Home feeds\<close>

text \<open>The loops over the receivers: \<open>(deliveries, unpushes, notify)\<close> grow at their ends.\<close>

type_synonym plan = "int list \<times> int list \<times> int list"

definition plan_follower ::
  "candidate \<Rightarrow> (int \<rightharpoonup> crutches) \<Rightarrow> bool \<Rightarrow> bool \<Rightarrow> int \<Rightarrow> plan \<Rightarrow> plan" where
  "plan_follower status crutches notifies update follower = (\<lambda>(deliveries, unpushes, notify).
     case crutches follower of
       None \<Rightarrow> (deliveries, unpushes, notify)
     | Some c \<Rightarrow>
         (let result = filter_result status follower c Home in
          (if result = None then deliveries @ [follower] else deliveries,
           if result \<noteq> None \<and> update then unpushes @ [follower] else unpushes,
           if notifies \<and> result \<noteq> Some Filter \<and> notifying c then notify @ [follower] else notify)))"

definition plan_tag_follower ::
  "candidate \<Rightarrow> string option \<Rightarrow> (int \<rightharpoonup> crutches) \<Rightarrow> bool \<Rightarrow> int \<Rightarrow> plan \<Rightarrow> plan" where
  "plan_tag_follower status author_domain crutches update follower = (\<lambda>(deliveries, unpushes, notify).
     case crutches follower of
       None \<Rightarrow> (deliveries, unpushes, notify)
     | Some c \<Rightarrow>
         if \<not> filter_from_tags status author_domain follower c
         then (deliveries @ [follower], unpushes, notify)
         else if update then (deliveries, unpushes @ [follower], notify)
         else (deliveries, unpushes, notify))"

text \<open>
  What \<^verbatim>\<open>fan_out_home\<close> decides before it touches Redis: \<open>None\<close> when it returns early.
\<close>

definition plan_home :: "database \<Rightarrow> int \<Rightarrow> bool \<Rightarrow> (distributed \<times> plan) option" where
  "plan_home db status_id update = (case load_distributed db status_id of
      None \<Rightarrow> None
    | Some d \<Rightarrow>
        (let status = d_status d; author = c_account status;
             deliveries = signed_in_recently db [author];
             followers = (if d_visibility d \<in> {VIS_PUBLIC, VIS_UNLISTED, VIS_PRIVATE}
               then followers_for_local_distribution db author
               else mentioned_followers db status_id author);
             tags = (if broadcastable d then tag_followers db status_id else []);
             receivers = remdups (followers @ tags) in
         case crutches_for db status (d_author_domain d) receivers True of
           Inl _ \<Rightarrow> None
         | Inr crutches \<Rightarrow>
             let notifies = (c_reblog_of status = None \<and>
                   \<not> (c_reply status \<and> c_in_reply_to_account status \<noteq> Some author) \<and> \<not> update) in
             Some (d, fold (plan_tag_follower status (d_author_domain d) crutches update) tags
               (fold (plan_follower status crutches notifies update) followers
                 (deliveries, [], [])))))"

text \<open>\<^verbatim>\<open>if let Err(error) = remove_from_feed(...).await { tracing::warn!(...) }\<close>\<close>

definition unpush ::
  "'r feed_exec \<Rightarrow> timeline \<Rightarrow> int \<Rightarrow> int option \<Rightarrow> bool \<Rightarrow> ('r, unit) io" where
  "unpush redis timeline status_id reblog_of_id aggregate =
     io_or (io_bind (remove_from_feed redis timeline status_id reblog_of_id aggregate)
       (\<lambda>_. io_return ())) ()"

text \<open>\<^verbatim>\<open>*pushed.entry(id).or_insert(false) |= added\<close>\<close>

definition or_insert :: "int \<Rightarrow> bool \<Rightarrow> (int \<rightharpoonup> bool) \<Rightarrow> (int \<rightharpoonup> bool)" where
  "or_insert i added pushed =
     pushed(i \<mapsto> ((case pushed i of None \<Rightarrow> False | Some b \<Rightarrow> b) \<or> added))"

fun push_homes ::
  "'r feed_exec \<Rightarrow> keyspace \<Rightarrow> int \<Rightarrow> int option \<Rightarrow> int set \<Rightarrow> int list \<Rightarrow> (int \<rightharpoonup> bool) \<Rightarrow>
   ('r, int \<rightharpoonup> bool) io" where
  "push_homes redis keys status_id reblog_of_id separate [] pushed = io_return pushed"
| "push_homes redis keys status_id reblog_of_id separate (i # is') pushed =
     io_bind (push redis (timeline_home keys i) status_id reblog_of_id (i \<notin> separate)) (\<lambda>added.
       push_homes redis keys status_id reblog_of_id separate is' (or_insert i added pushed))"

definition fan_out_home ::
  "'r feed_exec \<Rightarrow> keyspace \<Rightarrow> json_bool \<Rightarrow> database \<Rightarrow> int \<Rightarrow> bool \<Rightarrow>
   ('r, (int \<rightharpoonup> bool) \<times> int list) io" where
  "fan_out_home redis keys json db status_id update = (case plan_home db status_id update of
      None \<Rightarrow> io_return (Map.empty, [])
    | Some (d, deliveries, unpushes, notify) \<Rightarrow>
        if deliveries = [] \<and> unpushes = [] then io_return (Map.empty, notify)
        else let reblog_of_id = c_reblog_of (d_status d);
                 separate = (if reblog_of_id \<noteq> None
                   then not_aggregating json db (deliveries @ unpushes) else {}) in
          io_bind (io_for unpushes (\<lambda>i.
              unpush redis (timeline_home keys i) status_id reblog_of_id (i \<notin> separate))) (\<lambda>_.
          io_bind (push_homes redis keys status_id reblog_of_id separate deliveries Map.empty) (\<lambda>pushed.
          io_return (pushed, notify))))"

definition fanout_new_status where
  "fanout_new_status redis keys json db status_id =
     io_bind (fan_out_home redis keys json db status_id False) (\<lambda>(pushed, _). io_return pushed)"

definition fanout_remove_boost ::
  "'r feed_exec \<Rightarrow> keyspace \<Rightarrow> json_bool \<Rightarrow> database \<Rightarrow> int \<Rightarrow> int \<Rightarrow> int option \<Rightarrow> ('r, unit) io" where
  "fanout_remove_boost redis keys json db author_id status_id reblog_of_id =
     (let ids = recipients db author_id;
          separate = (if reblog_of_id \<noteq> None then not_aggregating json db ids else {}) in
      io_for ids (\<lambda>i. unpush redis (timeline_home keys i) status_id reblog_of_id (i \<notin> separate)))"

definition fanout_remove_status where
  "fanout_remove_status redis keys json db author_id status_id =
     fanout_remove_boost redis keys json db author_id status_id (reblogs_of db [status_id] status_id)"

section \<open>Lists\<close>

definition filtered_from_list :: "candidate \<Rightarrow> int \<Rightarrow> int \<Rightarrow> bool \<Rightarrow> bool" where
  "filtered_from_list status owner_id replies_policy listed \<longleftrightarrow>
     c_reply status \<and> c_in_reply_to_account status \<noteq> Some (c_account status) \<and>
     c_in_reply_to_account status \<noteq> Some owner_id \<and> replies_policy \<noteq> REPLIES_FOLLOWED \<and>
     \<not> (replies_policy = REPLIES_LIST \<and> listed)"

definition list_crutches :: "candidate \<Rightarrow> int \<Rightarrow> bool \<Rightarrow> crutches \<Rightarrow> crutches" where
  "list_crutches status replies_policy listed owner = owner\<lparr>
     following := (if replies_policy = REPLIES_FOLLOWED then following owner
       else if replies_policy = REPLIES_LIST
         then (if listed then set (opt_list (c_in_reply_to_account status)) else {})
       else {}),
     exclusive_list_users := {}, notifying := False\<rparr>"

text \<open>Whether either filter keeps the status out of a list (\<^verbatim>\<open>None\<close>: its owner was not read).\<close>

definition list_keeps_out ::
  "candidate \<Rightarrow> (int \<rightharpoonup> crutches) \<Rightarrow> int set \<Rightarrow> int \<times> int \<times> int \<Rightarrow> bool option" where
  "list_keeps_out status owners listing = (\<lambda>(list_id, owner_id, replies_policy).
     (let listed = (list_id \<in> listing) in
      case owners owner_id of None \<Rightarrow> None
      | Some owner \<Rightarrow> Some (filtered_from_list status owner_id replies_policy listed \<or>
          filter_from_home status owner_id (list_crutches status replies_policy listed owner)
            (ForList list_id replies_policy))))"

definition listing_reply_target :: "database \<Rightarrow> candidate \<Rightarrow> int list \<Rightarrow> int set" where
  "listing_reply_target db status list_ids = (case c_in_reply_to_account status of
      None \<Rightarrow> {}
    | Some target \<Rightarrow> set (fetch_or_default db QReplyTargets
        [la_list l. l \<leftarrow> list_accounts db, la_list l \<in> set list_ids \<and> la_account l = target]))"

fun push_lists ::
  "'r feed_exec \<Rightarrow> keyspace \<Rightarrow> int \<Rightarrow> int option \<Rightarrow> int set \<Rightarrow> bool \<Rightarrow>
   (int \<times> int \<times> int \<Rightarrow> bool option) \<Rightarrow> (int \<times> int \<times> int) list \<Rightarrow> (int \<rightharpoonup> bool) \<Rightarrow>
   ('r, int \<rightharpoonup> bool) io" where
  "push_lists redis keys status_id reblog_of_id separate update out [] pushed = io_return pushed"
| "push_lists redis keys status_id reblog_of_id separate update out (l # ls) pushed =
     (let list_id = fst l; timeline = timeline_list keys list_id;
          aggregate = (fst (snd l) \<notin> separate);
          continue = push_lists redis keys status_id reblog_of_id separate update out ls in
      case out l of
        None \<Rightarrow> continue pushed
      | Some True \<Rightarrow>
          if update then io_bind (unpush redis timeline status_id reblog_of_id aggregate)
            (\<lambda>_. continue pushed)
          else continue pushed
      | Some False \<Rightarrow>
          io_bind (push redis timeline status_id reblog_of_id aggregate)
            (\<lambda>added. continue (pushed(list_id \<mapsto> added))))"

definition plan_lists ::
  "database \<Rightarrow> int \<Rightarrow> (distributed \<times> (int \<times> int \<times> int) list \<times> (int \<times> int \<times> int \<Rightarrow> bool option)) option" where
  "plan_lists db status_id = (case load_distributed db status_id of
      None \<Rightarrow> None
    | Some d \<Rightarrow>
        if d_visibility d \<notin> {VIS_PUBLIC, VIS_UNLISTED, VIS_PRIVATE} then None
        else let status = d_status d; ls = lists_for_local_distribution db (c_account status) in
          if ls = [] then None
          else case crutches_for db status (d_author_domain d) (remdups (map (\<lambda>l. fst (snd l)) ls)) False of
              Inl _ \<Rightarrow> None
            | Inr owners \<Rightarrow> Some (d, ls,
                list_keeps_out status owners (listing_reply_target db status (map fst ls))))"

definition fan_out_lists ::
  "'r feed_exec \<Rightarrow> keyspace \<Rightarrow> json_bool \<Rightarrow> database \<Rightarrow> int \<Rightarrow> bool \<Rightarrow> ('r, int \<rightharpoonup> bool) io" where
  "fan_out_lists redis keys json db status_id update = (case plan_lists db status_id of
      None \<Rightarrow> io_return Map.empty
    | Some (d, ls, out) \<Rightarrow>
        let reblog_of_id = c_reblog_of (d_status d);
            separate = (if reblog_of_id \<noteq> None
              then not_aggregating json db (remdups (map (\<lambda>l. fst (snd l)) ls)) else {}) in
        push_lists redis keys status_id reblog_of_id separate update out ls Map.empty)"

definition fanout_to_lists where
  "fanout_to_lists redis keys json db status_id = fan_out_lists redis keys json db status_id False"

definition fanout_remove_boost_from_lists ::
  "'r feed_exec \<Rightarrow> keyspace \<Rightarrow> json_bool \<Rightarrow> database \<Rightarrow> int \<Rightarrow> int \<Rightarrow> int option \<Rightarrow> ('r, unit) io" where
  "fanout_remove_boost_from_lists redis keys json db author_id status_id reblog_of_id =
     (let ls = lists_for_local_distribution db author_id in
      if ls = [] then io_return () else
      let separate = (if reblog_of_id \<noteq> None
        then not_aggregating json db (map (\<lambda>l. fst (snd l)) ls) else {}) in
      io_for ls (\<lambda>l. unpush redis (timeline_list keys (fst l)) status_id reblog_of_id
        (fst (snd l) \<notin> separate)))"

definition fanout_remove_from_lists where
  "fanout_remove_from_lists redis keys json db author_id status_id =
     fanout_remove_boost_from_lists redis keys json db author_id status_id
       (reblogs_of db [status_id] status_id)"

text \<open>The work of \<^verbatim>\<open>unpush_boost\<close>, inline or in its task.\<close>

definition unpush_boost where
  "unpush_boost redis keys json db author_id boost_id reblog_of_id =
     io_bind (fanout_remove_boost redis keys json db author_id boost_id (Some reblog_of_id)) (\<lambda>_.
       fanout_remove_boost_from_lists redis keys json db author_id boost_id (Some reblog_of_id))"

record pushed =
  homes :: "int \<rightharpoonup> bool"
  p_lists :: "int \<rightharpoonup> bool"
  p_notify :: "int list"

definition pushed_home :: "pushed \<Rightarrow> int \<Rightarrow> bool" where
  "pushed_home p account_id = (case homes p account_id of None \<Rightarrow> False | Some b \<Rightarrow> b)"

definition pushed_list :: "pushed \<Rightarrow> int \<Rightarrow> bool" where
  "pushed_list p list_id = (case p_lists p list_id of None \<Rightarrow> False | Some b \<Rightarrow> b)"

definition fanout_status ::
  "'r feed_exec \<Rightarrow> keyspace \<Rightarrow> json_bool \<Rightarrow> database \<Rightarrow> int \<Rightarrow> bool \<Rightarrow> ('r, pushed) io" where
  "fanout_status redis keys json db status_id update =
     io_bind (fan_out_home redis keys json db status_id update) (\<lambda>(homes, notify).
     io_bind (fan_out_lists redis keys json db status_id update) (\<lambda>lists.
     io_return \<lparr>homes = homes, p_lists = lists, p_notify = notify\<rparr>))"

end
