(* ===== verification/FeedFilterFacts.thy ===== *)
theory FeedFilterFacts
  imports FeedFilter
begin

text \<open>
  What the two ways of reading a receiver's crutches give, and that they decide alike:
  \<open>crutches_for\<close> of the fan-out, in a handful of queries for all receivers, against
  \<open>crutches_build\<close> for one receiver, as Mastodon's workers read them.
\<close>

section \<open>Folds over rows\<close>

lemma fold_get_mut:
  "fold (\<lambda>x. get_mut (k x) (f x)) xs cs r = map_option (fold f (filter (\<lambda>x. k x = r) xs)) (cs r)"
proof (induction xs arbitrary: cs)
  case Nil
  show ?case by (simp add: option.map_id0 [unfolded id_def] map_option_case split: option.split)
next
  case (Cons x xs)
  then show ?case
    by (cases "cs (k x)"; cases "cs r") (auto simp: get_mut_def)
qed

lemma fold_blocking:
  "fold (\<lambda>x c. c\<lparr>blocking := insert (v x) (blocking c)\<rparr>) xs c = c\<lparr>blocking := v ` set xs \<union> blocking c\<rparr>"
  by (induction xs arbitrary: c) auto

lemma fold_muting:
  "fold (\<lambda>x c. c\<lparr>muting := insert (v x) (muting c)\<rparr>) xs c = c\<lparr>muting := v ` set xs \<union> muting c\<rparr>"
  by (induction xs arbitrary: c) auto

lemma fold_domain_blocking:
  "fold (\<lambda>x c. c\<lparr>domain_blocking := insert (v x) (domain_blocking c)\<rparr>) xs c =
   c\<lparr>domain_blocking := v ` set xs \<union> domain_blocking c\<rparr>"
  by (induction xs arbitrary: c) auto

lemma fold_blocked_by:
  "fold (\<lambda>x c. c\<lparr>blocked_by := insert (v x) (blocked_by c)\<rparr>) xs c =
   c\<lparr>blocked_by := v ` set xs \<union> blocked_by c\<rparr>"
  by (induction xs arbitrary: c) auto

lemma fold_following:
  "fold (\<lambda>x c. c\<lparr>following := insert t (following c)\<rparr>) xs c =
   c\<lparr>following := (if xs = [] then {} else {t}) \<union> following c\<rparr>"
  by (induction xs arbitrary: c) auto

lemma fold_exclusive:
  "fold (\<lambda>x c. c\<lparr>exclusive_list_users := insert t (exclusive_list_users c)\<rparr>) xs c =
   c\<lparr>exclusive_list_users := (if xs = [] then {} else {t}) \<union> exclusive_list_users c\<rparr>"
  by (induction xs arbitrary: c) auto

lemmas fold_fields = fold_blocking fold_muting fold_domain_blocking fold_blocked_by
  fold_following fold_exclusive

text \<open>The pairs that \<^verbatim>\<open>collect\<close> makes of the follows that name languages.\<close>

definition language_pairs :: "follow_row list \<Rightarrow> (int \<times> string list) list" where
  "language_pairs fs = concat (map (\<lambda>f. case nonempty_languages f of
     None \<Rightarrow> [] | Some l \<Rightarrow> [(fo_target f, l)]) fs)"

lemma collect_map_Cons:
  "collect_map (x # xs) k = (case collect_map xs k of
     None \<Rightarrow> if fst x = k then Some (snd x) else None | Some v \<Rightarrow> Some v)"
  by (auto simp: collect_map_def map_add_def split: option.splits)

lemma collect_map_Nil [simp]: "collect_map [] = Map.empty"
  by (simp add: collect_map_def)

lemma learn_follow_fields [simp]:
  "active_mentions (learn_follow st f c) = active_mentions c"
  "following (learn_follow st f c) = following c"
  "blocking (learn_follow st f c) = blocking c"
  "muting (learn_follow st f c) = muting c"
  "domain_blocking (learn_follow st f c) = domain_blocking c"
  "blocked_by (learn_follow st f c) = blocked_by c"
  "exclusive_list_users (learn_follow st f c) = exclusive_list_users c"
  by (simp_all add: learn_follow_def Let_def split: option.split)

lemma learn_follows_fields [simp]:
  "active_mentions (fold (learn_follow st) fs c) = active_mentions c"
  "following (fold (learn_follow st) fs c) = following c"
  "blocking (fold (learn_follow st) fs c) = blocking c"
  "muting (fold (learn_follow st) fs c) = muting c"
  "domain_blocking (fold (learn_follow st) fs c) = domain_blocking c"
  "blocked_by (fold (learn_follow st) fs c) = blocked_by c"
  "exclusive_list_users (fold (learn_follow st) fs c) = exclusive_list_users c"
  by (induction fs arbitrary: c) simp_all

lemma learn_follows_hiding:
  "hiding_reblogs (fold (learn_follow st) fs c) = hiding_reblogs c \<union>
     (if c_reblog_of st \<noteq> None \<and> (\<exists>f \<in> set fs. \<not> fo_show_reblogs f) then {c_account st} else {})"
  by (induction fs arbitrary: c) (auto simp: learn_follow_def Let_def split: option.split)

lemma learn_follows_languages:
  assumes "\<forall>f \<in> set fs. fo_target f = c_account st"
  shows "languages (fold (learn_follow st) fs c) (c_account st) =
    (case collect_map (language_pairs fs) (c_account st) of
       None \<Rightarrow> languages c (c_account st) | Some l \<Rightarrow> Some l)"
  using assms
proof (induction fs arbitrary: c)
  case (Cons f fs)
  then show ?case
    by (auto simp: language_pairs_def collect_map_Cons learn_follow_def Let_def split: option.splits)
qed (simp add: language_pairs_def)

text \<open>\<^verbatim>\<open>FeedInsertWorker#notify?\<close> reads the follow of the receiver: the last row's \<^verbatim>\<open>notify\<close>.\<close>

lemma learn_follows_notifying:
  "notifying (fold (learn_follow st) fs c) = (if fs = [] then notifying c else fo_notify (last fs))"
  by (induction fs arbitrary: c) (auto simp: learn_follow_def Let_def)

section \<open>The crutches of one receiver, in closed form\<close>

definition follows_of :: "database \<Rightarrow> int \<Rightarrow> int \<Rightarrow> follow_row list" where
  "follows_of db r t = filter (\<lambda>f. fo_account f = r \<and> fo_target f = t) (follows db)"

definition lists_exclusively :: "database \<Rightarrow> int \<Rightarrow> int \<Rightarrow> bool" where
  "lists_exclusively db r a \<longleftrightarrow> (\<exists>la \<in> set (list_accounts db). \<exists>l \<in> set (lists db).
     li_id l = la_list la \<and> li_account l = r \<and> li_exclusive l \<and> la_account la = a)"

text \<open>What a status' mentions are, and who must not be blocked.\<close>

definition status_mentions :: "database \<Rightarrow> candidate \<Rightarrow> int \<rightharpoonup> int list" where
  "status_mentions db st = mention_map (mention_rows db (c_id st # opt_list (c_reblog_of st)))"

definition status_checks :: "database \<Rightarrow> candidate \<Rightarrow> int list" where
  "status_checks db st = check_for_blocks (status_mentions db st) st"

definition status_authors :: "candidate \<Rightarrow> int list" where
  "status_authors st = c_account st # (case c_reblog st of None \<Rightarrow> [] | Some (r, _) \<Rightarrow> [r])"

definition status_domain :: "candidate \<Rightarrow> string list" where
  "status_domain st = (case c_reblog st of None \<Rightarrow> [] | Some (_, d) \<Rightarrow> opt_list d)"

text \<open>
  The facts the filter consults, for receiver \<open>r\<close> and status \<open>st\<close>: crutches that have them
  are good for that decision.
\<close>

definition crutches_ok :: "database \<Rightarrow> candidate \<Rightarrow> int \<Rightarrow> crutches \<Rightarrow> bool" where
  "crutches_ok db st r c \<longleftrightarrow>
     active_mentions c = status_mentions db st \<and>
     languages c (c_account st) = collect_map (language_pairs (follows_of db r (c_account st))) (c_account st) \<and>
     (c_account st \<in> hiding_reblogs c \<longleftrightarrow> c_reblog_of st \<noteq> None \<and>
        (\<exists>f \<in> set (follows_of db r (c_account st)). \<not> fo_show_reblogs f)) \<and>
     blocking c = {b \<in> set (status_checks db st). (r, b) \<in> set (blocks db)} \<and>
     muting c = {b \<in> set (status_checks db st). (r, b) \<in> set (mutes db)} \<and>
     blocked_by c = {b \<in> set (status_authors st). (b, r) \<in> set (blocks db)} \<and>
     (\<forall>d \<in> set (status_domain st). d \<in> domain_blocking c \<longleftrightarrow> (r, d) \<in> set (domain_blocks db))"

definition reads_follows :: "database \<Rightarrow> candidate \<Rightarrow> int \<Rightarrow> crutches \<Rightarrow> bool" where
  "reads_follows db st r c \<longleftrightarrow>
     following c = {t. c_in_reply_to_account st = Some t \<and> follows_of db r t \<noteq> []}"

lemma follows_of_empty: "follows_of db r t = [] \<longleftrightarrow>
    (\<forall>f \<in> set (follows db). fo_account f = r \<longrightarrow> fo_target f \<noteq> t)"
  by (auto simp: follows_of_def filter_empty_conv)

lemma filter_select: "filter Q [x. x \<leftarrow> xs, P x] = filter (\<lambda>x. P x \<and> Q x) xs"
  by (induction xs) auto


lemma select_filter: "[x. x \<leftarrow> xs, P x] = filter P xs"
  by (induction xs) auto

lemmas get_mut_select = fold_get_mut filter_select fold_fields

text \<open>The three reads of \<open>crutches_for\<close> that are skipped when nothing could come of them.\<close>

lemma learn_following:
  assumes "(case irt of None \<Rightarrow> Inr cs
       | Some in_reply_to \<Rightarrow>
           res_bind (fetch_all db QFollowing
             [fo_account f. f \<leftarrow> follows db, fo_account f \<in> set rs \<and> fo_target f = in_reply_to]) (\<lambda>rs.
           Inr (fold (\<lambda>r. get_mut r (\<lambda>c. c\<lparr>following := insert in_reply_to (following c)\<rparr>)) rs cs))) = Inr v"
    and "r \<in> set rs"
  shows "v r = map_option (\<lambda>c. c\<lparr>following :=
    {t. irt = Some t \<and> follows_of db r t \<noteq> []} \<union> following c\<rparr>) (cs r)"
proof (cases irt)
  case None
  with assms(1) show ?thesis by (cases "cs r") auto
next
  case (Some t)
  let ?fs = "[fo_account f. f \<leftarrow> follows db, fo_account f \<in> set rs \<and> fo_target f = t]"
  from Some assms(1) have "v = fold (\<lambda>r. get_mut r (\<lambda>c. c\<lparr>following := insert t (following c)\<rparr>)) ?fs cs"
    by (auto simp: res_bind_eq_Inr fetch_all_Inr)
  moreover have "filter (\<lambda>x. x = r) ?fs = [] \<longleftrightarrow> follows_of db r t = []"
    using assms(2) by (auto simp: filter_empty_conv follows_of_empty)
  moreover have "{u. irt = Some u \<and> follows_of db r u \<noteq> []} =
      (if follows_of db r t = [] then {} else {t})" using Some by auto
  ultimately show ?thesis by (cases "cs r") (simp_all add: fold_get_mut fold_fields)
qed

lemma learn_domains:
  assumes "(if ds = [] then Inr cs else
         res_bind (fetch_all db QDomainBlocking
           [d. d \<leftarrow> domain_blocks db, fst d \<in> set rs \<and> snd d \<in> set ds]) (\<lambda>ds.
         Inr (fold (\<lambda>d. get_mut (fst d)
           (\<lambda>c. c\<lparr>domain_blocking := insert (snd d) (domain_blocking c)\<rparr>)) ds cs))) = Inr v"
    and "r \<in> set rs"
  shows "v r = map_option (\<lambda>c. c\<lparr>domain_blocking :=
    {d \<in> set ds. (r, d) \<in> set (domain_blocks db)} \<union> domain_blocking c\<rparr>) (cs r)"
proof (cases "ds = []")
  case True
  with assms(1) show ?thesis by (cases "cs r") auto
next
  case False
  have "snd ` {d \<in> set (domain_blocks db). (fst d \<in> set rs \<and> snd d \<in> set ds) \<and> fst d = r} =
      {d \<in> set ds. (r, d) \<in> set (domain_blocks db)}" using assms(2) by force
  with False assms(1) show ?thesis
    by (cases "cs r") (auto simp: res_bind_eq_Inr fetch_all_Inr fold_get_mut filter_select fold_fields)
qed

lemma learn_exclusive:
  assumes "(if \<not> home then Inr cs else
         res_bind (fetch_all db QExclusive (select_distinct
           [li_account l. la \<leftarrow> list_accounts db, l \<leftarrow> lists db, li_id l = la_list la \<and>
              li_account l \<in> set rs \<and> li_exclusive l \<and> la_account la = a])) (\<lambda>rs.
         Inr (fold (\<lambda>r. get_mut r
           (\<lambda>c. c\<lparr>exclusive_list_users := insert a (exclusive_list_users c)\<rparr>)) rs cs))) = Inr v"
    and "r \<in> set rs"
  shows "v r = map_option (\<lambda>c. c\<lparr>exclusive_list_users :=
    (if home \<and> lists_exclusively db r a then {a} else {}) \<union> exclusive_list_users c\<rparr>) (cs r)"
proof (cases home)
  case False
  with assms(1) show ?thesis by (cases "cs r") auto
next
  case True
  let ?rs = "select_distinct
           [li_account l. la \<leftarrow> list_accounts db, l \<leftarrow> lists db, li_id l = la_list la \<and>
              li_account l \<in> set rs \<and> li_exclusive l \<and> la_account la = a]"
  have "filter (\<lambda>x. x = r) ?rs = [] \<longleftrightarrow> \<not> lists_exclusively db r a"
    using assms(2) by (auto simp: filter_empty_conv select_distinct_def lists_exclusively_def)
  with True assms(1) show ?thesis
    by (cases "cs r") (auto simp: res_bind_eq_Inr fetch_all_Inr fold_get_mut fold_fields)
qed

lemma crutches_for_shape:
  assumes "crutches_for db st ad rs home = Inr cs" and "r \<in> set rs"
  shows "\<exists>c. cs r = Some c \<and> crutches_ok db st r c \<and> reads_follows db st r c \<and>
    exclusive_list_users c = (if home \<and> lists_exclusively db r (c_account st) then {c_account st} else {}) \<and>
    notifying c = (follows_of db r (c_account st) \<noteq> [] \<and> fo_notify (last (follows_of db r (c_account st)))) \<and>
    domain_blocking c = {d \<in> set (opt_list ad @ status_domain st). (r, d) \<in> set (domain_blocks db)}"
proof -
  have rs: "rs \<noteq> []" using assms(2) by auto
  have f': "filter (\<lambda>f. fo_account f \<in> set rs \<and> fo_target f = c_account st \<and> fo_account f = r) (follows db)
      = follows_of db r (c_account st)"
    using assms(2) by (auto simp: follows_of_def intro: filter_cong)
  have all: "\<forall>f \<in> set (follows_of db r (c_account st)). fo_target f = c_account st"
    by (simp add: follows_of_def)
  have img: "snd ` {b \<in> set X. fst b \<in> set rs \<and> snd b \<in> C \<and> fst b = r} = {b \<in> C. (r, b) \<in> set X}"
    "fst ` {b \<in> set X. snd b \<in> set rs \<and> fst b \<in> C \<and> snd b = r} = {b \<in> C. (b, r) \<in> set X}"
    for X :: "(int \<times> int) list" and C
    using assms(2) by force+
  have auth: "set (c_account st # opt_list (map_option fst (c_reblog st))) = set (status_authors st)"
    by (cases "c_reblog st") (auto simp: status_authors_def)
  from assms(1) rs obtain v where cs: "cs = (\<lambda>r. map_option
        (\<lambda>c. c\<lparr>active_mentions := status_mentions db st\<rparr>) (v r))"
    and v: "v r = Some (fold (learn_follow st) (follows_of db r (c_account st))
        (crutches_default\<lparr>following := {t. c_in_reply_to_account st = Some t \<and> follows_of db r t \<noteq> []}\<rparr>)
       \<lparr>blocking := {b \<in> set (status_checks db st). (r, b) \<in> set (blocks db)},
        muting := {b \<in> set (status_checks db st). (r, b) \<in> set (mutes db)},
        domain_blocking := {d \<in> set (opt_list ad @ status_domain st). (r, d) \<in> set (domain_blocks db)},
        blocked_by := {b \<in> set (status_authors st). (b, r) \<in> set (blocks db)},
        exclusive_list_users := (if home \<and> lists_exclusively db r (c_account st) then {c_account st} else {})\<rparr>)"
    unfolding crutches_for_def Let_def
    apply (simp only: res_bind_eq_Inr fetch_all_Inr if_False auth)
    apply (elim conjE exE)
    apply (drule learn_following, rule assms(2))
    apply (drule learn_domains, rule assms(2))
    apply (drule learn_exclusive, rule assms(2))
    apply (rule that)
     apply (auto simp: status_mentions_def)[1]
    using assms(2) by (simp add: get_mut_select f' img crutches_default_def status_checks_def status_mentions_def status_domain_def cong del: if_cong split del: if_split)
  let ?c = "the (cs r)"
  have c: "cs r = Some ?c" using cs v by simp
  have "crutches_ok db st r ?c"
    using all by (simp add: cs v crutches_ok_def crutches_default_def learn_follows_languages
        learn_follows_hiding split: option.split)
  moreover have "reads_follows db st r ?c"
    by (simp add: cs v reads_follows_def crutches_default_def)
  moreover have "exclusive_list_users ?c =
      (if home \<and> lists_exclusively db r (c_account st) then {c_account st} else {})"
    by (simp add: cs v)
  moreover have "notifying ?c = (follows_of db r (c_account st) \<noteq> [] \<and>
      fo_notify (last (follows_of db r (c_account st))))"
    by (simp add: cs v crutches_default_def learn_follows_notifying)
  moreover have "domain_blocking ?c = {d \<in> set (opt_list ad @ status_domain st). (r, d) \<in> set (domain_blocks db)}"
    by (simp add: cs v)
  ultimately show ?thesis using c by blast
qed

text \<open>Mastodon's own reading, for one status.\<close>

lemma crutches_build_shape:
  assumes "crutches_build db r [st] receiver = Inr c"
  shows "crutches_ok db st r c \<and>
    following c = (case receiver of
        Home \<Rightarrow> {t. c_in_reply_to_account st = Some t \<and> follows_of db r t \<noteq> []}
      | ForList i p \<Rightarrow>
          if p = REPLIES_FOLLOWED then {t. c_in_reply_to_account st = Some t \<and> follows_of db r t \<noteq> []}
          else if p = REPLIES_LIST then {t. c_in_reply_to_account st = Some t \<and>
            (\<exists>l \<in> set (list_accounts db). la_list l = i \<and> la_account l = t)}
          else {}) \<and>
    exclusive_list_users c = (if receiver = Home \<and> lists_exclusively db r (c_account st)
      then {c_account st} else {})"
proof -
  have auth: "set (status_authors st) =
      insert (c_account st) (case c_reblog st of None \<Rightarrow> {} | Some (x, _) \<Rightarrow> {x})"
    by (auto simp: status_authors_def split: option.splits)
  let ?ids = "c_id st # opt_list (c_reblog_of st)"
  from assms obtain fl ex where
    fl: "(case receiver of Home \<Rightarrow> fetch_all db QFollowing [fo_target f. f \<leftarrow> follows db,
            fo_account f = r \<and> fo_target f \<in> set (opt_list (c_in_reply_to_account st))]
       | ForList list_id replies_policy \<Rightarrow>
           if replies_policy = REPLIES_FOLLOWED then fetch_all db QFollowing [fo_target f. f \<leftarrow> follows db,
            fo_account f = r \<and> fo_target f \<in> set (opt_list (c_in_reply_to_account st))]
           else if replies_policy = REPLIES_LIST then fetch_all db QListMembers
             [la_account l. l \<leftarrow> list_accounts db, la_list l = list_id \<and>
                la_account l \<in> set (opt_list (c_in_reply_to_account st))]
           else Inr []) = Inr fl"
    and ex: "(case receiver of
         Home \<Rightarrow> fetch_all db QExclusive
           [la_account la. la \<leftarrow> list_accounts db, l \<leftarrow> lists db, li_id l = la_list la \<and>
              li_account l = r \<and> li_exclusive l \<and> la_account la \<in> set [c_account st]]
       | ForList _ _ \<Rightarrow> Inr []) = Inr ex"
    and c: "c = \<lparr>active_mentions = status_mentions db st, following = set fl,
       languages = collect_map (language_pairs (follows_of db r (c_account st))),
       hiding_reblogs = set [fo_target f. f \<leftarrow> follows db, fo_account f = r \<and>
            (c_reblog_of st \<noteq> None \<and> fo_target f = c_account st) \<and> \<not> fo_show_reblogs f],
       blocking = set [snd b. b \<leftarrow> blocks db, fst b = r \<and> snd b \<in> set (status_checks db st)],
       muting = set [snd m. m \<leftarrow> mutes db, fst m = r \<and> snd m \<in> set (status_checks db st)],
       domain_blocking = set [snd d. d \<leftarrow> domain_blocks db, fst d = r \<and> snd d \<in> set (status_domain st)],
       blocked_by = set [fst b. b \<leftarrow> blocks db, snd b = r \<and> fst b \<in> set (status_authors st)],
       exclusive_list_users = set ex, notifying = False\<rparr>"
    unfolding crutches_build_def Let_def
    apply (simp only: res_bind_eq_Inr list.map concat.simps append_Nil2)
    apply (elim conjE exE)
    apply (rule that, assumption, assumption)
    apply (simp only: fetch_all_Inr)
    apply (elim conjE)
    apply hypsubst_thin
    apply (simp only: sum.inject)
    apply (drule sym, hypsubst_thin)
    apply (simp only: crutches.ext_inject simp_thms select_filter)
    apply (intro conjI)
         apply (simp_all add: status_mentions_def status_checks_def status_domain_def status_authors_def
           language_pairs_def follows_of_def)
    apply (auto split: if_splits)
    done
  have following: "following c = (case receiver of
        Home \<Rightarrow> {t. c_in_reply_to_account st = Some t \<and> follows_of db r t \<noteq> []}
      | ForList i p \<Rightarrow>
          if p = REPLIES_FOLLOWED then {t. c_in_reply_to_account st = Some t \<and> follows_of db r t \<noteq> []}
          else if p = REPLIES_LIST then {t. c_in_reply_to_account st = Some t \<and>
            (\<exists>l \<in> set (list_accounts db). la_list l = i \<and> la_account l = t)}
          else {})"
    using fl by (auto simp: c fetch_all_Inr follows_of_empty set_opt_list split: receiver.splits if_splits)
  have exclusive: "exclusive_list_users c = (if receiver = Home \<and> lists_exclusively db r (c_account st)
      then {c_account st} else {})"
    using ex by (auto simp: c fetch_all_Inr lists_exclusively_def split: receiver.splits if_splits)
  have ok: "crutches_ok db st r c"
    by (force simp: crutches_ok_def c follows_of_def)
  from ok following exclusive show ?thesis by blast
qed

section \<open>Both decide alike\<close>

lemma filtered_after_lists_cong:
  assumes "crutches_ok db st r a" and "crutches_ok db st r b"
    and "\<And>t. c_in_reply_to_account st = Some t \<Longrightarrow> t \<in> following a \<longleftrightarrow> t \<in> following b"
  shows "filtered_after_lists st r a = filtered_after_lists st r b"
proof -
  have eqs: "languages a (c_account st) = languages b (c_account st)"
    "active_mentions a = active_mentions b" "blocking a = blocking b" "muting a = muting b"
    "blocked_by a = blocked_by b" "c_account st \<in> hiding_reblogs a \<longleftrightarrow> c_account st \<in> hiding_reblogs b"
    using assms(1,2) by (simp_all add: crutches_ok_def)
  have dom: "d \<in> domain_blocking a \<longleftrightarrow> d \<in> domain_blocking b" if "c_reblog st = Some (x, Some d)" for x d
    using assms(1,2) that by (simp add: crutches_ok_def status_domain_def)
  show ?thesis
  proof (cases "if c_reply st then c_in_reply_to_account st else None")
    case None
    then show ?thesis using dom
      by (simp add: filtered_after_lists_def eqs split: option.split)
  next
    case (Some t)
    then have "t \<in> following a \<longleftrightarrow> t \<in> following b" using assms(3) by (simp split: if_splits)
    with Some show ?thesis by (simp add: filtered_after_lists_def eqs)
  qed
qed

lemma filter_result_cong:
  assumes "crutches_ok db st r a" and "crutches_ok db st r b"
    and "\<And>t. c_in_reply_to_account st = Some t \<Longrightarrow> t \<in> following a \<longleftrightarrow> t \<in> following b"
    and "receiver = Home \<Longrightarrow> c_account st \<in> exclusive_list_users a \<longleftrightarrow> c_account st \<in> exclusive_list_users b"
  shows "filter_result st r a receiver = filter_result st r b receiver"
proof (cases "receiver = Home")
  case True
  show ?thesis
    by (simp only: filter_result_def filtered_after_lists_cong [OF assms(1-3)] assms(4) [OF True])
next
  case False
  then show ?thesis
    by (simp only: filter_result_def filtered_after_lists_cong [OF assms(1-3)] simp_thms if_False)
qed

end
