(* ===== verification/FeedSpec.thy ===== *)
theory FeedSpec
  imports FeedCore
begin

text \<open>
  What the operations of a feed amount to. Each one runs a script of write commands that
  its reads of the store determine (\<open>add_script\<close>, \<open>remove_script\<close>, \<open>trim_script\<close>):
  when Redis answers, the store afterwards is the effect of the script, and when Redis fails
  it is the effect of a prefix of it, and there was a failure of Redis to stop it. The refinement lemmas \<open>runs_add\<close>, \<open>runs_remove\<close>
  and \<open>runs_trim\<close> say so; the invariants of later theories are proved over scripts.
\<close>

section \<open>Scripts\<close>

fun rank_below :: "nat option \<Rightarrow> nat \<Rightarrow> bool" where
  "rank_below None n = False"
| "rank_below (Some k) n = (k < n)"

definition add_script ::
  "timeline \<Rightarrow> int \<Rightarrow> int option \<Rightarrow> bool \<Rightarrow> feed_store \<Rightarrow> bool \<times> feed_cmd list" where
  "add_script t i rb agg s =
     (case (if agg then rb else None) of
        Some b \<Rightarrow>
          if rank_below (zrevrank b (zs s (tl_key t))) 80 then (False, [])
          else if b \<in> zmem (zs s (tl_reblogs t)) then
            (False, [ZAddNX (tl_reblogs t) (as_f64 i) b, SAdd (reblog_set t b) i])
          else
            (True, [ZAddNX (tl_reblogs t) (as_f64 i) b, ZAdd (tl_key t) (as_f64 i) i])
      | None \<Rightarrow>
          if i \<in> zmem (zs s (tl_reblogs t)) then (False, [])
          else (True, [ZAdd (tl_key t) (as_f64 i) i]))"

definition held_back :: "timeline \<Rightarrow> int \<Rightarrow> int \<Rightarrow> feed_store \<Rightarrow> int set" where
  "held_back t b i s = set (ss s (reblog_set t b)) - {i}"

definition stand_in :: "timeline \<Rightarrow> int \<Rightarrow> int set \<Rightarrow> feed_cmd list" where
  "stand_in t b H = (if H = {} then [] else
     [ZAdd (tl_key t) (as_f64 (Min H)) (Min H), ZAdd (tl_reblogs t) (as_f64 (Min H)) b])"

definition remove_script ::
  "timeline \<Rightarrow> int \<Rightarrow> int option \<Rightarrow> bool \<Rightarrow> feed_store \<Rightarrow> bool \<times> feed_cmd list" where
  "remove_script t i rb agg s =
     (case (if agg then rb else None) of
        Some b \<Rightarrow>
          if i \<notin> zmem (zs s (tl_key t)) then (False, [])
          else (True, [SRem (reblog_set t b) i, ZRem (tl_reblogs t) b, SMembers (reblog_set t b)] @
             (stand_in t b (held_back t b i s) @ [ZRem (tl_key t) i]))
      | None \<Rightarrow>
          (i \<in> zmem (zs s (tl_key t)),
           [Del (reblog_set t i), ZRem (tl_reblogs t) i, ZRem (tl_key t) i]))"

text \<open>The score of the entry \<open>REBLOG_FALLOFF\<close> places below the newest, if there is one.\<close>

definition falloff :: "zset \<Rightarrow> int option" where
  "falloff z = (if length z \<le> 80 then None else Some (snd (rev z ! 80)))"

definition untrack :: "timeline \<Rightarrow> int \<Rightarrow> feed_cmd list" where
  "untrack t b = [ZRem (tl_reblogs t) b, Del (reblog_set t b)]"

definition stale_boosts :: "timeline \<Rightarrow> feed_store \<Rightarrow> int list" where
  "stale_boosts t s =
     (case falloff (zs s (tl_key t)) of None \<Rightarrow> []
      | Some f \<Rightarrow> map fst (zbyscore (Incl 0) (Incl f) (zs s (tl_reblogs t))))"

definition trim_script :: "timeline \<Rightarrow> feed_store \<Rightarrow> feed_cmd list" where
  "trim_script t s =
     [ZRemRangeByRank (tl_key t) 0 (- (FEED_MAX_ITEMS + 1)),
      ZRevRangeByScoreWithScores (tl_key t) PosInf NegInf (Some (REBLOG_FALLOFF, 1))] @
     concat (map (untrack t) (stale_boosts t s))"

lemma zremrange_trim [simp]: "zremrange 0 (- (FEED_MAX_ITEMS + 1)) z = drop (length z - 800) z"
  using zremrange_newest [of 800 z] by (simp add: FEED_MAX_ITEMS_def)

lemma zremrange_trim' [simp]: "zremrange 0 (- FEED_MAX_ITEMS - 1) z = drop (length z - 800) z"
  using zremrange_trim [of z] by simp

lemma falloff_drop [simp]: "falloff (drop (length z - 800) z) = falloff z"
  by (auto simp: falloff_def rev_drop)

section \<open>Running a script\<close>

lemma effects_append: "effects (cs @ ds) s = effects ds (effects cs s)"
  by (induction cs arbitrary: s) auto

lemma map_pred_effects_read: "feed_effect c s = s \<Longrightarrow> effects [c] s = s"
  by simp

context feed_redis
begin

definition runs :: "('r, 'a) io \<Rightarrow> feed_store \<Rightarrow> ('a \<Rightarrow> bool) \<Rightarrow> feed_cmd list \<Rightarrow> bool" where
  "runs m s P cs \<longleftrightarrow>
     wp view m (\<lambda>v s'. P v \<and> s' = effects cs s) (\<lambda>s'. may_fail \<and> (\<exists>n. s' = effects (take n cs) s)) s"

lemma runs_return: "P v \<Longrightarrow> runs (io_return v) s P []"
  by (simp add: runs_def wp_return)

lemma runs_bind:
  assumes "runs m s P cs" and "\<And>v. P v \<Longrightarrow> runs (k v) (effects cs s) R ds"
  shows "runs (io_bind m k) s R (cs @ ds)"
  unfolding runs_def
proof (rule wp_bind, rule wp_conseq [OF assms(1) [unfolded runs_def]])
  fix v s'
  assume a: "P v \<and> s' = effects cs s"
  with assms(2) have "runs (k v) s' R ds" by simp
  then show "wp view (k v) (\<lambda>v s'. R v \<and> s' = effects (cs @ ds) s)
      (\<lambda>s'. may_fail \<and> (\<exists>n. s' = effects (take n (cs @ ds)) s)) s'"
    unfolding runs_def
  proof (rule wp_conseq)
    fix s'' assume f: "may_fail \<and> (\<exists>n. s'' = effects (take n ds) s')"
    then obtain n where "s'' = effects (take n ds) (effects cs s)" using a by blast
    then have "s'' = effects (take (length cs + n) (cs @ ds)) s" by (simp add: effects_append)
    with f show "may_fail \<and> (\<exists>n. s'' = effects (take n (cs @ ds)) s)" by blast
  qed (use a in \<open>simp add: effects_append\<close>)
next
  fix s' assume f: "may_fail \<and> (\<exists>n. s' = effects (take n cs) s)"
  then obtain n where "s' = effects (take n cs) s" by blast
  then have "s' = effects (take (min n (length cs)) (cs @ ds)) s"
    by (cases "n \<le> length cs") (simp_all add: min_def)
  with f show "may_fail \<and> (\<exists>n. s' = effects (take n (cs @ ds)) s)" by blast
qed

lemma runs_exec:
  assumes "\<And>rs. replies_ok cs s rs \<Longrightarrow> P rs"
  shows "runs (exec cs) s P cs"
  unfolding runs_def by (rule wp_exec) (use assms in auto)

lemma runs_bind_return:
  "runs m s P cs \<Longrightarrow> (\<And>v. P v \<Longrightarrow> runs (k v) (effects cs s) R []) \<Longrightarrow> runs (io_bind m k) s R cs"
  using runs_bind [of m s P cs k R "[]"] by simp

lemma runs_bind_cons:
  "runs m s P [c] \<Longrightarrow> (\<And>v. P v \<Longrightarrow> runs (k v) (feed_effect c s) R ds) \<Longrightarrow>
   runs (io_bind m k) s R (c # ds)"
  using runs_bind [of m s P "[c]" k R ds] by simp

text \<open>A read leaves nothing in the script.\<close>

lemma runs_read:
  assumes "runs m s P [c]" and "feed_effect c s = s"
  shows "runs m s P []"
  unfolding runs_def
proof (rule wp_conseq [OF assms(1) [unfolded runs_def]])
  fix s' assume f: "may_fail \<and> (\<exists>n. s' = effects (take n [c]) s)"
  then obtain n where "s' = effects (take n [c]) s" by blast
  then have "s' = s" using assms(2) by (cases n) auto
  with f show "may_fail \<and> (\<exists>n. s' = effects (take n []) s)" by simp
qed (use assms(2) in auto)

lemma runs_q_opt_int:
  assumes "\<And>rp. reply_ok c s rp \<longleftrightarrow> rp = opt_int v"
  shows "runs (q_opt_int exec c) s (\<lambda>w. w = v) [c]"
  unfolding q_opt_int_def
  by (rule runs_bind_return [OF runs_exec [where P = "\<lambda>rs. rs = [opt_int v]"]])
     (cases v; auto simp: assms intro: runs_return split: list.splits)+

lemma runs_q_int:
  assumes "\<And>rp. reply_ok c s rp \<longleftrightarrow> rp = RInt v"
  shows "runs (q_int exec c) s (\<lambda>w. w = v) [c]"
  unfolding q_int_def
  by (rule runs_bind_return [OF runs_exec [where P = "\<lambda>rs. rs = [RInt v]"]])
     (auto simp: assms intro: runs_return split: list.splits)

lemma runs_q_ids:
  assumes "\<And>rp. reply_ok c s rp \<longleftrightarrow> rp = RIds v"
  shows "runs (q_ids exec c) s (\<lambda>w. w = v) [c]"
  unfolding q_ids_def
  by (rule runs_bind_return [OF runs_exec [where P = "\<lambda>rs. rs = [RIds v]"]])
     (auto simp: assms intro: runs_return split: list.splits)

lemma runs_q_pairs:
  assumes "\<And>rp. reply_ok c s rp \<longleftrightarrow> rp = RPairs v"
  shows "runs (q_pairs exec c) s (\<lambda>w. w = v) [c]"
  unfolding q_pairs_def
  by (rule runs_bind_return [OF runs_exec [where P = "\<lambda>rs. rs = [RPairs v]"]])
     (auto simp: assms intro: runs_return split: list.splits)

lemma runs_q_unit: "runs (q_unit exec cs) s (\<lambda>_. True) cs"
  unfolding q_unit_def
  by (rule runs_bind_return [OF runs_exec [where P = "\<lambda>_. True"]]) (auto intro: runs_return)

lemma runs_unit_return: "P w \<Longrightarrow> runs (io_bind (q_unit exec cs) (\<lambda>_. io_return w)) s P cs"
  by (rule runs_bind_return [OF runs_q_unit]) (simp add: runs_return)

lemma replies_ok_last:
  "replies_ok (cs @ [c]) s rs \<Longrightarrow> rs \<noteq> [] \<and> reply_ok c (effects cs s) (last rs)"
proof (induction cs arbitrary: s rs)
  case Nil
  then show ?case by (auto split: list.splits)
next
  case (Cons d cs)
  then show ?case by (fastforce split: list.splits)
qed

lemma runs_q_last_zrem:
  "runs (q_last_int exec (cs @ [ZRem k m])) s
     (\<lambda>n. n = (if m \<in> zmem (zs (effects cs s) k) then 1 else 0)) (cs @ [ZRem k m])"
  unfolding q_last_int_def
proof (rule runs_bind_return [OF runs_exec
      [where P = "\<lambda>rs. rs \<noteq> [] \<and> reply_ok (ZRem k m) (effects cs s) (last rs)"]])
  fix rs
  show "replies_ok (cs @ [ZRem k m]) s rs \<Longrightarrow>
      rs \<noteq> [] \<and> reply_ok (ZRem k m) (effects cs s) (last rs)"
    by (rule replies_ok_last)
qed (auto intro: runs_return)

lemmas runs_zrevrank = runs_read [OF runs_q_opt_int [where c = "ZRevRank k m" for k m]]
lemmas runs_zscore = runs_read [OF runs_q_opt_int [where c = "ZScore k m" for k m]]
lemmas runs_zcard = runs_read [OF runs_q_int [where c = "ZCard k" for k]]

section \<open>The operations run their scripts\<close>

lemma rank_below_iff:
  "(case map_option int r of Some k \<Rightarrow> k < REBLOG_FALLOFF | None \<Rightarrow> False) = rank_below r 80"
  by (cases r) (auto simp: REBLOG_FALLOFF_def)

lemma runs_add:
  "runs (add_to_feed exec t i rb agg) s
     (\<lambda>b. b = fst (add_script t i rb agg s)) (snd (add_script t i rb agg s))"
proof (cases "if agg then rb else None")
  case None
  have "runs (q_opt_int exec (ZScore (tl_reblogs t) i)) s
      (\<lambda>w. w = zscore i (zs s (tl_reblogs t))) []"
    by (rule runs_zscore) auto
  then have "runs (add_to_feed exec t i rb agg) s (\<lambda>b. b = fst (add_script t i rb agg s))
      ([] @ snd (add_script t i rb agg s))"
    unfolding add_to_feed_def add_script_def None option.case
    by (rule runs_bind) (auto intro: runs_return runs_bind_return [OF runs_q_unit])
  then show ?thesis by simp
next
  case (Some b)
  have "runs (q_opt_int exec (ZRevRank (tl_key t) b)) s
      (\<lambda>w. w = map_option int (zrevrank b (zs s (tl_key t)))) []"
    by (rule runs_zrevrank) auto
  then have "runs (add_to_feed exec t i rb agg) s (\<lambda>b. b = fst (add_script t i rb agg s))
      ([] @ snd (add_script t i rb agg s))"
    unfolding add_to_feed_def add_script_def Some option.case
  proof (rule runs_bind, goal_cases)
    case (1 v)
    let ?T = "zs s (tl_reblogs t)"
    have nx: "runs (q_int exec (ZAddNX (tl_reblogs t) (as_f64 i) b)) s
        (\<lambda>w. w = (if zscore b ?T = None then 1 else 0)) [ZAddNX (tl_reblogs t) (as_f64 i) b]"
      by (rule runs_q_int) auto
    show ?case
    proof (cases "rank_below (zrevrank b (zs s (tl_key t))) 80")
      case True
      with 1 show ?thesis by (simp only: rank_below_iff if_True fst_conv snd_conv) (simp add: runs_return)
    next
      case False
      then show ?thesis
        unfolding 1 rank_below_iff
        by (cases "b \<in> zmem ?T") (auto intro!: runs_bind_cons [OF nx] runs_unit_return)
    qed
  qed
  then show ?thesis by simp
qed

text \<open>Removing needs the keys of the timeline to be different keys.\<close>

lemma runs_remove:
  assumes t: "timeline_keys t"
  shows "runs (remove_from_feed exec t i rb agg) s
     (\<lambda>b. b = fst (remove_script t i rb agg s)) (snd (remove_script t i rb agg s))"
proof (cases "if agg then rb else None")
  case None
  have "runs (q_last_int exec ([Del (reblog_set t i), ZRem (tl_reblogs t) i] @ [ZRem (tl_key t) i])) s
      (\<lambda>n. n = (if i \<in> zmem (zs (effects [Del (reblog_set t i), ZRem (tl_reblogs t) i] s) (tl_key t))
          then 1 else 0)) ([Del (reblog_set t i), ZRem (tl_reblogs t) i] @ [ZRem (tl_key t) i])"
    by (rule runs_q_last_zrem)
  then have "runs (q_last_int exec
        [Del (reblog_set t i), ZRem (tl_reblogs t) i, ZRem (tl_key t) i]) s
      (\<lambda>n. n = (if i \<in> zmem (zs s (tl_key t)) then 1 else 0))
      [Del (reblog_set t i), ZRem (tl_reblogs t) i, ZRem (tl_key t) i]"
    by (simp add: timeline_keys.keys_distinct [OF t])
  then show ?thesis
    unfolding remove_from_feed_def remove_script_def None option.case fst_conv snd_conv
    by (rule runs_bind_return) (simp add: runs_return)
next
  case (Some b)
  let ?R = "reblog_set t b" and ?T = "tl_reblogs t" and ?K = "tl_key t"
  let ?H = "held_back t b i s"
  let ?pre = "[SRem ?R i, ZRem ?T b, SMembers ?R]"
  have rank: "runs (q_opt_int exec (ZRevRank ?K i)) s
      (\<lambda>w. w = map_option int (zrevrank i (zs s ?K))) []"
    by (rule runs_zrevrank) auto
  have pre: "runs (io_bind (exec ?pre)
      (\<lambda>rs. case rs of [_, _, RIds others] \<Rightarrow> io_return others | _ \<Rightarrow> io_fail)) s
      (\<lambda>xs. set xs = ?H) ?pre"
    by (rule runs_bind_return [OF runs_exec [where P = "\<lambda>rs. \<exists>a c xs. rs = [a, c, RIds xs] \<and> set xs = ?H"]])
       (auto simp: held_back_def intro: runs_return split: list.splits freply.splits)
  have last: "runs (io_bind (q_last_int exec ((case iter_min xs of None \<Rightarrow> []
        | Some other \<Rightarrow> [ZAdd ?K (as_f64 other) other, ZAdd ?T (as_f64 other) b]) @ [ZRem ?K i]))
        (\<lambda>removed. io_return (removed > 0))) (effects ?pre s) (\<lambda>v. v = True)
        (stand_in t b ?H @ [ZRem ?K i])"
    if xs: "set xs = ?H" and i: "i \<in> zmem (zs s ?K)" for xs
  proof -
    have "(case iter_min xs of None \<Rightarrow> []
        | Some other \<Rightarrow> [ZAdd ?K (as_f64 other) other, ZAdd ?T (as_f64 other) b]) = stand_in t b ?H"
      using xs iter_min_Min [of xs] by (cases "xs = []") (auto simp: stand_in_def)
    moreover have "i \<in> zmem (zs (effects (stand_in t b ?H) (effects ?pre s)) ?K)"
      using i by (simp add: stand_in_def timeline_keys.keys_distinct [OF t])
    ultimately show ?thesis
      by (simp only:) (rule runs_bind_return [OF runs_q_last_zrem], simp add: runs_return)
  qed
  show ?thesis
  proof (cases "i \<in> zmem (zs s ?K)")
    case False
    have "runs (remove_from_feed exec t i rb agg) s (\<lambda>v. v = False) ([] @ [])"
      unfolding remove_from_feed_def Some option.case
      by (rule runs_bind [OF rank]) (use False in \<open>simp add: runs_return\<close>)
    with False Some show ?thesis by (simp add: remove_script_def)
  next
    case True
    have "runs (remove_from_feed exec t i rb agg) s (\<lambda>v. v = True)
        ([] @ (?pre @ (stand_in t b ?H @ [ZRem ?K i])))"
      unfolding remove_from_feed_def Some option.case
    proof (rule runs_bind [OF rank])
      fix v assume "v = map_option int (zrevrank i (zs s ?K))"
      with True have v: "(v = None) = False" by simp
      show "runs (if v = None then io_return False else
          let set = ?R in io_bind (io_bind (exec [SRem set i, ZRem ?T b, SMembers set])
            (\<lambda>rs. case rs of [_, _, RIds others] \<Rightarrow> io_return others | _ \<Rightarrow> io_fail)) (\<lambda>others.
          let pipe = (case iter_min others of None \<Rightarrow> []
            | Some other \<Rightarrow> [ZAdd ?K (as_f64 other) other, ZAdd ?T (as_f64 other) b]) in
          io_bind (q_last_int exec (pipe @ [ZRem ?K i])) (\<lambda>removed. io_return (removed > 0))))
          (effects [] s) (\<lambda>v. v = True) (?pre @ (stand_in t b ?H @ [ZRem ?K i]))"
        unfolding v if_False Let_def effects.simps(1)
        by (rule runs_bind [OF pre]) (rule last [OF _ True])
    qed
    with True Some show ?thesis by (simp add: remove_script_def)
  qed
qed

lemma runs_trim:
  assumes t: "timeline_keys t"
  shows "runs (trim exec t) s (\<lambda>_. True) (trim_script t s)"
proof -
  let ?K = "tl_key t" and ?T = "tl_reblogs t"
  let ?z = "drop (length (zs s ?K) - 800) (zs s ?K)"
  let ?fo = "limited (Some (80, 1)) (rev ?z)"
  let ?rr = "ZRemRangeByRank ?K 0 (- (FEED_MAX_ITEMS + 1))"
  let ?s' = "feed_effect ?rr s"
  let ?q = "ZRevRangeByScoreWithScores ?K PosInf NegInf (Some (REBLOG_FALLOFF, 1))"
  have q: "runs (io_bind (exec [?rr, ?q])
      (\<lambda>rs. case rs of [_, RPairs xs] \<Rightarrow> io_return xs | _ \<Rightarrow> io_fail)) s
      (\<lambda>xs. xs = ?fo) [?rr, ?q]"
    by (rule runs_bind_return [OF runs_exec [where P = "\<lambda>rs. \<exists>a. rs = [a, RPairs ?fo]"]])
       (auto simp: REBLOG_FALLOFF_def intro: runs_return split: list.splits freply.splits)
  show ?thesis
  proof (cases "falloff (zs s ?K)")
    case None
    then have fo: "?fo = []" by (auto simp: limited_first falloff_def split: if_splits)
    have "runs (trim exec t) s (\<lambda>_. True) ([?rr, ?q] @ [])"
      unfolding trim_def by (rule runs_bind [OF q]) (use fo in \<open>simp add: runs_return\<close>)
    then show ?thesis by (simp add: trim_script_def stale_boosts_def None)
  next
    case (Some f)
    then obtain m where len: "80 < length (zs s ?K)" and nth: "rev (zs s ?K) ! 80 = (m, f)"
      by (cases "rev (zs s ?K) ! 80") (auto simp: falloff_def split: if_splits)
    have "80 < length (zs s ?K) - (length (zs s ?K) - 800)" using len by arith
    with nth have fo: "?fo = [(m, f)]" by (simp add: limited_first rev_drop)
    let ?st = "stale_boosts t s"
    have ids: "runs (q_ids exec (ZRangeByScore ?T (Incl 0) (Incl f) None)) (effects [?rr, ?q] s)
        (\<lambda>w. w = ?st) []"
      by (rule runs_read [OF runs_q_ids])
         (auto simp: stale_boosts_def Some limited_def timeline_keys.keys_distinct [OF t])
    have untrack: "concat (map (\<lambda>b. [ZRem ?T b, Del (reblog_set t b)]) xs)
        = concat (map (untrack t) xs)" for xs
      by (simp add: untrack_def [abs_def])
    have "runs (trim exec t) s (\<lambda>_. True) ([?rr, ?q] @ ([] @ concat (map (untrack t) ?st)))"
      unfolding trim_def
    proof (rule runs_bind [OF q])
      fix v assume "v = ?fo"
      then have v: "v = [(m, f)]" using fo by simp
      show "runs (case v of [] \<Rightarrow> io_return ()
          | (_, falloff_score) # _ \<Rightarrow>
              io_bind (q_ids exec (ZRangeByScore ?T (Incl 0) (Incl falloff_score) None)) (\<lambda>stale.
              if stale = [] then io_return ()
              else q_unit exec (concat (map (\<lambda>b. [ZRem ?T b, Del (reblog_set t b)]) stale))))
          (effects [?rr, ?q] s) (\<lambda>_. True) ([] @ concat (map (untrack t) ?st))"
        unfolding v list.case prod.case
      proof (rule runs_bind [OF ids])
        fix w assume "w = ?st"
        then show "runs (if w = [] then io_return ()
            else q_unit exec (concat (map (\<lambda>b. [ZRem ?T b, Del (reblog_set t b)]) w)))
            (effects [] (effects [?rr, ?q] s)) (\<lambda>_. True) (concat (map (untrack t) ?st))"
          by (cases "w = []") (auto simp: untrack runs_return intro: runs_q_unit)
      qed
    qed
    then show ?thesis by (simp add: trim_script_def)
  qed
qed

text \<open>What a run tells about one execution.\<close>

lemma runs_InrD:
  "runs m (view r) P cs \<Longrightarrow> m r = (Inr v, r') \<Longrightarrow> P v \<and> view r' = effects cs (view r)"
  unfolding runs_def by (drule wp_InrD)

lemma runs_InlD:
  "runs m (view r) P cs \<Longrightarrow> m r = (Inl e, r') \<Longrightarrow> \<exists>n. view r' = effects (take n cs) (view r)"
  unfolding runs_def by (drule (1) wp_InlD) blast

end

context reliable_feed_redis
begin

text \<open>A run on a Redis that does not fail returns.\<close>

lemma runs_total:
  assumes "runs m (view r) P cs"
  obtains v r' where "m r = (Inr v, r')" and "P v" and "view r' = effects cs (view r)"
proof -
  obtain res r' where m: "m r = (res, r')" by (cases "m r")
  moreover have "\<exists>v. res = Inr v"
    using assms m unfolding runs_def by (cases res) (auto dest: wp_InlD)
  ultimately show thesis using that runs_InrD [OF assms] by blast
qed

end

end
