(* ===== verification/FeedWindow.thy ===== *)
theory FeedWindow
  imports FeedSpec
begin

text \<open>
  Boost aggregation, the point of \<^verbatim>\<open>add_to_feed\<close> and \<^verbatim>\<open>trim\<close> in \<^verbatim>\<open>src/feed.rs\<close>: among
  the newest entries of a feed no post is shown twice, neither as itself and a boost of it
  nor as two boosts of it. \<open>window_ok\<close> is the invariant; every command of the scripts of
  \<open>push\<close> keeps it, so it holds whenever Redis fails as well.
\<close>

section \<open>The newest entries\<close>

text \<open>An entry is fresh if at most \<open>REBLOG_FALLOFF\<close> entries are as new as it (itself included).\<close>

definition as_new :: "int set \<Rightarrow> int \<Rightarrow> int set" where
  "as_new F m = {n \<in> F. as_f64 m \<le> as_f64 n}"

definition fresh :: "int set \<Rightarrow> int \<Rightarrow> bool" where
  "fresh F m \<longleftrightarrow> m \<in> F \<and> card (as_new F m) \<le> 80"

definition root :: "(int \<Rightarrow> int option) \<Rightarrow> int \<Rightarrow> int" where
  "root rb m = (case rb m of Some b \<Rightarrow> b | None \<Rightarrow> m)"

definition scored :: "zset \<Rightarrow> bool" where
  "scored z \<longleftrightarrow> (\<forall>e \<in> set z. snd e = as_f64 (fst e))"

definition window_ok :: "(int \<Rightarrow> int option) \<Rightarrow> timeline \<Rightarrow> feed_store \<Rightarrow> bool" where
  "window_ok rb t s \<longleftrightarrow>
     scored (zs s (tl_key t)) \<and>
     (\<forall>m n. fresh (zmem (zs s (tl_key t))) m \<longrightarrow> fresh (zmem (zs s (tl_key t))) n \<longrightarrow>
        root rb m = root rb n \<longrightarrow> m = n) \<and>
     (\<forall>m b. fresh (zmem (zs s (tl_key t))) m \<longrightarrow> rb m = Some b \<longrightarrow>
        (b, as_f64 m) \<in> set (zs s (tl_reblogs t)))"

lemma finite_zmem [simp]: "finite (zmem z)"
  by (simp add: zmem_def)

lemma fresh_antimono:
  assumes "fresh F' m" and "F \<subseteq> F'" and "finite F'" and "m \<in> F"
  shows "fresh F m"
proof -
  have "card (as_new F m) \<le> card (as_new F' m)"
    using assms by (intro card_mono) (auto simp: as_new_def)
  with assms show ?thesis by (simp add: fresh_def)
qed

lemma sorted_desc_nth:
  assumes "sorted (map zord z)" and "i \<le> j" and "j < length z"
  shows "snd (rev z ! j) \<le> snd (rev z ! i)"
proof -
  have "zord (z ! (length z - Suc j)) \<le> zord (z ! (length z - Suc i))"
    using assms sorted_nth_mono [of "map zord z" "length z - Suc j" "length z - Suc i"] by simp
  then show ?thesis using assms by (auto simp: rev_nth zord_def)
qed

lemma card_first_entries:
  assumes "zset_ok z" and "k < length z"
  shows "card (fst ` set (take (Suc k) (rev z))) = Suc k"
proof -
  have "distinct (map fst (take (Suc k) (rev z)))"
    using assms by (simp add: zset_ok_def take_map [symmetric] rev_map [symmetric] distinct_take
        del: take_map)
  then show ?thesis using assms(2)
    by (metis Suc_leI distinct_card image_set length_map length_rev length_take min_absorb2)
qed

text \<open>The entries before place \<open>k\<close> are as new as the one there.\<close>

lemma first_entries_as_new:
  assumes "zset_ok z" and "scored z" and "k < length z"
    and "as_f64 m \<le> snd (rev z ! k)"
  shows "Suc k \<le> card (as_new (zmem z) m)"
proof -
  have "fst ` set (take (Suc k) (rev z)) \<subseteq> as_new (zmem z) m"
  proof
    fix n assume "n \<in> fst ` set (take (Suc k) (rev z))"
    then obtain i where i: "i \<le> k" "n = fst (rev z ! i)"
      using assms(3) by (auto simp: in_set_conv_nth) (metis fst_conv less_Suc_eq_le)
    with assms(3) have mem: "rev z ! i \<in> set z" by (metis le_less_trans length_rev nth_mem set_rev)
    have "snd (rev z ! k) \<le> snd (rev z ! i)"
      using assms(1,3) i(1) by (intro sorted_desc_nth) (auto simp: zset_ok_def)
    with assms(2,4) mem i(2) show "n \<in> as_new (zmem z) m"
      by (auto simp: as_new_def zmem_def scored_def)
  qed
  then have "card (fst ` set (take (Suc k) (rev z))) \<le> card (as_new (zmem z) m)"
    by (intro card_mono) (auto simp: as_new_def)
  with card_first_entries [OF assms(1,3)] show ?thesis by simp
qed

lemma fresh_rank:
  assumes "zset_ok z" and "scored z" and "fresh (zmem z) m"
  shows "rank_below (zrevrank m z) 80"
proof -
  from assms(3) have "m \<in> zmem z" by (simp add: fresh_def)
  then obtain k where k: "zrevrank m z = Some k" by (metis not_None_eq zrevrank_None)
  then have nth: "k < length z" "fst (rev z ! k) = m"
    using zrank_SomeD [of m "rev z" k] by (simp_all add: zrevrank_def)
  then have "rev z ! k \<in> set z" by (metis length_rev nth_mem set_rev)
  with assms(2) nth have "snd (rev z ! k) = as_f64 m" by (auto simp: scored_def)
  with first_entries_as_new [OF assms(1,2) nth(1), of m] assms(3) k
  show ?thesis by (simp add: fresh_def)
qed

lemma fresh_falloff:
  assumes "zset_ok z" and "scored z" and "fresh (zmem z) m" and "falloff z = Some f"
  shows "f < as_f64 m"
proof (rule ccontr)
  from assms(4) have f: "80 < length z" "snd (rev z ! 80) = f"
    by (auto simp: falloff_def split: if_splits)
  assume "\<not> f < as_f64 m"
  with f first_entries_as_new [OF assms(1,2) f(1), of m] assms(3)
  show False by (simp add: fresh_def)
qed

lemma fresh_trimmed:
  assumes "zset_ok z" and "scored z" and m: "fresh (zmem (drop (length z - 800) z)) m"
  shows "fresh (zmem z) m"
proof -
  let ?d = "length z - 800" let ?z = "drop ?d z"
  have sub: "zmem ?z \<subseteq> zmem z" by (auto simp: zmem_def dest: in_set_dropD)
  from m sub have mz: "m \<in> zmem z" by (auto simp: fresh_def)
  have "as_new (zmem z) m \<subseteq> as_new (zmem ?z) m"
  proof (rule ccontr)
    assume "\<not> as_new (zmem z) m \<subseteq> as_new (zmem ?z) m"
    then obtain n where n: "n \<in> zmem z" "as_f64 m \<le> as_f64 n" "n \<notin> zmem ?z"
      by (auto simp: as_new_def)
    then obtain e where e: "e \<in> set (take ?d z)" "fst e = n"
      by (auto simp: zmem_def) (metis UnE append_take_drop_id fst_conv image_eqI set_append)
    then have long: "800 < length z" by (cases "length z \<le> 800") auto
    have "as_f64 m \<le> as_f64 k" if "k \<in> zmem ?z" for k
    proof -
      from that obtain e' where e': "e' \<in> set ?z" "fst e' = k" by (auto simp: zmem_def)
      have "sorted (map zord (take ?d z) @ map zord ?z)"
        using assms(1) by (simp add: zset_ok_def flip: map_append)
      with e e' have "zord e \<le> zord e'" by (auto simp: sorted_append)
      then have "snd e \<le> snd e'" by (auto simp: zord_def)
      with e e' n assms(2) show ?thesis
        by (auto simp: scored_def dest!: in_set_takeD in_set_dropD)
    qed
    then have "as_new (zmem ?z) m = zmem ?z" by (auto simp: as_new_def)
    moreover have "card (zmem ?z) = 800"
    proof -
      have "distinct (map fst ?z)" using assms(1) by (simp add: zset_ok_def drop_map [symmetric])
      then have "card (set (map fst ?z)) = length (map fst ?z)" by (rule distinct_card)
      then show ?thesis using long by (simp add: zmem_def)
    qed
    ultimately show False using m by (simp add: fresh_def)
  qed
  then have "card (as_new (zmem z) m) \<le> card (as_new (zmem ?z) m)"
    by (intro card_mono) (auto simp: as_new_def)
  with m mz show ?thesis by (simp add: fresh_def)
qed

section \<open>Every command of a push keeps the window\<close>

lemma window_insert:
  assumes t: "timeline_keys t" and w: "window_ok rb t s"
    and new: "\<And>m. fresh (zmem (zs s (tl_key t))) m \<Longrightarrow> m \<noteq> i \<Longrightarrow> root rb m \<noteq> root rb i"
    and tracked: "\<And>b. rb i = Some b \<Longrightarrow> (b, as_f64 i) \<in> set (zs s (tl_reblogs t))"
  shows "window_ok rb t (feed_effect (ZAdd (tl_key t) (as_f64 i) i) s)"
proof -
  let ?F = "zmem (zs s (tl_key t))"
  have old: "fresh ?F m" if "fresh (insert i ?F) m" "m \<noteq> i" for m
    using that by (intro fresh_antimono [OF that(1)]) (auto simp: fresh_def)
  have "scored (zadd i i (zs s (tl_key t)))"
    using w by (auto simp: window_ok_def scored_def set_zadd)
  then show ?thesis
    using w old new tracked unfolding window_ok_def
    by (auto simp: timeline_keys.keys_distinct [OF t]) metis+
qed

lemma window_tracking:
  assumes "window_ok rb t s" and "zs s' (tl_key t) = zs s (tl_key t)"
    and "\<And>m b. fresh (zmem (zs s (tl_key t))) m \<Longrightarrow> rb m = Some b \<Longrightarrow>
      (b, as_f64 m) \<in> set (zs s (tl_reblogs t)) \<Longrightarrow> (b, as_f64 m) \<in> set (zs s' (tl_reblogs t))"
  shows "window_ok rb t s'"
  using assms unfolding window_ok_def by auto

lemma window_zaddnx:
  assumes "timeline_keys t" and "window_ok rb t s"
  shows "window_ok rb t (feed_effect (ZAddNX (tl_reblogs t) x b) s)"
  using assms(2)
  by (rule window_tracking)
     (auto simp: timeline_keys.keys_distinct [OF assms(1)] set_zadd zmem_def image_iff)

lemma window_sadd: "window_ok rb t s \<Longrightarrow> window_ok rb t (feed_effect (SAdd k m) s)"
  by (rule window_tracking) auto

lemma window_trimmed:
  assumes "timeline_keys t" and "store_ok s" and w: "window_ok rb t s"
  shows "window_ok rb t (feed_effect (ZRemRangeByRank (tl_key t) 0 (- (FEED_MAX_ITEMS + 1))) s)"
proof -
  let ?z = "zs s (tl_key t)"
  have z: "zset_ok ?z" "scored ?z" using assms by (auto simp: window_ok_def store_okD)
  then have "scored (drop (length ?z - 800) ?z)"
    by (auto simp: scored_def dest: in_set_dropD)
  with w fresh_trimmed [OF z] show ?thesis
    unfolding window_ok_def by (auto simp: timeline_keys.keys_distinct [OF assms(1)])
qed

lemma effects_untracking:
  assumes "timeline_keys t"
    and "\<And>c. c \<in> set cs \<Longrightarrow> (\<exists>b \<in> S. c = ZRem (tl_reblogs t) b) \<or> (\<exists>b. c = Del (reblog_set t b))"
  shows "zs (effects cs s) (tl_key t) = zs s (tl_key t) \<and>
    (\<forall>e \<in> set (zs s (tl_reblogs t)). fst e \<notin> S \<longrightarrow> e \<in> set (zs (effects cs s) (tl_reblogs t)))"
  using assms(2)
proof (induction cs arbitrary: s)
  case (Cons c cs)
  let ?s = "feed_effect c s"
  have "zs ?s (tl_key t) = zs s (tl_key t) \<and>
    (\<forall>e \<in> set (zs s (tl_reblogs t)). fst e \<notin> S \<longrightarrow> e \<in> set (zs ?s (tl_reblogs t)))"
    using Cons.prems [of c]
    by (auto simp: timeline_keys.keys_distinct [OF assms(1)] set_zrem)
  moreover have "zs (effects cs ?s) (tl_key t) = zs ?s (tl_key t) \<and>
    (\<forall>e \<in> set (zs ?s (tl_reblogs t)). fst e \<notin> S \<longrightarrow> e \<in> set (zs (effects cs ?s) (tl_reblogs t)))"
    using Cons by simp
  ultimately show ?case by simp
qed simp

lemma untrack_commands:
  "c \<in> set (concat (map (untrack t) bs)) \<Longrightarrow>
   (\<exists>b \<in> set bs. c = ZRem (tl_reblogs t) b) \<or> (\<exists>b. c = Del (reblog_set t b))"
  by (auto simp: untrack_def)

lemma fresh_not_stale:
  assumes "store_ok s" and "window_ok rb t s" and "fresh (zmem (zs s (tl_key t))) m"
    and "(b, as_f64 m) \<in> set (zs s (tl_reblogs t))"
  shows "b \<notin> set (stale_boosts t s)"
proof
  assume "b \<in> set (stale_boosts t s)"
  then obtain f where f1: "falloff (zs s (tl_key t)) = Some f"
      "b \<in> fst ` set (zbyscore (Incl 0) (Incl f) (zs s (tl_reblogs t)))"
    by (cases "falloff (zs s (tl_key t))") (auto simp: stale_boosts_def)
  then obtain x where f: "falloff (zs s (tl_key t)) = Some f" "x \<le> as_f64 f"
      "(b, x) \<in> set (zs s (tl_reblogs t))"
    by (auto simp: zbyscore_def)
  have z: "zset_ok (zs s (tl_key t))" "zset_ok (zs s (tl_reblogs t))"
    using assms(1) by (simp_all add: store_okD)
  with assms(4) f(3) have "x = as_f64 m" by (metis option.inject zscore_Some)
  moreover have "f < as_f64 m"
    using fresh_falloff [OF z(1) _ assms(3) f(1)] assms(2) by (simp add: window_ok_def)
  moreover have "as_f64 f = f"
  proof -
    from f(1) have "rev (zs s (tl_key t)) ! 80 \<in> set (zs s (tl_key t))"
      "f = snd (rev (zs s (tl_key t)) ! 80)"
      by (auto simp: falloff_def split: if_splits) (metis length_rev not_le nth_mem set_rev)
    with z(1) show ?thesis by (auto simp: zset_ok_def)
  qed
  ultimately show False using f(2) by simp
qed

lemma window_tracked:
  "window_ok rb t s \<Longrightarrow> fresh (zmem (zs s (tl_key t))) m \<Longrightarrow> rb m = Some b \<Longrightarrow>
   b \<in> zmem (zs s (tl_reblogs t))"
  unfolding window_ok_def zmem_def by (metis fst_conv image_eqI)

lemma window_unique:
  "window_ok rb t s \<Longrightarrow> fresh (zmem (zs s (tl_key t))) m \<Longrightarrow> fresh (zmem (zs s (tl_key t))) n \<Longrightarrow>
   root rb m = root rb n \<Longrightarrow> m = n"
  unfolding window_ok_def by blast

lemma root_simps [simp]:
  "rb m = None \<Longrightarrow> root rb m = m" "rb m = Some b \<Longrightarrow> root rb m = b"
  by (simp_all add: root_def)

lemma add_script_window:
  assumes t: "timeline_keys t" and s: "store_ok s" and w: "window_ok rb t s"
  shows "window_ok rb t (effects (take n (snd (add_script t i (rb i) True s))) s)"
proof (cases "rb i")
  case None
  let ?c = "ZAdd (tl_key t) (as_f64 i) i"
  have "window_ok rb t (feed_effect ?c s)" if "i \<notin> zmem (zs s (tl_reblogs t))"
  proof (rule window_insert [OF t w])
    fix m assume m: "fresh (zmem (zs s (tl_key t))) m" "m \<noteq> i"
    then show "root rb m \<noteq> root rb i"
      using window_tracked [OF w, of m i] None that by (cases "rb m") auto
  qed (use None in simp)
  with None w show ?thesis by (cases n) (auto simp: add_script_def)
next
  case (Some b)
  let ?K = "tl_key t" and ?T = "tl_reblogs t"
  let ?s1 = "feed_effect (ZAddNX ?T (as_f64 i) b) s"
  have w1: "window_ok rb t ?s1" by (rule window_zaddnx [OF t w])
  have add: "window_ok rb t (feed_effect (ZAdd ?K (as_f64 i) i) ?s1)"
    if far: "\<not> rank_below (zrevrank b (zs s ?K)) 80" and nt: "b \<notin> zmem (zs s ?T)"
  proof (rule window_insert [OF t w1])
    fix m assume "fresh (zmem (zs ?s1 ?K)) m" "m \<noteq> i"
    then have m: "fresh (zmem (zs s ?K)) m"
      by (simp add: timeline_keys.keys_distinct [OF t] split: if_splits)
    have "\<not> fresh (zmem (zs s ?K)) b"
      using fresh_rank far s w by (auto simp: window_ok_def store_okD)
    with m nt Some window_tracked [OF w m, of b] show "root rb m \<noteq> root rb i"
      by (cases "rb m") auto
  next
    fix b' assume "rb i = Some b'"
    with Some nt show "(b', as_f64 i) \<in> set (zs ?s1 ?T)" by (simp add: set_zadd)
  qed
  show ?thesis
    using Some w w1 add window_sadd [OF w1, of "reblog_set t b" i]
    by (cases n; cases "n - 1") (auto simp: add_script_def)
qed

lemma trim_script_window:
  assumes t: "timeline_keys t" and s: "store_ok s" and w: "window_ok rb t s"
  shows "window_ok rb t (effects (take n (trim_script t s)) s)"
proof (cases n)
  case (Suc k)
  let ?rr = "ZRemRangeByRank (tl_key t) 0 (- (FEED_MAX_ITEMS + 1))"
  let ?s1 = "feed_effect ?rr s" and ?cs = "concat (map (untrack t) (stale_boosts t s))"
  have w1: "window_ok rb t ?s1" by (rule window_trimmed [OF t s w])
  have w2: "window_ok rb t (effects cs ?s1)" if cs: "set cs \<subseteq> set ?cs" for cs
  proof (rule window_tracking [OF w1])
    have "(\<exists>b \<in> set (stale_boosts t s). c = ZRem (tl_reblogs t) b) \<or>
        (\<exists>b. c = Del (reblog_set t b))" if "c \<in> set cs" for c
      using cs that untrack_commands by blast
    note keep = effects_untracking [OF t this, of cs ?s1]
    then show "zs (effects cs ?s1) (tl_key t) = zs ?s1 (tl_key t)" by simp
    fix m b
    assume m: "fresh (zmem (zs ?s1 (tl_key t))) m" "(b, as_f64 m) \<in> set (zs ?s1 (tl_reblogs t))"
    have "fresh (zmem (zs s (tl_key t))) m"
      using m(1) fresh_trimmed s w by (auto simp: window_ok_def store_okD)
    then have "b \<notin> set (stale_boosts t s)"
      using fresh_not_stale [OF s w] m(2) by (simp add: timeline_keys.keys_distinct [OF t])
    with keep m(2) show "(b, as_f64 m) \<in> set (zs (effects cs ?s1) (tl_reblogs t))" by fastforce
  qed
  have "window_ok rb t (effects (take (k - 1) ?cs) ?s1)"
    by (rule w2) (auto dest: in_set_takeD)
  with Suc w1 show ?thesis
    by (cases k) (simp_all add: trim_script_def)
qed (use w in simp)

context feed_redis
begin

lemma wp_runs:
  assumes "runs m s P cs" and "\<And>v. P v \<Longrightarrow> Q v (effects cs s)"
    and "\<And>n. E (effects (take n cs) s)"
  shows "wp view m Q E s"
  using assms(1) unfolding runs_def by (rule wp_conseq) (use assms(2,3) in auto)

abbreviation feed_ok where
  "feed_ok rb t s \<equiv> store_ok s \<and> window_ok rb t s"

lemma wp_add_window:
  assumes "timeline_keys t" and "feed_ok rb t s"
  shows "wp view (add_to_feed exec t i (rb i) True) (\<lambda>_. feed_ok rb t) (feed_ok rb t) s"
proof (rule wp_runs [OF runs_add])
  fix n show "feed_ok rb t (effects (take n (snd (add_script t i (rb i) True s))) s)"
    using assms by (simp add: add_script_window store_ok_effects)
next
  show "feed_ok rb t (effects (snd (add_script t i (rb i) True s)) s)"
    using assms add_script_window [of t s rb "length (snd (add_script t i (rb i) True s))" i]
    by (simp add: store_ok_effects)
qed

lemma wp_trim_window:
  assumes "timeline_keys t" and "feed_ok rb t s"
  shows "wp view (trim exec t) (\<lambda>_. feed_ok rb t) (feed_ok rb t) s"
proof (rule wp_runs [OF runs_trim [OF assms(1)]])
  fix n show "feed_ok rb t (effects (take n (trim_script t s)) s)"
    using assms by (simp add: trim_script_window store_ok_effects)
next
  show "feed_ok rb t (effects (trim_script t s) s)"
    using assms trim_script_window [of t s rb "length (trim_script t s)"]
    by (simp add: store_ok_effects)
qed

lemma wp_push_window:
  assumes "timeline_keys t" and "feed_ok rb t s"
  shows "wp view (push exec t i (rb i) True) (\<lambda>_. feed_ok rb t) E s"
  unfolding push_def
proof (rule wp_or, rule wp_bind, rule wp_conseq [OF wp_add_window [OF assms]])
  fix v s' assume "feed_ok rb t s'"
  with assms(1) show "wp view (io_bind (if v then trim exec t else io_return ()) (\<lambda>_. io_return v))
      (\<lambda>_. feed_ok rb t) (feed_ok rb t) s'"
    by (intro wp_bind wp_if wp_conseq [OF wp_trim_window] wp_return) auto
qed

lemma push_window:
  assumes "timeline_keys t" and "feed_ok rb t (view r)"
  shows "feed_ok rb t (view (snd (push exec t i (rb i) True r)))"
proof -
  have "wp view (push exec t i (rb i) True) (\<lambda>_. feed_ok rb t) (feed_ok rb t) (view r)"
    by (rule wp_push_window [OF assms])
  from wpD [OF this] show ?thesis
    by (cases "push exec t i (rb i) True r"; cases "fst (push exec t i (rb i) True r)") auto
qed

end

text \<open>A history of pushes to one feed: each a status and the post it boosts, if any.\<close>

fun push_all :: "'r feed_exec \<Rightarrow> timeline \<Rightarrow> (int \<times> int option) list \<Rightarrow> 'r \<Rightarrow> 'r" where
  "push_all redis t [] r = r"
| "push_all redis t ((i, rb) # ps) r = push_all redis t ps (snd (push redis t i rb True r))"

context feed_redis
begin

lemma push_all_window:
  assumes "timeline_keys t" and "feed_ok rb t (view r)" and "\<forall>p \<in> set ps. snd p = rb (fst p)"
  shows "feed_ok rb t (view (push_all exec t ps r))"
  using assms(2,3)
proof (induction ps arbitrary: r)
  case (Cons p ps)
  then show ?case
    using push_window [OF assms(1) Cons.prems(1), of "fst p"] by (cases p) auto
qed simp

end

lemma window_ok_empty: "zs s (tl_key t) = [] \<Longrightarrow> window_ok rb t s"
  by (simp add: window_ok_def scored_def fresh_def)

end
