(* ===== verification/FeedTracking.thy ===== *)
theory FeedTracking
  imports FeedWindow
begin

text \<open>
  What holds between the three kinds of key of a timeline when every command went through:
  a tracked post has its boost in the feed, boosts are held back only for tracked posts, and
  held-back boosts boost the post they are held for (\<open>tracking_ok\<close>). Adding, removing,
  trimming and pushing keep it; from it follow that removing a boost puts the oldest one
  held back in its place, and that cleaning a feed leaves no key behind. Reading a feed
  (\<^verbatim>\<open>get\<close>) and the bound on its length are here too.
\<close>

definition tracking_ok :: "(int \<Rightarrow> int option) \<Rightarrow> timeline \<Rightarrow> feed_store \<Rightarrow> bool" where
  "tracking_ok rb t s \<longleftrightarrow>
     scored (zs s (tl_key t)) \<and>
     (\<forall>b x. (b, x) \<in> set (zs s (tl_reblogs t)) \<longrightarrow>
        (\<exists>m \<in> zmem (zs s (tl_key t)). rb m = Some b \<and> x = as_f64 m \<and> 0 \<le> m)) \<and>
     (\<forall>b. ss s (reblog_set t b) \<noteq> [] \<longrightarrow> b \<in> zmem (zs s (tl_reblogs t))) \<and>
     (\<forall>b m. m \<in> set (ss s (reblog_set t b)) \<longrightarrow> rb m = Some b \<and> 0 \<le> m) \<and>
     (\<forall>b. zs s (reblog_set t b) = [])"

lemma tracking_okI:
  assumes "scored (zs s (tl_key t))"
    and "\<And>b x. (b, x) \<in> set (zs s (tl_reblogs t)) \<Longrightarrow>
        \<exists>m \<in> zmem (zs s (tl_key t)). rb m = Some b \<and> x = as_f64 m \<and> 0 \<le> m"
    and "\<And>b. ss s (reblog_set t b) \<noteq> [] \<Longrightarrow> b \<in> zmem (zs s (tl_reblogs t))"
    and "\<And>b m. m \<in> set (ss s (reblog_set t b)) \<Longrightarrow> rb m = Some b \<and> 0 \<le> m"
    and "\<And>b. zs s (reblog_set t b) = []"
  shows "tracking_ok rb t s"
  using assms unfolding tracking_ok_def by blast

lemma tracking_okD:
  assumes "tracking_ok rb t s"
  shows "scored (zs s (tl_key t))"
    and "(b, x) \<in> set (zs s (tl_reblogs t)) \<Longrightarrow>
        \<exists>m \<in> zmem (zs s (tl_key t)). rb m = Some b \<and> x = as_f64 m \<and> 0 \<le> m"
    and "ss s (reblog_set t b) \<noteq> [] \<Longrightarrow> b \<in> zmem (zs s (tl_reblogs t))"
    and "m \<in> set (ss s (reblog_set t b)) \<Longrightarrow> rb m = Some b \<and> 0 \<le> m"
    and "zs s (reblog_set t b) = []"
  using assms unfolding tracking_ok_def by blast+

lemma tracking_ok_empty: "tracking_ok rb t empty_store"
  by (rule tracking_okI) (simp_all add: empty_store_def scored_def)

lemma scored_zadd: "scored z \<Longrightarrow> scored (zadd i i z)"
  by (auto simp: scored_def set_zadd)

lemma scored_zrem: "scored z \<Longrightarrow> scored (zrem i z)"
  by (auto simp: scored_def set_zrem)

section \<open>Adding\<close>

lemma add_script_tracking:
  assumes t: "timeline_keys t" and s: "tracking_ok rb t s" and i: "0 \<le> i"
  shows "tracking_ok rb t (effects (snd (add_script t i (rb i) True s)) s)"
proof -
  note keys [simp] = timeline_keys.keys_distinct [OF t]
  note d = tracking_okD [OF s]
  show ?thesis
  proof (cases "rb i")
    case None
    show ?thesis
    proof (cases "i \<in> zmem (zs s (tl_reblogs t))")
      case False
      then show ?thesis
        using d None by (intro tracking_okI) (auto simp: add_script_def scored_zadd)
    qed (use s None in \<open>simp add: add_script_def\<close>)
  next
    case (Some b)
    consider (near) "rank_below (zrevrank b (zs s (tl_key t))) 80"
      | (held) "\<not> rank_below (zrevrank b (zs s (tl_key t))) 80" "b \<in> zmem (zs s (tl_reblogs t))"
      | (new) "\<not> rank_below (zrevrank b (zs s (tl_key t))) 80" "b \<notin> zmem (zs s (tl_reblogs t))"
      by blast
    then show ?thesis
    proof cases
      case near
      with s Some show ?thesis by (simp add: add_script_def)
    next
      case held
      with d Some i show ?thesis
        by (intro tracking_okI) (auto simp: add_script_def split: if_splits)
    next
      case new
      with d Some i show ?thesis
        by (intro tracking_okI) (auto simp: add_script_def scored_zadd set_zadd)
    qed
  qed
qed

section \<open>Removing\<close>

lemma held_back_finite [simp]: "finite (held_back t b i s)"
  by (simp add: held_back_def)

lemma remove_script_boost:
  fixes b :: int
  assumes t: "timeline_keys t" and i: "i \<in> zmem (zs s (tl_key t))"
  defines "s' \<equiv> effects (snd (remove_script t i (Some b) True s)) s"
    and "H \<equiv> held_back t b i s"
  shows "zs s' (tl_key t) = zrem i (if H = {} then zs s (tl_key t)
           else zadd (Min H) (Min H) (zs s (tl_key t)))"
    and "zs s' (tl_reblogs t) = (if H = {} then zrem b (zs s (tl_reblogs t))
           else zadd (Min H) b (zrem b (zs s (tl_reblogs t))))"
    and "ss s' (reblog_set t c) =
           (if c = b then filter (\<lambda>x. x \<noteq> i) (ss s (reblog_set t b)) else ss s (reblog_set t c))"
    and "zs s' (reblog_set t c) = zs s (reblog_set t c)"
  unfolding s'_def H_def using i
  by (simp_all add: remove_script_def stand_in_def timeline_keys.keys_distinct [OF t])

lemma remove_script_tracking:
  assumes t: "timeline_keys t" and s: "tracking_ok rb t s"
  shows "tracking_ok rb t (effects (snd (remove_script t i (rb i) True s)) s)"
proof -
  note keys [simp] = timeline_keys.keys_distinct [OF t]
  note d = tracking_okD [OF s]
  show ?thesis
  proof (cases "rb i")
    case None
    show ?thesis
    proof (rule tracking_okI)
      fix c x
      assume "(c, x) \<in> set (zs (effects (snd (remove_script t i (rb i) True s)) s) (tl_reblogs t))"
      with None have "(c, x) \<in> set (zs s (tl_reblogs t))" by (simp add: remove_script_def set_zrem)
      with d(2) obtain m where m: "m \<in> zmem (zs s (tl_key t))" "rb m = Some c" "x = as_f64 m" "0 \<le> m"
        by blast
      moreover from m(2) None have "m \<noteq> i" by auto
      ultimately show "\<exists>m \<in> zmem (zs (effects (snd (remove_script t i (rb i) True s)) s) (tl_key t)).
          rb m = Some c \<and> x = as_f64 m \<and> 0 \<le> m"
        using None by (auto simp: remove_script_def)
    qed (use d None in \<open>auto simp: remove_script_def scored_zrem split: if_splits\<close>)
  next
    case (Some b)
    show ?thesis
    proof (cases "i \<in> zmem (zs s (tl_key t))")
      case False
      with s Some show ?thesis by (simp add: remove_script_def)
    next
      case True
      let ?H = "held_back t b i s"
      note r = remove_script_boost [OF t True, of b]
      have min: "rb (Min ?H) = Some b \<and> 0 \<le> Min ?H \<and> Min ?H \<noteq> i" if "?H \<noteq> {}"
        using Min_in [OF _ that] d(4) by (auto simp: held_back_def)
      show ?thesis unfolding Some
      proof (rule tracking_okI, unfold r)
        show "scored (zrem i (if ?H = {} then zs s (tl_key t)
            else zadd (Min ?H) (Min ?H) (zs s (tl_key t))))"
          using d(1) by (simp add: scored_zrem scored_zadd)
      next
        fix c x
        assume cx: "(c, x) \<in> set (if ?H = {} then zrem b (zs s (tl_reblogs t))
            else zadd (Min ?H) b (zrem b (zs s (tl_reblogs t))))"
        show "\<exists>m \<in> zmem (zrem i (if ?H = {} then zs s (tl_key t)
            else zadd (Min ?H) (Min ?H) (zs s (tl_key t)))). rb m = Some c \<and> x = as_f64 m \<and> 0 \<le> m"
        proof (cases "c = b")
          case True
          with cx have "?H \<noteq> {}" "x = as_f64 (Min ?H)"
            by (auto simp: set_zrem set_zadd split: if_splits)
          with min True show ?thesis
            by (intro bexI [of _ "Min ?H"]) (auto simp del: Min_ge_iff)
        next
          case False
          with cx have "(c, x) \<in> set (zs s (tl_reblogs t))"
            by (auto simp: set_zrem set_zadd split: if_splits)
          with d(2) obtain m where m: "m \<in> zmem (zs s (tl_key t))" "rb m = Some c" "x = as_f64 m"
              "0 \<le> m" by blast
          moreover from m(2) Some False have "m \<noteq> i" by auto
          ultimately show ?thesis by auto
        qed
      next
        fix c
        assume "(if c = b then filter (\<lambda>x. x \<noteq> i) (ss s (reblog_set t b))
            else ss s (reblog_set t c)) \<noteq> []"
        with d(3) show "c \<in> zmem (if ?H = {} then zrem b (zs s (tl_reblogs t))
            else zadd (Min ?H) b (zrem b (zs s (tl_reblogs t))))"
          by (auto simp: held_back_def filter_empty_conv split: if_splits)
      qed (use d in \<open>auto split: if_splits\<close>)
    qed
  qed
qed

section \<open>Trimming\<close>

lemma zs_untracks:
  assumes t: "timeline_keys t"
  shows "zs (effects (concat (map (untrack t) bs)) s) (tl_key t) = zs s (tl_key t) \<and>
    zs (effects (concat (map (untrack t) bs)) s) (tl_reblogs t) =
      filter (\<lambda>e. fst e \<notin> set bs) (zs s (tl_reblogs t)) \<and>
    ss (effects (concat (map (untrack t) bs)) s) (reblog_set t c) =
      (if c \<in> set bs then [] else ss s (reblog_set t c)) \<and>
    zs (effects (concat (map (untrack t) bs)) s) (reblog_set t c) =
      (if c \<in> set bs then [] else zs s (reblog_set t c))"
proof (induction bs arbitrary: s)
  case (Cons b bs)
  then show ?case
    by (auto simp: untrack_def timeline_keys.keys_distinct [OF t] zrem_def intro!: filter_cong)
qed simp

lemma as_f64_nonneg: "0 \<le> i \<Longrightarrow> 0 \<le> as_f64 i"
  using as_f64_mono [of 0 i] as_f64_exact [of 0] by simp

lemma as_f64_zero [simp]: "as_f64 0 = 0"
  using as_f64_exact [of 0] by simp

lemma falloff_kept:
  assumes z: "zset_ok z" and e: "e \<in> set z" and f: "falloff z = Some f" "f < snd e"
  shows "e \<in> set (drop (length z - 800) z)"
proof (rule ccontr)
  assume "e \<notin> set (drop (length z - 800) z)"
  with e have "e \<in> set (take (length z - 800) z)"
    by (metis UnE append_take_drop_id set_append)
  then obtain i where i: "i < length z - 800" "z ! i = e"
    by (metis in_set_conv_nth length_take min_less_iff_conj nth_take)
  have len: "80 < length z" "snd (rev z ! 80) = f"
    using f(1) by (auto simp: falloff_def split: if_splits)
  have "snd (rev z ! (length z - Suc i)) \<le> snd (rev z ! 80)"
    using z i len by (intro sorted_desc_nth) (auto simp: zset_ok_def)
  moreover have "rev z ! (length z - Suc i) = e"
    using i by (simp add: rev_nth)
  ultimately show False using f(2) len(2) by simp
qed

lemma trim_script_tracking:
  assumes t: "timeline_keys t" and ok: "store_ok s" and s: "tracking_ok rb t s"
  shows "tracking_ok rb t (effects (trim_script t s) s)"
proof -
  note keys [simp] = timeline_keys.keys_distinct [OF t]
  note d = tracking_okD [OF s]
  let ?z = "zs s (tl_key t)" and ?st = "stale_boosts t s"
  have z: "zset_ok ?z" using ok by (rule store_okD)
  have sf: "snd e = as_f64 (snd e)" if "e \<in> set ?z" for e
    using z that by (auto simp: zset_ok_def)
  let ?s' = "effects (trim_script t s) s"
  have r: "zs ?s' (tl_key t) = drop (length ?z - 800) ?z"
    "zs ?s' (tl_reblogs t) = filter (\<lambda>e. fst e \<notin> set ?st) (zs s (tl_reblogs t))"
    "ss ?s' (reblog_set t c) = (if c \<in> set ?st then [] else ss s (reblog_set t c))"
    "zs ?s' (reblog_set t c) = (if c \<in> set ?st then [] else zs s (reblog_set t c))" for c
    by (simp_all add: trim_script_def zs_untracks [OF t])
  show ?thesis
  proof (rule tracking_okI, unfold r)
    show "scored (drop (length ?z - 800) ?z)"
      using d(1) by (auto simp: scored_def dest: in_set_dropD)
  next
    fix b x
    assume "(b, x) \<in> set (filter (\<lambda>e. fst e \<notin> set ?st) (zs s (tl_reblogs t)))"
    then have bx: "(b, x) \<in> set (zs s (tl_reblogs t))" "b \<notin> set ?st" by simp_all
    with d(2) obtain m where m: "m \<in> zmem ?z" "rb m = Some b" "x = as_f64 m" "0 \<le> m" by blast
    have "(m, as_f64 m) \<in> set ?z"
      using m(1) d(1) by (auto simp: zmem_def scored_def)
    have "m \<in> zmem (drop (length ?z - 800) ?z)"
    proof (cases "falloff ?z")
      case None
      then have "length ?z \<le> 800" by (auto simp: falloff_def split: if_splits)
      with m(1) show ?thesis by simp
    next
      case (Some f)
      then have "rev ?z ! 80 \<in> set ?z" "f = snd (rev ?z ! 80)"
        by (auto simp: falloff_def split: if_splits) (metis length_rev not_le nth_mem set_rev)
      with sf have "as_f64 f = f" by metis
      moreover have "\<not> x \<le> as_f64 f"
        using bx Some m(3) as_f64_nonneg [OF m(4)]
        by (auto simp: stale_boosts_def zbyscore_def image_iff)
      ultimately have "f < snd (m, as_f64 m)" using m(3) by simp
      with falloff_kept [OF z \<open>(m, as_f64 m) \<in> set ?z\<close> Some]
      have "(m, as_f64 m) \<in> set (drop (length ?z - 800) ?z)" by blast
      then show ?thesis unfolding zmem_def by (metis fst_conv image_eqI)
    qed
    with m show "\<exists>m \<in> zmem (drop (length ?z - 800) ?z). rb m = Some b \<and> x = as_f64 m \<and> 0 \<le> m"
      by blast
  next
    fix b assume "(if b \<in> set ?st then [] else ss s (reblog_set t b)) \<noteq> []"
    then have "b \<notin> set ?st" "ss s (reblog_set t b) \<noteq> []" by (auto split: if_splits)
    with d(3) show "b \<in> zmem (filter (\<lambda>e. fst e \<notin> set ?st) (zs s (tl_reblogs t)))"
      by (auto simp: zmem_def)
  qed (use d in \<open>auto split: if_splits\<close>)
qed

section \<open>Pushing, on a Redis that answers\<close>

context feed_redis
begin

lemma push_True:
  assumes t: "timeline_keys t" and "push exec t i rb agg r = (Inr True, r')"
  shows "fst (add_script t i rb agg (view r)) \<and>
    view r' = effects (trim_script t (effects (snd (add_script t i rb agg (view r))) (view r)))
      (effects (snd (add_script t i rb agg (view r))) (view r))"
proof -
  obtain res r1 where a: "add_to_feed exec t i rb agg r = (res, r1)" by (rule prod.exhaust)
  with assms(2) obtain added where "res = Inr added"
    by (cases res) (auto simp: push_def io_or_def io_bind_def)
  with a have add: "add_to_feed exec t i rb agg r = (Inr added, r1)" by simp
  with assms(2) have "added" "trim exec t r1 = (Inr (), r')"
    by (auto simp: push_def io_or_def io_bind_def io_return_def split: prod.splits sum.splits if_splits)
  with runs_InrD [OF runs_add add] runs_InrD [OF runs_trim [OF t]] show ?thesis by auto
qed

lemma push_True_feed:
  assumes t: "timeline_keys t" and "push exec t i rb agg r = (Inr True, r')"
  shows "zs (view r') (tl_key t) =
    (let z = zadd i i (zs (view r) (tl_key t)) in drop (length z - 800) z)"
  using push_True [OF assms]
  by (auto simp: add_script_def trim_script_def effects_append zs_untracks [OF t] Let_def
      timeline_keys.keys_distinct [OF t] split: option.splits if_splits)

lemma push_tracking:
  assumes t: "timeline_keys t" and "store_ok (view r)" and "tracking_ok rb t (view r)"
    and "0 \<le> i" and "push exec t i (rb i) True r = (Inr True, r')"
  shows "store_ok (view r') \<and> tracking_ok rb t (view r')"
  using push_True [OF t assms(5)] assms
  by (auto intro!: trim_script_tracking add_script_tracking store_ok_effects)

end

section \<open>Cleaning\<close>

lemma effects_dels:
  "zs (effects (map (\<lambda>b. Del (f b)) bs) s) k = (if k \<in> f ` set bs then [] else zs s k) \<and>
   ss (effects (map (\<lambda>b. Del (f b)) bs) s) k = (if k \<in> f ` set bs then [] else ss s k)"
  by (induction bs arbitrary: s) auto

lemmas zs_dels = effects_dels [THEN conjunct1] and ss_dels = effects_dels [THEN conjunct2]

context reliable_feed_redis
begin

lemma exec_not_Inl: "exec cs r \<noteq> (Inl e, r')"
  using exec_Inr [of cs r] by auto

lemma clean_feed_runs:
  "view (snd (clean_feed exec t r)) =
    effects ([Del (tl_key t), Del (tl_reblogs t)] @
      map (\<lambda>b. Del (reblog_set t b)) (map fst (zs (view r) (tl_reblogs t)))) (view r)"
proof -
  let ?c = "ZRange (tl_reblogs t) 0 (- 1)"
  have "runs (q_ids exec ?c) (view r) (\<lambda>w. w = map fst (zs (view r) (tl_reblogs t))) []"
    by (rule runs_read [OF runs_q_ids]) auto
  moreover obtain rs r1 where e: "exec [?c] r = (Inr rs, r1)"
    using exec_Inr [of "[?c]" r] by (cases "exec [?c] r") auto
  moreover have "rs = [RIds (map fst (zs (view r) (tl_reblogs t)))]"
    using exec_ok [OF e] by (auto split: list.splits)
  ultimately have q: "q_ids exec ?c r = (Inr (map fst (zs (view r) (tl_reblogs t))), r1)"
      and vq: "view r1 = view r"
    using exec_ok [OF e] by (simp_all add: q_ids_def io_bind_def io_return_def)
  let ?cs = "[Del (tl_key t), Del (tl_reblogs t)] @
      map (\<lambda>b. Del (reblog_set t b)) (map fst (zs (view r) (tl_reblogs t)))"
  obtain rs2 r2 where e2: "exec ?cs r1 = (Inr rs2, r2)"
    using exec_Inr [of ?cs r1] by (cases "exec ?cs r1") auto
  have "snd (clean_feed exec t r) = r2"
    using q e2 by (simp add: clean_feed_def io_bind_def io_or_def q_unit_def io_return_def)
  with exec_ok [OF e2] vq show ?thesis by simp
qed

lemma clean_feed_complete:
  assumes "tracking_ok rb t (view r)" and "k \<in> tl_keys t"
  shows "zs (view (snd (clean_feed exec t r))) k = [] \<and> ss (view (snd (clean_feed exec t r))) k = []"
proof -
  let ?bs = "map fst (zs (view r) (tl_reblogs t))"
  note d = tracking_okD [OF assms(1)]
  consider "k = tl_key t" | "k = tl_reblogs t" | b where "k = reblog_set t b"
    using assms(2) by (auto simp: tl_keys_def)
  then show ?thesis
  proof cases
    case (3 b)
    show ?thesis
    proof (cases "b \<in> set ?bs")
      case True
      with 3 show ?thesis
        unfolding clean_feed_runs effects_append zs_dels ss_dels by simp
    next
      case False
      then have "ss (view r) (reblog_set t b) = []" using d(3) by (auto simp: zmem_def)
      with 3 d(5) show ?thesis
        unfolding clean_feed_runs effects_append zs_dels ss_dels by simp
    qed
  qed (unfold clean_feed_runs effects_append zs_dels ss_dels, auto)
qed

end

section \<open>The life of a feed\<close>

text \<open>
  A timeline's states under the operations the code performs on it, for receivers who have
  boosts aggregated; \<open>rb\<close> says which post a status boosts.
\<close>

inductive feed_step :: "'r feed_exec \<Rightarrow> timeline \<Rightarrow> (int \<Rightarrow> int option) \<Rightarrow> 'r \<Rightarrow> 'r \<Rightarrow> bool"
  for redis t rb where
  pushed: "0 \<le> i \<Longrightarrow> push redis t i (rb i) True r = (res, r') \<Longrightarrow> feed_step redis t rb r r'"
| removed: "remove_from_feed redis t i (rb i) True r = (res, r') \<Longrightarrow> feed_step redis t rb r r'"
| cleaned: "clean_feed redis t r = (res, r') \<Longrightarrow> feed_step redis t rb r r'"

inductive_cases feed_stepE: "feed_step redis t rb r r'"

definition feed_reaches :: "'r feed_exec \<Rightarrow> timeline \<Rightarrow> (int \<Rightarrow> int option) \<Rightarrow> 'r \<Rightarrow> 'r \<Rightarrow> bool" where
  "feed_reaches redis t rb = (feed_step redis t rb)\<^sup>*\<^sup>*"

context feed_redis
begin

text \<open>However Redis fails, the operations of a timeline change only its own keys.\<close>

lemma reaches_frame:
  assumes "feed_reaches exec t rb r r'" and "store_ok (view r)"
  shows "store_ok (view r') \<and> frame (tl_keys t) (view r) (view r')"
  using assms(1) [unfolded feed_reaches_def]
proof (induction rule: rtranclp_induct)
  case (step y z)
  from step(2) have "store_ok (view z) \<and> frame (tl_keys t) (view y) (view z)"
  proof (rule feed_stepE)
    fix i res assume "push exec t i (rb i) True y = (res, z)"
    with confined_push step(3) [THEN conjunct1] show ?thesis by (rule confinedD)
  next
    fix i res assume "remove_from_feed exec t i (rb i) True y = (res, z)"
    with confined_remove step(3) [THEN conjunct1] show ?thesis by (rule confinedD)
  next
    fix res assume "clean_feed exec t y = (res, z)"
    with confined_clean step(3) [THEN conjunct1] show ?thesis by (rule confinedD)
  qed
  with step(3) show ?case by (blast intro: frame_trans)
qed (use assms(2) in simp)

end

context reliable_feed_redis
begin

lemma push_reliable:
  assumes t: "timeline_keys t"
  shows "view (snd (push exec t i rb agg r)) =
    (let (added, cs) = add_script t i rb agg (view r); s = effects cs (view r) in
     if added then effects (trim_script t s) s else s)"
proof -
  obtain r1 where a: "add_to_feed exec t i rb agg r = (Inr (fst (add_script t i rb agg (view r))), r1)"
    and v1: "view r1 = effects (snd (add_script t i rb agg (view r))) (view r)"
    using runs_total [OF runs_add [of t i rb agg "view r"]] by blast
  obtain v r2 where "trim exec t r1 = (Inr v, r2)" and "view r2 = effects (trim_script t (view r1)) (view r1)"
    using runs_total [OF runs_trim [OF t, of "view r1"]] by blast
  with a v1 show ?thesis
    by (auto simp: push_def io_or_def io_bind_def io_return_def Let_def split: prod.splits)
qed

lemma push_tracking_always:
  assumes "timeline_keys t" and "store_ok (view r)" and "tracking_ok rb t (view r)" and "0 \<le> i"
  shows "store_ok (view (snd (push exec t i (rb i) True r))) \<and>
    tracking_ok rb t (view (snd (push exec t i (rb i) True r)))"
  using assms unfolding push_reliable [OF assms(1)] Let_def
  by (auto intro!: trim_script_tracking add_script_tracking store_ok_effects split: prod.split)
    (metis add_script_tracking snd_conv trim_script_tracking store_ok_effects)+

lemma remove_tracking:
  assumes "timeline_keys t" and "store_ok (view r)" and "tracking_ok rb t (view r)"
  shows "store_ok (view (snd (remove_from_feed exec t i (rb i) True r))) \<and>
    tracking_ok rb t (view (snd (remove_from_feed exec t i (rb i) True r)))"
proof -
  obtain v r' where "remove_from_feed exec t i (rb i) True r = (Inr v, r')"
    and "view r' = effects (snd (remove_script t i (rb i) True (view r))) (view r)"
    using runs_total [OF runs_remove [OF assms(1), of i "rb i" True "view r"]] by blast
  with assms show ?thesis by (simp add: remove_script_tracking store_ok_effects)
qed

lemma clean_tracking:
  assumes "tracking_ok rb t (view r)" and "store_ok (view r)"
  shows "store_ok (view (snd (clean_feed exec t r))) \<and> tracking_ok rb t (view (snd (clean_feed exec t r)))"
proof
  show "store_ok (view (snd (clean_feed exec t r)))"
    unfolding clean_feed_runs using assms(2) by (rule store_ok_effects)
  note c = clean_feed_complete [OF assms(1)]
  show "tracking_ok rb t (view (snd (clean_feed exec t r)))"
    using c by (intro tracking_okI) (auto simp: tl_keys_def scored_def)
qed

lemma reaches_tracking:
  assumes "feed_reaches exec t rb r r'" and "timeline_keys t"
    and "store_ok (view r)" and "tracking_ok rb t (view r)"
  shows "store_ok (view r') \<and> tracking_ok rb t (view r')"
  using assms(1) [unfolded feed_reaches_def]
proof (induction rule: rtranclp_induct)
  case (step y z)
  from step(2) show ?case
    by (rule feed_stepE)
      (use step(3) assms(2) push_tracking_always [of t y rb] remove_tracking [of t y rb]
        clean_tracking [of rb t y] in \<open>metis snd_conv\<close>)+
qed (use assms(3,4) in simp)

end

section \<open>Reading\<close>

definition in_page :: "int option \<Rightarrow> int option \<Rightarrow> int \<times> int \<Rightarrow> bool" where
  "in_page lo hi e \<longleftrightarrow> (case lo of None \<Rightarrow> True | Some l \<Rightarrow> as_f64 l < snd e) \<and>
     (case hi of None \<Rightarrow> True | Some h \<Rightarrow> snd e < as_f64 h)"

definition page :: "zset \<Rightarrow> int option \<Rightarrow> int option \<Rightarrow> int option \<Rightarrow> int \<Rightarrow> int list" where
  "page z max_id since_id min_id limit =
     (case min_id of
        Some m \<Rightarrow> map fst (limited (Some (0, limit)) (filter (in_page (Some m) max_id) z))
      | None \<Rightarrow> map fst (limited (Some (0, limit)) (rev (filter (in_page since_id max_id) z))))"

lemma zbyscore_page:
  "zbyscore (case lo of None \<Rightarrow> ExclNegInf | Some l \<Rightarrow> Excl l)
     (case hi of None \<Rightarrow> ExclPosInf | Some h \<Rightarrow> Excl h) z = filter (in_page lo hi) z"
  by (auto simp: zbyscore_def in_page_def intro!: filter_cong split: option.splits)

context feed_redis
begin

lemma runs_get:
  "wp view (get exec key max_id since_id min_id limit)
     (\<lambda>xs s'. s' = s \<and> (xs = page (zs s key) max_id since_id min_id limit \<or> xs = [])) E s"
proof (cases min_id)
  case None
  have "runs (q_ids exec (ZRevRangeByScore key (case max_id of None \<Rightarrow> ExclPosInf | Some i \<Rightarrow> Excl i)
      (case since_id of None \<Rightarrow> ExclNegInf | Some i \<Rightarrow> Excl i) (Some (0, limit)))) s
      (\<lambda>w. w = page (zs s key) max_id since_id min_id limit) []"
    by (rule runs_read [OF runs_q_ids]) (auto simp: page_def None zbyscore_page)
  then show ?thesis
    unfolding get_def Let_def None option.case
    by (intro wp_or) (rule wp_runs, assumption, use None in auto)
next
  case (Some m)
  have "runs (q_ids exec (ZRangeByScore key (Excl m)
      (case max_id of None \<Rightarrow> ExclPosInf | Some i \<Rightarrow> Excl i) (Some (0, limit)))) s
      (\<lambda>w. w = page (zs s key) max_id since_id min_id limit) []"
    using zbyscore_page [of "Some m" max_id]
    by (intro runs_read [OF runs_q_ids]) (auto simp: page_def Some)
  then show ?thesis
    unfolding get_def Let_def Some option.case
    by (intro wp_or) (rule wp_runs, assumption, use Some in auto)
qed

end

lemma page_mem:
  assumes "scored z" and "x \<in> set (page z max_id since_id min_id limit)"
  shows "x \<in> zmem z \<and> (case max_id of None \<Rightarrow> True | Some h \<Rightarrow> x < h) \<and>
    (case (case min_id of None \<Rightarrow> since_id | Some m \<Rightarrow> Some m) of None \<Rightarrow> True | Some l \<Rightarrow> l < x)"
proof -
  have sub: "set (limited (Some (0, limit)) ys) \<subseteq> set ys" for ys :: zset
    by (auto simp: limited_def dest: in_set_takeD)
  from assms(2) sub obtain e where e: "e \<in> set z" "fst e = x"
      "in_page (case min_id of None \<Rightarrow> since_id | Some m \<Rightarrow> Some m) max_id e"
    by (cases min_id) (fastforce simp: page_def)+
  moreover have "snd e = as_f64 x" using assms(1) e by (auto simp: scored_def)
  ultimately show ?thesis
    by (auto simp: in_page_def zmem_def split: option.splits dest: as_f64_less)
qed

lemma page_length: "0 \<le> limit \<Longrightarrow> length (page z max_id since_id min_id limit) \<le> nat limit"
  by (simp add: page_def limited_def split: option.splits)

lemma page_distinct:
  assumes "zset_ok z"
  shows "distinct (page z max_id since_id min_id limit)"
proof -
  have d: "distinct (map fst (filter P z))" for P
    using assms by (simp add: zset_ok_def distinct_map_filter)
  have l: "distinct (map fst (limited (Some (0, limit)) ys))" if "distinct (map fst ys)" for ys :: zset
    using that by (auto simp: limited_def take_map [symmetric] simp del: take_map)
  show ?thesis
    using d by (auto simp: page_def rev_map [symmetric] intro!: l split: option.splits)
qed

text \<open>A page without \<open>min_id\<close> is the newest part of what lies between the bounds.\<close>

lemma page_newest:
  assumes "zset_ok z" and "scored z" and "0 \<le> limit"
    and x: "x \<in> set (page z max_id since_id None limit)"
    and y: "(y, as_f64 y) \<in> set z" "in_page since_id max_id (y, as_f64 y)" "as_f64 x < as_f64 y"
  shows "y \<in> set (page z max_id since_id None limit)"
proof -
  let ?w = "rev (filter (in_page since_id max_id) z)"
  have p: "page z max_id since_id None limit = map fst (take (nat limit) ?w)"
    using assms(3) by (simp add: page_def limited_def)
  from x p obtain i where i: "i < nat limit" "i < length ?w" "fst (?w ! i) = x"
    by (auto simp: in_set_conv_nth)
  from y(1,2) have "(y, as_f64 y) \<in> set ?w" by simp
  then obtain j where j: "j < length ?w" "?w ! j = (y, as_f64 y)" by (metis in_set_conv_nth)
  have "?w ! i \<in> set z" using nth_mem [OF i(2)] by simp
  with assms(2) i(3) have xi: "snd (?w ! i) = as_f64 x" by (auto simp: scored_def)
  have "j < i"
  proof (rule ccontr)
    assume "\<not> j < i"
    moreover have "sorted (map zord (filter (in_page since_id max_id) z))"
      using assms(1) by (simp add: zset_ok_def sorted_filter)
    ultimately have "snd (?w ! j) \<le> snd (?w ! i)"
      using j(1) by (intro sorted_desc_nth) auto
    with j xi y(3) show False by simp
  qed
  with i(1) j have "take (nat limit) ?w ! j = (y, as_f64 y)" "j < length (take (nat limit) ?w)"
    by simp_all
  then have "(y, as_f64 y) \<in> set (take (nat limit) ?w)" by (metis nth_mem)
  then show ?thesis unfolding p by force
qed

end
