(* ===== verification/FeedFanoutFacts.thy ===== *)
theory FeedFanoutFacts
  imports FeedFanout FeedFilterFacts FeedTracking
begin

text \<open>
  What the fan-out promises: who is delivered to and who is notified, that the decision is the
  one Mastodon's workers make, and which timelines it can change.
\<close>

section \<open>The plan\<close>

definition admits :: "candidate \<Rightarrow> (int \<rightharpoonup> crutches) \<Rightarrow> int \<Rightarrow> bool" where
  "admits st cs r = (case cs r of None \<Rightarrow> False | Some c \<Rightarrow> filter_result st r c Home = None)"

definition rejects :: "candidate \<Rightarrow> (int \<rightharpoonup> crutches) \<Rightarrow> int \<Rightarrow> bool" where
  "rejects st cs r = (case cs r of None \<Rightarrow> False | Some c \<Rightarrow> filter_result st r c Home \<noteq> None)"

definition rings :: "candidate \<Rightarrow> (int \<rightharpoonup> crutches) \<Rightarrow> int \<Rightarrow> bool" where
  "rings st cs r = (case cs r of None \<Rightarrow> False
     | Some c \<Rightarrow> filter_result st r c Home \<noteq> Some Filter \<and> notifying c)"

definition tag_admits :: "candidate \<Rightarrow> string option \<Rightarrow> (int \<rightharpoonup> crutches) \<Rightarrow> int \<Rightarrow> bool" where
  "tag_admits st ad cs r = (case cs r of None \<Rightarrow> False | Some c \<Rightarrow> \<not> filter_from_tags st ad r c)"

definition tag_rejects :: "candidate \<Rightarrow> string option \<Rightarrow> (int \<rightharpoonup> crutches) \<Rightarrow> int \<Rightarrow> bool" where
  "tag_rejects st ad cs r = (case cs r of None \<Rightarrow> False | Some c \<Rightarrow> filter_from_tags st ad r c)"

lemma fold_plan_follower:
  "fold (plan_follower st cs nt up) fs (d, u, n) =
   (d @ filter (admits st cs) fs, u @ (if up then filter (rejects st cs) fs else []),
    n @ (if nt then filter (rings st cs) fs else []))"
  by (induction fs arbitrary: d u n)
    (auto simp: plan_follower_def admits_def rejects_def rings_def Let_def split: option.splits)

lemma fold_plan_tag_follower:
  "fold (plan_tag_follower st ad cs up) fs (d, u, n) =
   (d @ filter (tag_admits st ad cs) fs, u @ (if up then filter (tag_rejects st ad cs) fs else []), n)"
  by (induction fs arbitrary: d u n)
    (auto simp: plan_tag_follower_def tag_admits_def tag_rejects_def split: option.splits)

definition home_followers :: "database \<Rightarrow> distributed \<Rightarrow> int list" where
  "home_followers db d = (if d_visibility d \<in> {VIS_PUBLIC, VIS_UNLISTED, VIS_PRIVATE}
     then followers_for_local_distribution db (c_account (d_status d))
     else mentioned_followers db (c_id (d_status d)) (c_account (d_status d)))"

definition home_tags :: "database \<Rightarrow> distributed \<Rightarrow> int list" where
  "home_tags db d = (if broadcastable d then tag_followers db (c_id (d_status d)) else [])"

lemma load_distributedE:
  assumes "load_distributed db i = Some d"
  obtains s a r where "(s, a, r) \<in> set (distributed_rows db i)" and "st_id s = i"
    and "s \<in> set (statuses db)" and "a \<in> set (accounts db)" and "ac_id a = st_account s" and "\<not> st_deleted s"
    and "d_status d = candidate_of s r" and "d_visibility d = st_visibility s"
    and "d_author_domain d = ac_domain a" and "d_author_silenced d = ac_silenced a"
    and "case r of None \<Rightarrow> \<not> ac_suspended a | Some (_, ra) \<Rightarrow> \<forall>b. ra = Some b \<longrightarrow> \<not> ac_suspended b"
proof -
  from assms obtain s a r rest where rows: "fetch_or_default db QDistributed (distributed_rows db i) = (s, a, r) # rest"
    by (auto simp: load_distributed_def split: list.splits)
  then have "(s, a, r) \<in> set (fetch_or_default db QDistributed (distributed_rows db i))" by simp
  then have mem: "(s, a, r) \<in> set (distributed_rows db i)"
    by (simp only: in_fetch_or_default)
  with assms rows show thesis
    by (intro that [OF mem])
      (auto simp: load_distributed_def distributed_rows_def Let_def split: if_splits option.splits)
qed

lemma load_distributed_id: "load_distributed db i = Some d \<Longrightarrow> c_id (d_status d) = i"
  by (erule load_distributedE) (simp add: candidate_of_def)

lemma plan_home_eq:
  assumes "load_distributed db i = Some d"
  shows "plan_home db i up =
    (case crutches_for db (d_status d) (d_author_domain d) (remdups (home_followers db d @ home_tags db d)) True of
       Inl _ \<Rightarrow> None
     | Inr cs \<Rightarrow> Some (d, fold (plan_tag_follower (d_status d) (d_author_domain d) cs up) (home_tags db d)
         (fold (plan_follower (d_status d) cs (c_reblog_of (d_status d) = None \<and> \<not> (c_reply (d_status d) \<and>
            c_in_reply_to_account (d_status d) \<noteq> Some (c_account (d_status d))) \<and> \<not> up) up)
          (home_followers db d) (signed_in_recently db [c_account (d_status d)], [], []))))"
  using assms by (simp only: plan_home_def Let_def option.case home_followers_def home_tags_def
    load_distributed_id [OF assms])

lemma plan_home_shape:
  assumes "plan_home db i up = Some (d, dl, un, nt)"
  obtains cs where "load_distributed db i = Some d"
    and "crutches_for db (d_status d) (d_author_domain d) (remdups (home_followers db d @ home_tags db d)) True = Inr cs"
    and "dl = signed_in_recently db [c_account (d_status d)] @ filter (admits (d_status d) cs) (home_followers db d)
      @ filter (tag_admits (d_status d) (d_author_domain d) cs) (home_tags db d)"
    and "un = (if up then filter (rejects (d_status d) cs) (home_followers db d) else [])
      @ (if up then filter (tag_rejects (d_status d) (d_author_domain d) cs) (home_tags db d) else [])"
    and "nt = (if c_reblog_of (d_status d) = None \<and> \<not> (c_reply (d_status d) \<and>
        c_in_reply_to_account (d_status d) \<noteq> Some (c_account (d_status d))) \<and> \<not> up
      then filter (rings (d_status d) cs) (home_followers db d) else [])"
proof -
  from assms obtain d' where d': "load_distributed db i = Some d'"
    by (auto simp: plan_home_def split: option.splits)
  from assms obtain cs where cs: "crutches_for db (d_status d') (d_author_domain d')
      (remdups (home_followers db d' @ home_tags db d')) True = Inr cs"
    by (auto simp: plan_home_eq [OF d'] split: sum.splits)
  from assms have eq: "d' = d \<and>
      signed_in_recently db [c_account (d_status d')] @ filter (admits (d_status d') cs) (home_followers db d')
        @ filter (tag_admits (d_status d') (d_author_domain d') cs) (home_tags db d') = dl \<and>
      (if up then filter (rejects (d_status d') cs) (home_followers db d') else [])
        @ (if up then filter (tag_rejects (d_status d') (d_author_domain d') cs) (home_tags db d') else []) = un \<and>
      (if c_reblog_of (d_status d') = None \<and> \<not> (c_reply (d_status d') \<and>
          c_in_reply_to_account (d_status d') \<noteq> Some (c_account (d_status d'))) \<and> \<not> up
        then filter (rings (d_status d') cs) (home_followers db d') else []) = nt"
    by (simp only: plan_home_eq [OF d'] cs sum.case fold_plan_follower fold_plan_tag_follower
      option.inject prod.inject append_Nil append_assoc) (elim conjE, hypsubst, intro conjI refl)
  with d' cs show thesis
    by (elim conjE) (rule that; simp only:; rule sym; assumption)
qed

text \<open>Only accounts that signed in within the last \<open>ACTIVE_DAYS\<close> days receive anything.\<close>

definition is_active :: "database \<Rightarrow> int \<Rightarrow> bool" where
  "is_active db r \<longleftrightarrow> (\<exists>u \<in> set (users db). us_account u = r \<and> active_user db u)"

lemma home_followers_active: "r \<in> set (home_followers db d) \<Longrightarrow> is_active db r"
  by (auto simp: home_followers_def followers_for_local_distribution_def mentioned_followers_def
    in_fetch_or_default select_distinct_def is_active_def split: if_splits)

lemma home_tags_active: "r \<in> set (home_tags db d) \<Longrightarrow> is_active db r"
  by (auto simp: home_tags_def tag_followers_def in_fetch_or_default select_distinct_def is_active_def
    split: if_splits)

lemma plan_home_active:
  assumes "plan_home db i up = Some (d, dl, un, nt)"
  shows "\<forall>r \<in> set (dl @ un @ nt). is_active db r"
proof -
  have "is_active db r" if "r \<in> set (signed_in_recently db ids)" for r ids
    using that by (auto simp: in_signed_in_recently is_active_def)
  with assms show ?thesis
    by (auto elim!: plan_home_shape split: if_splits dest: home_followers_active home_tags_active)
qed


section \<open>Which keys the fan-out can touch\<close>

definition home_keys_of :: "keyspace \<Rightarrow> int set \<Rightarrow> string set" where
  "home_keys_of keys A = (\<Union>i \<in> A. tl_keys (timeline_home keys i))"

definition list_keys_of :: "keyspace \<Rightarrow> int set \<Rightarrow> string set" where
  "list_keys_of keys A = (\<Union>i \<in> A. tl_keys (timeline_list keys i))"

context feed_redis
begin

lemma confined_mono: "confined K m \<Longrightarrow> K \<subseteq> K' \<Longrightarrow> confined K' m"
  unfolding confined_def [of K']
  by (intro allI impI, erule (1) confinedE) (auto simp: frame_def)

lemma confined_unpush: "confined (tl_keys t) (unpush exec t i rb agg)"
  unfolding unpush_def by (intro confined_rules confined_remove)

lemma confined_push_homes:
  "(\<Union>i \<in> set is'. tl_keys (timeline_home keys i)) \<subseteq> K \<Longrightarrow>
   confined K (push_homes exec keys sid rb sep is' pushed)"
proof (induction is' arbitrary: pushed)
  case (Cons i is')
  then show ?case
    by (auto intro!: confined_bind intro: confined_mono [OF confined_push])
qed simp

lemma confined_push_lists:
  "(\<Union>l \<in> set ls. tl_keys (timeline_list keys (fst l))) \<subseteq> K \<Longrightarrow>
   confined K (push_lists exec keys sid rb sep up out ls pushed)"
proof (induction ls arbitrary: pushed)
  case (Cons l ls)
  then have "confined K (push_lists exec keys sid rb sep up out ls p)" for p by auto
  moreover from Cons.prems have "confined K (push exec (timeline_list keys (fst l)) i rb agg)"
    "confined K (unpush exec (timeline_list keys (fst l)) i rb agg)" for i agg
    by (auto intro: confined_mono [OF confined_push] confined_mono [OF confined_unpush])
  ultimately show ?case
    by (auto simp: Let_def intro!: confined_bind split: option.split bool.split)
qed simp

lemma confined_fan_out_home_plan:
  assumes "plan_home db i up = Some (d, dl, un, nt)"
  shows "confined (home_keys_of keys (set dl \<union> set un)) (fan_out_home exec keys json db i up)"
  unfolding fan_out_home_def assms option.case prod.case Let_def
  by (intro confined_if confined_bind confined_for confined_return confined_push_homes)
    (auto simp: home_keys_of_def intro: confined_mono [OF confined_unpush])

lemma confined_fan_out_home:
  "confined (home_keys_of keys {r. is_active db r}) (fan_out_home exec keys json db i up)"
proof (cases "plan_home db i up")
  case None
  then show ?thesis by (simp add: fan_out_home_def)
next
  case (Some p)
  obtain d dl un nt where p: "p = (d, dl, un, nt)" by (cases p) auto
  from plan_home_active [OF Some [unfolded p]]
  have "home_keys_of keys (set dl \<union> set un) \<subseteq> home_keys_of keys {r. is_active db r}"
    by (auto simp: home_keys_of_def)
  with confined_fan_out_home_plan [OF Some [unfolded p]] show ?thesis by (rule confined_mono)
qed

lemma confined_fan_out_lists:
  "confined (list_keys_of keys (set (map fst (lists_for_local_distribution db
       (case load_distributed db i of None \<Rightarrow> 0 | Some d \<Rightarrow> c_account (d_status d))))))
     (fan_out_lists exec keys json db i up)"
proof (cases "plan_lists db i")
  case (Some p)
  then obtain d ls out where p: "p = (d, ls, out)" "load_distributed db i = Some d"
      "ls = lists_for_local_distribution db (c_account (d_status d))"
    by (auto simp: plan_lists_def Let_def split: option.splits if_splits sum.splits)
  then show ?thesis
    unfolding fan_out_lists_def Some p(1) option.case prod.case Let_def
    by (intro confined_push_lists) (auto simp: list_keys_of_def)
qed (simp add: fan_out_lists_def)

end

text \<open>Every list delivered to belongs to an account that signed in recently.\<close>

lemma distribution_list_owner:
  assumes "(i, o', p) \<in> set (lists_for_local_distribution db a)"
  shows "is_active db o' \<and> (\<exists>l \<in> set (lists db). li_id l = i \<and> li_account l = o' \<and> li_replies_policy l = p)"
  using assms
  by (auto simp: lists_for_local_distribution_def in_fetch_or_default select_distinct_def is_active_def)


lemma home_not_in_lists: "k \<in> tl_keys (timeline_home keys r) \<Longrightarrow> k \<notin> list_keys_of keys A"
  using home_list_disjoint [of keys r] by (auto simp: list_keys_of_def disjoint_iff)

lemma home_not_in_others: "r \<notin> A \<Longrightarrow> k \<in> tl_keys (timeline_home keys r) \<Longrightarrow> k \<notin> home_keys_of keys A"
  unfolding home_keys_of_def using home_keys_disjoint [of r _ keys] by (metis UN_iff disjoint_iff)

lemma list_not_in_homes: "k \<in> tl_keys (timeline_list keys r) \<Longrightarrow> k \<notin> home_keys_of keys A"
  using home_list_disjoint [of keys _ r] by (auto simp: home_keys_of_def disjoint_iff)

lemma list_not_in_others: "r \<notin> A \<Longrightarrow> k \<in> tl_keys (timeline_list keys r) \<Longrightarrow> k \<notin> list_keys_of keys A"
  unfolding list_keys_of_def using list_keys_disjoint [of r _ keys] by (metis UN_iff disjoint_iff)

context feed_redis
begin

lemma confined_fanout_status:
  "confined (home_keys_of keys {r. is_active db r} \<union> list_keys_of keys (set (map fst (lists_for_local_distribution db
       (case load_distributed db i of None \<Rightarrow> 0 | Some d \<Rightarrow> c_account (d_status d))))))
     (fanout_status exec keys json db i up)"
  unfolding fanout_status_def
  by (intro confined_bind)
    (auto intro: confined_mono [OF confined_fan_out_home] confined_mono [OF confined_fan_out_lists]
      intro!: confined_bind split: prod.split)

end

section \<open>Who is kept out\<close>

text \<open>An account that \<open>r\<close> blocks or mutes, or that blocks \<open>r\<close>.\<close>

definition estranged :: "database \<Rightarrow> int \<Rightarrow> int \<Rightarrow> bool" where
  "estranged db r a \<longleftrightarrow> (r, a) \<in> set (blocks db) \<or> (r, a) \<in> set (mutes db) \<or> (a, r) \<in> set (blocks db)"

lemma author_checked: "c_account st \<in> set (status_checks db st)" "c_account st \<in> set (status_authors st)"
  by (simp_all add: status_checks_def check_for_blocks_def status_authors_def)

lemma estranged_filtered:
  assumes "crutches_ok db st r c" and "estranged db r (c_account st)" and "r \<noteq> c_account st"
  shows "filter_result st r c Home \<noteq> None" and "filter_from_tags st ad r c"
proof -
  have c: "c_account st \<in> blocking c \<or> c_account st \<in> muting c \<or> c_account st \<in> blocked_by c"
    using assms(1,2) author_checked by (auto simp: crutches_ok_def estranged_def)
  then show "filter_from_tags st ad r c" by (auto simp: filter_from_tags_def)
  from c have "filtered_after_lists st r c"
    by (auto simp: filtered_after_lists_def check_for_blocks_def)
  with assms(3) show "filter_result st r c Home \<noteq> None" by (auto simp: filter_result_def)
qed

lemma estranged_not_delivered:
  assumes "plan_home db i up = Some (d, dl, un, nt)" and "estranged db r (c_account (d_status d))"
    and "r \<noteq> c_account (d_status d)"
  shows "r \<notin> set dl"
proof
  assume r: "r \<in> set dl"
  from assms(1) obtain cs where cs: "crutches_for db (d_status d) (d_author_domain d)
        (remdups (home_followers db d @ home_tags db d)) True = Inr cs"
    and dl: "dl = signed_in_recently db [c_account (d_status d)] @ filter (admits (d_status d) cs) (home_followers db d)
      @ filter (tag_admits (d_status d) (d_author_domain d) cs) (home_tags db d)"
    by (rule plan_home_shape)
  from r dl assms(3) have "r \<in> set (remdups (home_followers db d @ home_tags db d))"
    and adm: "admits (d_status d) cs r \<or> tag_admits (d_status d) (d_author_domain d) cs r"
    by (auto simp: in_signed_in_recently)
  from crutches_for_shape [OF cs this(1)] obtain c where "cs r = Some c" "crutches_ok db (d_status d) r c"
    by blast
  with adm estranged_filtered [OF _ assms(2,3)] show False
    by (auto simp: admits_def tag_admits_def)
qed


section \<open>The decision for a list\<close>

lemma list_crutches_fields [simp]:
  "active_mentions (list_crutches st p l c) = active_mentions c"
  "languages (list_crutches st p l c) = languages c"
  "hiding_reblogs (list_crutches st p l c) = hiding_reblogs c"
  "blocking (list_crutches st p l c) = blocking c"
  "muting (list_crutches st p l c) = muting c"
  "blocked_by (list_crutches st p l c) = blocked_by c"
  "domain_blocking (list_crutches st p l c) = domain_blocking c"
  by (simp_all add: list_crutches_def)

lemma list_crutches_ok: "crutches_ok db st r c \<Longrightarrow> crutches_ok db st r (list_crutches st p l c)"
  by (simp add: crutches_ok_def)

lemma listing_reply_target_iff:
  assumes "\<not> db_down db QReplyTargets" and "i \<in> set ids"
  shows "i \<in> listing_reply_target db st ids \<longleftrightarrow> (\<exists>t. c_in_reply_to_account st = Some t \<and>
    (\<exists>l \<in> set (list_accounts db). la_list l = i \<and> la_account l = t))"
  using assms by (auto simp: listing_reply_target_def fetch_or_default_def split: option.split)

lemma list_keeps_out_decides:
  assumes cs: "crutches_for db st ad rs False = Inr cs" and o: "owner \<in> set rs"
    and b: "crutches_build db owner [st] (ForList i p) = Inr c"
    and up: "\<not> db_down db QReplyTargets" and i: "i \<in> set ids"
  shows "list_keeps_out st cs (listing_reply_target db st ids) (i, owner, p) =
    Some (filtered_from_list st owner p (i \<in> listing_reply_target db st ids) \<or>
      filter_from_home st owner c (ForList i p))"
proof -
  let ?l = "i \<in> listing_reply_target db st ids"
  from crutches_for_shape [OF cs o] obtain a where a: "cs owner = Some a"
    "crutches_ok db st owner a" "reads_follows db st owner a" by blast
  note b' = crutches_build_shape [OF b]
  have "t \<in> following (list_crutches st p ?l a) \<longleftrightarrow> t \<in> following c" for t
    using a(3) b' listing_reply_target_iff [OF up i, of st]
    by (auto simp: list_crutches_def reads_follows_def set_opt_list)
  then have "filter_result st owner (list_crutches st p ?l a) (ForList i p) =
      filter_result st owner c (ForList i p)"
    using a(2) b' by (intro filter_result_cong list_crutches_ok) auto
  with a(1) show ?thesis by (simp add: list_keeps_out_def filter_from_home_def Let_def)
qed

lemma plan_listsE:
  assumes "plan_lists db i = Some (d, ls, out)"
  obtains cs where "load_distributed db i = Some d"
    and "ls = lists_for_local_distribution db (c_account (d_status d))"
    and "d_visibility d \<in> {VIS_PUBLIC, VIS_UNLISTED, VIS_PRIVATE}"
    and "crutches_for db (d_status d) (d_author_domain d) (remdups (map (\<lambda>l. fst (snd l)) ls)) False = Inr cs"
    and "out = list_keeps_out (d_status d) cs (listing_reply_target db (d_status d) (map fst ls))"
proof -
  from assms obtain d' where d': "load_distributed db i = Some d'"
    by (auto simp: plan_lists_def split: option.splits)
  from assms obtain cs where cs: "crutches_for db (d_status d') (d_author_domain d') (remdups (map (\<lambda>l. fst (snd l))
      (lists_for_local_distribution db (c_account (d_status d'))))) False = Inr cs"
    by (auto simp: plan_lists_def d' Let_def split: sum.splits if_splits)
  from assms have eq: "d_visibility d' \<in> {VIS_PUBLIC, VIS_UNLISTED, VIS_PRIVATE} \<and> d' = d \<and>
      lists_for_local_distribution db (c_account (d_status d')) = ls \<and>
      list_keeps_out (d_status d') cs (listing_reply_target db (d_status d') (map fst
        (lists_for_local_distribution db (c_account (d_status d'))))) = out"
    by (simp add: plan_lists_def d' Let_def cs split: if_splits) (elim conjE, simp)
  show thesis
    by (rule that [of cs]) (use d' cs eq in auto)
qed

end
