(* ===== verification/FeedTheorems.thy ===== *)
theory FeedTheorems
  imports FeedFanoutFacts
begin

text \<open>
  The properties of feeds and of the fan-out, each with a run of the model it applies to. Redis
  is any \<open>redis\<close> with the documented behaviour (\<open>feed_redis\<close>, or \<open>reliable_feed_redis\<close> when it
  does not fail); the runs use the servers of \<^verbatim>\<open>FeedRedis\<close>, with a broken connection where
  failures are allowed.
\<close>

section \<open>A feed\<close>

definition is_timeline :: "keyspace \<Rightarrow> timeline \<Rightarrow> bool" where
  "is_timeline keys t \<longleftrightarrow> (\<exists>a. t = timeline_home keys a \<or> t = timeline_list keys a)"

lemma is_timeline_keys: "is_timeline keys t \<Longrightarrow> timeline_keys t"
  by (auto simp: is_timeline_def timeline_keys_home timeline_keys_list)

lemma is_timeline_home [simp]: "is_timeline keys (timeline_home keys a)"
  by (auto simp: is_timeline_def)

lemma timelines_disjoint:
  assumes "is_timeline keys t" "is_timeline keys u" "u \<noteq> t"
  shows "tl_keys t \<inter> tl_keys u = {}"
  using assms home_keys_disjoint list_keys_disjoint home_list_disjoint
  unfolding is_timeline_def by (metis inf_commute)

text \<open>Enough to evaluate an operation on a concrete server.\<close>

lemmas run_defs = push_def add_to_feed_def remove_from_feed_def trim_def q_opt_int_def q_int_def
  q_unit_def q_ids_def q_last_int_def io_bind_def io_return_def io_or_def io_fail_def empty_store_def
  set_zs_def set_ss_def zadd_def zrem_def zord_def limited_def zscore_def zrevrank_def Let_def REBLOG_FALLOFF_def
  zbyscore_def

lemmas script_defs = empty_store_def set_zs_def set_ss_def zadd_def zrem_def zord_def limited_def
  zscore_def zrevrank_def zmem_def

definition ks0 :: keyspace where
  "ks0 = \<lparr>ks_prefix = ''''\<rparr>"

text \<open>
  C1: Whatever is pushed to a home or list feed whose owner has boosts grouped (\<^verbatim>\<open>aggregate_reblogs\<close>,
  which is the default; who turns it off asks to see a post and its boosts apart), and wherever Redis
  fails, the feed never shows one post twice among its newest 80 entries: two entries there that are
  the same post, itself or boosted, are the same entry.
\<close>

theorem feed_shows_no_post_twice:
  assumes "feed_redis redis view" and "is_timeline keys t" and "view r = empty_store"
    and "\<forall>p \<in> set ps. snd p = rb (fst p)"
  defines "F \<equiv> zmem (zs (view (push_all redis t ps r)) (tl_key t))"
  shows "\<forall>m \<in> F. \<forall>n \<in> F. card (as_new F m) \<le> 80 \<longrightarrow> card (as_new F n) \<le> 80 \<longrightarrow>
    root rb m = root rb n \<longrightarrow> m = n"
proof -
  have "store_ok (view r) \<and> window_ok rb t (view r)"
    using assms(3) by (simp add: window_ok_empty empty_store_def store_ok_def zset_ok_def)
  then have "window_ok rb t (view (push_all redis t ps r))"
    using feed_redis.push_all_window [OF assms(1) is_timeline_keys [OF assms(2)]] assms(4) by blast
  then show ?thesis unfolding F_def using window_unique by (auto simp: fresh_def)
qed

theorem feed_shows_no_post_twice_witness:
  "let s = (empty_store, [None, Some 0, None, None, None, Some 1]);
       t = timeline_home ks0 7;
       ps = [(10, None), (11, Some 5), (12, Some 5), (13, Some 10)];
       F = zmem (zs (fst (push_all server_exec t ps s)) (tl_key t)) in
   \<forall>m \<in> F. \<forall>n \<in> F. card (as_new F m) \<le> 80 \<longrightarrow> card (as_new F n) \<le> 80 \<longrightarrow>
     root (map_of [(11, 5), (12, 5), (13, 10)]) m = root (map_of [(11, 5), (12, 5), (13, 10)]) n \<longrightarrow> m = n"
  unfolding Let_def
  by (rule feed_shows_no_post_twice [OF server.feed_redis_axioms is_timeline_home]) simp_all

text \<open>
  A push that reports the status went in leaves the newest 800 of the feed with the
  status inserted at its score, and so never more than 800 entries.
\<close>

theorem push_keeps_newest:
  assumes "feed_redis redis view" and "is_timeline keys t"
    and "push redis t i reblog_of aggregate r = (Inr True, r')"
  shows "zs (view r') (tl_key t) =
      (let z = zadd i i (zs (view r) (tl_key t)) in drop (length z - 800) z) \<and>
    length (zs (view r') (tl_key t)) \<le> 800"
  using feed_redis.push_True_feed [OF assms(1) is_timeline_keys [OF assms(2)] assms(3)]
  by (simp add: Let_def)

theorem push_keeps_newest_witness:
  "let r' = snd (push server_exec (timeline_home ks0 7) 10 None True (empty_store, [])) in
   zs (fst r') (tl_key (timeline_home ks0 7)) =
      (let z = zadd 10 10 (zs empty_store (tl_key (timeline_home ks0 7))) in drop (length z - 800) z) \<and>
    length (zs (fst r') (tl_key (timeline_home ks0 7))) \<le> 800"
proof -
  have "push server_exec (timeline_home ks0 7) 10 None True (empty_store, []) =
      (Inr True, snd (push server_exec (timeline_home ks0 7) 10 None True (empty_store, [])))"
    by (intro prod_eqI) (simp_all add: run_defs)
  from push_keeps_newest [OF server.feed_redis_axioms is_timeline_home this] show ?thesis
    by (simp add: Let_def)
qed

text \<open>
  A page of a feed holds ids of the feed strictly between the bounds asked for, without
  repetition, at most \<open>limit\<close> of them; a page that is not one forward from \<open>min_id\<close> leaves out
  nothing newer than what it shows. An error of Redis gives the empty page.
\<close>

theorem page_of_a_feed:
  assumes "feed_redis redis view" and "store_ok (view r)"
    and "scored (zs (view r) key)" and "0 \<le> limit"
    and "get redis key max_id since_id min_id limit r = (Inr ids, r')"
  shows "view r' = view r \<and> distinct ids \<and> length ids \<le> nat limit \<and>
    (\<forall>x \<in> set ids. x \<in> zmem (zs (view r) key) \<and>
       (\<forall>m. max_id = Some m \<longrightarrow> x < m) \<and>
       (\<forall>m. min_id = Some m \<longrightarrow> m < x) \<and>
       (\<forall>m. min_id = None \<longrightarrow> since_id = Some m \<longrightarrow> m < x)) \<and>
    (min_id = None \<longrightarrow> (\<forall>x \<in> set ids. \<forall>y. (y, as_f64 y) \<in> set (zs (view r) key) \<longrightarrow>
       in_page since_id max_id (y, as_f64 y) \<longrightarrow> as_f64 x < as_f64 y \<longrightarrow> y \<in> set ids))"
proof -
  let ?z = "zs (view r) key"
  from wp_InrD [OF feed_redis.runs_get [OF assms(1)] assms(5)]
  have r': "view r' = view r" and ids: "ids = page ?z max_id since_id min_id limit \<or> ids = []"
    by simp_all
  have z: "zset_ok ?z" using assms(2) by (rule store_okD)
  from ids show ?thesis
  proof
    assume p: "ids = page ?z max_id since_id min_id limit"
    have "\<forall>x \<in> set ids. x \<in> zmem ?z \<and> (\<forall>m. max_id = Some m \<longrightarrow> x < m) \<and>
       (\<forall>m. min_id = Some m \<longrightarrow> m < x) \<and> (\<forall>m. min_id = None \<longrightarrow> since_id = Some m \<longrightarrow> m < x)"
    proof
      fix x assume "x \<in> set ids"
      from page_mem [OF assms(3) this [unfolded p]]
      show "x \<in> zmem ?z \<and> (\<forall>m. max_id = Some m \<longrightarrow> x < m) \<and> (\<forall>m. min_id = Some m \<longrightarrow> m < x) \<and>
          (\<forall>m. min_id = None \<longrightarrow> since_id = Some m \<longrightarrow> m < x)"
        by (cases max_id; cases min_id; cases since_id) simp_all
    qed
    moreover have "y \<in> set ids" if "min_id = None" "x \<in> set ids" "(y, as_f64 y) \<in> set ?z"
        "in_page since_id max_id (y, as_f64 y)" "as_f64 x < as_f64 y" for x y
      using page_newest [OF z assms(3,4)] that unfolding p by blast
    moreover have "distinct ids" "length ids \<le> nat limit"
      unfolding p by (rule page_distinct [OF z], rule page_length [OF assms(4)])
    ultimately show ?thesis using r' by blast
  qed (use r' in simp)
qed

theorem page_of_a_feed_witness:
  "let s = \<lparr>zs = (\<lambda>_. [(3, 3), (5, 5), (8, 8)]), ss = (\<lambda>_. [])\<rparr> in
   snd (get steady_exec ''feed:home:7'' (Some 8) None None 1 s) = s \<and> distinct [5::int] \<and>
    length [5::int] \<le> nat 1 \<and>
    (\<forall>x \<in> set [5]. x \<in> zmem (zs s ''feed:home:7'') \<and>
       (\<forall>m. Some 8 = Some m \<longrightarrow> x < m) \<and>
       (\<forall>m. None = Some m \<longrightarrow> m < x) \<and>
       (\<forall>m. None = (None :: int option) \<longrightarrow> None = Some m \<longrightarrow> m < x)) \<and>
    (None = (None :: int option) \<longrightarrow> (\<forall>x \<in> set [5]. \<forall>y. (y, as_f64 y) \<in> set (zs s ''feed:home:7'') \<longrightarrow>
       in_page None (Some 8) (y, as_f64 y) \<longrightarrow> as_f64 x < as_f64 y \<longrightarrow> y \<in> set [5]))"
proof -
  let ?s = "\<lparr>zs = (\<lambda>_. [(3, 3), (5, 5), (8, 8)]), ss = (\<lambda>_. [])\<rparr> :: feed_store"
  have ok: "store_ok ?s" by (simp add: store_ok_def zset_ok_def zord_def as_f64_exact)
  have sc: "scored (zs ?s k)" for k by (simp add: scored_def as_f64_exact)
  have run: "get steady_exec ''feed:home:7'' (Some 8) None None 1 ?s = (Inr [5],
      snd (get steady_exec ''feed:home:7'' (Some 8) None None 1 ?s))"
    by (simp add: get_def steady_exec_def as_f64_exact run_defs)
  show ?thesis
    unfolding Let_def
    by (rule page_of_a_feed [OF steady.feed_redis_axioms ok sc _ run]) simp
qed

text \<open>
  C4: A Redis that does not fail leaves nothing behind when a feed is deleted: after any
  pushes, removals and cleanings, \<open>clean_feed\<close> empties every key of the timeline, the sets of
  held-back boosts included.
\<close>

theorem deleted_feed_leaves_no_key:
  assumes "reliable_feed_redis redis view" and "is_timeline keys t" and "view r = empty_store"
    and "feed_reaches redis t rb r r'" and "k \<in> tl_keys t"
  shows "zs (view (snd (clean_feed redis t r'))) k = [] \<and> ss (view (snd (clean_feed redis t r'))) k = []"
proof -
  have "store_ok (view r)" "tracking_ok rb t (view r)"
    using assms(3) tracking_ok_empty by (simp_all add: empty_store_def store_ok_def zset_ok_def)
  then have "tracking_ok rb t (view r')"
    using reliable_feed_redis.reaches_tracking [OF assms(1,4) is_timeline_keys [OF assms(2)]] by blast
  then show ?thesis by (rule reliable_feed_redis.clean_feed_complete [OF assms(1) _ assms(5)])
qed

theorem deleted_feed_leaves_no_key_witness:
  "let t = timeline_home ks0 7;
       s1 = snd (push steady_exec t 11 (Some 5) True empty_store);
       s2 = snd (push steady_exec t 12 (Some 5) True s1) in
   ss s2 (reblog_set t 5) = [12] \<and>
   zs (snd (clean_feed steady_exec t s2)) (reblog_set t 5) = [] \<and>
   ss (snd (clean_feed steady_exec t s2)) (reblog_set t 5) = []"
proof -
  let ?t = "timeline_home ks0 7" and ?rb = "\<lambda>i. if i \<in> {11, 12} then Some 5 else None :: int option"
  let ?s1 = "snd (push steady_exec ?t 11 (Some 5) True empty_store)"
  let ?s2 = "snd (push steady_exec ?t 12 (Some 5) True ?s1)"
  have "feed_step steady_exec ?t ?rb empty_store ?s1"
    by (rule feed_step.pushed [of 11 _ _ ?rb _ "fst (push steady_exec ?t 11 (Some 5) True empty_store)"]) simp_all
  moreover have "feed_step steady_exec ?t ?rb ?s1 ?s2"
    by (rule feed_step.pushed [of 12 _ _ ?rb _ "fst (push steady_exec ?t 12 (Some 5) True ?s1)"]) simp_all
  ultimately have run: "feed_reaches steady_exec ?t ?rb empty_store ?s2"
    unfolding feed_reaches_def by (rule converse_rtranclp_into_rtranclp [OF _ r_into_rtranclp])
  have s1: "?s1 = \<lparr>zs = (\<lambda>_. [])(tl_reblogs ?t := [(5, 11)], tl_key ?t := [(11, 11)]), ss = \<lambda>_. []\<rparr>"
    by (subst steady.push_reliable [OF timeline_keys_home])
      (simp add: add_script_def empty_store_def trim_script_def stale_boosts_def script_defs falloff_def as_f64_exact)
  have "ss ?s2 (reblog_set ?t 5) = [12]"
    unfolding s1 by (subst steady.push_reliable [OF timeline_keys_home]) (simp add: add_script_def script_defs as_f64_exact)
  moreover note deleted_feed_leaves_no_key [OF steady.reliable_feed_redis_axioms is_timeline_home refl run,
    of "reblog_set ?t 5"]
  ultimately show ?thesis by (simp add: tl_keys_def Let_def)
qed

text \<open>
  C5: When a boost is taken out of a feed, the oldest boost of the same post that was held
  back takes its place: it enters the feed and is tracked, and nothing else in the feed
  changes. With none held back, the boost just leaves and its post is no longer tracked.
\<close>

theorem removing_a_boost_restores_another:
  assumes "reliable_feed_redis redis view" and "is_timeline keys t"
    and "remove_from_feed redis t i (Some b) True r = (Inr True, r')"
  defines "z \<equiv> zs (view r) (tl_key t)" and "H \<equiv> set (ss (view r) (reblog_set t b)) - {i}"
  shows "i \<in> zmem z \<and>
    zs (view r') (tl_key t) = zrem i (if H = {} then z else zadd (Min H) (Min H) z) \<and>
    zs (view r') (tl_reblogs t) = (if H = {} then zrem b (zs (view r) (tl_reblogs t))
      else zadd (Min H) b (zrem b (zs (view r) (tl_reblogs t)))) \<and>
    set (ss (view r') (reblog_set t b)) = H"
proof -
  note t = is_timeline_keys [OF assms(2)]
  have red: "feed_redis redis view" using assms(1) by (rule reliable_feed_redis.axioms)
  from feed_redis.runs_InrD [OF red feed_redis.runs_remove [OF red t, where rb = "Some b" and agg = True] assms(3)]
  have i: "i \<in> zmem z" and r': "view r' = effects (snd (remove_script t i (Some b) True (view r))) (view r)"
    by (auto simp: remove_script_def z_def split: if_splits)
  have H: "held_back t b i (view r) = H" by (auto simp: held_back_def H_def)
  show ?thesis
    using i remove_script_boost [OF t i [unfolded z_def], of b] unfolding r' H z_def
    by (auto simp: H_def)
qed

lemma steady_remove:
  "timeline_keys t \<Longrightarrow> remove_from_feed steady_exec t i rb agg s =
    (Inr (fst (remove_script t i rb agg s)), effects (snd (remove_script t i rb agg s)) s)"
  using steady.runs_total [OF steady.runs_remove [of t i rb agg s]] by blast

theorem removing_a_boost_restores_another_witness:
  "let t = timeline_home ks0 7;
       s = \<lparr>zs = (\<lambda>_. [])(tl_reblogs t := [(5, 11)], tl_key t := [(11, 11)]),
            ss = (\<lambda>_. [])(reblog_set t 5 := [14, 12])\<rparr>;
       s' = snd (remove_from_feed steady_exec t 11 (Some 5) True s) in
   zs s' (tl_key t) = [(12, 12)] \<and> zs s' (tl_reblogs t) = [(5, 12)]"
proof -
  let ?t = "timeline_home ks0 7"
  let ?s = "\<lparr>zs = (\<lambda>_. [])(tl_reblogs ?t := [(5, 11)], tl_key ?t := [(11, 11)]),
            ss = (\<lambda>_. [])(reblog_set ?t 5 := [14, 12])\<rparr> :: feed_store"
  have "remove_from_feed steady_exec ?t 11 (Some 5) True ?s =
      (Inr True, snd (remove_from_feed steady_exec ?t 11 (Some 5) True ?s))"
    by (simp add: steady_remove [OF timeline_keys_home] remove_script_def zmem_def)
  from removing_a_boost_restores_another [OF steady.reliable_feed_redis_axioms is_timeline_home this]
  have "zs (snd (remove_from_feed steady_exec ?t 11 (Some 5) True ?s)) (tl_key ?t) =
      zrem 11 (zadd (Min {14, 12}) (Min {14, 12}) [(11, 11)]) \<and>
    zs (snd (remove_from_feed steady_exec ?t 11 (Some 5) True ?s)) (tl_reblogs ?t) =
      zadd (Min {14, 12}) 5 (zrem 5 [(5, 11)])"
    by (simp add: insert_Diff_if)
  then show ?thesis by (simp add: Let_def script_defs as_f64_exact)
qed

text \<open>
  Whatever is pushed to, removed from or cleaned in a timeline, and wherever Redis fails,
  no key of another timeline changes: not another account's home feed, not a list, and, with
  a valid prefix for each tenant, no feed of another tenant.
\<close>

theorem feeds_are_separate:
  assumes "feed_redis redis view" and "store_ok (view r)"
    and "is_timeline keys t" and "feed_reaches redis t rb r r'"
    and "is_timeline keys' t'" and "t' \<noteq> t"
    and "keys' = keys \<or> (\<exists>p q. p \<noteq> q \<and> keyspace_new p = Inr keys \<and> keyspace_new q = Inr keys' \<and>
      is_shared keys \<and> is_shared keys')"
    and "k \<in> tl_keys t'"
  shows "zs (view r') k = zs (view r) k \<and> ss (view r') k = ss (view r) k"
proof -
  have "k \<notin> tl_keys t"
    using assms(7)
  proof
    assume "keys' = keys"
    then show ?thesis using timelines_disjoint [OF assms(3)] assms(5,6,8) by blast
  next
    assume "\<exists>p q. p \<noteq> q \<and> keyspace_new p = Inr keys \<and> keyspace_new q = Inr keys' \<and>
      is_shared keys \<and> is_shared keys'"
    then have "ks_key keys x \<noteq> ks_key keys' y" for x y using keyspaces_disjoint by blast
    moreover have "k' \<in> range (ks_key ks)" if "is_timeline ks u" "k' \<in> tl_keys u" for ks u k'
      using that home_keys_in_keyspace list_keys_in_keyspace by (auto simp: is_timeline_def)
    ultimately show ?thesis using assms(3,5,8) by (metis imageE)
  qed
  with feed_redis.reaches_frame [OF assms(1,4,2)] show ?thesis
    by (simp add: frame_def same_at_def)
qed

theorem feeds_are_separate_witness:
  "let r = (empty_store, [Some 1]); t' = timeline_home \<lparr>ks_prefix = ''b''\<rparr> 7;
       r' = snd (push server_exec (timeline_home \<lparr>ks_prefix = ''a''\<rparr> 7) 11 None True r) in
   zs (fst r') (tl_key t') = zs empty_store (tl_key t') \<and> ss (fst r') (tl_key t') = ss empty_store (tl_key t')"
proof -
  let ?a = "\<lparr>ks_prefix = ''a''\<rparr>" and ?b = "\<lparr>ks_prefix = ''b''\<rparr>"
  let ?r = "(empty_store, [Some 1]) :: feed_server"
  let ?run = "push server_exec (timeline_home ?a 7) 11 None True ?r"
  have ok: "store_ok (fst ?r)" by (simp add: empty_store_def store_ok_def zset_ok_def)
  have "feed_step server_exec (timeline_home ?a 7) (\<lambda>_. None) ?r (snd ?run)"
    by (rule feed_step.pushed [of 11 _ _ "\<lambda>_. None" _ "fst ?run"]) simp_all
  then have reach: "feed_reaches server_exec (timeline_home ?a 7) (\<lambda>_. None) ?r (snd ?run)"
    unfolding feed_reaches_def by (rule r_into_rtranclp)
  have "keyspace_new ''a'' = Inr ?a" "keyspace_new ''b'' = Inr ?b"
    by (simp_all add: keyspace_new_def is_ascii_alphanumeric_def Let_def)
  then have tenants: "?b = ?a \<or> (\<exists>p q. p \<noteq> q \<and> keyspace_new p = Inr ?a \<and> keyspace_new q = Inr ?b \<and>
      is_shared ?a \<and> is_shared ?b)"
    by (intro disjI2 exI [of _ "''a''"] exI [of _ "''b''"]) (simp add: is_shared_def)
  have "timeline_home ?b 7 \<noteq> timeline_home ?a 7"
    by (simp add: timeline_key_defs ks_key_def)
  from feeds_are_separate [OF server.feed_redis_axioms ok is_timeline_home reach is_timeline_home this tenants,
    of "tl_key (timeline_home ?b 7)"]
  show ?thesis by (simp add: tl_keys_def Let_def)
qed

end
