(* ===== verification/FanoutTheorems.thy ===== *)
theory FanoutTheorems
  imports FeedTheorems
begin

text \<open>
  The properties of the fan-out. The runs use a small instance: accounts 1 to 4, of which 1
  posts status 100; 2, 3 and 4 follow it, 3 has not signed in, 4 mutes the author, and 2 keeps
  a list of it.
\<close>

definition sample_status :: status_row where
  "sample_status = \<lparr>st_id = 100, st_account = 1, st_reply = False, st_in_reply_to = None,
     st_in_reply_to_account = None, st_language = None, st_reblog_of = None,
     st_visibility = VIS_PUBLIC, st_deleted = False\<rparr>"

definition sample_user :: "int \<Rightarrow> int option \<Rightarrow> user_row" where
  "sample_user i at = \<lparr>us_id = i, us_account = i, us_settings = None, us_sign_in = at, us_confirmed = True\<rparr>"

definition sample_follow :: "int \<Rightarrow> follow_row" where
  "sample_follow i = \<lparr>fo_account = i, fo_target = 1, fo_languages = None, fo_show_reblogs = True,
     fo_notify = True\<rparr>"

definition sample_db :: database where
  "sample_db = \<lparr>statuses = [sample_status],
     accounts = [\<lparr>ac_id = 1, ac_domain = None, ac_silenced = False, ac_suspended = False\<rparr>],
     users = [sample_user 1 (Some 1000000), sample_user 2 (Some 1000000), sample_user 3 None,
       sample_user 4 (Some 1000000)],
     follows = [sample_follow 2, sample_follow 3, sample_follow 4],
     lists = [\<lparr>li_id = 7, li_account = 2, li_replies_policy = REPLIES_LIST, li_exclusive = False\<rparr>],
     list_accounts = [\<lparr>la_list = 7, la_account = 1, la_follow = Some 1\<rparr>],
     mentions = [], blocks = [], mutes = [(4, 1)], domain_blocks = [], tag_follows = [],
     statuses_tags = [], account_stats = [], db_now = 1000000, db_down = (\<lambda>_. False)\<rparr>"

lemmas sample_defs = sample_db_def sample_status_def sample_user_def sample_follow_def vis_defs replies_defs

definition sample_distributed :: distributed where
  "sample_distributed = \<lparr>d_status = candidate_of sample_status None, d_visibility = VIS_PUBLIC,
     d_author_domain = None, d_author_silenced = False\<rparr>"

lemma sample_active: "is_signed_in_recently sample_db 2" "\<not> is_signed_in_recently sample_db 3"
  by code_simp+

lemma sample_loaded: "load_distributed sample_db 100 = Some sample_distributed"
  by (simp add: load_distributed_def distributed_rows_def fetch_or_default_def joined_reblog_def
    left_join_def sample_distributed_def sample_defs Let_def)

lemma sample_plan: "plan_home sample_db 100 False = Some (sample_distributed, [1, 2], [], [2])"
  by code_simp

text \<open>What keeps a post out of the home of somebody who follows one of its hashtags, as the tables say it.\<close>

definition kept_from_tag_follower :: "database \<Rightarrow> distributed \<Rightarrow> int \<Rightarrow> bool" where
  "kept_from_tag_follower db d r \<longleftrightarrow>
     (let author = c_account (d_status d);
          named = {a. a = author \<or> (\<exists>m \<in> set (mentions db). me_status m = c_id (d_status d) \<and> \<not> me_silent m \<and> me_account m = a)}
      in r = author \<or> (\<exists>a \<in> named. (r, a) \<in> set (blocks db) \<or> (r, a) \<in> set (mutes db)) \<or> (author, r) \<in> set (blocks db) \<or>
         (\<exists>dom. d_author_domain d = Some dom \<and> (r, dom) \<in> set (domain_blocks db)))"

lemma set_mentioned_map:
  "set (mentioned (mention_map rows) i) = {me_account m | m. m \<in> set rows \<and> me_status m = i}"
proof (induction rows rule: rev_induct)
  case (snoc m rows)
  then show ?case by (auto simp: mention_map_def mentioned_def split: option.splits)
qed (simp add: mention_map_def mentioned_def)

lemma filter_from_tags_iff:
  assumes "crutches_ok db (d_status d) r c"
    and "domain_blocking c = {x \<in> set (opt_list (d_author_domain d) @ status_domain (d_status d)). (r, x) \<in> set (domain_blocks db)}"
  shows "filter_from_tags (d_status d) (d_author_domain d) r c \<longleftrightarrow> kept_from_tag_follower db d r"
proof -
  let ?st = "d_status d"
  define N where "N = {a. a = c_account ?st \<or> (\<exists>m \<in> set (mentions db). me_status m = c_id ?st \<and> \<not> me_silent m \<and> me_account m = a)}"
  have named: "set (mentioned (active_mentions c) (c_id ?st) @ [c_account ?st]) = N"
    using assms(1) by (auto simp: N_def crutches_ok_def status_mentions_def set_mentioned_map mention_rows_def)
  have "set (mentioned (active_mentions c) (c_id ?st) @ [c_account ?st]) \<subseteq> set (status_checks db ?st)"
    using assms(1) by (auto simp: crutches_ok_def status_checks_def check_for_blocks_def)
  then have checks: "N \<subseteq> set (status_checks db ?st)" unfolding named .
  have "i \<in> blocking c \<or> i \<in> muting c \<longleftrightarrow> (r, i) \<in> set (blocks db) \<or> (r, i) \<in> set (mutes db)" if "i \<in> N" for i
    using assms(1) subsetD [OF checks that] by (simp add: crutches_ok_def)
  then have "list_ex (\<lambda>i. i \<in> blocking c \<or> i \<in> muting c) (mentioned (active_mentions c) (c_id ?st) @ [c_account ?st]) \<longleftrightarrow>
      (\<exists>a \<in> N. (r, a) \<in> set (blocks db) \<or> (r, a) \<in> set (mutes db))"
    unfolding list_ex_iff named by blast
  moreover have "c_account ?st \<in> blocked_by c \<longleftrightarrow> (c_account ?st, r) \<in> set (blocks db)"
    using assms(1) by (simp add: crutches_ok_def status_authors_def)
  moreover have "(case d_author_domain d of None \<Rightarrow> False | Some x \<Rightarrow> x \<in> domain_blocking c) \<longleftrightarrow>
      (\<exists>dom. d_author_domain d = Some dom \<and> (r, dom) \<in> set (domain_blocks db))"
    using assms(2) by (auto split: option.split)
  ultimately show ?thesis unfolding filter_from_tags_def kept_from_tag_follower_def Let_def N_def [symmetric] by simp
qed

text \<open>
  C2: The fan-out, which reads what filters all receivers in a handful of queries, decides for
  each follower of the author and of a hashtag as the tables say for that account alone. A follower
  is delivered to exactly when the home filter, with the crutches read for them alone, lets the
  status in, and somebody who follows one of its hashtags when nothing in the tables keeps it from
  them; who is both, when either lets it in. On an edit those kept out are unpushed. A follower is
  notified exactly when the status starts something new, is not filtered out and the follow asks
  for it.
\<close>

theorem fan_out_home_decides:
  assumes "plan_home db i update = Some (d, deliveries, unpushes, notify)"
    and "r \<in> set (home_followers db d) \<union> set (home_tags db d)" and "r \<noteq> c_account (d_status d)"
    and "crutches_build db r [d_status d] Home = Inr c"
  defines "follower \<equiv> r \<in> set (home_followers db d)" and "tagged \<equiv> r \<in> set (home_tags db d)"
  shows "(r \<in> set deliveries \<longleftrightarrow> follower \<and> \<not> filter_from_home (d_status d) r c Home \<or> tagged \<and> \<not> kept_from_tag_follower db d r) \<and>
    (r \<in> set unpushes \<longleftrightarrow> update \<and>
       (follower \<and> filter_from_home (d_status d) r c Home \<or> tagged \<and> kept_from_tag_follower db d r)) \<and>
    (r \<in> set notify \<longleftrightarrow> follower \<and> \<not> update \<and> c_reblog_of (d_status d) = None \<and>
       (c_reply (d_status d) \<longrightarrow> c_in_reply_to_account (d_status d) = Some (c_account (d_status d))) \<and>
       filter_result (d_status d) r c Home \<noteq> Some Filter \<and>
       follows_of db r (c_account (d_status d)) \<noteq> [] \<and>
       fo_notify (last (follows_of db r (c_account (d_status d)))))"
proof -
  let ?st = "d_status d"
  from assms(1) obtain cs where
      cs: "crutches_for db ?st (d_author_domain d) (remdups (home_followers db d @ home_tags db d)) True = Inr cs"
    and shape: "deliveries = signed_in_recently db [c_account ?st] @ filter (admits ?st cs) (home_followers db d)
        @ filter (tag_admits ?st (d_author_domain d) cs) (home_tags db d)"
      "unpushes = (if update then filter (rejects ?st cs) (home_followers db d) else [])
        @ (if update then filter (tag_rejects ?st (d_author_domain d) cs) (home_tags db d) else [])"
      "notify = (if c_reblog_of ?st = None \<and> \<not> (c_reply ?st \<and>
          c_in_reply_to_account ?st \<noteq> Some (c_account ?st)) \<and> \<not> update
        then filter (rings ?st cs) (home_followers db d) else [])"
    by (rule plan_home_shape)
  have r: "r \<in> set (remdups (home_followers db d @ home_tags db d))" using assms(2) by simp
  from crutches_for_shape [OF cs r] obtain a where a: "cs r = Some a" "crutches_ok db ?st r a"
      "reads_follows db ?st r a"
      "exclusive_list_users a = (if lists_exclusively db r (c_account ?st) then {c_account ?st} else {})"
      "notifying a = (follows_of db r (c_account ?st) \<noteq> [] \<and> fo_notify (last (follows_of db r (c_account ?st))))"
      "domain_blocking a = {x \<in> set (opt_list (d_author_domain d) @ status_domain ?st). (r, x) \<in> set (domain_blocks db)}"
    by auto
  with crutches_build_shape [OF assms(4)] have home: "filter_result ?st r a Home = filter_result ?st r c Home"
    by (intro filter_result_cong) (auto simp: reads_follows_def)
  note tags = filter_from_tags_iff [OF a(2,6)]
  have "r \<notin> set (signed_in_recently db [c_account ?st])" using assms(3) by (simp add: in_signed_in_recently)
  then show ?thesis
    unfolding shape follower_def tagged_def
    by (simp add: admits_def rejects_def rings_def tag_admits_def tag_rejects_def filter_from_home_def a(1,5) home tags) blast
qed

lemma sample_builds: "\<exists>c. crutches_build sample_db r [d_status sample_distributed] rc = Inr c"
  by (cases rc) (simp_all add: crutches_build_def fetch_all_def sample_db_def Let_def)

theorem fan_out_home_decides_witness:
  "\<exists>c. crutches_build sample_db 4 [d_status sample_distributed] Home = Inr c \<and>
    filter_from_home (d_status sample_distributed) 4 c Home \<and>
    (\<exists>c. crutches_build sample_db 2 [d_status sample_distributed] Home = Inr c \<and>
       \<not> filter_from_home (d_status sample_distributed) 2 c Home)"
proof -
  obtain c4 where c4: "crutches_build sample_db 4 [d_status sample_distributed] Home = Inr c4"
    using sample_builds by blast
  obtain c2 where c2: "crutches_build sample_db 2 [d_status sample_distributed] Home = Inr c2"
    using sample_builds by blast
  have m: "4 \<in> set (home_followers sample_db sample_distributed)"
    "2 \<in> set (home_followers sample_db sample_distributed)" by code_simp+
  have n: "4 \<notin> set (home_tags sample_db sample_distributed)"
    "2 \<notin> set (home_tags sample_db sample_distributed)" by code_simp+
  have a: "4 \<noteq> c_account (d_status sample_distributed)" "2 \<noteq> c_account (d_status sample_distributed)"
    by code_simp+
  have "4 \<in> set [1, 2 :: int] \<longleftrightarrow> \<not> filter_from_home (d_status sample_distributed) 4 c4 Home"
    using fan_out_home_decides [OF sample_plan _ a(1) c4] m(1) n(1) by blast
  moreover have "2 \<in> set [1, 2 :: int] \<longleftrightarrow> \<not> filter_from_home (d_status sample_distributed) 2 c2 Home"
    using fan_out_home_decides [OF sample_plan _ a(2) c2] m(2) n(2) by blast
  ultimately show ?thesis using c4 c2 by auto
qed

text \<open>
  A list gets a status exactly when the list filter and the home filter, with the crutches
  the list alone would read, both let it in: reading the owners' follows once and replacing them
  by what the list's reply policy says makes no difference, whatever the policy.
\<close>

theorem fan_out_list_decides:
  assumes "plan_lists db i = Some (d, ls, out)" and "(list_id, owner, policy) \<in> set ls"
    and "crutches_build db owner [d_status d] (ForList list_id policy) = Inr c"
    and "\<not> db_down db QReplyTargets"
  shows "out (list_id, owner, policy) = Some (
    filtered_from_list (d_status d) owner policy (\<exists>t. c_in_reply_to_account (d_status d) = Some t \<and>
      (\<exists>l \<in> set (list_accounts db). la_list l = list_id \<and> la_account l = t)) \<or>
    filter_from_home (d_status d) owner c (ForList list_id policy))"
proof -
  from assms(1) obtain cs where
      cs: "crutches_for db (d_status d) (d_author_domain d) (remdups (map (\<lambda>l. fst (snd l)) ls)) False = Inr cs"
    and out: "out = list_keeps_out (d_status d) cs (listing_reply_target db (d_status d) (map fst ls))"
    by (rule plan_listsE)
  have "owner \<in> set (remdups (map (\<lambda>l. fst (snd l)) ls))" and i: "list_id \<in> set (map fst ls)"
    using assms(2) by force+
  from list_keeps_out_decides [OF cs this(1) assms(3,4) i] show ?thesis
    unfolding out listing_reply_target_iff [OF assms(4) i] .
qed

lemma sample_list_plan:
  "\<exists>out. plan_lists sample_db 100 = Some (sample_distributed, [(7, 2, REPLIES_LIST)], out)"
proof -
  have ls: "lists_for_local_distribution sample_db 1 = [(7, 2, REPLIES_LIST)]" by code_simp
  have "\<exists>cs. crutches_for sample_db (d_status sample_distributed) None [2] False = Inr cs"
    by (simp add: crutches_for_def fetch_all_def sample_db_def Let_def split: option.split)
  moreover have "c_account (d_status sample_distributed) = 1" "d_author_domain sample_distributed = None"
      "d_visibility sample_distributed = VIS_PUBLIC" by code_simp+
  ultimately show ?thesis by (auto simp: plan_lists_def sample_loaded ls Let_def)
qed

theorem fan_out_list_decides_witness:
  "\<exists>out c. plan_lists sample_db 100 = Some (sample_distributed, [(7, 2, REPLIES_LIST)], out) \<and>
    crutches_build sample_db 2 [d_status sample_distributed] (ForList 7 REPLIES_LIST) = Inr c \<and>
    out (7, 2, REPLIES_LIST) = Some (filter_from_home (d_status sample_distributed) 2 c (ForList 7 REPLIES_LIST))"
proof -
  obtain out where out: "plan_lists sample_db 100 = Some (sample_distributed, [(7, 2, REPLIES_LIST)], out)"
    using sample_list_plan by blast
  obtain c where c: "crutches_build sample_db 2 [d_status sample_distributed] (ForList 7 REPLIES_LIST) = Inr c"
    using sample_builds by blast
  have up: "\<not> db_down sample_db QReplyTargets" by (simp add: sample_db_def)
  have "\<not> c_reply (d_status sample_distributed)" by code_simp
  with fan_out_list_decides [OF out _ c up] out c show ?thesis
    by (simp add: filtered_from_list_def)
qed

section \<open>What the fan-out cannot touch\<close>

lemma fanout_frame:
  assumes red: "feed_redis redis view" and ok: "store_ok (view r)"
    and run: "fanout_status redis keys json db i update r = (res, r')"
    and "k \<notin> home_keys_of keys {a. is_active db a}"
    and "k \<notin> list_keys_of keys (set (map fst (lists_for_local_distribution db
       (case load_distributed db i of None \<Rightarrow> 0 | Some d \<Rightarrow> c_account (d_status d)))))"
  shows "zs (view r') k = zs (view r) k \<and> ss (view r') k = ss (view r) k"
  using feed_redis.confinedD [OF red feed_redis.confined_fanout_status [OF red] ok run] assms(4,5)
  by (simp add: frame_def same_at_def)

text \<open>
  The fan-out never changes the home feed of an account that has not signed in during the
  last seven days, nor a list of such an account's, wherever Redis fails.
\<close>

theorem inactive_feeds_untouched:
  assumes "feed_redis redis view" and "store_ok (view r)"
    and "fanout_status redis keys json db i update r = (res, r')"
    and "(k \<in> tl_keys (timeline_home keys a) \<and> \<not> is_active db a) \<or>
      (k \<in> tl_keys (timeline_list keys l) \<and> (\<forall>row \<in> set (lists db). li_id row = l \<longrightarrow> \<not> is_active db (li_account row)))"
  shows "zs (view r') k = zs (view r) k \<and> ss (view r') k = ss (view r) k"
proof (rule fanout_frame [OF assms(1-3)])
  let ?author = "case load_distributed db i of None \<Rightarrow> 0 | Some d \<Rightarrow> c_account (d_status d)"
  have nolist: "l \<notin> set (map fst (lists_for_local_distribution db ?author))"
    if "\<forall>row \<in> set (lists db). li_id row = l \<longrightarrow> \<not> is_active db (li_account row)"
    using that distribution_list_owner [of l _ _ db ?author] by fastforce
  from assms(4) show "k \<notin> home_keys_of keys {a. is_active db a}"
    using home_not_in_others [of a "{a. is_active db a}"] list_not_in_homes by blast
  from assms(4) show "k \<notin> list_keys_of keys (set (map fst (lists_for_local_distribution db ?author)))"
    using home_not_in_lists list_not_in_others [OF nolist] by blast
qed

theorem inactive_feeds_untouched_witness:
  "let run = fanout_status server_exec ks0 (\<lambda>_ _. None) sample_db 100 False (empty_store, []);
       k = tl_key (timeline_home ks0 3) in
   zs (fst (snd run)) k = zs empty_store k \<and> ss (fst (snd run)) k = ss empty_store k"
proof -
  let ?run = "fanout_status server_exec ks0 (\<lambda>_ _. None) sample_db 100 False (empty_store, [])"
  have ok: "store_ok (fst (empty_store, [] :: nat option list))"
    by (simp add: empty_store_def store_ok_def zset_ok_def)
  have run: "?run = (fst ?run, snd ?run)" by simp
  have "\<not> is_active sample_db 3"
    by (simp add: is_active_def active_user_def sample_defs)
  then show ?thesis
    using inactive_feeds_untouched [OF server.feed_redis_axioms ok run,
      of "tl_key (timeline_home ks0 3)" 3]
    by (simp add: tl_keys_def Let_def)
qed

text \<open>
  C3: A new status never reaches the home feed of an account that blocks or mutes its author or
  is blocked by the author, neither as a follower nor through a hashtag.
\<close>

theorem estranged_homes_untouched:
  assumes "feed_redis redis view" and "store_ok (view r)"
    and "fanout_status redis keys json db i False r = (res, r')"
    and "load_distributed db i = Some d" and "estranged db a (c_account (d_status d))"
    and "a \<noteq> c_account (d_status d)" and "k \<in> tl_keys (timeline_home keys a)"
  shows "zs (view r') k = zs (view r) k \<and> ss (view r') k = ss (view r) k"
proof -
  let ?H = "case plan_home db i False of None \<Rightarrow> {} | Some (_, dl, un, _) \<Rightarrow> set dl \<union> set un"
  let ?L = "list_keys_of keys (set (map fst (lists_for_local_distribution db
       (case load_distributed db i of None \<Rightarrow> 0 | Some d \<Rightarrow> c_account (d_status d)))))"
  have home: "feed_redis.confined view (home_keys_of keys ?H) (fan_out_home redis keys json db i False)"
    using feed_redis.confined_fan_out_home_plan [OF assms(1), of db i False]
    by (cases "plan_home db i False")
      (auto simp: fan_out_home_def feed_redis.confined_return [OF assms(1)])
  have "feed_redis.confined view (home_keys_of keys ?H \<union> ?L) (fanout_status redis keys json db i False)"
    unfolding fanout_status_def
    by (intro feed_redis.confined_bind [OF assms(1)])
      (auto intro: feed_redis.confined_mono [OF assms(1) home]
        feed_redis.confined_mono [OF assms(1) feed_redis.confined_fan_out_lists [OF assms(1)]]
        intro!: feed_redis.confined_bind [OF assms(1)] feed_redis.confined_return [OF assms(1)] split: prod.split)
  note f = feed_redis.confinedD [OF assms(1) this assms(2,3)]
  have "a \<notin> ?H"
  proof (cases "plan_home db i False")
    case (Some p)
    obtain d' dl un nt where p: "p = (d', dl, un, nt)" by (cases p) auto
    with Some have plan: "plan_home db i False = Some (d', dl, un, nt)" by simp
    then have "d' = d" "un = []" using assms(4) by (auto elim: plan_home_shape)
    with estranged_not_delivered [OF plan] assms(5,6) show ?thesis by (simp add: Some p)
  qed simp
  then have "k \<notin> home_keys_of keys ?H \<union> ?L"
    using home_not_in_others home_not_in_lists assms(7) by blast
  with f show ?thesis by (simp add: frame_def same_at_def)
qed

theorem estranged_homes_untouched_witness:
  "let run = fanout_status server_exec ks0 (\<lambda>_ _. None) sample_db 100 False (empty_store, []);
       k = tl_key (timeline_home ks0 4) in
   zs (fst (snd run)) k = zs empty_store k \<and> ss (fst (snd run)) k = ss empty_store k"
proof -
  let ?run = "fanout_status server_exec ks0 (\<lambda>_ _. None) sample_db 100 False (empty_store, [])"
  have ok: "store_ok (fst (empty_store, [] :: nat option list))"
    by (simp add: empty_store_def store_ok_def zset_ok_def)
  have run: "?run = (fst ?run, snd ?run)" by simp
  have a: "c_account (d_status sample_distributed) = 1" by code_simp
  then have "estranged sample_db 4 (c_account (d_status sample_distributed))"
      "4 \<noteq> c_account (d_status sample_distributed)"
    by (simp_all add: estranged_def sample_db_def)
  from estranged_homes_untouched [OF server.feed_redis_axioms ok run sample_loaded this,
      of "tl_key (timeline_home ks0 4)"]
  show ?thesis by (simp add: tl_keys_def Let_def)
qed

text \<open>The queries that read what filters a post for its receivers; lists do not ask for exclusive ones.\<close>

definition filter_queries :: "distributed \<Rightarrow> query set" where
  "filter_queries d = {QMentions, QFollows, QBlocking, QMuting, QBlockedBy} \<union>
     {q. q = QFollowing \<and> c_in_reply_to_account (d_status d) \<noteq> None} \<union>
     {q. q = QDomainBlocking \<and> (d_author_domain d \<noteq> None \<or> status_domain (d_status d) \<noteq> [])}"

lemma crutches_for_unread:
  assumes "crutches_for db (d_status d) (d_author_domain d) rs home = Inr cs" "db_down db q"
    and "q \<in> filter_queries d \<or> q = QExclusive \<and> home"
  shows "rs = []"
proof (rule ccontr)
  assume rs: "rs \<noteq> []"
  have "opt_list (d_author_domain d) @ (case c_reblog (d_status d) of None \<Rightarrow> [] | Some (_, x) \<Rightarrow> opt_list x) \<noteq> []"
    if "q = QDomainBlocking"
    using assms(3) that by (cases "d_author_domain d") (auto simp: filter_queries_def status_domain_def split: option.splits)
  then show False
    using assms rs unfolding filter_queries_def
    by (auto simp: crutches_for_def Let_def res_bind_eq_Inr fetch_all_Inr split: if_splits)
qed

text \<open>
  C6: When any query fails that reads what filters a status for its receivers (mentions, the
  follows of the one replied to and of the author, blocks either way, mutes, domain blocks when the
  author or the one boosted is of another server, and exclusive lists), the fan-out fails closed:
  no home feed but the author's own changes, nor, but for the last query, which the filter of
  lists does not make, any list.
\<close>

theorem fan_out_fails_closed:
  assumes "feed_redis redis view" and "store_ok (view r)"
    and "fanout_status redis keys json db i update r = (res, r')"
    and "load_distributed db i = Some d" and "db_down db q"
    and "q \<in> filter_queries d \<or> q = QExclusive \<and> (\<exists>a. k \<in> tl_keys (timeline_home keys a))"
    and "k \<notin> tl_keys (timeline_home keys (c_account (d_status d)))"
  shows "zs (view r') k = zs (view r) k \<and> ss (view r') k = ss (view r) k"
proof -
  note red = assms(1)
  let ?home = "tl_keys (timeline_home keys (c_account (d_status d)))"
  define lists_too where "lists_too = (if q = QExclusive then list_keys_of keys (set (map fst (lists_for_local_distribution db
       (case load_distributed db i of None \<Rightarrow> 0 | Some d \<Rightarrow> c_account (d_status d))))) else {})"
  have unread: "rs = []" if "crutches_for db (d_status d) (d_author_domain d) rs True = Inr cs" for rs cs
    using crutches_for_unread [OF that assms(5)] assms(6) by auto
  have "feed_redis.confined view lists_too (fan_out_lists redis keys json db i update)"
  proof (cases "q = QExclusive")
    case True
    then show ?thesis unfolding lists_too_def using feed_redis.confined_fan_out_lists [OF red] by presburger
  next
    case False
    have "fan_out_lists redis keys json db i update = io_return Map.empty"
    proof (cases "plan_lists db i")
      case (Some p)
      obtain d' ls out where p: "p = (d', ls, out)" by (cases p) auto
      with Some have plan: "plan_lists db i = Some (d', ls, out)" by simp
      then have d': "d' = d" using assms(4) by (auto elim!: plan_listsE)
      from plan obtain cs where "crutches_for db (d_status d) (d_author_domain d) (remdups (map (\<lambda>l. fst (snd l)) ls)) False = Inr cs"
        unfolding d' by (rule plan_listsE)
      from crutches_for_unread [OF this assms(5)] False assms(6) have "ls = []" by simp
      then show ?thesis using plan by (simp add: fan_out_lists_def)
    qed (simp add: fan_out_lists_def)
    then show ?thesis using feed_redis.confined_return [OF red] by simp
  qed
  note lists = this
  have home: "feed_redis.confined view ?home (fan_out_home redis keys json db i update)"
  proof (cases "plan_home db i update")
    case (Some p)
    obtain d' dl un nt where p: "p = (d', dl, un, nt)" by (cases p) auto
    with Some have plan: "plan_home db i update = Some (d', dl, un, nt)" by simp
    then have "d' = d" using assms(4) by (auto elim!: plan_home_shape)
    with plan have "un = []" "set dl \<subseteq> {c_account (d_status d)}"
      by (auto elim!: plan_home_shape dest!: unread simp: in_signed_in_recently)
    then have "home_keys_of keys (set dl \<union> set un) \<subseteq> ?home"
      by (auto simp: home_keys_of_def)
    with feed_redis.confined_fan_out_home_plan [OF red plan] show ?thesis
      by (rule feed_redis.confined_mono [OF red])
  qed (simp add: fan_out_home_def feed_redis.confined_return [OF red])
  have "feed_redis.confined view (?home \<union> lists_too) (fanout_status redis keys json db i update)"
    unfolding fanout_status_def
    by (intro feed_redis.confined_bind [OF red])
      (auto intro: feed_redis.confined_mono [OF red home] feed_redis.confined_mono [OF red lists] intro!: feed_redis.confined_bind [OF red] feed_redis.confined_return [OF red]
        split: prod.split)
  note f = feed_redis.confinedD [OF red this assms(2,3)]
  have "k \<notin> lists_too"
  proof (cases "q = QExclusive")
    case True
    then show ?thesis using assms(6) home_not_in_lists unfolding lists_too_def by (auto simp: filter_queries_def)
  qed (simp add: lists_too_def)
  then show ?thesis using f assms(7) by (simp add: frame_def same_at_def)
qed

theorem fan_out_fails_closed_witness:
  "let db = sample_db\<lparr>db_down := (\<lambda>q. q = QMuting)\<rparr>;
       run = fanout_status server_exec ks0 (\<lambda>_ _. None) db 100 False (empty_store, []);
       k = tl_key (timeline_home ks0 2) in
   zs (fst (snd run)) k = zs empty_store k \<and> ss (fst (snd run)) k = ss empty_store k"
proof -
  let ?db = "sample_db\<lparr>db_down := (\<lambda>q. q = QMuting)\<rparr>"
  let ?run = "fanout_status server_exec ks0 (\<lambda>_ _. None) ?db 100 False (empty_store, [])"
  have ok: "store_ok (fst (empty_store, [] :: nat option list))"
    by (simp add: empty_store_def store_ok_def zset_ok_def)
  have run: "?run = (fst ?run, snd ?run)" by simp
  have load: "load_distributed ?db 100 = Some sample_distributed"
    by (simp add: load_distributed_def distributed_rows_def fetch_or_default_def joined_reblog_def
      left_join_def sample_distributed_def sample_defs Let_def)
  have down: "db_down ?db QMuting" "QMuting \<in> filter_queries sample_distributed \<or> QMuting = QExclusive \<and> (\<exists>a. tl_key (timeline_home ks0 2) \<in> tl_keys (timeline_home ks0 a))"
    by (simp_all add: filter_queries_def)
  have a: "c_account (d_status sample_distributed) = 1" by code_simp
  have "tl_key (timeline_home ks0 2) \<notin> tl_keys (timeline_home ks0 (c_account (d_status sample_distributed)))"
    using home_keys_disjoint [of 2 1 ks0] unfolding a by (auto simp: tl_keys_def)
  from fan_out_fails_closed [OF server.feed_redis_axioms ok run load down this]
  show ?thesis by (simp add: Let_def)
qed

end
