(* ===== verification/FeedBuild.thy ===== *)
theory FeedBuild
  imports FeedFilter FeedSpec
begin

text \<open>
  Filling feeds from the database and taking an account out of them, \<^verbatim>\<open>src/feed.rs\<close>:
  \<^verbatim>\<open>populate_home\<close>, \<^verbatim>\<open>populate_list\<close>, the merges and unmerges, \<^verbatim>\<open>clear_from\<close> and the vacuum
  of inactive feeds. The streaming messages of \<^verbatim>\<open>clear_from\<close> are its result. The database is
  read at one state throughout an operation.
\<close>

section \<open>Populating\<close>

definition find_list :: "database \<Rightarrow> int \<Rightarrow> (int \<times> int) option" where
  "find_list db list_id = (case fetch_or_default db QFindList
       [(li_account l, li_replies_policy l). l \<leftarrow> lists db, li_id l = list_id] of
      [] \<Rightarrow> None | x # _ \<Rightarrow> Some x)"

definition add_all ::
  "'r feed_exec \<Rightarrow> timeline \<Rightarrow> candidate list \<Rightarrow> bool \<Rightarrow> ('r, unit) io" where
  "add_all redis timeline sts aggregate =
     io_bind (io_for sts (\<lambda>status.
       io_bind (add_to_feed redis timeline (c_id status) (c_reblog_of status) aggregate)
         (\<lambda>_. io_return ())))
     (\<lambda>_. trim redis timeline)"

text \<open>One target; \<open>over_limit\<close> is carried from one to the next.\<close>

definition populate_target ::
  "'r feed_exec \<Rightarrow> database \<Rightarrow> timeline \<Rightarrow> int \<Rightarrow> receiver \<Rightarrow> bool \<Rightarrow> int option \<Rightarrow> int \<Rightarrow> ('r, unit) io" where
  "populate_target redis db timeline receiver_id receiver aggregate after target_id =
     (let sts = eligible_statuses db target_id after (FEED_MAX_ITEMS div 2) in
      if sts = [] then io_return ()
      else add_all redis timeline (unfiltered db receiver_id sts receiver) aggregate)"

fun populate_from ::
  "'r feed_exec \<Rightarrow> database \<Rightarrow> timeline \<Rightarrow> int \<Rightarrow> receiver \<Rightarrow> bool \<Rightarrow> bool \<Rightarrow>
   (int \<times> int option) list \<Rightarrow> ('r, unit) io" where
  "populate_from redis db timeline receiver_id receiver aggregate over_limit [] = io_return ()"
| "populate_from redis db timeline receiver_id receiver aggregate over_limit ((target_id, last_status_at) # targets) =
     io_bind (if over_limit then io_return True
       else io_bind (timeline_size redis timeline) (\<lambda>n. io_return (n \<ge> FEED_MAX_ITEMS div 2))) (\<lambda>over_limit.
     io_bind (if over_limit then oldest_score redis timeline else io_return None) (\<lambda>oldest.
     let continue = populate_from redis db timeline receiver_id receiver aggregate over_limit targets;
         add = (\<lambda>after. io_bind (populate_target redis db timeline receiver_id receiver aggregate after target_id)
           (\<lambda>_. continue)) in
     case oldest of
       Some oldest \<Rightarrow> if id_at last_status_at < oldest then continue else add (Some (oldest - 1))
     | None \<Rightarrow> add None))"

definition stats_of :: "database \<Rightarrow> int \<Rightarrow> (int \<times> int option) list" where
  "stats_of db account_id = [(account_id, case x of None \<Rightarrow> None | Some (_, at) \<Rightarrow> at).
     x \<leftarrow> left_join [t. t \<leftarrow> account_stats db, fst t = account_id]]"

definition own_statuses :: "database \<Rightarrow> int \<Rightarrow> status_row list" where
  "own_statuses db account_id = fetch_or_default db QOwnStatuses (take (nat (FEED_MAX_ITEMS div 2))
     (rev (sort_key st_id [s. s \<leftarrow> statuses db, st_account s = account_id \<and> \<not> st_deleted s])))"

definition home_targets :: "database \<Rightarrow> int \<Rightarrow> (int \<times> int option) list" where
  "home_targets db account_id = fetch_or_default db QTargets (sort_key fst
     (concat [stats_of db (ac_id a). f \<leftarrow> follows db, a \<leftarrow> accounts db,
        ac_id a = fo_target f \<and> fo_account f = account_id]))"

definition populate_home ::
  "'r feed_exec \<Rightarrow> keyspace \<Rightarrow> json_bool \<Rightarrow> database \<Rightarrow> int \<Rightarrow> ('r, unit) io" where
  "populate_home redis keys json db account_id =
     (let aggregate = aggregates json db account_id; timeline = timeline_home keys account_id in
      io_or (io_bind (io_for (own_statuses db account_id) (\<lambda>s.
          io_bind (add_to_feed redis timeline (st_id s) (st_reblog_of s) aggregate) (\<lambda>_. io_return ())))
        (\<lambda>_. populate_from redis db timeline account_id Home aggregate False (home_targets db account_id))) ())"

definition list_targets :: "database \<Rightarrow> int \<Rightarrow> (int \<times> int option) list" where
  "list_targets db list_id = fetch_or_default db QListTargets (sort_key fst
     (concat [stats_of db (ac_id a). la \<leftarrow> list_accounts db, a \<leftarrow> accounts db,
        ac_id a = la_account la \<and> la_list la = list_id \<and> la_follow la \<noteq> None]))"

definition populate_list ::
  "'r feed_exec \<Rightarrow> keyspace \<Rightarrow> json_bool \<Rightarrow> database \<Rightarrow> int \<Rightarrow> ('r, unit) io" where
  "populate_list redis keys json db list_id = (case find_list db list_id of
      None \<Rightarrow> io_return ()
    | Some (owner_id, replies_policy) \<Rightarrow>
        io_or (populate_from redis db (timeline_list keys list_id) owner_id (ForList list_id replies_policy)
          (aggregates json db owner_id) False (list_targets db list_id)) ())"

section \<open>Merging\<close>

definition merge ::
  "'r feed_exec \<Rightarrow> json_bool \<Rightarrow> database \<Rightarrow> timeline \<Rightarrow> int \<Rightarrow> int \<Rightarrow> receiver \<Rightarrow> ('r, unit) io" where
  "merge redis json db timeline from_account_id receiver_id receiver =
     (let limit = FEED_MAX_ITEMS div 4; aggregate = aggregates json db receiver_id in
      io_bind (timeline_size redis timeline) (\<lambda>n.
      io_bind (if n \<ge> limit then oldest_score redis timeline else io_return None) (\<lambda>after.
      io_or (add_all redis timeline
        (unfiltered db receiver_id (eligible_statuses db from_account_id after limit) receiver) aggregate) ())))"

definition merge_into_home ::
  "'r feed_exec \<Rightarrow> keyspace \<Rightarrow> json_bool \<Rightarrow> database \<Rightarrow> int \<Rightarrow> int \<Rightarrow> ('r, unit) io" where
  "merge_into_home redis keys json db from_account_id into_account_id =
     (if \<not> is_signed_in_recently db into_account_id then io_return ()
      else merge redis json db (timeline_home keys into_account_id) from_account_id into_account_id Home)"

definition merge_into_list ::
  "'r feed_exec \<Rightarrow> keyspace \<Rightarrow> json_bool \<Rightarrow> database \<Rightarrow> int \<Rightarrow> int \<Rightarrow> ('r, unit) io" where
  "merge_into_list redis keys json db from_account_id list_id = (case find_list db list_id of
      None \<Rightarrow> io_return ()
    | Some (owner_id, replies_policy) \<Rightarrow>
        if \<not> is_signed_in_recently db owner_id then io_return ()
        else merge redis json db (timeline_list keys list_id) from_account_id owner_id
          (ForList list_id replies_policy))"

section \<open>Unmerging\<close>

definition feed_members :: "'r feed_exec \<Rightarrow> timeline \<Rightarrow> ('r, int list) io" where
  "feed_members redis timeline = io_or (q_ids redis (ZRange (tl_key timeline) 0 (- 1))) []"

definition unmerge ::
  "'r feed_exec \<Rightarrow> json_bool \<Rightarrow> database \<Rightarrow> int \<Rightarrow> timeline \<Rightarrow> int list \<Rightarrow> ('r, unit) io" where
  "unmerge redis json db owner_id timeline ids =
     (if ids = [] then io_return ()
      else let reblogs = reblogs_of db ids; aggregate = aggregates json db owner_id in
        io_or (io_for ids (\<lambda>i. io_bind (remove_from_feed redis timeline i (reblogs i) aggregate)
          (\<lambda>_. io_return ()))) ())"

definition unmerge_account ::
  "'r feed_exec \<Rightarrow> json_bool \<Rightarrow> database \<Rightarrow> int \<Rightarrow> int \<Rightarrow> timeline \<Rightarrow> ('r, unit) io" where
  "unmerge_account redis json db from_account_id owner_id timeline =
     io_bind (feed_members redis timeline) (\<lambda>members.
     if members = [] then io_return ()
     else unmerge redis json db owner_id timeline (fetch_or_default db QUnmerge
       [st_id s. s \<leftarrow> statuses db, st_account s = from_account_id \<and> st_id s \<in> set members \<and> \<not> st_deleted s]))"

definition unmerge_from_home where
  "unmerge_from_home redis keys json db from_account_id into_account_id =
     unmerge_account redis json db from_account_id into_account_id (timeline_home keys into_account_id)"

definition unmerge_from_list ::
  "'r feed_exec \<Rightarrow> keyspace \<Rightarrow> json_bool \<Rightarrow> database \<Rightarrow> int \<Rightarrow> int \<Rightarrow> ('r, unit) io" where
  "unmerge_from_list redis keys json db from_account_id list_id = (case find_list db list_id of
      None \<Rightarrow> io_return ()
    | Some (owner_id, _) \<Rightarrow>
        unmerge_account redis json db from_account_id owner_id (timeline_list keys list_id))"

section \<open>Clearing\<close>

text \<open>What \<^verbatim>\<open>clear_from\<close> reads of the feed's statuses, and which of them must go.\<close>

definition feed_statuses :: "database \<Rightarrow> int list \<Rightarrow> status_row list" where
  "feed_statuses db members = fetch_or_default db QClearStatuses
     [s. s \<leftarrow> statuses db, st_id s \<in> set members \<and> \<not> st_deleted s]"

definition reblogged_of :: "database \<Rightarrow> status_row list \<Rightarrow> int \<Rightarrow> int set" where
  "reblogged_of db sts target = set (fetch_or_default db QClearBoosted
     [st_id s. s \<leftarrow> statuses db, st_id s \<in> set (concat (map (\<lambda>s. opt_list (st_reblog_of s)) sts)) \<and>
        st_account s = target \<and> \<not> st_deleted s])"

definition with_mentions_of :: "database \<Rightarrow> status_row list \<Rightarrow> int \<Rightarrow> int set" where
  "with_mentions_of db sts target = set (fetch_or_default db QClearMentions
     [me_status m. m \<leftarrow> mentions db,
        me_status m \<in> set (concat (map (\<lambda>s. st_id s # opt_list (st_reblog_of s)) sts)) \<and>
        me_account m = target \<and> \<not> me_silent m])"

definition to_clear :: "int \<Rightarrow> int set \<Rightarrow> int set \<Rightarrow> status_row \<Rightarrow> bool" where
  "to_clear target reblogged with_mentions s =
     (let boosts_target = (case st_reblog_of s of None \<Rightarrow> False
        | Some r \<Rightarrow> r \<in> reblogged \<or> r \<in> with_mentions) in
      \<not> (st_account s \<noteq> target \<and> \<not> boosts_target \<and> st_id s \<notin> with_mentions))"

text \<open>The loop, which stops at the first error; it returns the ids streamed as deleted.\<close>

fun clear_loop ::
  "'r feed_exec \<Rightarrow> timeline \<Rightarrow> bool \<Rightarrow> status_row list \<Rightarrow> int list \<Rightarrow> ('r, int list) io" where
  "clear_loop redis timeline aggregate [] streamed = io_return streamed"
| "clear_loop redis timeline aggregate (s # sts) streamed = (\<lambda>r.
     case remove_from_feed redis timeline (st_id s) (st_reblog_of s) aggregate r of
       (Inr True, r') \<Rightarrow> clear_loop redis timeline aggregate sts (streamed @ [st_id s]) r'
     | (Inr False, r') \<Rightarrow> clear_loop redis timeline aggregate sts streamed r'
     | (Inl _, r') \<Rightarrow> (Inr streamed, r'))"

definition clear_from ::
  "'r feed_exec \<Rightarrow> json_bool \<Rightarrow> database \<Rightarrow> timeline \<Rightarrow> int \<Rightarrow> int \<Rightarrow> string \<Rightarrow> ('r, (string \<times> int) list) io" where
  "clear_from redis json db timeline owner_id target_account_id channel =
     io_bind (feed_members redis timeline) (\<lambda>members.
     if members = [] then io_return []
     else let sts = feed_statuses db members;
              reblogged = reblogged_of db sts target_account_id;
              with_mentions = with_mentions_of db sts target_account_id;
              aggregate = aggregates json db owner_id in
       io_bind (clear_loop redis timeline aggregate
         (filter (to_clear target_account_id reblogged with_mentions) sts) []) (\<lambda>streamed.
       io_return (map (Pair channel) streamed)))"

definition clear_from_home where
  "clear_from_home redis keys json db account_id target_account_id =
     clear_from redis json db (timeline_home keys account_id) account_id target_account_id
       (''timeline:'' @ dec account_id)"

fun clear_lists ::
  "'r feed_exec \<Rightarrow> keyspace \<Rightarrow> json_bool \<Rightarrow> database \<Rightarrow> int \<Rightarrow> int \<Rightarrow> int list \<Rightarrow> ('r, (string \<times> int) list) io" where
  "clear_lists redis keys json db account_id target_account_id [] = io_return []"
| "clear_lists redis keys json db account_id target_account_id (l # ls) =
     io_bind (clear_from redis json db (timeline_list keys l) account_id target_account_id
       (''timeline:list:'' @ dec l)) (\<lambda>a.
     io_bind (clear_lists redis keys json db account_id target_account_id ls) (\<lambda>b. io_return (a @ b)))"

definition clear_from_lists where
  "clear_from_lists redis keys json db account_id target_account_id =
     clear_lists redis keys json db account_id target_account_id
       (fetch_or_default db (QListsOf account_id)
         [li_id l. l \<leftarrow> lists db, li_account l = account_id])"

section \<open>Vacuuming\<close>

definition inactive_user :: "database \<Rightarrow> user_row \<Rightarrow> bool" where
  "inactive_user db u \<longleftrightarrow> us_confirmed u \<and>
     (case us_sign_in u of None \<Rightarrow> False | Some at \<Rightarrow> at < db_now db - days ACTIVE_DAYS)"

definition BATCH :: nat where
  "BATCH = 1000"

definition inactive_batch :: "database \<Rightarrow> int \<Rightarrow> user_row list" where
  "inactive_batch db after =
     take BATCH (sort_key us_id [u. u \<leftarrow> users db, inactive_user db u \<and> us_id u > after])"

lemma inactive_batch_after: "u \<in> set (inactive_batch db after) \<Longrightarrow> u \<in> set (users db) \<and> after < us_id u"
  by (auto simp: inactive_batch_def dest!: in_set_takeD)

definition users_after :: "database \<Rightarrow> int \<Rightarrow> nat" where
  "users_after db after = card {u \<in> set (users db). us_id u > after}"

lemma users_after_less:
  assumes "inactive_batch db after \<noteq> []"
  shows "users_after db (us_id (last (inactive_batch db after))) < users_after db after"
proof -
  have "last (inactive_batch db after) \<in> set (inactive_batch db after)" using assms by (rule last_in_set)
  note l = inactive_batch_after [OF this]
  then have "{x \<in> set (users db). us_id x > us_id (last (inactive_batch db after))} \<subset> {x \<in> set (users db). us_id x > after}"
    by (auto simp: psubset_eq)
  then show ?thesis
    unfolding users_after_def by (intro psubset_card_mono) auto
qed

text \<open>The loop ends with an error of the database or with an empty batch.\<close>

function vacuum_loop ::
  "'r feed_exec \<Rightarrow> keyspace \<Rightarrow> database \<Rightarrow> int \<Rightarrow> 'r \<Rightarrow> (sqlx_error + unit) \<times> 'r" where
  "vacuum_loop redis keys db after r =
     (case fetch_all db (QVacuumUsers after) (inactive_batch db after) of
        Inl e \<Rightarrow> (Inl e, r)
      | Inr [] \<Rightarrow> (Inr (), r)
      | Inr batch \<Rightarrow>
          (let after' = us_id (last batch); account_ids = map us_account batch;
               r' = snd (io_for account_ids (delete_home_feed redis keys) r) in
           case fetch_all db (QVacuumLists after') [li_id l. l \<leftarrow> lists db, li_account l \<in> set account_ids] of
             Inl e \<Rightarrow> (Inl e, r')
           | Inr ls \<Rightarrow> vacuum_loop redis keys db after' (snd (io_for ls (delete_list_feed redis keys) r'))))"
  by pat_completeness auto

termination
  by (relation "measure (\<lambda>(redis, keys, db, after, r). users_after db after)")
    (auto simp: fetch_all_Inr simp del: last.simps intro!: users_after_less)

definition vacuum_inactive_feeds where
  "vacuum_inactive_feeds redis keys db = vacuum_loop redis keys db 0"

end
