(* ===== verification/FeedBuildFacts.thy ===== *)
theory FeedBuildFacts
  imports FeedBuild FeedTracking
begin

text \<open>
  Filling a feed: whatever \<open>add_to_feed\<close> of the statuses let in and \<open>trim\<close> keep, populating
  and merging keep, wherever Redis fails (locale \<open>feed_fill\<close>). It holds of the window
  invariant, and of a bound on what the feed contains. The vacuum is at the end.
\<close>

locale feed_fill = feed_redis exec view
  for exec :: "'r feed_exec" and view :: "'r \<Rightarrow> feed_store" +
  fixes t :: timeline and agg :: bool and I :: "feed_store \<Rightarrow> bool"
    and lets_in :: "int \<Rightarrow> int option \<Rightarrow> bool"
  assumes add_keeps: "lets_in i rb \<Longrightarrow> I s \<Longrightarrow> wp view (add_to_feed exec t i rb agg) (\<lambda>_. I) I s"
    and trim_keeps: "I s \<Longrightarrow> wp view (trim exec t) (\<lambda>_. I) I s"
begin

definition keeps :: "('r, 'a) io \<Rightarrow> bool" where
  "keeps m \<longleftrightarrow> (\<forall>s. I s \<longrightarrow> wp view m (\<lambda>_. I) I s)"

lemma keeps_return: "keeps (io_return v)"
  by (simp add: keeps_def wp_return)

lemma keeps_bind: "keeps m \<Longrightarrow> (\<And>v. keeps (k v)) \<Longrightarrow> keeps (io_bind m k)"
  unfolding keeps_def by (blast intro: wp_bind wp_conseq)

lemma keeps_or: "keeps m \<Longrightarrow> keeps (io_or m d)"
  unfolding keeps_def by (blast intro: wp_or wp_conseq)

lemma keeps_for: "(\<And>x. x \<in> set xs \<Longrightarrow> keeps (f x)) \<Longrightarrow> keeps (io_for xs f)"
  unfolding keeps_def by (blast intro: wp_for)

lemma keeps_add: "lets_in i rb \<Longrightarrow> keeps (add_to_feed exec t i rb agg)"
  by (simp add: keeps_def add_keeps)

lemma keeps_trim: "keeps (trim exec t)"
  by (simp add: keeps_def trim_keeps)

lemma keeps_read:
  assumes "\<And>s. feed_effect c s = s"
  shows "keeps (q_int exec c)" "keeps (q_pairs exec c)"
proof -
  have e: "keeps (exec [c])"
    unfolding keeps_def by (auto intro!: wp_exec1 simp: assms)
  have f: "keeps io_fail" by (simp add: keeps_def wp_def io_fail_def)
  show "keeps (q_int exec c)" "keeps (q_pairs exec c)"
    unfolding q_int_def q_pairs_def
    by (intro keeps_bind e; simp add: f keeps_return split: list.split freply.split)+
qed

lemma keeps_size: "keeps (timeline_size exec t)"
  unfolding timeline_size_def by (intro keeps_or keeps_read) simp

lemma keeps_oldest: "keeps (oldest_score exec t)"
  unfolding oldest_score_def by (intro keeps_bind keeps_or keeps_read keeps_return) simp

lemma keeps_add_all:
  "(\<And>c. c \<in> set sts \<Longrightarrow> lets_in (c_id c) (c_reblog_of c)) \<Longrightarrow> keeps (add_all exec t sts agg)"
  unfolding add_all_def by (intro keeps_bind keeps_for keeps_trim keeps_return keeps_add)

text \<open>What may be offered to a feed: an eligible status of \<open>a\<close> that the filter lets in.\<close>

definition offers_ok :: "database \<Rightarrow> int \<Rightarrow> receiver \<Rightarrow> int \<Rightarrow> bool" where
  "offers_ok db r rc a \<longleftrightarrow> (\<forall>after limit c. c \<in> set (unfiltered db r (eligible_statuses db a after limit) rc) \<longrightarrow>
     lets_in (c_id c) (c_reblog_of c))"

lemma keeps_populate_target:
  "offers_ok db r rc a \<Longrightarrow> keeps (populate_target exec db t r rc agg after a)"
  unfolding populate_target_def Let_def offers_ok_def
  by (auto intro!: keeps_add_all keeps_return)

lemma keeps_populate_from:
  "(\<And>p. p \<in> set targets \<Longrightarrow> offers_ok db r rc (fst p)) \<Longrightarrow>
   keeps (populate_from exec db t r rc agg over targets)"
proof (induction targets arbitrary: over)
  case Nil
  then show ?case by (simp add: keeps_return)
next
  case (Cons p targets)
  have rest: "keeps (populate_from exec db t r rc agg over targets)" for over
    using Cons by simp
  have "offers_ok db r rc (fst p)" using Cons.prems by simp
  note target = keeps_populate_target [OF this]
  show ?case
    by (cases p) (use target in \<open>auto simp: Let_def intro!: keeps_bind keeps_size keeps_oldest keeps_return rest
      split: option.split if_splits\<close>)
qed

lemma keeps_merge:
  assumes "agg = aggregates json db r" and "offers_ok db r rc a"
  shows "keeps (merge exec json db t a r rc)"
  unfolding merge_def Let_def assms(1) [symmetric]
  by (intro keeps_bind keeps_size keeps_or)
    (use assms(2) in \<open>auto simp: offers_ok_def intro!: keeps_oldest keeps_return keeps_add_all\<close>)

lemma keeps_populate_list:
  assumes "t = timeline_list keys l" and "find_list db l = Some (ow, p)" and "agg = aggregates json db ow"
    and "\<And>x. x \<in> set (list_targets db l) \<Longrightarrow> offers_ok db ow (ForList l p) (fst x)"
  shows "keeps (populate_list exec keys json db l)"
  unfolding populate_list_def assms(2) option.case prod.case
  using keeps_populate_from [of "list_targets db l" db ow "ForList l p"] assms by (auto intro: keeps_or)

lemma keeps_populate_home:
  assumes "t = timeline_home keys a" and "agg = aggregates json db a"
    and "\<And>s. s \<in> set (own_statuses db a) \<Longrightarrow> lets_in (st_id s) (st_reblog_of s)"
    and "\<And>x. x \<in> set (home_targets db a) \<Longrightarrow> offers_ok db a Home (fst x)"
  shows "keeps (populate_home exec keys json db a)"
  unfolding populate_home_def Let_def assms(1,2) [symmetric]
  by (intro keeps_or keeps_bind keeps_for keeps_populate_from keeps_return keeps_add assms(3,4))

lemma keepsD: "keeps m \<Longrightarrow> I (view r) \<Longrightarrow> I (view (snd (m r)))"
  unfolding keeps_def by (cases "m r"; cases "fst (m r)") (auto dest: wp_InrD wp_InlD)

end

text \<open>The window invariant, for a receiver who has boosts aggregated.\<close>

lemma window_fill:
  assumes "feed_redis exec view" and "timeline_keys t"
  shows "feed_fill exec view t True (\<lambda>s. store_ok s \<and> window_ok rb t s) (\<lambda>i r. r = rb i)"
  using assms feed_redis.wp_add_window [OF assms] feed_redis.wp_trim_window [OF assms]
  by (auto simp: feed_fill_def feed_fill_axioms_def)

interpretation server_window: feed_fill server_exec fst "timeline_home ks a" True
  "\<lambda>s. store_ok s \<and> window_ok rb (timeline_home ks a) s" "\<lambda>i r. r = rb i" for ks a rb
  by (rule window_fill [OF server.feed_redis_axioms timeline_keys_home])

text \<open>A bound on the feed's contents.\<close>

lemma add_script_contents:
  assumes "timeline_keys t"
  shows "zmem (zs (effects (take n (snd (add_script t i rb agg s))) s) (tl_key t)) \<subseteq> insert i (zmem (zs s (tl_key t)))"
proof -
  have "n = 0 \<or> n = 1 \<or> n \<ge> 2" by auto
  then show ?thesis
    by (auto simp: add_script_def timeline_keys.keys_distinct [OF assms] take_Cons' split: option.splits)
qed

lemma effects_shrink:
  assumes "\<And>c s. c \<in> set cs \<Longrightarrow> zmem (zs (feed_effect c s) k) \<subseteq> zmem (zs s k)"
  shows "zmem (zs (effects cs s) k) \<subseteq> zmem (zs s k)"
  using assms
proof (induction cs arbitrary: s)
  case (Cons c cs)
  then have "zmem (zs (effects cs (feed_effect c s)) k) \<subseteq> zmem (zs (feed_effect c s) k)" by simp
  with Cons.prems [of c s] show ?case by auto
qed simp

lemma trim_script_contents:
  assumes "timeline_keys t"
  shows "zmem (zs (effects (take n (trim_script t s)) s) (tl_key t)) \<subseteq> zmem (zs s (tl_key t))"
proof (rule effects_shrink)
  fix c s' assume "c \<in> set (take n (trim_script t s))"
  then have "c \<in> set (trim_script t s)" by (rule in_set_takeD)
  then show "zmem (zs (feed_effect c s') (tl_key t)) \<subseteq> zmem (zs s' (tl_key t))"
    by (auto simp: trim_script_def untrack_def timeline_keys.keys_distinct [OF assms] zmem_def
      dest!: in_set_dropD intro: image_eqI [rotated])
qed

lemma contents_fill:
  assumes "feed_redis exec view" and "timeline_keys t"
  shows "feed_fill exec view t agg (\<lambda>s. zmem (zs s (tl_key t)) \<subseteq> S) (\<lambda>i _. i \<in> S)"
proof -
  have "wp view (add_to_feed exec t i rb agg) (\<lambda>_ s. zmem (zs s (tl_key t)) \<subseteq> S)
      (\<lambda>s. zmem (zs s (tl_key t)) \<subseteq> S) s"
    if "i \<in> S" "zmem (zs s (tl_key t)) \<subseteq> S" for i rb s
  proof (rule feed_redis.wp_runs [OF assms(1) feed_redis.runs_add [OF assms(1)]])
    fix n show "zmem (zs (effects (take n (snd (add_script t i rb agg s))) s) (tl_key t)) \<subseteq> S"
      using add_script_contents [OF assms(2)] that by blast
  next
    show "zmem (zs (effects (snd (add_script t i rb agg s)) s) (tl_key t)) \<subseteq> S"
      using add_script_contents [OF assms(2), of "length (snd (add_script t i rb agg s))" i rb agg s] that by auto
  qed
  moreover have "wp view (trim exec t) (\<lambda>_ s. zmem (zs s (tl_key t)) \<subseteq> S)
      (\<lambda>s. zmem (zs s (tl_key t)) \<subseteq> S) s" if "zmem (zs s (tl_key t)) \<subseteq> S" for s
  proof (rule feed_redis.wp_runs [OF assms(1) feed_redis.runs_trim [OF assms]])
    fix n show "zmem (zs (effects (take n (trim_script t s)) s) (tl_key t)) \<subseteq> S"
      using trim_script_contents [OF assms(2)] that by blast
  next
    show "zmem (zs (effects (trim_script t s) s) (tl_key t)) \<subseteq> S"
      using trim_script_contents [OF assms(2), of "length (trim_script t s)" s] that by auto
  qed
  ultimately show ?thesis using assms(1) by (auto simp: feed_fill_def feed_fill_axioms_def)
qed

interpretation server_contents: feed_fill server_exec fst "timeline_home ks a" agg
  "\<lambda>s. zmem (zs s (tl_key (timeline_home ks a))) \<subseteq> S" "\<lambda>i _. i \<in> S" for ks a agg S
  by (rule contents_fill [OF server.feed_redis_axioms timeline_keys_home])

section \<open>What is offered\<close>

text \<open>\<open>rb\<close> agrees with the statuses of the database.\<close>

definition boosts_of :: "database \<Rightarrow> (int \<Rightarrow> int option) \<Rightarrow> bool" where
  "boosts_of db rb \<longleftrightarrow> (\<forall>s \<in> set (statuses db). rb (st_id s) = st_reblog_of s)"

lemma unfiltered_sub: "set (unfiltered db r sts rc) \<subseteq> set sts"
  by (auto simp: unfiltered_def split: sum.splits)

lemma unfilteredD:
  assumes "c \<in> set (unfiltered db r sts rc)"
  obtains cr where "crutches_build db r sts rc = Inr cr" and "\<not> filter_from_home c r cr rc"
  using assms by (auto simp: unfiltered_def split: sum.splits if_splits)

lemma unfiltered_boosts:
  assumes "boosts_of db rb" and "c \<in> set (unfiltered db r (eligible_statuses db a after limit) rc)"
  shows "c_reblog_of c = rb (c_id c)"
proof -
  have "c \<in> set (eligible_statuses db a after limit)" using assms(2) unfiltered_sub by blast
  from eligible_statusesD [OF this] assms(1) show ?thesis by (auto simp: boosts_of_def candidate_of_def)
qed

lemma own_statuses_mem: "s \<in> set (own_statuses db a) \<Longrightarrow> s \<in> set (statuses db) \<and> st_account s = a \<and> \<not> st_deleted s"
  by (auto simp: own_statuses_def in_fetch_or_default dest!: in_set_takeD)

section \<open>Vacuuming\<close>

text \<open>Cleaning feeds on a Redis that does not fail; every timeline keeps its invariant.\<close>

context reliable_feed_redis
begin

definition emptied :: "timeline \<Rightarrow> feed_store \<Rightarrow> bool" where
  "emptied t s \<longleftrightarrow> (\<forall>k \<in> tl_keys t. zs s k = [] \<and> ss s k = [])"

lemma emptied_tracking: "emptied t s \<Longrightarrow> tracking_ok rb t s"
  by (rule tracking_okI) (auto simp: emptied_def tl_keys_def scored_def)

lemma clean_frame: "frame (tl_keys t) (view r) (view (snd (clean_feed exec t r)))"
  unfolding clean_feed_runs by (rule frame_effects) (auto simp: tl_keys_def)

lemma clean_empties:
  "tracking_ok rb t (view r) \<Longrightarrow> emptied t (view (snd (clean_feed exec t r)))"
  using clean_feed_complete by (auto simp: emptied_def)

lemma tracking_frame:
  assumes "frame K s s'" and "K \<inter> tl_keys t = {}"
  shows "tracking_ok rb t s' = tracking_ok rb t s" and "emptied t s' = emptied t s"
proof -
  have "zs s' k = zs s k \<and> ss s' k = ss s k" if "k \<in> tl_keys t" for k
    using assms that by (auto simp: frame_def same_at_def)
  then show "tracking_ok rb t s' = tracking_ok rb t s" "emptied t s' = emptied t s"
    by (auto simp: tracking_ok_def emptied_def tl_keys_def)
qed

text \<open>A loop that cleans timelines that are pairwise apart.\<close>

lemma io_for_clean_Cons:
  "snd (io_for (x # xs) (\<lambda>x. clean_feed exec (f x)) r) =
   snd (io_for xs (\<lambda>x. clean_feed exec (f x)) (snd (clean_feed exec (f x) r)))"
proof -
  have "\<exists>v. fst (clean_feed exec (f x) r) = Inr v"
    by (auto simp: clean_feed_def io_bind_def io_or_def split: prod.splits sum.splits)
  then show ?thesis by (auto simp: io_bind_def split: prod.splits sum.splits)
qed

lemma clean_all:
  assumes "tracking_ok rb t (view r)" and "\<And>x. tl_keys (f x) \<inter> tl_keys t = {} \<or> f x = t"
  shows "tracking_ok rb t (view (snd (io_for xs (\<lambda>x. clean_feed exec (f x)) r))) \<and>
    (t \<in> f ` set xs \<or> emptied t (view r) \<longrightarrow> emptied t (view (snd (io_for xs (\<lambda>x. clean_feed exec (f x)) r))))"
  using assms(1)
proof (induction xs arbitrary: r)
  case Nil
  then show ?case by (simp add: io_return_def)
next
  case (Cons x xs)
  let ?r = "snd (clean_feed exec (f x) r)"
  have "tracking_ok rb t (view ?r) \<and> (f x = t \<or> emptied t (view r) \<longrightarrow> emptied t (view ?r))"
    using assms(2) [of x] clean_empties [of rb "f x" r] tracking_frame [OF clean_frame [of "f x" r]] Cons.prems
    by (auto intro: emptied_tracking)
  with Cons.IH [of ?r] show ?case unfolding io_for_clean_Cons by auto
qed

lemma home_apart: "tl_keys (timeline_home ks a) \<inter> tl_keys (timeline_home ks b) = {} \<or> timeline_home ks a = timeline_home ks b"
  by (cases "a = b") (simp_all add: home_keys_disjoint)

lemma list_apart: "tl_keys (timeline_list ks a) \<inter> tl_keys (timeline_list ks b) = {} \<or> timeline_list ks a = timeline_list ks b"
  by (cases "a = b") (simp_all add: list_keys_disjoint)

end

text \<open>Batches cover all users, in order of their ids.\<close>

lemma sorted_take_drop:
  assumes "sorted (map f xs)" and "x \<in> set (take n xs)" and "y \<in> set (drop n xs)"
  shows "f x \<le> f y"
proof -
  have "sorted (map f (take n xs) @ map f (drop n xs))"
    using assms(1) by (simp flip: map_append)
  with assms(2,3) show ?thesis by (simp add: sorted_append)
qed

lemma in_take_or_drop: "x \<in> set xs \<Longrightarrow> x \<in> set (take n xs) \<or> x \<in> set (drop n xs)"
  by (metis Un_iff append_take_drop_id set_append)

lemma inactive_batch_covers:
  assumes "distinct (map us_id (users db))"
    and "u \<in> set (users db)" and "inactive_user db u" and "after < us_id u"
  shows "u \<in> set (inactive_batch db after) \<or>
    inactive_batch db after \<noteq> [] \<and> us_id (last (inactive_batch db after)) < us_id u"
proof -
  define xs where "xs = sort_key us_id [u. u \<leftarrow> users db, inactive_user db u \<and> us_id u > after]"
  have b: "inactive_batch db after = take BATCH xs" by (simp add: inactive_batch_def xs_def)
  have u: "u \<in> set xs" and sorted: "sorted (map us_id xs)" and sub: "set xs \<subseteq> set (users db)"
    using assms unfolding xs_def by auto
  show ?thesis
  proof (cases "u \<in> set (take BATCH xs)")
    case False
    with in_take_or_drop [OF u, of BATCH] have d: "u \<in> set (drop BATCH xs)" by simp
    have "BATCH \<noteq> 0" by (simp add: BATCH_def)
    with u have ne: "take BATCH xs \<noteq> []" by (metis empty_iff list.set(1) take_eq_Nil)
    then have l: "last (take BATCH xs) \<in> set (take BATCH xs)" by (rule last_in_set)
    have "us_id (last (take BATCH xs)) \<noteq> us_id u"
    proof
      assume "us_id (last (take BATCH xs)) = us_id u"
      moreover have "last (take BATCH xs) \<in> set (users db)" using in_set_takeD [OF l] sub by (rule rev_subsetD)
      moreover have "inj_on us_id (set (users db))" using assms(1) by (simp add: distinct_map)
      ultimately have "last (take BATCH xs) = u" using assms(2) by (blast dest: inj_onD)
      with l False show False by simp
    qed
    with sorted_take_drop [OF sorted l d] ne show ?thesis unfolding b by simp
  qed (simp add: b)
qed


text \<open>The timelines one round of the vacuum is for.\<close>

definition of_user :: "database \<Rightarrow> keyspace \<Rightarrow> timeline \<Rightarrow> user_row \<Rightarrow> bool" where
  "of_user db keys t u \<longleftrightarrow> t = timeline_home keys (us_account u) \<or>
     (\<exists>l \<in> set (lists db). li_account l = us_account u \<and> t = timeline_list keys (li_id l))"

context reliable_feed_redis
begin

lemma vacuum_round:
  assumes "tracking_ok rb t (view r)" and "(\<exists>a. t = timeline_home keys a) \<or> (\<exists>l. t = timeline_list keys l)"
    and r2_def: "r2 = snd (io_for [li_id l. l \<leftarrow> lists db, li_account l \<in> set (map us_account batch)] (delete_list_feed exec keys)
    (snd (io_for (map us_account batch) (delete_home_feed exec keys) r)))"
  shows "tracking_ok rb t (view r2) \<and>
    (emptied t (view r) \<or> (\<exists>u \<in> set batch. of_user db keys t u) \<longrightarrow> emptied t (view r2))"
proof -
  let ?homes = "map us_account batch" and ?lists = "[li_id l. l \<leftarrow> lists db, li_account l \<in> set (map us_account batch)]"
  let ?r1 = "snd (io_for ?homes (\<lambda>a. clean_feed exec (timeline_home keys a)) r)"
  have r2: "r2 = snd (io_for ?lists (\<lambda>l. clean_feed exec (timeline_list keys l)) ?r1)"
    unfolding r2_def delete_home_feed_def [abs_def] delete_list_feed_def [abs_def] ..
  have "tl_keys (timeline_home keys x) \<inter> tl_keys t = {} \<or> timeline_home keys x = t" for x
    using assms(2) home_apart home_list_disjoint by blast
  note homes = clean_all [where f = "timeline_home keys", OF assms(1) this, of "map us_account batch"]
  have "tl_keys (timeline_list keys x) \<inter> tl_keys t = {} \<or> timeline_list keys x = t" for x
    using assms(2) list_apart home_list_disjoint by blast
  note lists = clean_all [where f = "timeline_list keys", OF conjunct1 [OF homes] this, of ?lists]
  have "t \<in> timeline_home keys ` set ?homes \<or> t \<in> timeline_list keys ` set ?lists"
    if "\<exists>u \<in> set batch. of_user db keys t u"
    using that by (auto simp: of_user_def)
  with homes lists show ?thesis unfolding r2 by blast
qed

lemma vacuum_loop_cleans:
  assumes up: "\<And>q. \<not> db_down db q" and ids: "distinct (map us_id (users db))"
    and t: "(\<exists>a. t = timeline_home keys a) \<or> (\<exists>l. t = timeline_list keys l)"
    and "tracking_ok rb t (view r)"
  shows "fst (vacuum_loop exec keys db after r) = Inr () \<and>
    tracking_ok rb t (view (snd (vacuum_loop exec keys db after r))) \<and>
    (emptied t (view r) \<or> (\<exists>u \<in> set (users db). inactive_user db u \<and> after < us_id u \<and> of_user db keys t u) \<longrightarrow>
      emptied t (view (snd (vacuum_loop exec keys db after r))))"
  using assms(4)
proof (induction "users_after db after" arbitrary: after r rule: less_induct)
  case less
  let ?b = "inactive_batch db after"
  show ?case
  proof (cases "?b = []")
    case True
    then have "\<not> (inactive_user db u \<and> after < us_id u)" if "u \<in> set (users db)" for u
      using inactive_batch_covers [OF ids that, of after] by auto
    with True up less.prems show ?thesis
      by (subst (1 2 3) vacuum_loop.simps) (auto simp: fetch_all_def)
  next
    case False
    let ?after = "us_id (last ?b)"
    let ?r2 = "snd (io_for [li_id l. l \<leftarrow> lists db, li_account l \<in> set (map us_account ?b)] (delete_list_feed exec keys)
      (snd (io_for (map us_account ?b) (delete_home_feed exec keys) r)))"
    have step: "vacuum_loop exec keys db after r = vacuum_loop exec keys db ?after ?r2"
      using False up by (subst vacuum_loop.simps) (simp add: fetch_all_def Let_def split: list.split)
    note round = vacuum_round [OF less.prems t refl, where db = db and batch = ?b]
    note IH = less.hyps [OF users_after_less [OF False] conjunct1 [OF round]]
    have "(\<exists>u \<in> set ?b. of_user db keys t u) \<or> (inactive_user db u \<and> ?after < us_id u \<and> of_user db keys t u)"
      if "u \<in> set (users db)" "inactive_user db u" "after < us_id u" "of_user db keys t u" for u
      using inactive_batch_covers [OF ids that(1-3)] that by blast
    with round IH show ?thesis unfolding step by blast
  qed
qed

end

end
