(* ===== verification/BuildTheorems.thy ===== *)
theory BuildTheorems
  imports FeedBuildFacts FanoutTheorems
begin

text \<open>
  The properties of filling, clearing and vacuuming feeds.
\<close>

section \<open>Filling\<close>

text \<open>
  Populating a home feed or merging an account into it keeps the promise of the pushes,
  wherever Redis fails: among the newest 80 entries no post appears twice. The receiver has
  boosts aggregated (the default), and ids name statuses consistently.
\<close>

theorem filling_shows_no_post_twice:
  assumes "feed_redis redis view" and "aggregates json db a" and "boosts_of db rb"
    and "store_ok (view r) \<and> window_ok rb (timeline_home keys a) (view r)"
  shows "window_ok rb (timeline_home keys a) (view (snd (populate_home redis keys json db a r))) \<and>
    window_ok rb (timeline_home keys a) (view (snd (merge_into_home redis keys json db from a r)))"
proof -
  note fill = window_fill [OF assms(1) timeline_keys_home [of keys a], of rb]
  have offers: "feed_fill.offers_ok (\<lambda>i r. r = rb i) db a Home x" for x
    unfolding feed_fill.offers_ok_def [OF fill] using unfiltered_boosts [OF assms(3)] by blast
  have own: "st_reblog_of s = rb (st_id s)" if "s \<in> set (own_statuses db a)" for s
    using own_statuses_mem [OF that] assms(3) by (simp add: boosts_of_def)
  have agg: "True = aggregates json db a" using assms(2) by simp
  have "feed_fill.keeps view (\<lambda>s. store_ok s \<and> window_ok rb (timeline_home keys a) s)
      (populate_home redis keys json db a)"
    by (rule feed_fill.keeps_populate_home [OF fill refl agg]) (use own offers in auto)
  moreover have "feed_fill.keeps view (\<lambda>s. store_ok s \<and> window_ok rb (timeline_home keys a) s)
      (merge_into_home redis keys json db from a)"
    using feed_fill.keeps_merge [OF fill agg offers] by (simp add: merge_into_home_def feed_fill.keeps_return [OF fill])
  ultimately show ?thesis using feed_fill.keepsD [OF fill] assms(4) by blast
qed

lemma sample_boosts: "boosts_of sample_db (\<lambda>_. None)"
  by (simp add: boosts_of_def sample_defs)

lemma sample_aggregates: "aggregates (\<lambda>_ _. None) sample_db a"
  by (auto simp: aggregates_def not_aggregating_def aggregates_reblogs_def user_setting_bool_def
    in_fetch_or_default split: option.splits)

theorem filling_shows_no_post_twice_witness:
  "let r = (empty_store, [None, Some 0]) in
   window_ok (\<lambda>_. None) (timeline_home ks0 2) (fst (snd (populate_home server_exec ks0 (\<lambda>_ _. None) sample_db 2 r))) \<and>
   window_ok (\<lambda>_. None) (timeline_home ks0 2) (fst (snd (merge_into_home server_exec ks0 (\<lambda>_ _. None) sample_db 1 2 r)))"
  unfolding Let_def
  by (rule filling_shows_no_post_twice [OF server.feed_redis_axioms sample_aggregates sample_boosts])
    (simp add: window_ok_empty empty_store_def store_ok_def zset_ok_def)

text \<open>
  Merging an account into a home feed adds nothing to it but kept public, unlisted or
  private statuses of that account that the home filter lets in, wherever Redis fails; and it
  changes nothing for a user who has not signed in recently or whose filters cannot be read.
\<close>

theorem merge_adds_only_what_the_filter_lets_in:
  assumes "feed_redis redis view"
    and "merge_into_home redis keys json db from a r = (res, r')"
    and "i \<in> zmem (zs (view r') (tl_key (timeline_home keys a)))"
    and "i \<notin> zmem (zs (view r) (tl_key (timeline_home keys a)))"
  shows "is_signed_in_recently db a \<and>
    (\<exists>c s b cr sts. c_id c = i \<and> c = candidate_of s b \<and> s \<in> set (statuses db) \<and>
      st_account s = from \<and> \<not> st_deleted s \<and> st_visibility s \<in> {0, 1, 2} \<and>
      crutches_build db a sts Home = Inr cr \<and> \<not> filter_from_home c a cr Home)"
proof -
  let ?t = "timeline_home keys a"
  let ?ok = "\<lambda>c. \<exists>after limit. c \<in> set (unfiltered db a (eligible_statuses db from after limit) Home)"
  define S where "S = zmem (zs (view r) (tl_key ?t)) \<union> {c_id c |c. is_signed_in_recently db a \<and> ?ok c}"
  note fill = contents_fill [OF assms(1) timeline_keys_home [of keys a], where S = S and agg = "aggregates json db a"]
  have "feed_fill.keeps view (\<lambda>s. zmem (zs s (tl_key ?t)) \<subseteq> S) (merge_into_home redis keys json db from a)"
  proof (cases "is_signed_in_recently db a")
    case True
    then have "feed_fill.offers_ok (\<lambda>i _. i \<in> S) db a Home from"
      unfolding feed_fill.offers_ok_def [OF fill] by (auto simp: S_def)
    from feed_fill.keeps_merge [OF fill refl this] True show ?thesis by (simp add: merge_into_home_def)
  qed (simp add: merge_into_home_def feed_fill.keeps_return [OF fill])
  from feed_fill.keepsD [OF fill this, of r] assms(2,3) have "i \<in> S" by (auto simp: S_def)
  with assms(4) obtain c after limit where c: "c_id c = i" "is_signed_in_recently db a"
      "c \<in> set (unfiltered db a (eligible_statuses db from after limit) Home)"
    by (auto simp: S_def)
  from c(3) unfiltered_sub have "c \<in> set (eligible_statuses db from after limit)" by blast
  from eligible_statusesD [OF this] obtain s b where "s \<in> set (statuses db)" "list_eligible from after s"
    "c = candidate_of s b" by blast
  moreover from c(3) obtain cr where "crutches_build db a (eligible_statuses db from after limit) Home = Inr cr"
      "\<not> filter_from_home c a cr Home"
    by (rule unfilteredD)
  ultimately show ?thesis using c(1,2) unfolding list_eligible_def by blast
qed

lemma sample_unfiltered:
  "unfiltered sample_db 2 (eligible_statuses sample_db 1 None 200) Home = [candidate_of sample_status None]"
  by code_simp

lemma sample_merge:
  "zs (snd (merge_into_home steady_exec ks0 (\<lambda>_ _. None) sample_db 1 2 empty_store)) (tl_key (timeline_home ks0 2)) =
    [(100, 100)]"
proof -
  have 200: "FEED_MAX_ITEMS div 4 = 200" by (simp add: FEED_MAX_ITEMS_def)
  have c: "c_id (candidate_of sample_status None) = 100" "c_reblog_of (candidate_of sample_status None) = None"
    by code_simp+
  show ?thesis
    by (simp add: merge_into_home_def sample_active merge_def 200 timeline_size_def steady_exec_def
      sample_aggregates sample_unfiltered add_all_def c run_defs as_f64_exact)
qed

theorem merge_adds_only_what_the_filter_lets_in_witness:
  "is_signed_in_recently sample_db 2 \<and>
    (\<exists>c s b cr sts. c_id c = 100 \<and> c = candidate_of s b \<and> s \<in> set (statuses sample_db) \<and>
      st_account s = 1 \<and> \<not> st_deleted s \<and> st_visibility s \<in> {0, 1, 2} \<and>
      crutches_build sample_db 2 sts Home = Inr cr \<and> \<not> filter_from_home c 2 cr Home)"
proof (rule merge_adds_only_what_the_filter_lets_in [OF steady.feed_redis_axioms])
  show "merge_into_home steady_exec ks0 (\<lambda>_ _. None) sample_db 1 2 empty_store =
      (fst (merge_into_home steady_exec ks0 (\<lambda>_ _. None) sample_db 1 2 empty_store),
       snd (merge_into_home steady_exec ks0 (\<lambda>_ _. None) sample_db 1 2 empty_store))" by simp
qed (simp_all add: sample_merge zmem_def, simp add: empty_store_def)

section \<open>Vacuuming\<close>

text \<open>
  What is done to the feeds of an instance: pushes, removals and cleanings on any of its timelines,
  in any order. \<open>groups\<close> says which of them have boosts grouped (\<^verbatim>\<open>aggregate_reblogs\<close> of the owner).
\<close>

inductive feeds_step ::
  "'r feed_exec \<Rightarrow> keyspace \<Rightarrow> (timeline \<Rightarrow> bool) \<Rightarrow> (int \<Rightarrow> int option) \<Rightarrow> 'r \<Rightarrow> 'r \<Rightarrow> bool"
  for redis keys groups rb where
  feeds_pushed: "is_timeline keys t \<Longrightarrow> 0 \<le> i \<Longrightarrow> feeds_step redis keys groups rb r (snd (push redis t i (rb i) (groups t) r))"
| feeds_removed: "is_timeline keys t \<Longrightarrow> feeds_step redis keys groups rb r (snd (remove_from_feed redis t i (rb i) (groups t) r))"
| feeds_cleaned: "is_timeline keys t \<Longrightarrow> feeds_step redis keys groups rb r (snd (clean_feed redis t r))"

definition grouped_boosts :: "(timeline \<Rightarrow> bool) \<Rightarrow> (int \<Rightarrow> int option) \<Rightarrow> timeline \<Rightarrow> int \<Rightarrow> int option" where
  "grouped_boosts groups rb t i = (if groups t then rb i else None)"

lemma ungrouped_as_posts:
  "push redis t i b g = push redis t i (if g then b else None) True"
  "remove_from_feed redis t i b g = remove_from_feed redis t i (if g then b else None) True"
  by (simp_all add: push_def add_to_feed_def remove_from_feed_def)

lemma feeds_step_on_one:
  assumes "feeds_step redis keys groups rb r r'"
  obtains t where "is_timeline keys t" "feed_step redis t (grouped_boosts groups rb t) r r'"
  using assms
proof (cases rule: feeds_step.cases)
  case (feeds_pushed t i)
  then have "feed_step redis t (grouped_boosts groups rb t) r r'"
    by (intro feed_step.pushed [of i _ _ _ _ "fst (push redis t i (rb i) (groups t) r)"])
      (simp_all add: grouped_boosts_def ungrouped_as_posts(1) [of redis t i "rb i" "groups t"])
  then show ?thesis using that feeds_pushed(2) by blast
next
  case (feeds_removed t i)
  then have "feed_step redis t (grouped_boosts groups rb t) r r'"
    by (intro feed_step.removed [of _ _ i _ _ "fst (remove_from_feed redis t i (rb i) (groups t) r)"])
      (simp_all add: grouped_boosts_def ungrouped_as_posts(2) [of redis t i "rb i" "groups t"])
  then show ?thesis using that feeds_removed(2) by blast
next
  case (feeds_cleaned t)
  then have "feed_step redis t (grouped_boosts groups rb t) r r'"
    by (intro feed_step.cleaned [of _ _ _ "fst (clean_feed redis t r)"]) simp
  then show ?thesis using that feeds_cleaned(2) by blast
qed

context reliable_feed_redis
begin

lemma feeds_tracking:
  assumes "(feeds_step exec keys groups rb)\<^sup>*\<^sup>* r r'" "view r = empty_store"
  shows "store_ok (view r') \<and> (\<forall>t. is_timeline keys t \<longrightarrow> tracking_ok (grouped_boosts groups rb t) t (view r'))"
  using assms(1)
proof (induction rule: rtranclp_induct)
  case base
  then show ?case using assms(2) tracking_ok_empty by (simp add: empty_store_def store_ok_def zset_ok_def)
next
  case (step y z)
  obtain t where t: "is_timeline keys t" "feed_step exec t (grouped_boosts groups rb t) y z"
    by (rule feeds_step_on_one [OF step(2)])
  have reach: "feed_reaches exec t (grouped_boosts groups rb t) y z"
    unfolding feed_reaches_def by (rule r_into_rtranclp) (rule t(2))
  note own = reaches_tracking [OF reach is_timeline_keys [OF t(1)]]
  have ok: "store_ok (view z)" "frame (tl_keys t) (view y) (view z)"
    using reaches_frame [OF reach] step(3) by blast+
  have "tracking_ok (grouped_boosts groups rb u) u (view z)" if u: "is_timeline keys u" for u
  proof (cases "u = t")
    case True
    then show ?thesis using own step(3) t(1) by blast
  next
    case False
    then have "tl_keys t \<inter> tl_keys u = {}"
      using timelines_disjoint [OF t(1) u] by blast
    then show ?thesis using tracking_frame(1) [OF ok(2)] step(3) u by blast
  qed
  then show ?case using ok(1) by blast
qed

end

text \<open>
  C7: With database and Redis up, the vacuum ends, without an error, and afterwards no key is left of the
  home feed of any confirmed user who has not signed in during the last seven days, nor of any of
  that user's lists, whatever was pushed to all the feeds of the instance before (each with boosts
  grouped or not). Ids of users are distinct and positive, as the table's primary key makes them.
\<close>

theorem vacuum_removes_inactive_feeds:
  assumes "reliable_feed_redis redis view" and "\<And>q. \<not> db_down db q"
    and "distinct (map us_id (users db))"
    and "view r0 = empty_store" and "(feeds_step redis keys groups rb)\<^sup>*\<^sup>* r0 r"
    and "vacuum_inactive_feeds redis keys db r = (res, r')"
  shows "res = Inr () \<and> (\<forall>u \<in> set (users db). inactive_user db u \<longrightarrow> 0 < us_id u \<longrightarrow>
    (\<forall>t \<in> {timeline_home keys (us_account u)} \<union> {timeline_list keys (li_id l) | l. l \<in> set (lists db) \<and> li_account l = us_account u}.
       \<forall>k \<in> tl_keys t. zs (view r') k = [] \<and> ss (view r') k = []))"
proof -
  have clean: "fst (vacuum_loop redis keys db 0 r) = Inr () \<and>
      ((\<exists>u \<in> set (users db). inactive_user db u \<and> 0 < us_id u \<and> of_user db keys t u) \<longrightarrow>
         reliable_feed_redis.emptied t (view (snd (vacuum_loop redis keys db 0 r))))" if t: "is_timeline keys t" for t
  proof -
    have "tracking_ok (grouped_boosts groups rb t) t (view r)"
      using reliable_feed_redis.feeds_tracking [OF assms(1,5,4)] t by blast
    moreover have "(\<exists>a. t = timeline_home keys a) \<or> (\<exists>l. t = timeline_list keys l)" using t by (auto simp: is_timeline_def)
    ultimately show ?thesis using reliable_feed_redis.vacuum_loop_cleans [OF assms(1-3)] by blast
  qed
  have run: "vacuum_loop redis keys db 0 r = (res, r')" using assms(6) by (simp add: vacuum_inactive_feeds_def)
  have "zs (view r') k = [] \<and> ss (view r') k = []"
    if "u \<in> set (users db)" "inactive_user db u" "0 < us_id u" "of_user db keys t u" "k \<in> tl_keys t" for u t k
  proof -
    have "is_timeline keys t" using that(4) by (auto simp: of_user_def is_timeline_def)
    from clean [OF this] show ?thesis using that run by (auto simp: reliable_feed_redis.emptied_def [OF assms(1)])
  qed
  moreover have "res = Inr ()" using clean [OF is_timeline_home] run by simp
  ultimately show ?thesis by (auto simp: of_user_def)
qed

lemma sample_inactive:
  "sample_user 3 (Some 0) \<in> set (users (sample_db\<lparr>users := [sample_user 3 (Some 0)]\<rparr>))"
  "inactive_user (sample_db\<lparr>users := [sample_user 3 (Some 0)]\<rparr>) (sample_user 3 (Some 0))"
  "0 < us_id (sample_user 3 (Some 0))" "us_account (sample_user 3 (Some 0)) = 3"
  by (simp_all add: inactive_user_def sample_defs days_def ACTIVE_DAYS_def)

theorem vacuum_removes_inactive_feeds_witness:
  "let db = sample_db\<lparr>users := [sample_user 3 (Some 0)]\<rparr>; t = timeline_home ks0 3;
       r = snd (push steady_exec t 11 (Some 5) True empty_store) in
   zs (snd (vacuum_inactive_feeds steady_exec ks0 db r)) (tl_reblogs t) = []"
proof -
  let ?db = "sample_db\<lparr>users := [sample_user 3 (Some 0)]\<rparr>" and ?t = "timeline_home ks0 3"
  let ?r = "snd (push steady_exec ?t 11 (Some 5) True empty_store)"
  have up: "\<not> db_down ?db q" for q by (simp add: sample_db_def)
  have ids: "distinct (map us_id (users ?db))" by simp
  have "feeds_step steady_exec ks0 (\<lambda>_. True) (\<lambda>_. Some 5) empty_store ?r"
    by (rule feeds_pushed [where rb = "\<lambda>_. Some 5" and groups = "\<lambda>_. True"]) simp_all
  then have reach: "(feeds_step steady_exec ks0 (\<lambda>_. True) (\<lambda>_. Some 5))\<^sup>*\<^sup>* empty_store ?r" by (rule r_into_rtranclp)
  from vacuum_removes_inactive_feeds [OF steady.reliable_feed_redis_axioms up ids refl reach surjective_pairing]
  have "\<forall>k \<in> tl_keys ?t. zs (snd (vacuum_inactive_feeds steady_exec ks0 ?db ?r)) k = []"
    using sample_inactive by fastforce
  then  show ?thesis by (simp add: Let_def tl_keys_def)
qed

section \<open>Clearing\<close>

definition boosted_db :: database where
  "boosted_db = sample_db\<lparr>statuses :=
     [sample_status\<lparr>st_id := 5, st_account := 9\<rparr>,
      sample_status\<lparr>st_id := 11, st_account := 2, st_reblog_of := Some 5\<rparr>,
      sample_status\<lparr>st_id := 12, st_account := 3, st_reblog_of := Some 5\<rparr>]\<rparr>"

definition boosted_store :: feed_store where
  "boosted_store = \<lparr>zs = (\<lambda>_. [])(tl_reblogs (timeline_home ks0 7) := [(5, 11)], tl_key (timeline_home ks0 7) := [(11, 11)]),
     ss = (\<lambda>_. [])(reblog_set (timeline_home ks0 7) 5 := [12])\<rparr>"

lemma boosted_reads:
  "feed_statuses boosted_db [11] = [sample_status\<lparr>st_id := 11, st_account := 2, st_reblog_of := Some 5\<rparr>]"
  "reblogged_of boosted_db (feed_statuses boosted_db [11]) 9 = {5}"
  "with_mentions_of boosted_db (feed_statuses boosted_db [11]) 9 = {}"
  "aggregates (\<lambda>_ _. None) boosted_db 7"
  by code_simp+

text \<open>
  Clearing an account out of a feed works on the statuses the feed held at the start: taking
  out a boost of that account's post puts back another boost of the same post that was held
  back, and the feed then still holds a boost of the cleared account.
\<close>

theorem clearing_can_leave_a_boost:
  "\<exists>i. i \<in> zmem (zs (snd (clear_from_home steady_exec ks0 (\<lambda>_ _. None) boosted_db 7 9 boosted_store))
        (tl_key (timeline_home ks0 7))) \<and>
    (\<exists>s \<in> set (statuses boosted_db). st_id s = i \<and> \<not> st_deleted s \<and>
      (\<exists>b \<in> set (statuses boosted_db). st_reblog_of s = Some (st_id b) \<and> st_account b = 9))"
proof -
  have m: "feed_members steady_exec (timeline_home ks0 7) boosted_store = (Inr [11], boosted_store)"
    by (simp add: feed_members_def q_ids_def steady_exec_def boosted_store_def io_bind_def io_or_def io_return_def)
  note s = boosted_reads(1)
  let ?run = "remove_from_feed steady_exec (timeline_home ks0 7) 11 (Some 5) True boosted_store"
  have fst: "fst ?run = Inr True"
    by (simp add: steady_remove [OF timeline_keys_home] remove_script_def boosted_store_def zmem_def)
  then obtain r1 where r: "?run = (Inr True, r1)" by (cases ?run) simp
  have "12 \<in> zmem (zs (snd ?run) (tl_key (timeline_home ks0 7)))"
    by (simp add: steady_remove [OF timeline_keys_home] remove_script_def boosted_store_def
      held_back_def stand_in_def script_defs as_f64_exact image_iff conj_disj_distribR ex_disj_distrib)
  then have "12 \<in> zmem (zs r1 (tl_key (timeline_home ks0 7)))" by (simp add: r)
  moreover have "snd (clear_from_home steady_exec ks0 (\<lambda>_ _. None) boosted_db 7 9 boosted_store) = r1"
    using r by (simp add: clear_from_home_def clear_from_def io_bind_def m boosted_reads(2-4) Let_def
      to_clear_def io_return_def boosted_reads(2,3) [unfolded s] s)
  ultimately show ?thesis
    by (intro exI [of _ 12]) (simp add: boosted_db_def sample_defs)
qed

end
