(* ===== verification/Jobs.thy ===== *)
theory Jobs
  imports EunhaPrelude Database
begin

text \<open>
  The job queue of \<^verbatim>\<open>src/jobs/mod.rs\<close> over the table \<^verbatim>\<open>eunha.jobs\<close>: the queues and their
  weighted order, a worker's options, queueing under a unique lock, claiming with a lease, and
  how a run comes out. Times are microseconds, as PostgreSQL keeps them. The database's clock
  is an argument \<open>now\<close>, the rows other transactions hold locked are \<open>busy\<close>, and what \<^verbatim>\<open>rand\<close>
  draws is an argument too. A job's arguments are the text of their JSON. What a worker does is
  outside: a run has an \<open>outcome\<close>.
\<close>

section \<open>Options\<close>

datatype queue = Default | Push | Ingress | Mailers | Pull | Scheduler | Fasp

definition queue_ALL :: "queue list" where
  "queue_ALL = [Default, Push, Ingress, Mailers, Pull, Scheduler, Fasp]"

fun queue_name :: "queue \<Rightarrow> string" where
  "queue_name Default = ''default''"
| "queue_name Push = ''push''"
| "queue_name Ingress = ''ingress''"
| "queue_name Mailers = ''mailers''"
| "queue_name Pull = ''pull''"
| "queue_name Scheduler = ''scheduler''"
| "queue_name Fasp = ''fasp''"

fun weight :: "queue \<Rightarrow> nat" where
  "weight Default = 8"
| "weight Push = 6"
| "weight Ingress = 4"
| "weight Mailers = 2"
| "weight _ = 1"

datatype retry = Count nat | Never

text \<open>The lock's TTL is in microseconds.\<close>

datatype lock = NoLock | UntilExecuted int | UntilExecuting int

record options =
  o_queue :: queue
  o_retry :: retry
  o_dead :: bool
  o_lock :: lock

definition options_DEFAULT :: options where
  "options_DEFAULT = \<lparr>o_queue = Default, o_retry = Count 25, o_dead = True, o_lock = NoLock\<rparr>"

definition with_queue :: "options \<Rightarrow> queue \<Rightarrow> options" where "with_queue self q = self\<lparr>o_queue := q\<rparr>"
definition with_retry :: "options \<Rightarrow> nat \<Rightarrow> options" where "with_retry self n = self\<lparr>o_retry := Count n\<rparr>"
definition no_retry :: "options \<Rightarrow> options" where "no_retry self = self\<lparr>o_retry := Never\<rparr>"
definition with_dead :: "options \<Rightarrow> bool \<Rightarrow> options" where "with_dead self d = self\<lparr>o_dead := d\<rparr>"
definition with_lock :: "options \<Rightarrow> lock \<Rightarrow> options" where "with_lock self l = self\<lparr>o_lock := l\<rparr>"

definition i32_try_from :: "nat \<Rightarrow> int option" where
  "i32_try_from n = (if n < 2 ^ 31 then Some (int n) else None)"

definition retry_columns :: "options \<Rightarrow> int \<times> bool" where
  "retry_columns options = (case o_retry options of
      Count n \<Rightarrow> (case i32_try_from n of Some i \<Rightarrow> i | None \<Rightarrow> 2 ^ 31 - 1, o_dead options)
    | Never \<Rightarrow> (- 1, False))"

section \<open>Delays\<close>

definition secs :: "int \<Rightarrow> int" where
  "secs n = n * 1000000"

text \<open>\<^verbatim>\<open>u64\<close> arithmetic: \<^verbatim>\<open>saturating_pow\<close>, and \<^verbatim>\<open>+\<close> and \<^verbatim>\<open>*\<close> that wrap (as a release build does).\<close>

definition saturating_pow :: "nat \<Rightarrow> nat \<Rightarrow> nat" where
  "saturating_pow n k = min (n ^ k) (2 ^ 64 - 1)"

definition wrap_u64 :: "nat \<Rightarrow> nat" where
  "wrap_u64 n = n mod 2 ^ 64"

definition exponential_backoff :: "(nat \<Rightarrow> nat) \<Rightarrow> nat \<Rightarrow> nat" where
  "exponential_backoff rand count =
     (let base = wrap_u64 (10 * saturating_pow count 4);
          jitter = (if base = 0 then 0 else rand base)
      in wrap_u64 (wrap_u64 (15 + base) + jitter))"

definition retry_delay :: "(nat \<Rightarrow> nat) \<Rightarrow> nat \<Rightarrow> nat option \<Rightarrow> nat" where
  "retry_delay rand count custom =
     (let base = (case custom of Some d \<Rightarrow> d | None \<Rightarrow> wrap_u64 (saturating_pow count 4 + 15));
          jitter = wrap_u64 (rand 10 * (count + 1))
      in wrap_u64 (base + jitter))"

section \<open>The table\<close>

record job_row =
  j_id :: int
  j_queue :: string
  j_kind :: string
  j_args :: string
  j_run_at :: int
  j_attempts :: int
  j_max_retries :: int
  j_keep_dead :: bool
  j_unique_key :: "string option"
  j_unique_until :: "int option"
  j_unlock_on_claim :: bool
  j_locked_at :: "int option"
  j_locked_by :: "string option"
  j_last_error :: "string option"
  j_failed_at :: "int option"
  j_dead_at :: "int option"

text \<open>The rows, and the sequence of \<^verbatim>\<open>BIGSERIAL\<close>.\<close>

record job_store =
  job_rows :: "job_row list"
  job_seq :: int

definition update_where :: "(job_row \<Rightarrow> bool) \<Rightarrow> (job_row \<Rightarrow> job_row) \<Rightarrow> job_store \<Rightarrow> job_store" where
  "update_where P f st = st\<lparr>job_rows := map (\<lambda>j. if P j then f j else j) (job_rows st)\<rparr>"

definition delete_where :: "(job_row \<Rightarrow> bool) \<Rightarrow> job_store \<Rightarrow> job_store" where
  "delete_where P st = st\<lparr>job_rows := filter (\<lambda>j. \<not> P j) (job_rows st)\<rparr>"

section \<open>Queueing\<close>

definition unique_key :: "string \<Rightarrow> queue \<Rightarrow> string \<Rightarrow> string" where
  "unique_key kind q args = queue_name q @ '':'' @ kind @ '':'' @ args"

definition lock_columns :: "string \<Rightarrow> options \<Rightarrow> string \<Rightarrow> string option \<times> int \<times> bool" where
  "lock_columns kind options args = (case o_lock options of
      NoLock \<Rightarrow> (None, 0, False)
    | UntilExecuted ttl \<Rightarrow> (Some (unique_key kind (o_queue options) args), ttl, False)
    | UntilExecuting ttl \<Rightarrow> (Some (unique_key kind (o_queue options) args), ttl, True))"

definition lapsed_lock :: "string \<Rightarrow> int \<Rightarrow> job_row \<Rightarrow> bool" where
  "lapsed_lock key now j \<longleftrightarrow> j_unique_key j = Some key \<and>
     (case j_unique_until j of None \<Rightarrow> False | Some t \<Rightarrow> t \<le> now)"

text \<open>Which of the two statements fail; a statement that fails has no effect.\<close>

datatype insert_stmt = ExpireLock | InsertJob

definition insert_job ::
  "(insert_stmt \<Rightarrow> bool) \<Rightarrow> int \<Rightarrow> string \<Rightarrow> options \<Rightarrow> string \<Rightarrow> int \<Rightarrow> job_store \<Rightarrow>
   (sqlx_error + int option) \<times> job_store" where
  "insert_job down now kind options args delay st =
     (let (key, ttl, unlock_on_claim) = lock_columns kind options args in
      if key \<noteq> None \<and> down ExpireLock then (Inl SqlxError, st)
      else
        let st = (case key of None \<Rightarrow> st
              | Some k \<Rightarrow> update_where (lapsed_lock k now) (\<lambda>j. j\<lparr>j_unique_key := None\<rparr>) st);
            (max_retries, keep_dead) = retry_columns options;
            i = job_seq st in
        if down InsertJob then (Inl SqlxError, st)
        else if key \<noteq> None \<and> list_ex (\<lambda>j. j_unique_key j = key) (job_rows st)
        then (Inr None, st\<lparr>job_seq := i + 1\<rparr>)
        else (Inr (Some i), st\<lparr>job_seq := i + 1, job_rows := job_rows st @
          [\<lparr>j_id = i, j_queue = queue_name (o_queue options), j_kind = kind, j_args = args,
            j_run_at = now + delay, j_attempts = 0, j_max_retries = max_retries, j_keep_dead = keep_dead,
            j_unique_key = key, j_unique_until = Some (now + delay + ttl),
            j_unlock_on_claim = unlock_on_claim, j_locked_at = None, j_locked_by = None,
            j_last_error = None, j_failed_at = None, j_dead_at = None\<rparr>]\<rparr>))"

definition perform_async where
  "perform_async down now kind options args = insert_job down now kind options args 0"

definition perform_in where
  "perform_in down now kind options args delay = insert_job down now kind options args delay"

text \<open>\<^verbatim>\<open>(at - now).to_std().unwrap_or_default()\<close>\<close>

definition perform_at where
  "perform_at down now kind options args t = insert_job down now kind options args (max 0 (t - now))"

text \<open>\<^verbatim>\<open>perform_bulk\<close>: one by one for a worker with a lock, one statement for the others.\<close>

fun perform_each ::
  "(insert_stmt \<Rightarrow> bool) \<Rightarrow> int \<Rightarrow> string \<Rightarrow> options \<Rightarrow> string list \<Rightarrow> nat \<Rightarrow> job_store \<Rightarrow>
   (sqlx_error + nat) \<times> job_store" where
  "perform_each down now kind options [] queued st = (Inr queued, st)"
| "perform_each down now kind options (a # as) queued st =
     (case insert_job down now kind options a 0 st of
        (Inl e, st') \<Rightarrow> (Inl e, st')
      | (Inr i, st') \<Rightarrow> perform_each down now kind options as (if i = None then queued else queued + 1) st')"

definition bulk_row :: "int \<Rightarrow> string \<Rightarrow> options \<Rightarrow> int \<Rightarrow> string \<Rightarrow> job_row" where
  "bulk_row now kind options i args =
     (let (max_retries, keep_dead) = retry_columns options in
      \<lparr>j_id = i, j_queue = queue_name (o_queue options), j_kind = kind, j_args = args,
       j_run_at = now, j_attempts = 0, j_max_retries = max_retries, j_keep_dead = keep_dead,
       j_unique_key = None, j_unique_until = None, j_unlock_on_claim = False, j_locked_at = None,
       j_locked_by = None, j_last_error = None, j_failed_at = None, j_dead_at = None\<rparr>)"

definition perform_bulk ::
  "(insert_stmt \<Rightarrow> bool) \<Rightarrow> int \<Rightarrow> string \<Rightarrow> options \<Rightarrow> string list \<Rightarrow> job_store \<Rightarrow>
   (sqlx_error + nat) \<times> job_store" where
  "perform_bulk down now kind options args st =
     (if args = [] then (Inr 0, st)
      else if o_lock options \<noteq> NoLock then perform_each down now kind options args 0 st
      else if down InsertJob then (Inl SqlxError, st)
      else (Inr (length args),
        st\<lparr>job_rows := job_rows st @ map (\<lambda>(n, a). bulk_row now kind options (job_seq st + int n) a) (enumerate 0 args),
           job_seq := job_seq st + int (length args)\<rparr>))"

section \<open>Claiming\<close>

definition LEASE :: int where
  "LEASE = secs 300"

record claimed =
  cl_id :: int
  cl_kind :: string
  cl_args :: string
  cl_attempts :: int
  cl_max_retries :: int
  cl_keep_dead :: bool

text \<open>\<^verbatim>\<open>shuffle\<close> is any rearrangement of the weighted list.\<close>

definition weighted_queues :: "queue list" where
  "weighted_queues = concat (map (\<lambda>q. replicate (weight q) q) queue_ALL)"

fun first_places :: "string list \<Rightarrow> queue list \<Rightarrow> string list" where
  "first_places order [] = order"
| "first_places order (q # qs) =
     first_places (if queue_name q \<in> set order then order else order @ [queue_name q]) qs"

definition queue_order :: "(queue list \<Rightarrow> queue list) \<Rightarrow> string list" where
  "queue_order shuffle = first_places [] (shuffle weighted_queues)"

text \<open>\<^verbatim>\<open>array_position\<close>, \<^verbatim>\<open>NULL\<close> (which sorts last) as the length of the array.\<close>

fun array_position :: "string list \<Rightarrow> string \<Rightarrow> nat" where
  "array_position [] q = 0"
| "array_position (x # xs) q = (if x = q then 0 else Suc (array_position xs q))"

definition claimable :: "int \<Rightarrow> int option \<Rightarrow> job_row \<Rightarrow> bool" where
  "claimable now only j \<longleftrightarrow> j_dead_at j = None \<and>
     (case only of None \<Rightarrow> j_run_at j \<le> now | Some i \<Rightarrow> j_id j = i) \<and>
     (case j_locked_at j of None \<Rightarrow> True | Some t \<Rightarrow> t < now - LEASE)"

definition picked :: "string list \<Rightarrow> int set \<Rightarrow> int \<Rightarrow> nat \<Rightarrow> int option \<Rightarrow> job_store \<Rightarrow> int list" where
  "picked order busy now limit only st =
     take limit (map j_id (sort_key (\<lambda>j. (array_position order (j_queue j), j_run_at j, j_id j))
       (filter (\<lambda>j. claimable now only j \<and> j_id j \<notin> busy) (job_rows st))))"

definition take_up :: "int \<Rightarrow> string \<Rightarrow> job_row \<Rightarrow> job_row" where
  "take_up now worker j = j\<lparr>j_locked_at := Some now, j_locked_by := Some worker,
     j_unique_key := (if j_unlock_on_claim j then None else j_unique_key j)\<rparr>"

definition claimed_of :: "job_row \<Rightarrow> claimed" where
  "claimed_of j = \<lparr>cl_id = j_id j, cl_kind = j_kind j, cl_args = j_args j, cl_attempts = j_attempts j,
     cl_max_retries = j_max_retries j, cl_keep_dead = j_keep_dead j\<rparr>"

definition claim ::
  "string list \<Rightarrow> int set \<Rightarrow> int \<Rightarrow> nat \<Rightarrow> string \<Rightarrow> int option \<Rightarrow> job_store \<Rightarrow> claimed list \<times> job_store" where
  "claim order busy now limit worker only st =
     (let ids = picked order busy now limit only st in
      (map claimed_of (filter (\<lambda>j. j_id j \<in> set ids) (job_rows st)),
       update_where (\<lambda>j. j_id j \<in> set ids) (take_up now worker) st))"

section \<open>How a run comes out\<close>

text \<open>A worker as the registry knows it; \<open>retry_in\<close> is its \<^verbatim>\<open>sidekiq_retry_in\<close>, in seconds.\<close>

record entry =
  retry_in :: "nat \<Rightarrow> nat option"

type_synonym registry = "string \<Rightarrow> entry option"

text \<open>\<^verbatim>\<open>Raised\<close> carries the sanitized message.\<close>

datatype outcome = Performed | Discarded | Raised string

definition renew_lease :: "int \<Rightarrow> int \<Rightarrow> string \<Rightarrow> job_store \<Rightarrow> job_store" where
  "renew_lease now i worker = update_where (\<lambda>j. j_id j = i \<and> j_locked_by j = Some worker)
     (\<lambda>j. j\<lparr>j_locked_at := Some now\<rparr>)"

definition delete_job :: "int \<Rightarrow> job_store \<Rightarrow> job_store" where
  "delete_job i = delete_where (\<lambda>j. j_id j = i)"

definition bury :: "int \<Rightarrow> claimed \<Rightarrow> string \<Rightarrow> job_store \<Rightarrow> job_store" where
  "bury now job message = update_where (\<lambda>j. j_id j = cl_id job)
     (\<lambda>j. j\<lparr>j_attempts := j_attempts j + 1, j_dead_at := Some now, j_failed_at := Some now,
        j_last_error := Some message, j_unique_key := None, j_locked_at := None, j_locked_by := None\<rparr>)"

text \<open>\<^verbatim>\<open>u32::try_from(i).unwrap_or(0)\<close>\<close>

definition u32_or_zero :: "int \<Rightarrow> nat" where
  "u32_or_zero i = (if i < 0 then 0 else nat i)"

definition schedule_retry :: "int \<Rightarrow> nat \<Rightarrow> claimed \<Rightarrow> string \<Rightarrow> job_store \<Rightarrow> job_store" where
  "schedule_retry now delay job message = update_where (\<lambda>j. j_id j = cl_id job)
     (\<lambda>j. j\<lparr>j_attempts := j_attempts j + 1, j_run_at := now + secs (int delay),
        j_locked_at := None, j_locked_by := None, j_last_error := Some message,
        j_failed_at := Some now\<rparr>)"

definition fail_job ::
  "(nat \<Rightarrow> nat) \<Rightarrow> int \<Rightarrow> entry \<Rightarrow> claimed \<Rightarrow> string \<Rightarrow> job_store \<Rightarrow> job_store" where
  "fail_job rand now e job message st =
     (let count = u32_or_zero (cl_attempts job) in
      if cl_max_retries job < 0 then delete_job (cl_id job) st
      else if count \<ge> u32_or_zero (cl_max_retries job) then
        (if cl_keep_dead job then bury now job message st else delete_job (cl_id job) st)
      else schedule_retry now (retry_delay rand count (retry_in e count)) job message st)"

definition no_such_worker :: string where
  "no_such_worker = ''no such worker''"

text \<open>\<^verbatim>\<open>execute\<close> once the worker has come out, at \<open>now\<close>.\<close>

definition execute ::
  "(nat \<Rightarrow> nat) \<Rightarrow> registry \<Rightarrow> int \<Rightarrow> claimed \<Rightarrow> outcome \<Rightarrow> job_store \<Rightarrow> job_store" where
  "execute rand reg now job out st = (case reg (cl_kind job) of
      None \<Rightarrow> bury now job no_such_worker st
    | Some e \<Rightarrow> (case out of
        Performed \<Rightarrow> delete_job (cl_id job) st
      | Discarded \<Rightarrow> delete_job (cl_id job) st
      | Raised message \<Rightarrow> fail_job rand now e job message st))"

section \<open>Housekeeping\<close>

definition make_due :: "int \<Rightarrow> job_store \<Rightarrow> job_store" where
  "make_due now = update_where (\<lambda>j. j_dead_at j = None \<and> j_run_at j > now) (\<lambda>j. j\<lparr>j_run_at := now\<rparr>)"

definition hand_back :: "string \<Rightarrow> job_store \<Rightarrow> job_store" where
  "hand_back worker = update_where (\<lambda>j. j_locked_by j = Some worker)
     (\<lambda>j. j\<lparr>j_locked_at := None, j_locked_by := None\<rparr>)"

definition DEAD_MAX_JOBS :: nat where
  "DEAD_MAX_JOBS = 10000"

definition DEAD_TIMEOUT :: int where
  "DEAD_TIMEOUT = secs (180 * 24 * 3600)"

definition dead_old :: "int \<Rightarrow> job_row \<Rightarrow> bool" where
  "dead_old now j = (case j_dead_at j of None \<Rightarrow> False | Some t \<Rightarrow> t < now - DEAD_TIMEOUT)"

text \<open>\<^verbatim>\<open>ORDER BY dead_at DESC, id DESC OFFSET\<close>\<close>

definition dead_excess :: "job_store \<Rightarrow> int list" where
  "dead_excess st = drop DEAD_MAX_JOBS (map j_id (rev (sort_key (\<lambda>j. (the (j_dead_at j), j_id j))
     (filter (\<lambda>j. j_dead_at j \<noteq> None) (job_rows st)))))"

definition prune_dead :: "int \<Rightarrow> job_store \<Rightarrow> nat \<times> job_store" where
  "prune_dead now st =
     (let st1 = delete_where (dead_old now) st;
          st2 = delete_where (\<lambda>j. j_id j \<in> set (dead_excess st1)) st1
      in (length (job_rows st) - length (job_rows st1) + (length (job_rows st1) - length (job_rows st2)), st2))"

end
