(* ===== verification/JobsFacts.thy ===== *)
theory JobsFacts
  imports Jobs
begin

text \<open>
  The queue as a state machine: what the job loops, the callers that queue, the clock and
  processes that die can do to the table (\<open>job_step\<close>), and what holds in every state they reach.
\<close>

section \<open>The world of the queue\<close>

text \<open>The table, the clock, and the runs in progress: the worker name a run claimed under.\<close>

record job_world =
  w_store :: job_store
  w_now :: int
  w_running :: "(string \<times> claimed) list"

text \<open>What a step shows of itself: which jobs it claimed, which run came out, which loop stopped.\<close>

datatype job_event = Quiet | Claims string "claimed list" | CameOut string int | Stopped string

inductive job_step :: "registry \<Rightarrow> job_event \<Rightarrow> job_world \<Rightarrow> job_world \<Rightarrow> bool" for reg where
  passed: "now \<ge> w_now w \<Longrightarrow> job_step reg Quiet w (w\<lparr>w_now := now\<rparr>)"
| queued: "insert_job down (w_now w) kind options args delay (w_store w) = (res, st) \<Longrightarrow>
    job_step reg Quiet w (w\<lparr>w_store := st\<rparr>)"
| queued_bulk: "perform_bulk down (w_now w) kind options arglist (w_store w) = (n, st) \<Longrightarrow>
    job_step reg Quiet w (w\<lparr>w_store := st\<rparr>)"
| claims: "claim order busy (w_now w) limit worker only (w_store w) = (jobs, st) \<Longrightarrow>
    job_step reg (Claims worker jobs) w
      (w\<lparr>w_store := st, w_running := w_running w @ map (Pair worker) jobs\<rparr>)"
| renewed: "(worker, job) \<in> set (w_running w) \<Longrightarrow>
    job_step reg Quiet w (w\<lparr>w_store := renew_lease (w_now w) (cl_id job) worker (w_store w)\<rparr>)"
| came_out: "(worker, job) \<in> set (w_running w) \<Longrightarrow>
    job_step reg (CameOut worker (cl_id job)) w
      (w\<lparr>w_store := execute rand reg (w_now w) job out (w_store w),
         w_running := remove1 (worker, job) (w_running w)\<rparr>)"
| died: "set running \<subseteq> set (w_running w) \<Longrightarrow> job_step reg Quiet w (w\<lparr>w_running := running\<rparr>)"
| stopped: "job_step reg (Stopped worker) w
    (w\<lparr>w_store := hand_back worker (w_store w),
       w_running := filter (\<lambda>r. fst r \<noteq> worker) (w_running w)\<rparr>)"
| made_due: "job_step reg Quiet w (w\<lparr>w_store := make_due (w_now w) (w_store w)\<rparr>)"
| pruned: "job_step reg Quiet w (w\<lparr>w_store := snd (prune_dead (w_now w) (w_store w))\<rparr>)"

inductive_cases job_stepE: "job_step reg e w w'"

inductive job_run :: "registry \<Rightarrow> job_event list \<Rightarrow> job_world \<Rightarrow> job_world \<Rightarrow> bool" for reg where
  stay: "job_run reg [] w w"
| go: "job_step reg e w w1 \<Longrightarrow> job_run reg es w1 w2 \<Longrightarrow> job_run reg (e # es) w w2"

inductive_simps job_run_Nil [simp]: "job_run reg [] w w'"
inductive_simps job_run_Cons [simp]: "job_run reg (e # es) w w'"

section \<open>The invariant\<close>

definition held_keys :: "job_row list \<Rightarrow> string list" where
  "held_keys rows = concat (map (\<lambda>j. opt_list (j_unique_key j)) rows)"

definition row_ok :: "job_row \<Rightarrow> bool" where
  "row_ok j \<longleftrightarrow> 0 \<le> j_attempts j \<and> (j_locked_at j = None \<longleftrightarrow> j_locked_by j = None) \<and>
     (j_dead_at j \<noteq> None \<longrightarrow> j_unique_key j = None \<and> j_locked_at j = None)"

definition jobs_ok :: "job_store \<Rightarrow> bool" where
  "jobs_ok st \<longleftrightarrow> distinct (map j_id (job_rows st)) \<and> (\<forall>j \<in> set (job_rows st). j_id j < job_seq st) \<and>
     distinct (held_keys (job_rows st)) \<and> (\<forall>j \<in> set (job_rows st). row_ok j)"

lemma held_keys_simps [simp]:
  "held_keys [] = []" "held_keys (j # js) = opt_list (j_unique_key j) @ held_keys js"
  "held_keys (xs @ ys) = held_keys xs @ held_keys ys"
  by (simp_all add: held_keys_def)

lemma set_held_keys: "set (held_keys rows) = {k. \<exists>j \<in> set rows. j_unique_key j = Some k}"
  by (auto simp: held_keys_def set_opt_list)

lemma distinct_opt_list [simp]: "distinct (opt_list x)"
  by (cases x) auto

text \<open>An update that keeps ids and only gives keys up.\<close>

definition gives_up :: "(job_row \<Rightarrow> job_row) \<Rightarrow> bool" where
  "gives_up f \<longleftrightarrow> (\<forall>j. j_id (f j) = j_id j \<and> (j_unique_key (f j) = j_unique_key j \<or> j_unique_key (f j) = None))"

lemma distinct_held_update:
  assumes "gives_up f" and "distinct (held_keys rows)"
  shows "distinct (held_keys (map (\<lambda>j. if P j then f j else j) rows)) \<and>
    set (held_keys (map (\<lambda>j. if P j then f j else j) rows)) \<subseteq> set (held_keys rows)"
  using assms(2)
proof (induction rows)
  case (Cons j rows)
  from assms(1) have "j_unique_key (f j) = j_unique_key j \<or> j_unique_key (f j) = None"
    by (auto simp: gives_up_def)
  with Cons show ?case by (cases "P j"; cases "j_unique_key j") auto
qed simp

lemma jobs_ok_update:
  assumes "jobs_ok st" and "gives_up f" and "\<And>j. j \<in> set (job_rows st) \<Longrightarrow> P j \<Longrightarrow> row_ok j \<Longrightarrow> row_ok (f j)"
  shows "jobs_ok (update_where P f st)"
proof -
  have ids: "map j_id (map (\<lambda>j. if P j then f j else j) rows) = map j_id rows" for rows
    using assms(2) by (auto simp: gives_up_def)
  show ?thesis
    using assms(1,3) distinct_held_update [OF assms(2)] unfolding jobs_ok_def update_where_def
    by (auto simp: ids simp del: map_map) (metis assms(2) gives_up_def)+
qed

lemma distinct_held_filter: "distinct (held_keys rows) \<Longrightarrow> distinct (held_keys (filter P rows))"
  by (induction rows) (auto simp: set_held_keys)

lemma jobs_ok_delete: "jobs_ok st \<Longrightarrow> jobs_ok (delete_where P st)"
  by (auto simp: jobs_ok_def delete_where_def distinct_map_filter distinct_held_filter)

lemma jobs_ok_append:
  assumes "jobs_ok st" and "j_id j = job_seq st" and "row_ok j"
    and "\<And>k. j_unique_key j = Some k \<Longrightarrow> k \<notin> set (held_keys (job_rows st))"
    and "job_rows st' = job_rows st @ [j]" and "job_seq st' = job_seq st + 1"
  shows "jobs_ok st'"
  using assms by (cases "j_unique_key j") (force simp: jobs_ok_def)+

lemma jobs_ok_seq: "jobs_ok st \<Longrightarrow> job_seq st \<le> n \<Longrightarrow> jobs_ok (st\<lparr>job_seq := n\<rparr>)"
  by (force simp: jobs_ok_def)

lemma jobs_ok_insert:
  assumes "jobs_ok st" and "insert_job down now kind options args delay st = (res, st')"
  shows "jobs_ok st'"
proof -
  obtain key ttl unlock where lock: "lock_columns kind options args = (key, ttl, unlock)" by (rule prod_cases3)
  define st1 where "st1 = (case key of None \<Rightarrow> st
      | Some k \<Rightarrow> update_where (lapsed_lock k now) (\<lambda>j. j\<lparr>j_unique_key := None\<rparr>) st)"
  have ok1: "jobs_ok st1" using assms(1) unfolding st1_def
    by (auto intro!: jobs_ok_update simp: gives_up_def row_ok_def split: option.split)
  have "jobs_ok (st1\<lparr>job_seq := job_seq st1 + 1, job_rows := job_rows st1 @ [j]\<rparr>)"
    if "j_id j = job_seq st1" "row_ok j" "j_unique_key j = key"
      "\<not> (key \<noteq> None \<and> list_ex (\<lambda>j. j_unique_key j = key) (job_rows st1))" for j
    using that by (intro jobs_ok_append [OF ok1, where j = j]) (auto simp: set_held_keys list_ex_iff)
  moreover have "jobs_ok (st1\<lparr>job_seq := job_seq st1 + 1\<rparr>)" by (rule jobs_ok_seq [OF ok1]) simp
  ultimately show ?thesis
    using assms ok1 unfolding insert_job_def lock prod.case st1_def [symmetric] Let_def
    by (auto simp: row_ok_def split: if_splits prod.splits)
qed

lemma jobs_ok_each:
  "jobs_ok st \<Longrightarrow> perform_each down now kind options as n st = (res, st') \<Longrightarrow> jobs_ok st'"
  by (induction "as" arbitrary: n st) (auto split: prod.splits sum.splits dest: jobs_ok_insert)

lemma bulk_row_fields [simp]:
  "j_id (bulk_row now kind options i a) = i" "j_unique_key (bulk_row now kind options i a) = None"
  "row_ok (bulk_row now kind options i a)"
  by (simp_all add: bulk_row_def row_ok_def split: prod.split)

lemma bulk_rows_ok:
  assumes "jobs_ok st"
  shows "jobs_ok (st\<lparr>job_rows := job_rows st @
      map (\<lambda>(n, a). bulk_row now kind options (job_seq st + int n) a) (enumerate 0 args),
    job_seq := job_seq st + int (length args)\<rparr>)"
proof (induction args rule: rev_induct)
  case (snoc a args)
  show ?case
    by (rule jobs_ok_append [OF snoc, where j = "bulk_row now kind options (job_seq st + int (length args)) a"])
      (simp_all add: enumerate_append_eq)
qed (use assms in simp)

lemma jobs_ok_bulk:
  "jobs_ok st \<Longrightarrow> perform_bulk down now kind options args st = (res, st') \<Longrightarrow> jobs_ok st'"
  using bulk_rows_ok [of st]
  by (auto simp: perform_bulk_def dest: jobs_ok_each split: if_splits)

lemma id_row:
  assumes "jobs_ok st" and "j \<in> set (job_rows st)" and "j' \<in> set (job_rows st)" and "j_id j = j_id j'"
  shows "j = j'"
  using assms by (auto simp: jobs_ok_def distinct_map dest: inj_onD)

lemma pickedD:
  "i \<in> set (picked order busy now limit only st) \<Longrightarrow>
   \<exists>j \<in> set (job_rows st). j_id j = i \<and> claimable now only j \<and> i \<notin> busy"
  by (auto simp: picked_def dest!: in_set_takeD)

lemma picked_row:
  "jobs_ok st \<Longrightarrow> j \<in> set (job_rows st) \<Longrightarrow> j_id j \<in> set (picked order busy now limit only st) \<Longrightarrow>
   claimable now only j \<and> j_id j \<notin> busy"
  using pickedD id_row by metis

lemma jobs_ok_claim:
  assumes "jobs_ok st" and "claim order busy now limit worker only st = (jobs, st')"
  shows "jobs_ok st'"
proof -
  have "jobs_ok (update_where (\<lambda>j. j_id j \<in> set (picked order busy now limit only st)) (take_up now worker) st)"
  proof (rule jobs_ok_update [OF assms(1)])
    fix j assume "j \<in> set (job_rows st)" "j_id j \<in> set (picked order busy now limit only st)" "row_ok j"
    with picked_row [OF assms(1)] show "row_ok (take_up now worker j)"
      by (auto simp: row_ok_def take_up_def claimable_def)
  qed (simp add: gives_up_def take_up_def)
  with assms(2) show ?thesis by (auto simp: claim_def Let_def)
qed

lemma jobs_ok_renew: "jobs_ok st \<Longrightarrow> jobs_ok (renew_lease now i worker st)"
  unfolding renew_lease_def by (rule jobs_ok_update) (auto simp: gives_up_def row_ok_def)

lemma jobs_ok_bury: "jobs_ok st \<Longrightarrow> jobs_ok (bury now job message st)"
  unfolding bury_def by (rule jobs_ok_update) (auto simp: gives_up_def row_ok_def)

lemma jobs_ok_retry: "jobs_ok st \<Longrightarrow> jobs_ok (schedule_retry now delay job message st)"
  unfolding schedule_retry_def by (rule jobs_ok_update) (auto simp: gives_up_def row_ok_def)

lemma jobs_ok_execute: "jobs_ok st \<Longrightarrow> jobs_ok (execute rand reg now job out st)"
  by (auto simp: execute_def fail_job_def delete_job_def Let_def jobs_ok_delete jobs_ok_bury jobs_ok_retry
    split: option.split outcome.split)

lemma jobs_ok_hand_back: "jobs_ok st \<Longrightarrow> jobs_ok (hand_back worker st)"
  unfolding hand_back_def by (rule jobs_ok_update) (auto simp: gives_up_def row_ok_def)

lemma jobs_ok_make_due: "jobs_ok st \<Longrightarrow> jobs_ok (make_due now st)"
  unfolding make_due_def by (rule jobs_ok_update) (auto simp: gives_up_def row_ok_def)

lemma jobs_ok_prune: "jobs_ok st \<Longrightarrow> jobs_ok (snd (prune_dead now st))"
  by (simp add: prune_dead_def Let_def jobs_ok_delete)

lemmas jobs_ok_intros = jobs_ok_insert jobs_ok_bulk jobs_ok_claim jobs_ok_renew jobs_ok_execute
  jobs_ok_hand_back jobs_ok_make_due jobs_ok_prune

lemma job_step_ok: "job_step reg e w w' \<Longrightarrow> jobs_ok (w_store w) \<Longrightarrow> jobs_ok (w_store w')"
  by (erule job_stepE) (auto intro: jobs_ok_intros)

lemma job_run_ok: "job_run reg es w w' \<Longrightarrow> jobs_ok (w_store w) \<Longrightarrow> jobs_ok (w_store w')"
  by (induction rule: job_run.induct) (auto dest: job_step_ok)

lemma jobs_ok_empty: "jobs_ok \<lparr>job_rows = [], job_seq = n\<rparr>"
  by (simp add: jobs_ok_def)

section \<open>Leases\<close>

definition leased :: "int \<Rightarrow> int \<Rightarrow> string \<Rightarrow> job_store \<Rightarrow> bool" where
  "leased t0 i worker st \<longleftrightarrow> (\<exists>j \<in> set (job_rows st). j_id j = i \<and> j_locked_by j = Some worker \<and>
     j_dead_at j = None \<and> (\<exists>t \<ge> t0. j_locked_at j = Some t))"

lemma leased_update:
  assumes "leased t0 i worker st"
    and "\<And>j. j \<in> set (job_rows st) \<Longrightarrow> P j \<Longrightarrow> j_id j = i \<Longrightarrow> j_locked_by j = Some worker \<Longrightarrow>
      j_dead_at j = None \<Longrightarrow> \<exists>t \<ge> t0. j_locked_at j = Some t \<Longrightarrow>
      j_id (f j) = i \<and> j_locked_by (f j) = Some worker \<and> j_dead_at (f j) = None \<and> (\<exists>t \<ge> t0. j_locked_at (f j) = Some t)"
  shows "leased t0 i worker (update_where P f st)"
proof -
  from assms(1) obtain j where j: "j \<in> set (job_rows st)" "j_id j = i" "j_locked_by j = Some worker"
    "j_dead_at j = None" "\<exists>t \<ge> t0. j_locked_at j = Some t" by (auto simp: leased_def)
  then have "(if P j then f j else j) \<in> set (job_rows (update_where P f st))"
    by (auto simp: update_where_def)
  with j assms(2) [of j] show ?thesis unfolding leased_def by (cases "P j") auto
qed

lemma leased_delete:
  assumes "leased t0 i worker st" and "\<And>j. j \<in> set (job_rows st) \<Longrightarrow> j_id j = i \<Longrightarrow> j_dead_at j = None \<Longrightarrow> \<not> P j"
  shows "leased t0 i worker (delete_where P st)"
  using assms by (auto simp: leased_def delete_where_def)

lemma leased_insert:
  assumes "leased t0 i worker st" and "insert_job down now kind options args delay st = (res, st')"
  shows "leased t0 i worker st'"
proof -
  obtain key ttl unlock where lock: "lock_columns kind options args = (key, ttl, unlock)" by (rule prod_cases3)
  define st1 where "st1 = (case key of None \<Rightarrow> st
      | Some k \<Rightarrow> update_where (lapsed_lock k now) (\<lambda>j. j\<lparr>j_unique_key := None\<rparr>) st)"
  have "leased t0 i worker st1"
    using assms(1) unfolding st1_def by (cases key) (auto intro: leased_update)
  then have "leased t0 i worker (st1\<lparr>job_seq := n, job_rows := job_rows st1 @ js\<rparr>)"
      "leased t0 i worker (st1\<lparr>job_seq := n\<rparr>)" for js n
    by (auto simp: leased_def)
  with assms \<open>leased t0 i worker st1\<close> show ?thesis
    unfolding insert_job_def lock prod.case st1_def [symmetric] Let_def
    by (auto split: if_splits prod.splits)
qed

lemma leased_each:
  "leased t0 i worker st \<Longrightarrow> perform_each down now kind options as n st = (res, st') \<Longrightarrow> leased t0 i worker st'"
  by (induction "as" arbitrary: n st) (auto split: prod.splits sum.splits dest: leased_insert)

lemma leased_bulk:
  "leased t0 i worker st \<Longrightarrow> perform_bulk down now kind options args st = (res, st') \<Longrightarrow> leased t0 i worker st'"
  by (auto simp: perform_bulk_def dest: leased_each split: if_splits) (auto simp: leased_def)

lemma dead_excessD: "i \<in> set (dead_excess st) \<Longrightarrow> \<exists>j \<in> set (job_rows st). j_id j = i \<and> j_dead_at j \<noteq> None"
  by (fastforce simp: dead_excess_def dest!: in_set_dropD)

lemma alive_not_excess:
  "jobs_ok st \<Longrightarrow> j \<in> set (job_rows st) \<Longrightarrow> j_dead_at j = None \<Longrightarrow> j_id j \<notin> set (dead_excess st)"
  using dead_excessD id_row by metis

lemma leased_prune:
  assumes "jobs_ok st" and "leased t0 i worker st"
  shows "leased t0 i worker (snd (prune_dead now st))"
proof -
  have "leased t0 i worker (delete_where (dead_old now) st)"
    by (rule leased_delete [OF assms(2)]) (simp add: dead_old_def)
  then have "leased t0 i worker (delete_where (\<lambda>j. j_id j \<in> set (dead_excess (delete_where (dead_old now) st)))
      (delete_where (dead_old now) st))"
    by (rule leased_delete) (use alive_not_excess jobs_ok_delete [OF assms(1)] in blast)
  then show ?thesis by (simp add: prune_dead_def Let_def)
qed

text \<open>While the lease lasts, nobody takes the job up.\<close>

lemma leased_not_picked:
  assumes "jobs_ok st" and "leased t0 i worker st" and "now \<le> t0 + LEASE"
  shows "i \<notin> set (picked order busy now limit only st)"
proof
  assume "i \<in> set (picked order busy now limit only st)"
  with assms(1,2) obtain j where "j_id j = i" "claimable now only j" "\<exists>t \<ge> t0. j_locked_at j = Some t"
    unfolding leased_def by (metis picked_row)
  with assms(3) show False by (auto simp: claimable_def)
qed

lemma leased_claim:
  assumes "jobs_ok st" and "leased t0 i worker st" and "now \<le> t0 + LEASE"
    and "claim order busy now limit worker' only st = (jobs, st')"
  shows "leased t0 i worker st' \<and> i \<notin> cl_id ` set jobs"
proof -
  note not = leased_not_picked [OF assms(1-3), of order busy limit only]
  have "leased t0 i worker (update_where (\<lambda>j. j_id j \<in> set (picked order busy now limit only st)) (take_up now worker') st)"
    by (rule leased_update [OF assms(2)]) (use not in auto)
  with not assms(4) show ?thesis by (auto simp: claim_def Let_def claimed_of_def)
qed

lemma leased_execute:
  assumes "leased t0 i worker st" and "cl_id job \<noteq> i"
  shows "leased t0 i worker (execute rand reg now job out st)"
  using assms
  by (auto simp: execute_def fail_job_def delete_job_def bury_def schedule_retry_def Let_def
    intro!: leased_update leased_delete split: option.split outcome.split)

lemma leased_step:
  assumes "job_step reg e w w'" and "jobs_ok (w_store w)" and "leased t0 i worker (w_store w)"
    and "t0 \<le> w_now w" and "w_now w' \<le> t0 + LEASE"
    and "\<forall>x. e \<noteq> CameOut x i" and "e \<noteq> Stopped worker"
  shows "leased t0 i worker (w_store w') \<and> t0 \<le> w_now w' \<and> w_now w \<le> w_now w' \<and>
    (\<forall>x jobs. e = Claims x jobs \<longrightarrow> i \<notin> cl_id ` set jobs)"
  using assms(1)
proof (cases rule: job_step.cases)
  case (claims order busy limit worker' only jobs st)
  with leased_claim [OF assms(2,3), of "w_now w"] assms(4,5) show ?thesis by auto
next
  case (renewed worker' job)
  have "leased t0 i worker (renew_lease (w_now w) (cl_id job) worker' (w_store w))"
    unfolding renew_lease_def using assms(4) by (auto intro: leased_update [OF assms(3)])
  with renewed assms(4) show ?thesis by simp
next
  case (came_out worker' job rand out)
  with leased_execute [OF assms(3)] assms(4,6) show ?thesis by auto
next
  case (stopped worker')
  with assms(7) have "leased t0 i worker (hand_back worker' (w_store w))"
    unfolding hand_back_def by (auto intro: leased_update [OF assms(3)])
  with stopped assms(4) show ?thesis by simp
next
  case made_due
  have "leased t0 i worker (make_due (w_now w) (w_store w))"
    unfolding make_due_def by (rule leased_update [OF assms(3)]) auto
  with made_due assms(4) show ?thesis by simp
next
  case pruned
  with leased_prune [OF assms(2,3)] assms(4) show ?thesis by simp
qed (use assms in \<open>auto dest: leased_insert leased_bulk\<close>)

section \<open>A job that keeps failing\<close>

text \<open>One run of job \<open>i\<close> that fails at \<open>now\<close>, claimed as \<^verbatim>\<open>run_one\<close> claims it.\<close>

definition failing_run ::
  "(nat \<Rightarrow> nat) \<Rightarrow> registry \<Rightarrow> string \<Rightarrow> int \<Rightarrow> int \<Rightarrow> string \<Rightarrow> job_store \<Rightarrow> job_store" where
  "failing_run rand reg worker i now message st =
     (let (jobs, st1) = claim [] {} now 1 worker (Some i) st in
      fold (\<lambda>job. execute rand reg now job (Raised message)) jobs st1)"

definition job_at :: "job_store \<Rightarrow> int \<Rightarrow> job_row option" where
  "job_at st i = find (\<lambda>j. j_id j = i) (job_rows st)"

lemma find_update:
  "(\<And>j. j_id (f j) = j_id j) \<Longrightarrow>
   find (\<lambda>j. j_id j = i) (map (\<lambda>j. if P j then f j else j) rows) =
   map_option (\<lambda>j. if P j then f j else j) (find (\<lambda>j. j_id j = i) rows)"
  by (induction rows) auto

lemma job_at_update:
  "(\<And>j. j_id (f j) = j_id j) \<Longrightarrow>
   job_at (update_where P f st) i = map_option (\<lambda>j. if P j then f j else j) (job_at st i)"
  unfolding job_at_def update_where_def by (simp add: find_update)

lemma find_filter_self: "find (\<lambda>j. j_id j = i) (filter (\<lambda>j. j_id j \<noteq> i) rows) = None"
  by (simp add: find_None_iff)

lemma job_at_delete [simp]: "job_at (delete_job i st) i = None"
  by (simp add: job_at_def delete_job_def delete_where_def find_filter_self)

lemma job_atD: "job_at st i = Some j \<Longrightarrow> j \<in> set (job_rows st) \<and> j_id j = i"
  by (auto simp: job_at_def find_Some_iff)

text \<open>A free, live row is claimed by its id, and nothing else is.\<close>

lemma filter_id_row:
  assumes "jobs_ok st" and "job_at st i = Some j"
  shows "filter (\<lambda>k. j_id k = i \<and> Q k) (job_rows st) = (if Q j then [j] else [])"
proof -
  have d: "distinct (map j_id (job_rows st))" and j: "j \<in> set (job_rows st)" "j_id j = i"
    using assms(1) job_atD [OF assms(2)] by (auto simp: jobs_ok_def)
  have f: "filter (\<lambda>k. j_id k = i \<and> Q k) xs = (if j \<in> set xs \<and> Q j then [j] else [])"
    if "distinct (map j_id xs)" "\<forall>k \<in> set xs. j_id k = i \<longrightarrow> k = j" for xs
    using that
  proof (induction xs)
    case (Cons x xs)
    have IH: "filter (\<lambda>k. j_id k = i \<and> Q k) xs = (if j \<in> set xs \<and> Q j then [j] else [])"
      by (rule Cons.IH) (use Cons.prems in simp_all)
    show ?case
    proof (cases "j_id x = i")
      case True
      have x: "x = j" using Cons.prems(2) True by simp
      have "j \<notin> set xs" using Cons.prems(1) x by (simp add: image_iff) blast
      with x IH True show ?thesis by simp
    next
      case False
      with j(2) have "x \<noteq> j" by blast
      with IH False show ?thesis by simp
    qed
  qed simp
  have "\<forall>k \<in> set (job_rows st). j_id k = i \<longrightarrow> k = j" 
    by (intro ballI impI id_row [OF assms(1) _ j(1)]) (simp_all add: j(2))
  from f [OF d this] j(1) show ?thesis by simp
qed

lemma claim_one:
  assumes "jobs_ok st" and "job_at st i = Some j" and "j_dead_at j = None" and "j_locked_at j = None"
  shows "claim [] {} now 1 worker (Some i) st =
    ([claimed_of j], update_where (\<lambda>k. j_id k = i) (take_up now worker) st)"
proof -
  have "filter (\<lambda>k. claimable now (Some i) k \<and> j_id k \<notin> {}) (job_rows st) =
      filter (\<lambda>k. j_id k = i \<and> claimable now (Some i) k) (job_rows st)"
    by (rule filter_cong) (auto simp: claimable_def)
  also have "\<dots> = [j]"
    using filter_id_row [OF assms(1,2), of "claimable now (Some i)"] assms(3,4) job_atD [OF assms(2)]
    by (simp add: claimable_def)
  finally have "picked [] {} now 1 (Some i) st = [i]"
    using job_atD [OF assms(2)] by (simp add: picked_def)
  moreover have "filter (\<lambda>k. j_id k = i) (job_rows st) = [j]"
    using filter_id_row [OF assms(1,2), of "\<lambda>_. True"] by simp
  ultimately show ?thesis by (simp add: claim_def Let_def)
qed

lemma failing_run_ok: "jobs_ok st \<Longrightarrow> jobs_ok (failing_run rand reg worker i now message st)"
proof -
  assume ok: "jobs_ok st"
  obtain jobs st1 where c: "claim [] {} now 1 worker (Some i) st = (jobs, st1)" by (rule prod.exhaust)
  have "jobs_ok (fold (\<lambda>job. execute rand reg now job (Raised message)) js s)" if "jobs_ok s" for js s
    using that by (induction js arbitrary: s) (auto intro: jobs_ok_execute)
  with jobs_ok_claim [OF ok c] show ?thesis unfolding failing_run_def c Let_def prod.case by blast
qed

lemma failing_run_row:
  assumes ok: "jobs_ok st" and j: "job_at st i = Some j" and free: "j_dead_at j = None" "j_locked_at j = None"
    and reg: "reg (j_kind j) = Some e" and max: "0 \<le> j_max_retries j" and att: "0 \<le> j_attempts j"
  shows "job_at (failing_run rand reg worker i now message st) i =
    (if j_attempts j \<ge> j_max_retries j then
       (if j_keep_dead j then Some (j\<lparr>j_attempts := j_attempts j + 1, j_dead_at := Some now,
          j_failed_at := Some now, j_last_error := Some message, j_unique_key := None,
          j_locked_at := None, j_locked_by := None\<rparr>) else None)
     else Some (j\<lparr>j_attempts := j_attempts j + 1,
       j_run_at := now + secs (int (retry_delay rand (nat (j_attempts j)) (retry_in e (nat (j_attempts j))))),
       j_unique_key := (if j_unlock_on_claim j then None else j_unique_key j),
       j_locked_at := None, j_locked_by := None, j_last_error := Some message, j_failed_at := Some now\<rparr>))"
proof -
  let ?st = "update_where (\<lambda>k. j_id k = i) (take_up now worker) st"
  have i: "j_id j = i" using job_atD [OF j] by simp
  have t: "job_at ?st i = Some (take_up now worker j)"
    using j i by (subst job_at_update) (auto simp: take_up_def)
  have n: "u32_or_zero (j_attempts j) \<ge> u32_or_zero (j_max_retries j) \<longleftrightarrow> j_attempts j \<ge> j_max_retries j"
    "u32_or_zero (j_attempts j) = nat (j_attempts j)" "\<not> j_max_retries j < 0"
    using max att by (auto simp: u32_or_zero_def)
  have b: "job_at (bury now (claimed_of j) message ?st) i =
      map_option (\<lambda>j. j\<lparr>j_attempts := j_attempts j + 1, j_dead_at := Some now, j_failed_at := Some now,
        j_last_error := Some message, j_unique_key := None, j_locked_at := None, j_locked_by := None\<rparr>) (job_at ?st i)"
    unfolding bury_def by (subst job_at_update) (simp_all add: claimed_of_def i t take_up_def)
  have r: "job_at (schedule_retry now delay (claimed_of j) message ?st) i =
      map_option (\<lambda>j. j\<lparr>j_attempts := j_attempts j + 1, j_run_at := now + secs (int delay),
        j_locked_at := None, j_locked_by := None, j_last_error := Some message, j_failed_at := Some now\<rparr>) (job_at ?st i)"
    for delay
    unfolding schedule_retry_def by (subst job_at_update) (simp_all add: claimed_of_def i t take_up_def)
  have c: "cl_id (claimed_of j) = i" "cl_kind (claimed_of j) = j_kind j" "cl_attempts (claimed_of j) = j_attempts j"
    "cl_max_retries (claimed_of j) = j_max_retries j" "cl_keep_dead (claimed_of j) = j_keep_dead j"
    by (simp_all add: claimed_of_def i)
  have run: "failing_run rand reg worker i now message st =
      execute rand reg now (claimed_of j) (Raised message) ?st"
    unfolding failing_run_def claim_one [OF ok j free] Let_def prod.case by simp
  show ?thesis
    unfolding run execute_def c reg option.case outcome.case fail_job_def Let_def n(2)
    using n(1,3) free by (simp add: b r t n(2) take_up_def)
qed

end
