(* ===== verification/JobsTheorems.thy ===== *)
theory JobsTheorems
  imports JobsFacts "HOL-Library.Multiset"
begin

text \<open>
  The properties of the job queue: its table, its unique locks, its leases, its retries and the
  order in which its queues are served.
\<close>

section \<open>The table\<close>

text \<open>
  C10: Whatever the callers, the job loops, the clock and dying processes do, in any order, no two
  rows of the table share an id and no two hold the same unique key; and a dead row holds no key
  and no lease.
\<close>

theorem job_table_stays_consistent:
  assumes "job_run reg es \<lparr>w_store = \<lparr>job_rows = [], job_seq = n\<rparr>, w_now = t, w_running = []\<rparr> w"
  shows "distinct (map j_id (job_rows (w_store w))) \<and> distinct (held_keys (job_rows (w_store w))) \<and>
    (\<forall>j \<in> set (job_rows (w_store w)). j_dead_at j \<noteq> None \<longrightarrow> j_unique_key j = None \<and> j_locked_by j = None)"
proof -
  from job_run_ok [OF assms] have "jobs_ok (w_store w)" by (simp add: jobs_ok_empty)
  then show ?thesis by (auto simp: jobs_ok_def row_ok_def)
qed

definition probe_options :: options where
  "probe_options = with_lock (with_retry options_DEFAULT 1) (UntilExecuted (secs 60))"

definition probe_reg :: registry where
  "probe_reg kind = (if kind = ''Probe'' then Some \<lparr>retry_in = (\<lambda>_. Some 5)\<rparr> else None)"

definition up :: "insert_stmt \<Rightarrow> bool" where
  "up s = False"

definition no_jobs :: job_store where
  "no_jobs = \<lparr>job_rows = [], job_seq = 1\<rparr>"

definition probe_queued :: job_store where
  "probe_queued = snd (insert_job up 0 ''Probe'' probe_options ''{}'' 0 no_jobs)"

text \<open>The table once worker \<open>A\<close> has claimed the job at time 0.\<close>

definition probe_claimed :: job_store where
  "probe_claimed = snd (claim [''default''] {} 0 10 ''A'' None probe_queued)"

lemmas job_defs = insert_job_def perform_in_def lock_columns_def retry_columns_def i32_try_from_def unique_key_def
  lapsed_lock_def update_where_def delete_where_def with_lock_def with_retry_def options_DEFAULT_def secs_def
  claim_def picked_def claimable_def take_up_def claimed_of_def LEASE_def
  probe_options_def probe_reg_def up_def no_jobs_def probe_queued_def probe_claimed_def

lemma probe_run:
  "job_run probe_reg [Quiet, Claims ''A'' (fst (claim [''default''] {} 0 10 ''A'' None probe_queued))]
     \<lparr>w_store = \<lparr>job_rows = [], job_seq = 1\<rparr>, w_now = 0, w_running = []\<rparr>
     \<lparr>w_store = probe_claimed, w_now = 0,
       w_running = map (Pair ''A'') (fst (claim [''default''] {} 0 10 ''A'' None probe_queued))\<rparr>"
  unfolding job_run_Cons job_run_Nil
proof (intro exI conjI)
  show "job_step probe_reg Quiet \<lparr>w_store = \<lparr>job_rows = [], job_seq = 1\<rparr>, w_now = 0, w_running = []\<rparr>
    \<lparr>w_store = probe_queued, w_now = 0, w_running = []\<rparr>"
    using job_step.queued [of up "\<lparr>w_store = no_jobs, w_now = 0, w_running = []\<rparr>"
        "''Probe''" probe_options "''{}''" 0 "fst (insert_job up 0 ''Probe'' probe_options ''{}'' 0 no_jobs)" probe_queued probe_reg]
    by (simp add: probe_queued_def no_jobs_def)
  show "job_step probe_reg (Claims ''A'' (fst (claim [''default''] {} 0 10 ''A'' None probe_queued)))
    \<lparr>w_store = probe_queued, w_now = 0, w_running = []\<rparr>
    \<lparr>w_store = probe_claimed, w_now = 0,
      w_running = map (Pair ''A'') (fst (claim [''default''] {} 0 10 ''A'' None probe_queued))\<rparr>"
    using job_step.claims [of "[''default'']" "{}" "\<lparr>w_store = probe_queued, w_now = 0, w_running = []\<rparr>" 10 "''A''" None
        "fst (claim [''default''] {} 0 10 ''A'' None probe_queued)" probe_claimed probe_reg]
    by (simp add: probe_claimed_def)
qed simp

theorem job_table_stays_consistent_witness:
  "distinct (map j_id (job_rows probe_claimed)) \<and> distinct (held_keys (job_rows probe_claimed))"
  using job_table_stays_consistent [OF probe_run] by simp

text \<open>
  Queueing a worker that has a lock answers \<^verbatim>\<open>None\<close>, and adds no row, exactly when a row
  holds the key of the same worker, queue and arguments and its lock has not lapsed; otherwise it
  answers a new id, whose row then holds the key.
\<close>

theorem unique_job_is_queued_once:
  assumes "insert_job (\<lambda>_. False) now kind options args delay st = (Inr res, st')"
    and "o_lock options \<noteq> NoLock" and "key = unique_key kind (o_queue options) args"
  shows "(res = None \<longleftrightarrow> (\<exists>j \<in> set (job_rows st). j_unique_key j = Some key \<and> \<not> lapsed_lock key now j)) \<and>
    (res = None \<longrightarrow> map j_id (job_rows st') = map j_id (job_rows st)) \<and>
    (\<forall>i. res = Some i \<longrightarrow> i = job_seq st \<and> map j_id (job_rows st') = map j_id (job_rows st) @ [i] \<and>
       j_unique_key (last (job_rows st')) = Some key)"
proof -
  obtain ttl unlock where lock: "lock_columns kind options args = (Some key, ttl, unlock)"
    using assms(2,3) by (cases "o_lock options") (auto simp: lock_columns_def)
  have held: "list_ex (\<lambda>j. j_unique_key j = Some key)
      (job_rows (update_where (lapsed_lock key now) (\<lambda>j. j\<lparr>j_unique_key := None\<rparr>) st)) \<longleftrightarrow>
      (\<exists>j \<in> set (job_rows st). j_unique_key j = Some key \<and> \<not> lapsed_lock key now j)"
    by (auto simp: update_where_def list_ex_iff split: if_splits)
  have ids: "map j_id (job_rows (update_where (lapsed_lock key now) (\<lambda>j. j\<lparr>j_unique_key := None\<rparr>) st)) =
      map j_id (job_rows st)"
    by (simp add: update_where_def)
  have seq: "job_seq (update_where P f st) = job_seq st" for P f by (simp add: update_where_def)
  show ?thesis
    using assms(1) ids unfolding insert_job_def lock prod.case Let_def option.case
    by (auto simp: held seq split: prod.splits if_splits)
qed

lemma insert_job_up: "\<exists>r st'. insert_job (\<lambda>_. False) now kind options args delay st = (Inr r, st')"
  unfolding insert_job_def Let_def by (cases "lock_columns kind options args"; cases "retry_columns options") auto

theorem unique_job_is_queued_once_witness:
  "fst (insert_job (\<lambda>_. False) 1 ''Probe'' probe_options ''{}'' 0 probe_queued) = Inr None"
proof -
  have l: "o_lock probe_options \<noteq> NoLock" by (simp add: probe_options_def with_lock_def)
  obtain r st' where r: "insert_job (\<lambda>_. False) 1 ''Probe'' probe_options ''{}'' 0 probe_queued = (Inr r, st')"
    using insert_job_up by blast
  have "\<exists>j \<in> set (job_rows probe_queued).
      j_unique_key j = Some (unique_key ''Probe'' (o_queue probe_options) ''{}'') \<and>
      \<not> lapsed_lock (unique_key ''Probe'' (o_queue probe_options) ''{}'') 1 j"
    by (simp add: job_defs)
  with conjunct1 [OF unique_job_is_queued_once [OF r l refl]] have "r = None" by (rule iffD2)
  then show ?thesis unfolding r fst_conv by (rule arg_cong)
qed

section \<open>Leases\<close>

lemma leased_run:
  assumes "job_run reg es w w'" and "jobs_ok (w_store w)" and "leased t0 i worker (w_store w)"
    and "t0 \<le> w_now w" and "w_now w' \<le> t0 + LEASE"
    and "\<forall>x. CameOut x i \<notin> set es" and "Stopped worker \<notin> set es"
  shows "\<forall>x jobs. Claims x jobs \<in> set es \<longrightarrow> i \<notin> cl_id ` set jobs"
  using assms
proof (induction rule: job_run.induct)
  case (go e w w1 es w2)
  have mono: "job_run reg es w w' \<Longrightarrow> w_now w \<le> w_now w'" for es w w'
    by (induction rule: job_run.induct) (auto elim!: job_stepE)
  have "leased t0 i worker (w_store w1) \<and> t0 \<le> w_now w1 \<and> w_now w \<le> w_now w1 \<and>
      (\<forall>x jobs. e = Claims x jobs \<longrightarrow> i \<notin> cl_id ` set jobs)"
    by (rule leased_step [OF go(1,4,5,6)]) (use go.prems mono [OF go(2)] in auto)
  with go job_step_ok [OF go(1,4)] show ?case by auto
qed simp

lemma claim_leases:
  assumes "jobs_ok st" and "claim order busy now limit worker only st = (jobs, st')" and "job \<in> set jobs"
  shows "leased now (cl_id job) worker st'"
proof -
  let ?P = "\<lambda>j. j_id j \<in> set (picked order busy now limit only st)"
  from assms(2,3) obtain j where j: "j \<in> set (job_rows st)" "?P j" "job = claimed_of j"
    and st': "st' = update_where ?P (take_up now worker) st" by (auto simp: claim_def Let_def)
  have "claimable now only j" using picked_row [OF assms(1) j(1,2)] by simp
  then have "j_dead_at j = None" by (simp add: claimable_def)
  moreover have "take_up now worker j \<in> set (job_rows st')"
    using j(1,2) by (force simp: st' update_where_def)
  ultimately show ?thesis using j(3)
    by (auto simp: leased_def take_up_def claimed_of_def intro!: bexI [of _ "take_up now worker j"])
qed

text \<open>
  C8: A job that a loop has claimed is not claimed by anyone for the length of the lease, whatever
  else the queue does meanwhile, as long as no run of that job comes out and the loop does not
  hand its jobs back; a loop that renews its lease or dies makes no difference.
\<close>

theorem claimed_job_is_not_claimed_again:
  assumes "jobs_ok (w_store w)" and "job_step reg (Claims worker jobs) w w1" and "job \<in> set jobs"
    and "job_run reg es w1 w'" and "w_now w' \<le> w_now w + LEASE"
    and "\<forall>x. CameOut x (cl_id job) \<notin> set es" and "Stopped worker \<notin> set es"
  shows "\<forall>x jobs'. Claims x jobs' \<in> set es \<longrightarrow> cl_id job \<notin> cl_id ` set jobs'"
proof -
  from assms(2) obtain order busy limit only st where
    c: "claim order busy (w_now w) limit worker only (w_store w) = (jobs, st)"
    and w1: "w_store w1 = st" "w_now w1 = w_now w" by (auto elim!: job_stepE)
  from claim_leases [OF assms(1) c assms(3)] have "leased (w_now w) (cl_id job) worker (w_store w1)"
    by (simp add: w1)
  with leased_run [OF assms(4) job_step_ok [OF assms(2,1)]] w1(2) assms(5-7) show ?thesis by simp
qed

definition probe_job :: claimed where
  "probe_job = \<lparr>cl_id = 1, cl_kind = ''Probe'', cl_args = ''{}'', cl_attempts = 0, cl_max_retries = 1, cl_keep_dead = True\<rparr>"

definition probe_row :: "int \<Rightarrow> int \<Rightarrow> string option \<Rightarrow> int option \<Rightarrow> string option \<Rightarrow> int option \<Rightarrow> job_row" where
  "probe_row run_at attempts worker locked error failed =
     \<lparr>j_id = 1, j_queue = ''default'', j_kind = ''Probe'', j_args = ''{}'', j_run_at = run_at, j_attempts = attempts,
      j_max_retries = 1, j_keep_dead = True, j_unique_key = Some ''default:Probe:{}'', j_unique_until = Some (secs 60),
      j_unlock_on_claim = False, j_locked_at = locked, j_locked_by = worker, j_last_error = error,
      j_failed_at = failed, j_dead_at = None\<rparr>"

definition probe_store :: "job_row \<Rightarrow> job_store" where
  "probe_store row = \<lparr>job_rows = [row], job_seq = 2\<rparr>"

lemma probe_queued_store: "probe_queued = probe_store (probe_row 0 0 None None None None)"
  by (simp add: job_defs probe_store_def probe_row_def)

lemma probe_store_ok: "jobs_ok probe_queued"
  by (simp add: probe_queued_store probe_store_def probe_row_def jobs_ok_def row_ok_def)

lemma probe_claim_free:
  "run_at \<le> now \<Longrightarrow> claim [''default''] {} now 10 worker None (probe_store (probe_row run_at n None None e f)) =
   ([probe_job\<lparr>cl_attempts := n\<rparr>], probe_store (probe_row run_at n (Some worker) (Some now) e f))"
  by (simp add: probe_store_def probe_row_def probe_job_def job_defs)

lemma probe_claim_lapsed:
  "run_at \<le> now \<Longrightarrow> t < now - LEASE \<Longrightarrow>
   claim [''default''] {} now 10 worker None (probe_store (probe_row run_at n (Some x) (Some t) e f)) =
   ([probe_job\<lparr>cl_attempts := n\<rparr>], probe_store (probe_row run_at n (Some worker) (Some now) e f))"
  by (simp add: probe_store_def probe_row_def probe_job_def job_defs)

lemma probe_claim_leased:
  "t \<ge> now - LEASE \<Longrightarrow>
   claim [''default''] {} now 10 worker None (probe_store (probe_row run_at n (Some x) (Some t) e f)) =
   ([], probe_store (probe_row run_at n (Some x) (Some t) e f))"
  by (simp add: probe_store_def probe_row_def probe_job_def job_defs)

lemma step_claim:
  assumes "claim order busy now limit worker only st = (jobs, st')"
  shows "job_step reg (Claims worker jobs) \<lparr>w_store = st, w_now = now, w_running = rs\<rparr>
    \<lparr>w_store = st', w_now = now, w_running = rs @ map (Pair worker) jobs\<rparr>"
  using job_step.claims [where w = "\<lparr>w_store = st, w_now = now, w_running = rs\<rparr>"] assms by simp

lemma step_pass:
  "now \<le> now' \<Longrightarrow> job_step reg Quiet \<lparr>w_store = st, w_now = now, w_running = rs\<rparr>
    \<lparr>w_store = st, w_now = now', w_running = rs\<rparr>"
  using job_step.passed [of "\<lparr>w_store = st, w_now = now, w_running = rs\<rparr>" now'] by simp

lemma step_came_out:
  "(worker, job) \<in> set rs \<Longrightarrow> st' = execute rand reg now job out st \<Longrightarrow>
   job_step reg (CameOut worker (cl_id job)) \<lparr>w_store = st, w_now = now, w_running = rs\<rparr>
    \<lparr>w_store = st', w_now = now, w_running = remove1 (worker, job) rs\<rparr>"
  using job_step.came_out [of worker job "\<lparr>w_store = st, w_now = now, w_running = rs\<rparr>"] by simp

theorem claimed_job_is_not_claimed_again_witness:
  "\<exists>w'. job_run probe_reg [Quiet, Claims ''B'' []]
     \<lparr>w_store = probe_store (probe_row 0 0 (Some ''A'') (Some 0) None None), w_now = 0, w_running = [(''A'', probe_job)]\<rparr> w' \<and>
    (\<forall>x jobs'. Claims x jobs' \<in> set [Quiet, Claims ''B'' []] \<longrightarrow> cl_id probe_job \<notin> cl_id ` set jobs')"
proof -
  let ?w1 = "\<lparr>w_store = probe_store (probe_row 0 0 (Some ''A'') (Some 0) None None), w_now = 0, w_running = [(''A'', probe_job)]\<rparr>"
  let ?w' = "\<lparr>w_store = probe_store (probe_row 0 0 (Some ''A'') (Some 0) None None), w_now = LEASE, w_running = [(''A'', probe_job)]\<rparr>"
  have self: "probe_job\<lparr>cl_attempts := 0\<rparr> = probe_job" by (simp add: probe_job_def)
  have "job_step probe_reg (Claims ''A'' [probe_job]) \<lparr>w_store = probe_queued, w_now = 0, w_running = []\<rparr> ?w1"
    unfolding probe_queued_store
    using step_claim [OF probe_claim_free [of 0 0 "''A''" 0 None None], of probe_reg "[]"] by (simp add: self)
  moreover have run: "job_run probe_reg [Quiet, Claims ''B'' []] ?w1 ?w'"
    using step_claim [OF probe_claim_leased [of LEASE 0 "''B''" 0 0 "''A''" None None], of probe_reg "[(''A'', probe_job)]"]
    by (intro job_run.go [OF step_pass] job_run.go [where es = "[]"] job_run.stay) (simp_all add: LEASE_def secs_def)
  ultimately have "\<forall>x jobs'. Claims x jobs' \<in> set [Quiet, Claims ''B'' []] \<longrightarrow> cl_id probe_job \<notin> cl_id ` set jobs'"
    using claimed_job_is_not_claimed_again [of "\<lparr>w_store = probe_queued, w_now = 0, w_running = []\<rparr>" probe_reg "''A''"
        "[probe_job]" ?w1 probe_job "[Quiet, Claims ''B'' []]" ?w'] probe_store_ok
    by simp
  with run show ?thesis by blast
qed

text \<open>A row that is due and free is claimed by every loop with room for the whole table.\<close>

lemma claim_takes_due:
  assumes "j \<in> set (job_rows st)" "claimable now None j" "j_id j \<notin> busy" "length (job_rows st) \<le> limit"
  shows "claimed_of j \<in> set (fst (claim order busy now limit worker None st))"
proof -
  let ?due = "filter (\<lambda>j. claimable now None j \<and> j_id j \<notin> busy) (job_rows st)"
  have "length ?due \<le> limit" using assms(4) length_filter_le [of "\<lambda>j. claimable now None j \<and> j_id j \<notin> busy"] by (rule le_trans [rotated])
  then have "set (picked order busy now limit None st) = j_id ` set ?due" by (simp add: picked_def)
  then have "j_id j \<in> set (picked order busy now limit None st)" using assms(1-3) by simp
  then show ?thesis using assms(1) by (auto simp: claim_def Let_def)
qed

text \<open>
  C11: The statements that record how a run came out do not ask whether the run still holds its
  lease. Whenever a run whose lease was taken over (worker \<open>A\<close>) fails with retries left while
  another worker \<open>B\<close> runs the job and holds its row, the job is put back for a retry and free, and
  from the retry's delay on (seconds, the first time) every loop that claims with room takes it, in
  the middle of \<open>B\<close>'s lease too: the same job runs twice at once.
\<close>

theorem stale_run_frees_a_running_job:
  fixes rand :: "nat \<Rightarrow> nat"
  assumes "(A, job) \<in> set (w_running w)" "(B, job') \<in> set (w_running w)" "A \<noteq> B" "cl_id job' = cl_id job"
    and "job_at (w_store w) (cl_id job) = Some j" "j_dead_at j = None" "j_locked_by j = Some B"
    and "reg (cl_kind job) = Some e" "0 \<le> cl_max_retries job"
    and "u32_or_zero (cl_attempts job) < u32_or_zero (cl_max_retries job)"
  defines "delay \<equiv> retry_delay rand (u32_or_zero (cl_attempts job)) (retry_in e (u32_or_zero (cl_attempts job)))"
  shows "\<exists>w1 j1. job_step reg (CameOut A (cl_id job)) w w1 \<and> (B, job') \<in> set (w_running w1) \<and>
    job_at (w_store w1) (cl_id job) = Some j1 \<and> j_locked_by j1 = None \<and> j_run_at j1 = w_now w + secs (int delay) \<and>
    (\<forall>later order busy limit C. w_now w + secs (int delay) \<le> later \<longrightarrow> cl_id job \<notin> busy \<longrightarrow>
       length (job_rows (w_store w)) \<le> limit \<longrightarrow>
       cl_id job \<in> cl_id ` set (fst (claim order busy later limit C None (w_store w1))))"
proof -
  let ?st = "execute rand reg (w_now w) job (Raised []) (w_store w)"
  let ?j1 = "j\<lparr>j_attempts := j_attempts j + 1, j_run_at := w_now w + secs (int delay), j_locked_at := None, j_locked_by := None,
      j_last_error := Some [], j_failed_at := Some (w_now w)\<rparr>"
  define st where "st = ?st"
  have id: "j_id j = cl_id job" using job_atD [OF assms(5)] by simp
  have st: "st = schedule_retry (w_now w) delay job [] (w_store w)"
    using assms(8-10) by (simp add: st_def execute_def fail_job_def Let_def delay_def)
  have j1: "job_at st (cl_id job) = Some (?j1)"
    using assms(5) id unfolding st schedule_retry_def by (subst job_at_update) simp_all
  have len: "length (job_rows st) = length (job_rows (w_store w))" by (simp add: st schedule_retry_def update_where_def)
  have rows: "?j1 \<in> set (job_rows st)" using job_atD [OF j1] by simp
  have due: "claimable later None ?j1" if "w_now w + secs (int delay) \<le> later" for later
    using that assms(6) by (simp add: claimable_def)
  have taken: "cl_id job \<in> cl_id ` set (fst (claim order busy later limit C None st))"
    if "w_now w + secs (int delay) \<le> later" "cl_id job \<notin> busy" "length (job_rows (w_store w)) \<le> limit" for later order busy limit C
  proof (rule image_eqI)
    show "claimed_of ?j1 \<in> set (fst (claim order busy later limit C None st))"
      by (rule claim_takes_due [OF rows due]) (use that id len in simp_all)
    show "cl_id job = cl_id (claimed_of ?j1)" using id by (simp add: claimed_of_def)
  qed
  have "job_step reg (CameOut A (cl_id job)) w (w\<lparr>w_store := st, w_running := remove1 (A, job) (w_running w)\<rparr>)"
    unfolding st_def by (rule came_out [OF assms(1)])
  moreover have "(B, job') \<in> set (remove1 (A, job) (w_running w))" using assms(2,3) by (simp add: in_set_remove1)
  ultimately show ?thesis using j1 taken by (intro exI [of _ "w\<lparr>w_store := st, w_running := remove1 (A, job) (w_running w)\<rparr>"] exI [of _ "?j1"]) simp
qed

text \<open>The lease of \<open>A\<close> lapsed, \<open>B\<close> holds the job from the next instant on, and \<open>A\<close> fails in that instant.\<close>

lemma stale_run_frees_a_running_job_witness:
  defines "w \<equiv> \<lparr>w_store = probe_store (probe_row 0 0 (Some ''B'') (Some (LEASE + 1)) None None), w_now = LEASE + 1,
    w_running = [(''A'', probe_job), (''B'', probe_job)]\<rparr>"
  shows "\<exists>w1. job_step probe_reg (CameOut ''A'' 1) w w1 \<and> (''B'', probe_job) \<in> set (w_running w1) \<and>
    1 \<in> cl_id ` set (fst (claim [] {} (LEASE + 1 + secs 5) 10 ''C'' None (w_store w1)))"
proof -
  obtain e where e: "probe_reg ''Probe'' = Some e" "retry_delay (\<lambda>_. 0) 0 (retry_in e 0) = 5"
    by (simp add: probe_reg_def retry_delay_def wrap_u64_def)
  have row: "job_at (w_store w) (cl_id probe_job) = Some (probe_row 0 0 (Some ''B'') (Some (LEASE + 1)) None None)"
    by (simp add: w_def job_at_def probe_store_def probe_row_def probe_job_def)
  have "u32_or_zero (cl_attempts probe_job) = 0" "u32_or_zero (cl_max_retries probe_job) = 1" "cl_id probe_job = 1"
    by (simp_all add: u32_or_zero_def probe_job_def)
  note n = this
  have runs: "(''A'', probe_job) \<in> set (w_running w)" "(''B'', probe_job) \<in> set (w_running w)" by (simp_all add: w_def)
  have kind: "probe_reg (cl_kind probe_job) = Some e" using e by (simp add: probe_job_def)
  have "\<exists>w1 j1. job_step probe_reg (CameOut ''A'' (cl_id probe_job)) w w1 \<and> (''B'', probe_job) \<in> set (w_running w1) \<and>
      (\<forall>later order busy limit C. w_now w + secs 5 \<le> later \<longrightarrow> cl_id probe_job \<notin> busy \<longrightarrow> length (job_rows (w_store w)) \<le> limit \<longrightarrow>
         cl_id probe_job \<in> cl_id ` set (fst (claim order busy later limit C None (w_store w1))))"
    using stale_run_frees_a_running_job [of "''A''" probe_job w "''B''" probe_job _ probe_reg e "\<lambda>_. 0", OF runs _ refl row _ _ kind] e(2)
    by (auto simp: n probe_row_def probe_job_def u32_or_zero_def)
  moreover have "w_now w = LEASE + 1" "length (job_rows (w_store w)) \<le> 10" by (simp_all add: w_def probe_store_def)
  ultimately show ?thesis unfolding n by (metis empty_iff order_refl)
qed

section \<open>Retries\<close>

definition failing_runs :: "(nat \<Rightarrow> nat) \<Rightarrow> registry \<Rightarrow> string \<Rightarrow> int \<Rightarrow> string \<Rightarrow> int list \<Rightarrow> job_store \<Rightarrow> job_store" where
  "failing_runs rand reg worker i message ts st =
     fold (\<lambda>now. failing_run rand reg worker i now message) ts st"

lemma failing_runs_row:
  assumes "jobs_ok st" and "job_at st i = Some j" and "j_dead_at j = None" and "j_locked_at j = None"
    and "reg (j_kind j) = Some e" and "0 \<le> j_max_retries j" and "0 \<le> j_attempts j"
    and "int (length ts) \<le> j_max_retries j - j_attempts j"
  shows "\<exists>j'. job_at (failing_runs rand reg worker i message ts st) i = Some j' \<and>
    j_attempts j' = j_attempts j + int (length ts) \<and> j_dead_at j' = None \<and> j_locked_at j' = None \<and>
    j_kind j' = j_kind j \<and> j_max_retries j' = j_max_retries j \<and> j_keep_dead j' = j_keep_dead j \<and>
    jobs_ok (failing_runs rand reg worker i message ts st)"
  using assms
proof (induction ts arbitrary: st j)
  case (Cons t ts)
  let ?st = "failing_run rand reg worker i t message st"
  from Cons.prems(8) have "\<not> j_attempts j \<ge> j_max_retries j" by simp
  with failing_run_row [of st i j reg e, OF Cons.prems(1-7), of rand worker t message] obtain j1 where
    j1: "job_at ?st i = Some j1" "j_attempts j1 = j_attempts j + 1" "j_dead_at j1 = None" "j_locked_at j1 = None"
      "j_kind j1 = j_kind j" "j_max_retries j1 = j_max_retries j" "j_keep_dead j1 = j_keep_dead j"
    using Cons.prems(3) by simp
  from Cons.IH [OF failing_run_ok [OF Cons.prems(1)] j1(1,3,4)] show ?case
    using Cons.prems(5-8) j1 by (simp add: failing_runs_def algebra_simps)
qed (simp add: failing_runs_def)

text \<open>
  C9: A queued job with a limit of \<open>m\<close> retries that fails whenever it runs is run \<open>m + 1\<close> times,
  no fewer and no more: after every run up to the \<open>m\<close>-th it is in the queue again, alive and
  free, with that many attempts; after one more it is dead with its key given up, where the
  worker keeps its dead, and otherwise gone.
\<close>

theorem failing_job_runs_to_its_limit:
  assumes "jobs_ok st" and "job_at st i = Some j" and "j_dead_at j = None" and "j_locked_at j = None"
    and "j_attempts j = 0" and "j_max_retries j = int m" and "reg (j_kind j) = Some e"
  shows "(\<forall>ts. length ts \<le> m \<longrightarrow>
      (\<exists>j'. job_at (failing_runs rand reg worker i message ts st) i = Some j' \<and>
        j_attempts j' = int (length ts) \<and> j_dead_at j' = None \<and> j_locked_at j' = None)) \<and>
    (\<forall>ts now. length ts = m \<longrightarrow>
      (if j_keep_dead j
       then \<exists>j'. job_at (failing_runs rand reg worker i message (ts @ [now]) st) i = Some j' \<and>
          j_dead_at j' = Some now \<and> j_unique_key j' = None \<and> j_attempts j' = int m + 1
       else job_at (failing_runs rand reg worker i message (ts @ [now]) st) i = None))"
proof (intro conjI allI impI)
  fix ts :: "int list" assume "length ts \<le> m"
  then show "\<exists>j'. job_at (failing_runs rand reg worker i message ts st) i = Some j' \<and>
      j_attempts j' = int (length ts) \<and> j_dead_at j' = None \<and> j_locked_at j' = None"
    using failing_runs_row [of st i j reg e, OF assms(1-4,7), of ts rand worker message] assms(5,6) by auto
next
  fix ts :: "int list" and now assume len: "length ts = m"
  let ?st = "failing_runs rand reg worker i message ts st"
  have split: "failing_runs rand reg worker i message (ts @ [now]) st =
      failing_run rand reg worker i now message ?st" by (simp add: failing_runs_def)
  obtain j1 where j1: "job_at ?st i = Some j1" "j_attempts j1 = int m" "j_dead_at j1 = None" "j_locked_at j1 = None"
    "j_kind j1 = j_kind j" "j_max_retries j1 = int m" "j_keep_dead j1 = j_keep_dead j" "jobs_ok ?st"
    using failing_runs_row [of st i j reg e, OF assms(1-4,7), of ts rand worker message] assms(5,6) len by auto
  from failing_run_row [of ?st i j1 reg e, OF j1(8,1,3,4), of rand worker now message] assms(7) j1
  show "if j_keep_dead j
       then \<exists>j'. job_at (failing_runs rand reg worker i message (ts @ [now]) st) i = Some j' \<and>
          j_dead_at j' = Some now \<and> j_unique_key j' = None \<and> j_attempts j' = int m + 1
       else job_at (failing_runs rand reg worker i message (ts @ [now]) st) i = None"
    unfolding split by simp
qed

theorem failing_job_runs_to_its_limit_witness:
  "\<exists>j'. job_at (failing_runs (\<lambda>_. 0) probe_reg ''A'' 1 ''boom'' ([0] @ [10]) probe_queued) 1 = Some j' \<and>
     j_dead_at j' = Some 10 \<and> j_unique_key j' = None \<and> j_attempts j' = int 1 + 1"
proof -
  let ?j = "probe_row 0 0 None None None None"
  have "job_at probe_queued 1 = Some ?j"
    by (simp add: probe_queued_store probe_store_def probe_row_def job_at_def)
  moreover have "j_dead_at ?j = None" "j_locked_at ?j = None" "j_attempts ?j = 0" "j_max_retries ?j = int 1"
    "probe_reg (j_kind ?j) = Some \<lparr>retry_in = (\<lambda>_. Some 5)\<rparr>" and dead: "j_keep_dead ?j"
    by (simp_all add: probe_row_def probe_reg_def)
  ultimately have "if j_keep_dead ?j
       then \<exists>j'. job_at (failing_runs (\<lambda>_. 0) probe_reg ''A'' 1 ''boom'' ([0] @ [10]) probe_queued) 1 = Some j' \<and>
          j_dead_at j' = Some 10 \<and> j_unique_key j' = None \<and> j_attempts j' = int 1 + 1
       else job_at (failing_runs (\<lambda>_. 0) probe_reg ''A'' 1 ''boom'' ([0] @ [10]) probe_queued) 1 = None"
    using failing_job_runs_to_its_limit [of probe_queued 1 ?j 1 probe_reg "\<lparr>retry_in = (\<lambda>_. Some 5)\<rparr>" "\<lambda>_. 0" "''A''" "''boom''",
        OF probe_store_ok] by (metis length_Cons list.size(3) One_nat_def)
  with dead show ?thesis by simp
qed

lemma pow4_bound: "(n::nat) \<le> 65535 \<Longrightarrow> n ^ 4 \<le> 65535 ^ 4"
  by (rule power_mono) simp_all

text \<open>
  Up to 65535 retries, well past the 25 any worker asks for, the delay never wraps: it is
  \<^verbatim>\<open>(count**4) + 15\<close> seconds (or what the worker's own \<^verbatim>\<open>sidekiq_retry_in\<close> says, below
  \<open>2 ^ 63\<close>) plus a jitter of at most \<open>9 * (n + 1)\<close> seconds.
\<close>

theorem retry_delay_bounds:
  assumes "n \<le> 65535" and "\<And>n. 0 < n \<Longrightarrow> rand n < n" and "\<forall>d. custom = Some d \<longrightarrow> d < 2 ^ 63"
    and "base = (case custom of Some d \<Rightarrow> d | None \<Rightarrow> n ^ 4 + 15)"
  shows "base \<le> retry_delay rand n custom \<and> retry_delay rand n custom \<le> base + 9 * (n + 1)"
proof -
  have pow: "n ^ 4 \<le> 65535 ^ 4" by (rule pow4_bound [OF assms(1)])
  have jitter: "rand 10 * (n + 1) \<le> 9 * (n + 1)" using assms(2) [of 10] by (intro mult_right_mono) simp_all
  have j64: "9 * (n + 1) < 2 ^ 20" using assms(1) by simp
  have base: "base \<le> 2 ^ 64 - 2 ^ 21" using assms(3,4) pow by (auto split: option.splits)
  have b: "(case custom of Some d \<Rightarrow> d | None \<Rightarrow> wrap_u64 (saturating_pow n 4 + 15)) = base"
    using assms(4) pow by (auto simp: wrap_u64_def saturating_pow_def min_def split: option.splits)
  have "rand 10 * (n + 1) < 2 ^ 64" using jitter j64 by simp
  then have w: "wrap_u64 (rand 10 * (n + 1)) = rand 10 * (n + 1)" by (simp add: wrap_u64_def)
  have "base + rand 10 * (n + 1) < 2 ^ 64" using base jitter j64 by simp
  then have "retry_delay rand n custom = base + rand 10 * (n + 1)"
    unfolding retry_delay_def b w Let_def by (simp add: wrap_u64_def)
  with jitter show ?thesis by simp
qed

theorem retry_delay_bounds_witness: "96 \<le> retry_delay (\<lambda>n. n - 1) 3 None"
  using retry_delay_bounds [of 3 "\<lambda>n. n - 1" None 96] by simp

section \<open>The order of the queues\<close>

lemma first_places_set: "set (first_places order qs) = set order \<union> queue_name ` set qs"
  by (induction qs arbitrary: order) auto

lemma first_places_distinct: "distinct order \<Longrightarrow> distinct (first_places order qs)"
  by (induction qs arbitrary: order) auto

lemma weighted_queues_set: "set weighted_queues = set queue_ALL"
  by (auto simp: weighted_queues_def queue_ALL_def)

text \<open>
  Whatever the shuffle, a fetch looks at each of the seven queues exactly once.
\<close>

theorem queue_order_lists_every_queue_once:
  assumes "mset (shuffle weighted_queues) = mset weighted_queues"
  shows "mset (queue_order shuffle) = mset (map queue_name queue_ALL)"
proof -
  have "set (queue_order shuffle) = set (map queue_name queue_ALL)"
    using mset_eq_setD [OF assms] by (simp add: queue_order_def first_places_set weighted_queues_set)
  moreover have "distinct (queue_order shuffle)" by (simp add: queue_order_def first_places_distinct)
  moreover have "distinct (map queue_name queue_ALL)" by (simp add: queue_ALL_def)
  ultimately show ?thesis by (metis set_eq_iff_mset_eq_distinct)
qed

theorem queue_order_lists_every_queue_once_witness: "mset (queue_order rev) = mset (map queue_name queue_ALL)"
  by (rule queue_order_lists_every_queue_once) simp

section \<open>The dead set\<close>

text \<open>
  Pruning keeps every live row, deletes every row dead for more than 180 days, and leaves at
  most ten thousand dead rows; it answers how many rows went.
\<close>

theorem pruning_keeps_the_dead_set_small:
  assumes "jobs_ok st" and "prune_dead now st = (n, st')"
  shows "filter (\<lambda>j. j_dead_at j = None) (job_rows st') = filter (\<lambda>j. j_dead_at j = None) (job_rows st) \<and>
    (\<forall>j \<in> set (job_rows st'). \<forall>t. j_dead_at j = Some t \<longrightarrow> now - DEAD_TIMEOUT \<le> t) \<and>
    length (filter (\<lambda>j. j_dead_at j \<noteq> None) (job_rows st')) \<le> DEAD_MAX_JOBS \<and>
    n = length (job_rows st) - length (job_rows st')"
proof -
  define st1 where "st1 = delete_where (dead_old now) st"
  let ?old = "\<lambda>j. j_id j \<in> set (dead_excess st1)"
  have ok1: "jobs_ok st1" by (simp add: st1_def jobs_ok_delete assms(1))
  have st': "st' = delete_where ?old st1" and n: "n = length (job_rows st) - length (job_rows st1) +
      (length (job_rows st1) - length (job_rows st'))"
    using assms(2) by (auto simp: prune_dead_def Let_def st1_def)
  have "filter (\<lambda>j. j_dead_at j = None) (job_rows st') = filter (\<lambda>j. j_dead_at j = None) (job_rows st1)"
    unfolding st' delete_where_def using alive_not_excess [OF ok1] by (auto intro: filter_cong)
  also have "\<dots> = filter (\<lambda>j. j_dead_at j = None) (job_rows st)"
    by (auto simp: st1_def delete_where_def dead_old_def intro: filter_cong)
  finally have live: "filter (\<lambda>j. j_dead_at j = None) (job_rows st') = filter (\<lambda>j. j_dead_at j = None) (job_rows st)" .
  have young: "\<forall>j \<in> set (job_rows st'). \<forall>t. j_dead_at j = Some t \<longrightarrow> now - DEAD_TIMEOUT \<le> t"
    by (auto simp: st' st1_def delete_where_def dead_old_def)
  define D where "D = rev (sort_key (\<lambda>j. (the (j_dead_at j), j_id j)) (filter (\<lambda>j. j_dead_at j \<noteq> None) (job_rows st1)))"
  have dist: "distinct (map j_id D)"
    using ok1 by (auto simp: D_def jobs_ok_def distinct_map inj_on_def)
  have ex: "dead_excess st1 = drop DEAD_MAX_JOBS (map j_id D)" by (simp add: dead_excess_def D_def)
  have setD: "set D = {j \<in> set (job_rows st1). j_dead_at j \<noteq> None}" by (auto simp: D_def)
  have kept: "j_id j \<in> set (take DEAD_MAX_JOBS (map j_id D))"
    if "j \<in> set (job_rows st')" "j_dead_at j \<noteq> None" for j
  proof -
    from that have "j \<in> set D" "j_id j \<notin> set (dead_excess st1)"
      by (auto simp: st' delete_where_def setD)
    then show ?thesis unfolding ex using set_append [of "take DEAD_MAX_JOBS (map j_id D)" "drop DEAD_MAX_JOBS (map j_id D)"]
      by (auto simp del: take_map drop_map simp: image_iff)
  qed
  have "distinct (map j_id (filter (\<lambda>j. j_dead_at j \<noteq> None) (job_rows st')))"
    using jobs_ok_delete [OF ok1, of ?old] by (simp add: st' jobs_ok_def distinct_map_filter)
  then have "length (filter (\<lambda>j. j_dead_at j \<noteq> None) (job_rows st')) =
      card (j_id ` set (filter (\<lambda>j. j_dead_at j \<noteq> None) (job_rows st')))"
    using distinct_card by fastforce
  also have "\<dots> \<le> card (set (take DEAD_MAX_JOBS (map j_id D)))"
    by (rule card_mono) (use kept in auto)
  also have "\<dots> \<le> DEAD_MAX_JOBS" using card_length [of "take DEAD_MAX_JOBS (map j_id D)"] by simp
  finally have small: "length (filter (\<lambda>j. j_dead_at j \<noteq> None) (job_rows st')) \<le> DEAD_MAX_JOBS" .
  have "length (job_rows st1) \<le> length (job_rows st)" "length (job_rows st') \<le> length (job_rows st1)"
    by (simp_all add: st1_def st' delete_where_def del: filter_filter)
  with live young small n show ?thesis by linarith
qed

theorem pruning_keeps_the_dead_set_small_witness:
  "filter (\<lambda>j. j_dead_at j = None) (job_rows (snd (prune_dead 5 probe_queued))) =
   filter (\<lambda>j. j_dead_at j = None) (job_rows probe_queued)"
  using pruning_keeps_the_dead_set_small [OF probe_store_ok, of 5 "fst (prune_dead 5 probe_queued)" "snd (prune_dead 5 probe_queued)"]
  by simp

end
