(* ===== verification/Errors.thy ===== *)
theory Errors
  imports Database
begin

text \<open>
  \<^verbatim>\<open>src/error.rs\<close>: what a handler answers when it fails, the status each error is sent
  with, and the cleaning of error text the queues keep (as a list of code points).
\<close>

datatype app_error =
    NotFound | NotFoundMsg string | Unauthorized | UnauthorizedMsg string
  | Forbidden | ForbiddenScope | ForbiddenMsg string | Unprocessable string | BadRequest string
  | Conflict | Gone string | ServiceUnavailable string
  | Database sqlx_error | Internal string | Unrescued string

fun error_response :: "app_error \<Rightarrow> nat \<times> string" where
  "error_response NotFound = (404, ''Record not found'')"
| "error_response (NotFoundMsg m) = (404, m)"
| "error_response Unauthorized = (401, ''Unauthorized'')"
| "error_response (UnauthorizedMsg m) = (401, m)"
| "error_response Forbidden = (403, ''This action is not allowed'')"
| "error_response ForbiddenScope = (403, ''This action is outside the authorized scopes'')"
| "error_response (ForbiddenMsg m) = (403, m)"
| "error_response (Unprocessable m) = (422, m)"
| "error_response (BadRequest m) = (400, m)"
| "error_response Conflict = (409, ''Duplicate record'')"
| "error_response (Gone m) = (410, m)"
| "error_response (ServiceUnavailable m) = (503, m)"
| "error_response (Database e) = (500, ''Database error'')"
| "error_response (Internal e) = (500, ''Internal server error'')"
| "error_response (Unrescued e) = (500, ''Internal Server Error'')"

definition MAX_ERROR_TEXT :: nat where
  "MAX_ERROR_TEXT = 2000"

text \<open>8230 is the ellipsis the code appends.\<close>

definition sanitize_error_text :: "nat list \<Rightarrow> nat list" where
  "sanitize_error_text error =
     (let cleaned = filter (\<lambda>c. c \<noteq> 0) error in
      if MAX_ERROR_TEXT < length cleaned then take MAX_ERROR_TEXT cleaned @ [8230] else cleaned)"

text \<open>The shape of a handler: an error, or a value, and the state it leaves.\<close>

definition ok_or :: "'e \<Rightarrow> 'a option \<Rightarrow> 'e + 'a" where
  "ok_or e x = (case x of None \<Rightarrow> Inl e | Some v \<Rightarrow> Inr v)"

definition guard :: "bool \<Rightarrow> 'e \<Rightarrow> 'e + unit" where
  "guard b e = (if b then Inr () else Inl e)"

lemma ok_or_Inr [simp]: "ok_or e x = Inr v \<longleftrightarrow> x = Some v"
  by (auto simp: ok_or_def split: option.split)

lemma guard_Inr [simp]: "guard b e = Inr u \<longleftrightarrow> b"
  by (simp add: guard_def)

end
