(* ===== verification/RustText.thy ===== *)
theory RustText
  imports EunhaPrelude
begin

text \<open>
  What the components use of Rust's strings: whitespace, trimming, lower case, splitting, and
  \<^verbatim>\<open>parse\<close> of integers and floats. A string is a list of characters; HOL's \<open>char\<close>
  stands for the first 256 code points, and whitespace and case are Unicode's on those.
\<close>

definition code :: "char \<Rightarrow> nat" where
  "code c = of_char c"

lemma code_inj [simp]: "code a = code b \<longleftrightarrow> a = b"
  by (simp add: code_def)

definition is_digit :: "char \<Rightarrow> bool" where
  "is_digit c \<longleftrightarrow> 48 \<le> code c \<and> code c \<le> 57"

definition is_hex_digit :: "char \<Rightarrow> bool" where
  "is_hex_digit c \<longleftrightarrow> is_digit c \<or> 65 \<le> code c \<and> code c \<le> 70 \<or> 97 \<le> code c \<and> code c \<le> 102"

text \<open>\<^verbatim>\<open>char::is_whitespace\<close>\<close>

definition is_space :: "char \<Rightarrow> bool" where
  "is_space c \<longleftrightarrow> 9 \<le> code c \<and> code c \<le> 13 \<or> code c \<in> {32, 133, 160}"

definition trim_end :: "string \<Rightarrow> string" where
  "trim_end s = rev (dropWhile is_space (rev s))"

definition trimmed :: "string \<Rightarrow> string" where
  "trimmed s = trim_end (dropWhile is_space s)"

text \<open>\<^verbatim>\<open>to_lowercase\<close> and \<^verbatim>\<open>to_ascii_lowercase\<close>\<close>

definition lower_char :: "char \<Rightarrow> char" where
  "lower_char c = (if 65 \<le> code c \<and> code c \<le> 90 \<or> 192 \<le> code c \<and> code c \<le> 222 \<and> code c \<noteq> 215
     then char_of (code c + 32) else c)"

definition to_lowercase :: "string \<Rightarrow> string" where
  "to_lowercase s = map lower_char s"

definition ascii_lower_char :: "char \<Rightarrow> char" where
  "ascii_lower_char c = (if 65 \<le> code c \<and> code c \<le> 90 then char_of (code c + 32) else c)"

definition to_ascii_lowercase :: "string \<Rightarrow> string" where
  "to_ascii_lowercase s = map ascii_lower_char s"

text \<open>\<^verbatim>\<open>split\<close> on the characters that satisfy a predicate; never empty.\<close>

fun split_by :: "(char \<Rightarrow> bool) \<Rightarrow> string \<Rightarrow> string list" where
  "split_by p [] = [[]]"
| "split_by p (c # s) = (if p c then [] # split_by p s else
     (case split_by p s of [] \<Rightarrow> [[c]] | w # ws \<Rightarrow> (c # w) # ws))"

text \<open>\<^verbatim>\<open>split_once\<close>: at the first character that satisfies the predicate.\<close>

fun split_once :: "(char \<Rightarrow> bool) \<Rightarrow> string \<Rightarrow> (string \<times> string) option" where
  "split_once p [] = None"
| "split_once p (c # s) = (if p c then Some ([], s) else map_option (\<lambda>(a, b). (c # a, b)) (split_once p s))"

fun join_with :: "string \<Rightarrow> string list \<Rightarrow> string" where
  "join_with sep [] = []"
| "join_with sep [w] = w"
| "join_with sep (w # ws) = w @ sep @ join_with sep ws"

lemma join_with_Cons: "ws \<noteq> [] \<Longrightarrow> join_with sep (w # ws) = w @ sep @ join_with sep ws"
  by (cases ws) simp_all

text \<open>\<^verbatim>\<open>parse\<close> of an unsigned integer: an optional plus sign, digits, and no overflow.\<close>

definition parse_digits :: "string \<Rightarrow> nat option" where
  "parse_digits s = (if s \<noteq> [] \<and> list_all is_digit s then Some (undec_nat s) else None)"

definition parse_unsigned :: "nat \<Rightarrow> string \<Rightarrow> nat option" where
  "parse_unsigned bits s =
     (case parse_digits (if s \<noteq> [] \<and> hd s = CHR ''+'' then drop 1 s else s) of
        Some n \<Rightarrow> if n < 2 ^ bits then Some n else None
      | None \<Rightarrow> None)"

definition parse_i64 :: "string \<Rightarrow> int option" where
  "parse_i64 s =
     (let neg = (s \<noteq> [] \<and> hd s = CHR ''-'');
          digits = (if s \<noteq> [] \<and> hd s \<in> {CHR ''-'', CHR ''+''} then drop 1 s else s)
      in case parse_digits digits of
           None \<Rightarrow> None
         | Some n \<Rightarrow> (let i = (if neg then - int n else int n) in
             if - (2 ^ 63) \<le> i \<and> i < 2 ^ 63 then Some i else None))"

text \<open>
  Whether \<^verbatim>\<open>parse::<f64>\<close> accepts a string: a sign, then digits with at most one point and
  at least one digit, then an exponent; or \<^verbatim>\<open>inf\<close>, \<^verbatim>\<open>infinity\<close>, \<^verbatim>\<open>nan\<close>.
\<close>

definition exponent_ok :: "string \<Rightarrow> bool" where
  "exponent_ok s = (case s of
      [] \<Rightarrow> True
    | c # r \<Rightarrow> c \<in> {CHR ''e'', CHR ''E''} \<and>
        (let d = (case r of x # r' \<Rightarrow> if x \<in> {CHR ''+'', CHR ''-''} then r' else r | [] \<Rightarrow> r)
         in d \<noteq> [] \<and> list_all is_digit d))"

definition mantissa_ok :: "string \<Rightarrow> bool" where
  "mantissa_ok s =
     (let whole = takeWhile is_digit s; r = dropWhile is_digit s in
      case r of
        x # r' \<Rightarrow> if x = CHR ''.'' then
            (whole \<noteq> [] \<or> takeWhile is_digit r' \<noteq> []) \<and> exponent_ok (dropWhile is_digit r')
          else whole \<noteq> [] \<and> exponent_ok r
      | [] \<Rightarrow> whole \<noteq> [])"

definition parses_f64 :: "string \<Rightarrow> bool" where
  "parses_f64 s =
     (let r = (if s \<noteq> [] \<and> hd s \<in> {CHR ''-'', CHR ''+''} then drop 1 s else s) in
      mantissa_ok r \<or> to_ascii_lowercase r \<in> {''inf'', ''infinity'', ''nan''})"

section \<open>Facts\<close>

lemma split_by_nonempty [simp]: "split_by p s \<noteq> []"
  by (induction s) (auto split: list.split)

lemma split_by_none: "list_all (\<lambda>c. \<not> p c) s \<Longrightarrow> split_by p s = [s]"
  by (induction s) auto

lemma split_by_sep: "list_all (\<lambda>c. \<not> p c) w \<Longrightarrow> p c \<Longrightarrow> split_by p (w @ c # s) = w # split_by p s"
  by (induction w) auto

lemma split_by_join:
  "ws \<noteq> [] \<Longrightarrow> p c \<Longrightarrow> \<forall>w \<in> set ws. list_all (\<lambda>c. \<not> p c) w \<Longrightarrow> split_by p (join_with [c] ws) = ws"
proof (induction ws)
  case (Cons w ws)
  then show ?case by (cases ws) (simp_all add: split_by_none split_by_sep)
qed simp

lemma is_digit_digit [simp]: "n < 10 \<Longrightarrow> is_digit (digit n)"
  by (simp add: is_digit_def code_def of_char_digit)

lemma dec_nat_digits: "list_all is_digit (dec_nat n)"
  using dec_nat_chars [of _ n] by (auto simp: list_all_iff is_digit_def code_def)

lemma parse_digits_dec [simp]: "parse_digits (dec_nat n) = Some n"
  by (simp add: parse_digits_def dec_nat_digits)

lemma dec_nat_hd: "hd (dec_nat n) \<noteq> CHR ''+''" "hd (dec_nat n) \<noteq> CHR ''-''"
  using dec_nat_digits [of n] by (cases "dec_nat n"; auto simp: is_digit_def code_def)+

lemma parse_i64_dec: "- (2 ^ 63) \<le> i \<Longrightarrow> i < 2 ^ 63 \<Longrightarrow> parse_i64 (dec i) = Some i"
  by (auto simp: parse_i64_def dec_def Let_def dec_nat_hd)

lemma parse_unsigned_dec: "n < 2 ^ bits \<Longrightarrow> parse_unsigned bits (dec_nat n) = Some n"
  by (simp add: parse_unsigned_def dec_nat_hd)

end
