(* ===== verification/Roles.thy ===== *)
theory Roles
  imports Errors RustText "HOL-Library.Word"
begin

unbundle bit_operations_syntax

text \<open>
  \<^verbatim>\<open>src/moderation/role.rs\<close>: the permission flags, a role, and the role a policy judges an
  account by, over the tables \<^verbatim>\<open>user_roles\<close>, \<^verbatim>\<open>users\<close> and
  \<^verbatim>\<open>accounts\<close>. Permissions are 64-bit words. Which queries fail is \<open>rd_down\<close>.
\<close>

section \<open>Flags\<close>

type_synonym permissions = "64 word"

definition ADMINISTRATOR :: permissions where "ADMINISTRATOR = push_bit 0 1"
definition VIEW_DEVOPS :: permissions where "VIEW_DEVOPS = push_bit 1 1"
definition VIEW_AUDIT_LOG :: permissions where "VIEW_AUDIT_LOG = push_bit 2 1"
definition VIEW_DASHBOARD :: permissions where "VIEW_DASHBOARD = push_bit 3 1"
definition MANAGE_REPORTS :: permissions where "MANAGE_REPORTS = push_bit 4 1"
definition MANAGE_FEDERATION :: permissions where "MANAGE_FEDERATION = push_bit 5 1"
definition MANAGE_SETTINGS :: permissions where "MANAGE_SETTINGS = push_bit 6 1"
definition MANAGE_BLOCKS :: permissions where "MANAGE_BLOCKS = push_bit 7 1"
definition MANAGE_TAXONOMIES :: permissions where "MANAGE_TAXONOMIES = push_bit 8 1"
definition MANAGE_APPEALS :: permissions where "MANAGE_APPEALS = push_bit 9 1"
definition MANAGE_USERS :: permissions where "MANAGE_USERS = push_bit 10 1"
definition MANAGE_INVITES :: permissions where "MANAGE_INVITES = push_bit 11 1"
definition MANAGE_RULES :: permissions where "MANAGE_RULES = push_bit 12 1"
definition MANAGE_ANNOUNCEMENTS :: permissions where "MANAGE_ANNOUNCEMENTS = push_bit 13 1"
definition MANAGE_CUSTOM_EMOJIS :: permissions where "MANAGE_CUSTOM_EMOJIS = push_bit 14 1"
definition MANAGE_WEBHOOKS :: permissions where "MANAGE_WEBHOOKS = push_bit 15 1"
definition INVITE_USERS :: permissions where "INVITE_USERS = push_bit 16 1"
definition MANAGE_ROLES :: permissions where "MANAGE_ROLES = push_bit 17 1"
definition MANAGE_USER_ACCESS :: permissions where "MANAGE_USER_ACCESS = push_bit 18 1"
definition DELETE_USER_DATA :: permissions where "DELETE_USER_DATA = push_bit 19 1"
definition VIEW_FEEDS :: permissions where "VIEW_FEEDS = push_bit 20 1"
definition INVITE_BYPASS_APPROVAL :: permissions where "INVITE_BYPASS_APPROVAL = push_bit 21 1"
definition MANAGE_EMAIL_SUBSCRIPTIONS :: permissions where "MANAGE_EMAIL_SUBSCRIPTIONS = push_bit 22 1"

definition flag_ALL :: permissions where "flag_ALL = push_bit 23 1 - 1"
definition flag_DEFAULT :: permissions where "flag_DEFAULT = INVITE_USERS"
definition flag_SAFE :: permissions where "flag_SAFE = INVITE_USERS OR INVITE_BYPASS_APPROVAL"

definition flag_NAMES :: "(string \<times> permissions) list" where
  "flag_NAMES = [
     (''administrator'', ADMINISTRATOR), (''view_devops'', VIEW_DEVOPS),
     (''view_audit_log'', VIEW_AUDIT_LOG), (''view_dashboard'', VIEW_DASHBOARD),
     (''manage_reports'', MANAGE_REPORTS), (''manage_federation'', MANAGE_FEDERATION),
     (''manage_settings'', MANAGE_SETTINGS), (''manage_blocks'', MANAGE_BLOCKS),
     (''manage_taxonomies'', MANAGE_TAXONOMIES), (''manage_appeals'', MANAGE_APPEALS),
     (''manage_users'', MANAGE_USERS), (''manage_invites'', MANAGE_INVITES),
     (''manage_rules'', MANAGE_RULES), (''manage_announcements'', MANAGE_ANNOUNCEMENTS),
     (''manage_custom_emojis'', MANAGE_CUSTOM_EMOJIS), (''manage_webhooks'', MANAGE_WEBHOOKS),
     (''invite_users'', INVITE_USERS), (''manage_roles'', MANAGE_ROLES),
     (''manage_user_access'', MANAGE_USER_ACCESS), (''delete_user_data'', DELETE_USER_DATA),
     (''view_feeds'', VIEW_FEEDS), (''invite_bypass_approval'', INVITE_BYPASS_APPROVAL),
     (''manage_email_subscriptions'', MANAGE_EMAIL_SUBSCRIPTIONS)]"

definition as_keys :: "permissions \<Rightarrow> string list" where
  "as_keys permissions = map fst (filter (\<lambda>(_, bit). permissions AND bit = bit) flag_NAMES)"

definition from_keys :: "string list \<Rightarrow> permissions" where
  "from_keys keys = fold (\<lambda>(_, bit) bits. bits OR bit)
     (List.map_filter (\<lambda>key. find (\<lambda>(name, _). name = key) flag_NAMES) keys) 0"

definition flag_MODERATION :: "permissions list" where
  "flag_MODERATION = [VIEW_DASHBOARD, VIEW_AUDIT_LOG, MANAGE_USERS, MANAGE_USER_ACCESS, DELETE_USER_DATA,
     MANAGE_REPORTS, MANAGE_APPEALS, MANAGE_FEDERATION, MANAGE_BLOCKS, MANAGE_TAXONOMIES, MANAGE_INVITES,
     VIEW_FEEDS]"

section \<open>A role\<close>

definition EVERYONE_ROLE_ID :: int where "EVERYONE_ROLE_ID = - 99"
definition NOBODY_POSITION :: int where "NOBODY_POSITION = - 1"

record role =
  r_id :: "int option"
  r_name :: string
  r_color :: string
  r_position :: int
  r_permissions :: permissions
  r_highlighted :: bool
  r_collection_limit :: int
  r_computed :: permissions

definition nobody :: role where
  "nobody = \<lparr>r_id = None, r_name = [], r_color = [], r_position = NOBODY_POSITION, r_permissions = 0,
     r_highlighted = False, r_collection_limit = 10, r_computed = 0\<rparr>"

definition is_everyone :: "role \<Rightarrow> bool" where
  "is_everyone self \<longleftrightarrow> r_id self = Some EVERYONE_ROLE_ID"

definition can :: "role \<Rightarrow> permissions list \<Rightarrow> bool" where
  "can self any_of \<longleftrightarrow> list_ex (\<lambda>flag. r_computed self AND flag = flag) any_of"

definition overrides :: "role \<Rightarrow> role option \<Rightarrow> bool" where
  "overrides self other = (case other of None \<Rightarrow> True | Some other \<Rightarrow> r_position self > r_position other)"

definition bypass_block :: "role \<Rightarrow> role option \<Rightarrow> bool" where
  "bypass_block self other \<longleftrightarrow> overrides self other \<and> r_highlighted self \<and> can self flag_MODERATION"

section \<open>The tables\<close>

record role_row =
  rr_id :: int
  rr_name :: string
  rr_color :: string
  rr_position :: int
  rr_permissions :: permissions
  rr_highlighted :: bool
  rr_collection_limit :: int
  rr_require_2fa :: bool

record role_user =
  ru_id :: int
  ru_account :: int
  ru_role :: "int option"
  ru_disabled :: bool

datatype role_query =
    QEveryone | QRoleOf | QHasUser | QDisabled | QFindRole | QCounts | QBegin | QWrite | QNullify | QLog
  | QCommit | QReload | QAccount | QUser | QPosition | QRender

record log_row =
  lg_account :: int
  lg_action :: string
  lg_kind :: string
  lg_target :: int

record role_db =
  rd_roles :: "role_row list"
  rd_users :: "role_user list"
  rd_accounts :: "(int \<times> string option) list"
  rd_log :: "log_row list"
  rd_seq :: int
  rd_down :: "role_query \<Rightarrow> bool"

definition role_query :: "role_db \<Rightarrow> role_query \<Rightarrow> 'a \<Rightarrow> app_error + 'a" where
  "role_query db q v = (if rd_down db q then Inl (Database SqlxError) else Inr v)"

definition everyone_permissions :: "role_db \<Rightarrow> app_error + permissions" where
  "everyone_permissions db = role_query db QEveryone
     (case find (\<lambda>r. rr_id r = EVERYONE_ROLE_ID) (rd_roles db) of
        None \<Rightarrow> flag_DEFAULT | Some r \<Rightarrow> rr_permissions r)"

text \<open>\<^verbatim>\<open>computed_permissions\<close>\<close>

definition role_from_row :: "role_db \<Rightarrow> role_row \<Rightarrow> app_error + role" where
  "role_from_row db row =
     (let everyone = (rr_id row = EVERYONE_ROLE_ID) in
      res_bind (if everyone then Inr (rr_permissions row)
          else if rr_permissions row AND ADMINISTRATOR \<noteq> 0 then Inr flag_ALL
          else res_bind (everyone_permissions db) (\<lambda>e. Inr (rr_permissions row OR e)))
        (\<lambda>computed. Inr \<lparr>r_id = Some (rr_id row), r_name = rr_name row, r_color = rr_color row,
           r_position = (if everyone then NOBODY_POSITION else rr_position row),
           r_permissions = rr_permissions row, r_highlighted = rr_highlighted row,
           r_collection_limit = rr_collection_limit row, r_computed = computed\<rparr>))"

text \<open>\<^verbatim>\<open>fetch_optional\<close> of the join: the first row it yields.\<close>

definition joined_roles :: "role_db \<Rightarrow> int \<Rightarrow> role_row list" where
  "joined_roles db account_id = [r. u \<leftarrow> rd_users db, ru_account u = account_id, r \<leftarrow> rd_roles db,
     rr_id r = (case ru_role u of None \<Rightarrow> EVERYONE_ROLE_ID | Some i \<Rightarrow> i)]"

definition first_row :: "'a list \<Rightarrow> 'a option" where
  "first_row xs = (case xs of [] \<Rightarrow> None | x # _ \<Rightarrow> Some x)"

definition of_account :: "role_db \<Rightarrow> int \<Rightarrow> app_error + role option" where
  "of_account db account_id =
     res_bind (role_query db QRoleOf (first_row (joined_roles db account_id))) (\<lambda>row. case row of
        Some row \<Rightarrow> res_bind (role_from_row db row) (\<lambda>r. Inr (Some r))
      | None \<Rightarrow> res_bind (role_query db QHasUser (list_ex (\<lambda>u. ru_account u = account_id) (rd_users db)))
          (\<lambda>has_user. Inr (if has_user then
             Some (nobody\<lparr>r_id := Some EVERYONE_ROLE_ID, r_computed := flag_DEFAULT, r_permissions := flag_DEFAULT\<rparr>)
           else None)))"

definition acting :: "role_db \<Rightarrow> int \<Rightarrow> app_error + role" where
  "acting db account_id =
     res_bind (role_query db QDisabled (map_option ru_disabled (find (\<lambda>u. ru_account u = account_id) (rd_users db))))
       (\<lambda>disabled. if disabled = Some False
          then res_bind (of_account db account_id) (\<lambda>r. Inr (case r of None \<Rightarrow> nobody | Some r \<Rightarrow> r))
          else Inr nobody)"

definition authorize :: "bool \<Rightarrow> app_error + unit" where
  "authorize allowed = (if allowed then Inr () else Inl Forbidden)"

lemma role_query_Inr: "role_query db q v = Inr w \<longleftrightarrow> \<not> rd_down db q \<and> w = v"
  by (auto simp: role_query_def)

lemma authorize_Inr: "authorize b = Inr u \<longleftrightarrow> b"
  by (simp add: authorize_def)

end
