(* ===== verification/RolesAdmin.thy ===== *)
theory RolesAdmin
  imports Roles
begin

text \<open>
  Creating, editing and deleting roles (\<^verbatim>\<open>src/api/mastodon/admin/roles.rs\<close>) and giving a
  user another (\<^verbatim>\<open>change_user_role\<close> of \<^verbatim>\<open>users.rs\<close>), with the scope check of
  \<^verbatim>\<open>middleware.rs\<close>. A handler takes the tables and gives its answer and the tables it
  leaves; a transaction any of whose statements fails leaves them as they were, but for the
  sequence of ids. The timestamps of the rows and the rendering of the account that
  \<^verbatim>\<open>change_user_role\<close> answers with are left out.
\<close>

section \<open>Scopes\<close>

record auth =
  au_account :: int
  au_scopes :: "string list"

definition rsplit_once :: "char \<Rightarrow> string \<Rightarrow> (string \<times> string) option" where
  "rsplit_once c s = map_option (\<lambda>(a, b). (rev b, rev a)) (split_once (\<lambda>x. x = c) (rev s))"

definition has_scope :: "auth \<Rightarrow> string \<Rightarrow> bool" where
  "has_scope self required \<longleftrightarrow>
     required \<in> set (au_scopes self) \<or>
     (case rsplit_once (CHR '':'') required of None \<Rightarrow> False | Some (parent, _) \<Rightarrow> parent \<in> set (au_scopes self)) \<or>
     required \<in> {''write:follows'', ''write:blocks'', ''write:mutes'', ''read:follows'', ''read:blocks'', ''read:mutes''} \<and>
       ''follow'' \<in> set (au_scopes self) \<or>
     required = ''read:accounts'' \<and> ''profile'' \<in> set (au_scopes self)"

definition require_scope :: "auth \<Rightarrow> string \<Rightarrow> app_error + unit" where
  "require_scope self required = (if has_scope self required then Inr () else Inl ForbiddenScope)"

section \<open>What the acting role may do with a role\<close>

definition row_role :: "role_row \<Rightarrow> permissions \<Rightarrow> role" where
  "row_role self everyone_perms =
     (let everyone = (rr_id self = EVERYONE_ROLE_ID) in
      \<lparr>r_id = Some (rr_id self), r_name = rr_name self, r_color = rr_color self,
       r_position = (if everyone then NOBODY_POSITION else rr_position self),
       r_permissions = rr_permissions self, r_highlighted = rr_highlighted self,
       r_collection_limit = rr_collection_limit self,
       r_computed = (if everyone then rr_permissions self
         else if rr_permissions self AND ADMINISTRATOR \<noteq> 0 then flag_ALL
         else rr_permissions self OR everyone_perms)\<rparr>)"

definition can_update :: "role \<Rightarrow> role \<Rightarrow> bool" where
  "can_update act target \<longleftrightarrow> can act [MANAGE_ROLES] \<and> (overrides act (Some target) \<or> r_id act = r_id target)"

definition can_destroy :: "role \<Rightarrow> role \<Rightarrow> bool" where
  "can_destroy act target \<longleftrightarrow> \<not> is_everyone target \<and> can act [MANAGE_ROLES] \<and> overrides act (Some target) \<and>
     r_id act \<noteq> r_id target"

record role_json =
  re_id :: string
  re_name :: string
  re_permissions :: string
  re_color :: string
  re_highlighted :: bool
  re_collection_limit :: int

definition entity_of :: "role \<Rightarrow> role_json" where
  "entity_of role = \<lparr>re_id = dec (case r_id role of None \<Rightarrow> 0 | Some i \<Rightarrow> i), re_name = r_name role,
     re_permissions = dec (sint (r_computed role)), re_color = r_color role,
     re_highlighted = r_highlighted role, re_collection_limit = r_collection_limit role\<rparr>"

record admin_role =
  ad_role :: role_json
  ad_position :: int
  ad_require_2fa :: bool
  ad_permissions_as_keys :: "string list"
  ad_everyone :: bool
  ad_users_count :: nat
  ad_can_update :: bool
  ad_can_destroy :: bool

definition users_count :: "role_db \<Rightarrow> int \<Rightarrow> nat" where
  "users_count db i = length (filter (\<lambda>u. (case ru_role u of None \<Rightarrow> EVERYONE_ROLE_ID | Some r \<Rightarrow> r) = i) (rd_users db))"

definition entities :: "role_db \<Rightarrow> role \<Rightarrow> role_row list \<Rightarrow> app_error + admin_role list" where
  "entities db act rows =
     res_bind (everyone_permissions db) (\<lambda>everyone.
     res_bind (role_query db QCounts ()) (\<lambda>_.
     Inr (map (\<lambda>row. let role = row_role row everyone in
       \<lparr>ad_role = entity_of role, ad_position = r_position role, ad_require_2fa = rr_require_2fa row,
        ad_permissions_as_keys = as_keys (rr_permissions row), ad_everyone = is_everyone role,
        ad_users_count = users_count db (rr_id row), ad_can_update = can_update act role,
        ad_can_destroy = can_destroy act role\<rparr>) rows)))"

definition assignable :: "role_db \<Rightarrow> role \<Rightarrow> app_error + admin_role list" where
  "assignable db act = res_bind (role_query db QFindRole
     (sort_key rr_position (filter (\<lambda>r. rr_id r \<noteq> EVERYONE_ROLE_ID) (rd_roles db)))) (entities db act)"

definition find_role :: "role_db \<Rightarrow> role_query \<Rightarrow> int \<Rightarrow> app_error + role_row" where
  "find_role db q i = res_bind (role_query db q (find (\<lambda>r. rr_id r = i) (rd_roles db))) (ok_or NotFound)"

definition role_entity :: "role_db \<Rightarrow> role \<Rightarrow> int \<Rightarrow> app_error + admin_role" where
  "role_entity db act i =
     res_bind (find_role db QReload i) (\<lambda>row. res_bind (entities db act [row]) (\<lambda>es. Inr (hd es)))"

definition get_admin_role :: "role_db \<Rightarrow> auth \<Rightarrow> int \<Rightarrow> app_error + admin_role" where
  "get_admin_role db auth i =
     res_bind (require_scope auth ''admin:read'') (\<lambda>_.
     res_bind (acting db (au_account auth)) (\<lambda>act.
     res_bind (role_entity db act i) (\<lambda>found.
     res_bind (authorize (ad_can_update found)) (\<lambda>_. Inr found))))"

section \<open>Validation\<close>

text \<open>A JSON value of a form; \<open>VInt\<close> is a number serde keeps as an integer.\<close>

datatype form_value = VNull | VInt int | VFloat | VString string | VOther

definition as_i64 :: "int \<Rightarrow> int option" where
  "as_i64 n = (if - (2 ^ 63) \<le> n \<and> n < 2 ^ 63 then Some n else None)"

fun integer :: "form_value \<Rightarrow> string + int" where
  "integer (VInt n) = ok_or ''must be an integer'' (as_i64 n)"
| "integer VFloat = Inl ''must be an integer''"
| "integer (VString s) =
     (case parse_i64 (trimmed s) of
        Some n \<Rightarrow> Inr n
      | None \<Rightarrow> if parses_f64 (trimmed s) then Inl ''must be an integer'' else Inl ''is not a number'')"
| "integer _ = Inl ''is not a number''"

record role_form =
  f_name :: "string option"
  f_color :: "string option"
  f_highlighted :: "bool option"
  f_position :: "form_value option"
  f_require_2fa :: "bool option"
  f_collection_limit :: "form_value option"
  f_permissions :: "string list option"

record draft =
  d_name :: string
  d_color :: string
  d_highlighted :: bool
  d_position :: int
  d_require_2fa :: bool
  d_collection_limit :: int
  d_permissions :: permissions

definition POSITION_LIMIT :: int where "POSITION_LIMIT = 2 ^ 31 - 1"

text \<open>The regular expression of a CSS color.\<close>

definition css_color :: "string \<Rightarrow> bool" where
  "css_color s = (let h = (if s \<noteq> [] \<and> hd s = CHR ''#'' then drop 1 s else s) in
     length h \<in> {3, 6} \<and> list_all is_hex_digit h)"

definition error_if :: "bool \<Rightarrow> string \<Rightarrow> string list" where
  "error_if b message = (if b then [message] else [])"

text \<open>An attribute as the form gives it, or as it stood; with the error of a value that is no integer.\<close>

definition int_attribute :: "string \<Rightarrow> int \<Rightarrow> form_value option \<Rightarrow> int \<times> string list" where
  "int_attribute label old value = (case value of
      None \<Rightarrow> (old, [])
    | Some v \<Rightarrow> (case integer v of Inr p \<Rightarrow> (p, []) | Inl message \<Rightarrow> (old, [label @ '' '' @ message])))"

text \<open>\<^verbatim>\<open>validate_own_role_edition\<close>\<close>

definition own_role_errors :: "role_row option \<Rightarrow> role \<Rightarrow> permissions \<Rightarrow> int \<Rightarrow> bool \<Rightarrow> bool \<Rightarrow> string list" where
  "own_role_errors existing actor permissions position require_2fa everyone = (case existing of
      None \<Rightarrow> []
    | Some ex \<Rightarrow> if r_id actor = Some (rr_id ex) then
        error_if (permissions \<noteq> rr_permissions ex) ''Permissions as keys cannot be changed with your current role'' @
        error_if (position \<noteq> rr_position ex \<and> \<not> everyone) ''Position cannot be changed with your current role'' @
        error_if (require_2fa \<noteq> rr_require_2fa ex \<and> permissions AND ADMINISTRATOR = 0)
          ''Require 2fa cannot be changed with your current role''
      else [])"

text \<open>\<^verbatim>\<open>as i32\<close>\<close>

definition to_i32 :: "int \<Rightarrow> int" where
  "to_i32 n = sint (word_of_int n :: 32 word)"

definition validate :: "role_form \<Rightarrow> role_row option \<Rightarrow> role \<Rightarrow> string list + draft" where
  "validate form existing actor =
     (let everyone = (case existing of None \<Rightarrow> False | Some r \<Rightarrow> rr_id r = EVERYONE_ROLE_ID);
          old = (\<lambda>(f :: role_row \<Rightarrow> string). case existing of None \<Rightarrow> [] | Some r \<Rightarrow> f r);
          name = (case f_name form of Some n \<Rightarrow> n | None \<Rightarrow> old rr_name);
          color = (case f_color form of Some c \<Rightarrow> c | None \<Rightarrow> old rr_color);
          (given_position, e1) = int_attribute ''Position''
             (case existing of None \<Rightarrow> 0 | Some r \<Rightarrow> rr_position r) (f_position form);
          (collection_limit, e2) = int_attribute ''Collection limit''
             (case existing of None \<Rightarrow> 10 | Some r \<Rightarrow> rr_collection_limit r) (f_collection_limit form);
          permissions = (case f_permissions form of
             Some keys \<Rightarrow> from_keys keys
           | None \<Rightarrow> (case existing of None \<Rightarrow> 0 | Some r \<Rightarrow> rr_permissions r));
          require_2fa = (case f_require_2fa form of
             Some b \<Rightarrow> b | None \<Rightarrow> (case existing of None \<Rightarrow> False | Some r \<Rightarrow> rr_require_2fa r));
          position = (if everyone then NOBODY_POSITION else given_position);
          errors = e1 @ e2 @
            error_if (\<not> everyone \<and> trimmed name = []) (''Name can'' @ CHR 0x27 # ''t be blank'') @
            error_if (color \<noteq> [] \<and> \<not> css_color color) ''Color is invalid'' @
            error_if (\<not> (- POSITION_LIMIT \<le> position \<and> position \<le> POSITION_LIMIT))
              (''Position must be in -'' @ dec POSITION_LIMIT @ ''..'' @ dec POSITION_LIMIT) @
            error_if (collection_limit < 0) ''Collection limit must be greater than or equal to 0'' @
            error_if (r_computed actor AND permissions \<noteq> permissions)
              ''Permissions as keys cannot include permissions your current role does not possess'' @
            error_if (r_position actor < position) ''Position cannot be higher than your current role'' @
            error_if (everyone \<and> flag_SAFE AND permissions \<noteq> permissions)
              ''Permissions as keys include permissions that are not safe for the base role'' @
            own_role_errors existing actor permissions position require_2fa everyone
      in if errors \<noteq> [] then Inl errors
         else Inr \<lparr>d_name = name, d_color = color,
           d_highlighted = (case f_highlighted form of
             Some b \<Rightarrow> b | None \<Rightarrow> (case existing of None \<Rightarrow> False | Some r \<Rightarrow> rr_highlighted r)),
           d_position = to_i32 position, d_require_2fa = require_2fa,
           d_collection_limit = to_i32 collection_limit, d_permissions = permissions\<rparr>)"

definition refuse :: "string list \<Rightarrow> app_error" where
  "refuse errors = Unprocessable (''Validation failed: '' @ join_with '', '' errors)"

definition map_err :: "('e \<Rightarrow> 'f) \<Rightarrow> 'e + 'a \<Rightarrow> 'f + 'a" where
  "map_err f r = (case r of Inl e \<Rightarrow> Inl (f e) | Inr v \<Rightarrow> Inr v)"

definition actor_role :: "role_db \<Rightarrow> int \<Rightarrow> app_error + role" where
  "actor_role db account_id =
     res_bind (of_account db account_id) (\<lambda>r. Inr (case r of None \<Rightarrow> nobody | Some r \<Rightarrow> r))"

section \<open>The handlers\<close>

text \<open>Statements of a transaction, and what it writes if all of them and the commit succeed.\<close>

definition in_tx :: "role_db \<Rightarrow> role_query list \<Rightarrow> role_db \<Rightarrow> app_error + role_db" where
  "in_tx db qs db' = (if list_ex (rd_down db) (QBegin # qs @ [QLog, QCommit]) then Inl (Database SqlxError) else Inr db')"

definition logged :: "auth \<Rightarrow> string \<Rightarrow> string \<Rightarrow> int \<Rightarrow> role_db \<Rightarrow> role_db" where
  "logged auth action kind target db = db\<lparr>rd_log := rd_log db @
     [\<lparr>lg_account = au_account auth, lg_action = action, lg_kind = kind, lg_target = target\<rparr>]\<rparr>"

definition row_of :: "int \<Rightarrow> draft \<Rightarrow> role_row" where
  "row_of i draft = \<lparr>rr_id = i, rr_name = d_name draft, rr_color = d_color draft, rr_position = d_position draft,
     rr_permissions = d_permissions draft, rr_highlighted = d_highlighted draft,
     rr_collection_limit = d_collection_limit draft, rr_require_2fa = d_require_2fa draft\<rparr>"

definition create_draft :: "role_db \<Rightarrow> auth \<Rightarrow> role_form \<Rightarrow> app_error + role \<times> draft" where
  "create_draft db auth form =
     res_bind (require_scope auth ''admin:write'') (\<lambda>_.
     res_bind (acting db (au_account auth)) (\<lambda>act.
     res_bind (authorize (can act [MANAGE_ROLES])) (\<lambda>_.
     res_bind (actor_role db (au_account auth)) (\<lambda>actor.
     res_bind (map_err refuse (validate form None actor)) (\<lambda>draft. Inr (act, draft))))))"

definition create_admin_role :: "role_db \<Rightarrow> auth \<Rightarrow> role_form \<Rightarrow> (app_error + admin_role) \<times> role_db" where
  "create_admin_role db auth form = (case create_draft db auth form of
      Inl e \<Rightarrow> (Inl e, db)
    | Inr (act, draft) \<Rightarrow>
        (let i = rd_seq db;
             db1 = (if rd_down db QBegin \<or> rd_down db QWrite then db else db\<lparr>rd_seq := i + 1\<rparr>)
         in case in_tx db [QWrite] (logged auth ''create'' ''UserRole'' i
               (db1\<lparr>rd_roles := rd_roles db1 @ [row_of i draft]\<rparr>)) of
              Inl e \<Rightarrow> (Inl e, db1)
            | Inr db2 \<Rightarrow> (role_entity db2 act i, db2)))"

definition update_draft :: "role_db \<Rightarrow> auth \<Rightarrow> int \<Rightarrow> role_form \<Rightarrow> app_error + role \<times> draft" where
  "update_draft db auth i form =
     res_bind (require_scope auth ''admin:write'') (\<lambda>_.
     res_bind (find_role db QFindRole i) (\<lambda>existing.
     res_bind (acting db (au_account auth)) (\<lambda>act.
     res_bind (everyone_permissions db) (\<lambda>everyone.
     res_bind (authorize (can_update act (row_role existing everyone))) (\<lambda>_.
     res_bind (actor_role db (au_account auth)) (\<lambda>actor.
     res_bind (map_err refuse (validate form (Some existing) actor)) (\<lambda>draft. Inr (act, draft))))))))"

definition update_admin_role :: "role_db \<Rightarrow> auth \<Rightarrow> int \<Rightarrow> role_form \<Rightarrow> (app_error + admin_role) \<times> role_db" where
  "update_admin_role db auth i form = (case update_draft db auth i form of
      Inl e \<Rightarrow> (Inl e, db)
    | Inr (act, draft) \<Rightarrow>
        (case in_tx db [QWrite] (logged auth ''update'' ''UserRole'' i
            (db\<lparr>rd_roles := map (\<lambda>r. if rr_id r = i then row_of i draft else r) (rd_roles db)\<rparr>)) of
           Inl e \<Rightarrow> (Inl e, db)
         | Inr db2 \<Rightarrow> (role_entity db2 act i, db2)))"

definition delete_check :: "role_db \<Rightarrow> auth \<Rightarrow> int \<Rightarrow> app_error + unit" where
  "delete_check db auth i =
     res_bind (require_scope auth ''admin:write'') (\<lambda>_.
     res_bind (find_role db QFindRole i) (\<lambda>existing.
     res_bind (acting db (au_account auth)) (\<lambda>act.
     res_bind (everyone_permissions db) (\<lambda>everyone.
     authorize (can_destroy act (row_role existing everyone))))))"

definition delete_admin_role :: "role_db \<Rightarrow> auth \<Rightarrow> int \<Rightarrow> (app_error + unit) \<times> role_db" where
  "delete_admin_role db auth i = (case delete_check db auth i of
      Inl e \<Rightarrow> (Inl e, db)
    | Inr _ \<Rightarrow>
        (case in_tx db [QNullify, QWrite] (logged auth ''destroy'' ''UserRole'' i
            (db\<lparr>rd_users := map (\<lambda>u. if ru_role u = Some i then u\<lparr>ru_role := None\<rparr> else u) (rd_users db),
                rd_roles := filter (\<lambda>r. rr_id r \<noteq> i) (rd_roles db)\<rparr>)) of
           Inl e \<Rightarrow> (Inl e, db)
         | Inr db2 \<Rightarrow> (Inr (), db2)))"

section \<open>Giving a user a role\<close>

record subject =
  s_user :: role_user
  s_acting :: role
  s_role :: "role option"

definition subject_of :: "role_db \<Rightarrow> auth \<Rightarrow> int \<Rightarrow> app_error + subject" where
  "subject_of db auth account_id =
     res_bind (role_query db QAccount (find (\<lambda>a. fst a = account_id) (rd_accounts db))) (\<lambda>account.
     res_bind (ok_or NotFound account) (\<lambda>account.
     res_bind (role_query db QUser (find (\<lambda>u. ru_account u = account_id) (rd_users db))) (\<lambda>user.
     res_bind (ok_or Forbidden (if snd account = None then user else None)) (\<lambda>user.
     res_bind (acting db (au_account auth)) (\<lambda>act.
     res_bind (of_account db account_id) (\<lambda>r.
     Inr \<lparr>s_user = user, s_acting = act, s_role = r\<rparr>))))))"

definition must_exist :: app_error where
  "must_exist = Unprocessable ''Validation failed: Role must exist''"

definition role_id_of :: "form_value option \<Rightarrow> app_error + int option" where
  "role_id_of v = (case v of
      Some (VString s) \<Rightarrow> if trimmed s = [] then Inr None
        else (case parse_i64 (trimmed s) of None \<Rightarrow> Inl must_exist | Some i \<Rightarrow> Inr (Some i))
    | Some (VInt n) \<Rightarrow> Inr (as_i64 n)
    | _ \<Rightarrow> Inr None)"

definition change_check :: "role_db \<Rightarrow> auth \<Rightarrow> int \<Rightarrow> form_value option \<Rightarrow> app_error + role_user \<times> int option" where
  "change_check db auth account_id form =
     res_bind (require_scope auth ''admin:write:accounts'') (\<lambda>_.
     res_bind (subject_of db auth account_id) (\<lambda>s.
     res_bind (authorize (can (s_acting s) [MANAGE_ROLES] \<and> overrides (s_acting s) (s_role s))) (\<lambda>_.
     res_bind (role_id_of form) (\<lambda>role_id.
     (case (if role_id = Some EVERYONE_ROLE_ID then None else role_id) of
        None \<Rightarrow> Inr (s_user s, None)
      | Some i \<Rightarrow>
          res_bind (role_query db QPosition (map_option rr_position (find (\<lambda>r. rr_id r = i) (rd_roles db)))) (\<lambda>p.
          res_bind (ok_or must_exist p) (\<lambda>position.
          if position > r_position (s_acting s)
          then Inl (Unprocessable ''Validation failed: Role cannot be higher than your current role'')
          else Inr (s_user s, Some i))))))))"

definition change_user_role :: "role_db \<Rightarrow> auth \<Rightarrow> int \<Rightarrow> form_value option \<Rightarrow> (app_error + unit) \<times> role_db" where
  "change_user_role db auth account_id form = (case change_check db auth account_id form of
      Inl e \<Rightarrow> (Inl e, db)
    | Inr (user, role_id) \<Rightarrow>
        (case in_tx db [QWrite] (logged auth ''change_role'' ''User'' (ru_id user)
            (db\<lparr>rd_users := map (\<lambda>u. if ru_id u = ru_id user then u\<lparr>ru_role := role_id\<rparr> else u) (rd_users db)\<rparr>)) of
           Inl e \<Rightarrow> (Inl e, db)
         | Inr db2 \<Rightarrow> (role_query db2 QRender (), db2)))"

end
