(* ===== verification/RolesFacts.thy ===== *)
theory RolesFacts
  imports RolesAdmin
begin

text \<open>
  What the role handlers rest on: the role an account holds as a plain function of the tables,
  which the queries compute; the invariant of the tables; and what each handler can write.
\<close>

section \<open>Permissions as sets\<close>

definition within :: "permissions \<Rightarrow> permissions \<Rightarrow> bool" where
  "within p q \<longleftrightarrow> q AND p = p"

lemma within_bit: "within p q \<longleftrightarrow> (\<forall>n. bit p n \<longrightarrow> bit q n)"
  unfolding within_def bit_eq_iff bit_and_iff using bit_imp_le_length by fastforce

lemma within_refl [simp]: "within p p"
  by (simp add: within_def)

lemma within_trans: "within p q \<Longrightarrow> within q r \<Longrightarrow> within p r"
  by (simp add: within_bit)

lemma within_or: "within (p OR q) r \<longleftrightarrow> within p r \<and> within q r"
  by (auto simp: within_bit bit_or_iff)

lemma within_orI: "within p (p OR q)" "within q (p OR q)"
  by (simp_all add: within_bit bit_or_iff)

section \<open>The role an account holds\<close>

definition everyone_perms :: "role_db \<Rightarrow> permissions" where
  "everyone_perms db = (case find (\<lambda>r. rr_id r = EVERYONE_ROLE_ID) (rd_roles db) of
     None \<Rightarrow> flag_DEFAULT | Some r \<Rightarrow> rr_permissions r)"

definition role_id :: "role_user \<Rightarrow> int" where
  "role_id u = (case ru_role u of None \<Rightarrow> EVERYONE_ROLE_ID | Some i \<Rightarrow> i)"

definition user_of :: "role_db \<Rightarrow> int \<Rightarrow> role_user option" where
  "user_of db a = find (\<lambda>u. ru_account u = a) (rd_users db)"

definition row_at :: "role_db \<Rightarrow> int \<Rightarrow> role_row option" where
  "row_at db i = find (\<lambda>r. rr_id r = i) (rd_roles db)"

definition default_everyone :: role where
  "default_everyone = nobody\<lparr>r_id := Some EVERYONE_ROLE_ID, r_computed := flag_DEFAULT, r_permissions := flag_DEFAULT\<rparr>"

definition held_role :: "role_db \<Rightarrow> int \<Rightarrow> role option" where
  "held_role db a = map_option (\<lambda>u. case row_at db (role_id u) of
       None \<Rightarrow> default_everyone | Some row \<Rightarrow> row_role row (everyone_perms db)) (user_of db a)"

definition roles_ok :: "role_db \<Rightarrow> bool" where
  "roles_ok db \<longleftrightarrow> distinct (map ru_account (rd_users db)) \<and> distinct (map ru_id (rd_users db)) \<and>
     distinct (map rr_id (rd_roles db)) \<and>
     (\<forall>u \<in> set (rd_users db). \<forall>i. ru_role u = Some i \<longrightarrow> i \<in> rr_id ` set (rd_roles db)) \<and>
     (\<forall>r \<in> set (rd_roles db). rr_id r < rd_seq db) \<and> 0 \<le> rd_seq db"

lemma find_SomeD: "find P xs = Some x \<Longrightarrow> x \<in> set xs \<and> P x"
  by (auto simp: find_Some_iff)

lemma find_distinct:
  "distinct (map f xs) \<Longrightarrow> find (\<lambda>x. f x = a) xs = Some x \<longleftrightarrow> x \<in> set xs \<and> f x = a"
  by (induction xs) (auto simp: find_None_iff)

lemma row_at_Some: "roles_ok db \<Longrightarrow> row_at db i = Some r \<longleftrightarrow> r \<in> set (rd_roles db) \<and> rr_id r = i"
  by (simp add: row_at_def roles_ok_def find_distinct)

lemma user_of_Some: "roles_ok db \<Longrightarrow> user_of db a = Some u \<longleftrightarrow> u \<in> set (rd_users db) \<and> ru_account u = a"
  by (simp add: user_of_def roles_ok_def find_distinct)

text \<open>Where the query answers, it reads the role of the specification.\<close>

lemma concat_first: "find P xs = Some x \<Longrightarrow> distinct (map f xs) \<Longrightarrow> \<forall>y \<in> set xs. P y \<longleftrightarrow> f y = a \<Longrightarrow>
  concat (map (\<lambda>y. if P y then g y else []) xs) = g x"
proof (induction xs)
  case (Cons y xs)
  have none: "concat (map (\<lambda>y. if P y then g y else []) xs) = []" if "f y = a"
    using Cons.prems(2,3) that by (auto simp: image_iff)
  show ?case
  proof (cases "P y")
    case True
    with Cons.prems have "y = x" "f y = a" by auto
    with none True show ?thesis by simp
  next
    case False
    with Cons show ?thesis by auto
  qed
qed simp

lemma joined_roles_eq:
  assumes "roles_ok db"
  shows "first_row (joined_roles db a) = Option.bind (user_of db a) (\<lambda>u. row_at db (role_id u))"
proof -
  have rows: "first_row [r. r \<leftarrow> rs, rr_id r = i] = find (\<lambda>r. rr_id r = i) rs" for rs i
    by (induction rs) (auto simp: first_row_def)
  show ?thesis
  proof (cases "user_of db a")
    case None
    then have "joined_roles db a = []"
      by (auto simp: joined_roles_def user_of_def find_None_iff)
    with None show ?thesis by (simp add: first_row_def)
  next
    case (Some u)
    have "joined_roles db a = [r. r \<leftarrow> rd_roles db, rr_id r = role_id u]"
      unfolding joined_roles_def role_id_def [symmetric]
      by (rule concat_first [where f = ru_account and a = a])
        (use Some assms in \<open>auto simp: user_of_def roles_ok_def\<close>)
    with Some rows show ?thesis by (simp add: row_at_def)
  qed
qed

lemma everyone_permissions_Inr:
  "everyone_permissions db = Inr p \<longleftrightarrow> \<not> rd_down db QEveryone \<and> p = everyone_perms db"
  by (simp add: everyone_permissions_def role_query_Inr everyone_perms_def)

lemma role_from_row_Inr: "role_from_row db row = Inr r \<Longrightarrow> r = row_role row (everyone_perms db)"
  by (auto simp: role_from_row_def row_role_def res_bind_eq_Inr everyone_permissions_Inr Let_def split: if_splits)

lemma of_account_Inr:
  assumes "roles_ok db" and "of_account db a = Inr r"
  shows "r = held_role db a"
proof -
  have "(\<exists>u \<in> set (rd_users db). ru_account u = a) \<longleftrightarrow> user_of db a \<noteq> None"
    by (auto simp: user_of_def find_None_iff)
  with assms(2) show ?thesis
    unfolding of_account_def joined_roles_eq [OF assms(1)]
    by (cases "user_of db a"; cases "row_at db (role_id (the (user_of db a)))")
      (auto simp: res_bind_eq_Inr role_query_Inr held_role_def default_everyone_def list_ex_iff
        dest!: role_from_row_Inr split: if_splits)
qed

lemma of_account_up:
  assumes "roles_ok db" and "\<And>q. \<not> rd_down db q"
  shows "of_account db a = Inr (held_role db a)"
proof -
  have up: "role_query db q v = Inr v" for q and v :: 'x using assms(2) by (simp add: role_query_def)
  have "\<exists>r. of_account db a = Inr r"
    by (auto simp: of_account_def up role_from_row_def everyone_permissions_def Let_def split: option.split)
  with of_account_Inr [OF assms(1)] show ?thesis by metis
qed

lemma actor_role_Inr:
  "roles_ok db \<Longrightarrow> actor_role db a = Inr r \<Longrightarrow> r = (case held_role db a of None \<Rightarrow> nobody | Some r \<Rightarrow> r)"
  by (auto simp: actor_role_def res_bind_eq_Inr dest!: of_account_Inr)

lemma acting_Inr:
  assumes "roles_ok db" and "acting db a = Inr r"
  shows "r = nobody \<or> held_role db a = Some r"
  using assms(2) of_account_Inr [OF assms(1), of a]
  by (auto simp: acting_def res_bind_eq_Inr role_query_Inr split: if_splits option.splits)

lemma not_can_nobody [simp]: "\<not> can nobody [MANAGE_ROLES]"
  by (simp add: can_def nobody_def MANAGE_ROLES_def)

lemma acting_can: "roles_ok db \<Longrightarrow> acting db a = Inr r \<Longrightarrow> can r [MANAGE_ROLES] \<Longrightarrow> held_role db a = Some r"
  using acting_Inr by fastforce


section \<open>What validation accepts\<close>

lemma to_i32_small: "- (2 ^ 31) \<le> n \<Longrightarrow> n < 2 ^ 31 \<Longrightarrow> to_i32 n = n"
  by (simp add: to_i32_def sint_sbintrunc' signed_take_bit_int_eq_self)

lemma validate_Inr:
  assumes "validate form existing actor = Inr draft"
  shows "within (d_permissions draft) (r_computed actor)"
    and "d_position draft \<le> r_position actor"
    and "\<And>ex. existing = Some ex \<Longrightarrow> rr_id ex = EVERYONE_ROLE_ID \<Longrightarrow>
      within (d_permissions draft) flag_SAFE \<and> d_position draft = NOBODY_POSITION"
    and "\<And>ex. existing = Some ex \<Longrightarrow> r_id actor = Some (rr_id ex) \<Longrightarrow>
      d_permissions draft = rr_permissions ex \<and>
      (rr_id ex \<noteq> EVERYONE_ROLE_ID \<longrightarrow> d_position draft = rr_position ex)"
proof -
  obtain pos e1 where p: "int_attribute ''Position''
      (case existing of None \<Rightarrow> 0 | Some r \<Rightarrow> rr_position r) (f_position form) = (pos, e1)" by fastforce
  obtain lim e2 where l: "int_attribute ''Collection limit''
      (case existing of None \<Rightarrow> 10 | Some r \<Rightarrow> rr_collection_limit r) (f_collection_limit form) = (lim, e2)" by fastforce
  define position where "position = (if (case existing of None \<Rightarrow> False | Some r \<Rightarrow> rr_id r = EVERYONE_ROLE_ID)
      then NOBODY_POSITION else pos)"
  note facts = assms [unfolded validate_def p l Let_def prod.case position_def [symmetric], simplified]
  have range: "- POSITION_LIMIT \<le> position" "position \<le> POSITION_LIMIT"
    and d: "d_position draft = to_i32 position"
    using facts by (auto simp: error_if_def split: if_splits)
  then have dp: "d_position draft = position" by (simp add: POSITION_LIMIT_def to_i32_small)
  show "within (d_permissions draft) (r_computed actor)"
    using facts by (auto simp: error_if_def within_def split: if_splits)
  show "d_position draft \<le> r_position actor"
    unfolding dp using facts by (auto simp: error_if_def split: if_splits)
  show "within (d_permissions draft) flag_SAFE \<and> d_position draft = NOBODY_POSITION"
    if "existing = Some ex" "rr_id ex = EVERYONE_ROLE_ID" for ex
    unfolding dp using facts that by (auto simp: error_if_def within_def position_def split: if_splits)
  show "d_permissions draft = rr_permissions ex \<and>
      (rr_id ex \<noteq> EVERYONE_ROLE_ID \<longrightarrow> d_position draft = rr_position ex)"
    if "existing = Some ex" "r_id actor = Some (rr_id ex)" for ex
    unfolding dp using facts that by (auto simp: error_if_def own_role_errors_def split: if_splits)
qed

section \<open>What a handler writes\<close>

lemma row_role_simps [simp]:
  "r_id (row_role r e) = Some (rr_id r)" "r_permissions (row_role r e) = rr_permissions r"
  "r_position (row_role r e) = (if rr_id r = EVERYONE_ROLE_ID then NOBODY_POSITION else rr_position r)"
  "is_everyone (row_role r e) \<longleftrightarrow> rr_id r = EVERYONE_ROLE_ID"
  by (simp_all add: row_role_def Let_def is_everyone_def)

lemma map_err_Inr [simp]: "map_err f r = Inr v \<longleftrightarrow> r = Inr v"
  by (cases r) (simp_all add: map_err_def)

lemma find_role_Inr: "find_role db q i = Inr r \<longleftrightarrow> \<not> rd_down db q \<and> row_at db i = Some r"
  by (auto simp: find_role_def res_bind_eq_Inr role_query_Inr row_at_def)

lemma in_tx_Inr: "in_tx db qs db' = Inr x \<Longrightarrow> x = db'"
  by (simp add: in_tx_def split: if_splits)

lemma create_draft_Inr:
  "create_draft db auth form = Inr (act, draft) \<Longrightarrow> roles_ok db \<Longrightarrow>
   held_role db (au_account auth) = Some act \<and> validate form None act = Inr draft"
  unfolding create_draft_def res_bind_eq_Inr authorize_Inr map_err_Inr
  by (elim exE conjE, frule (2) acting_can, drule (1) actor_role_Inr) auto

lemma update_draft_Inr:
  assumes "update_draft db auth i form = Inr (act, draft)" and ok: "roles_ok db"
  shows "\<exists>row. held_role db (au_account auth) = Some act \<and> row_at db i = Some row \<and>
     (overrides act (Some (row_role row (everyone_perms db))) \<or> r_id act = Some i) \<and>
     validate form (Some row) act = Inr draft"
proof -
  from assms(1) obtain row actor where row: "row_at db i = Some row" and act: "acting db (au_account auth) = Inr act"
    and c: "can_update act (row_role row (everyone_perms db))"
    and actor: "actor_role db (au_account auth) = Inr actor" and v: "validate form (Some row) actor = Inr draft"
    unfolding update_draft_def res_bind_eq_Inr authorize_Inr map_err_Inr find_role_Inr everyone_permissions_Inr
    by auto
  from c have held: "held_role db (au_account auth) = Some act"
    using acting_can [OF ok act] by (simp add: can_update_def)
  with actor_role_Inr [OF ok actor] have "actor = act" by simp
  moreover from row have "rr_id row = i" using row_at_Some [OF ok] by simp
  ultimately show ?thesis using held row c v by (simp add: can_update_def)
qed

lemma delete_check_Inr:
  "delete_check db auth i = Inr u \<Longrightarrow> roles_ok db \<Longrightarrow>
   \<exists>act. held_role db (au_account auth) = Some act \<and> r_id act \<noteq> Some i \<and> i \<noteq> EVERYONE_ROLE_ID"
  unfolding delete_check_def res_bind_eq_Inr authorize_Inr find_role_Inr can_destroy_def everyone_permissions_Inr
  by (elim exE conjE, frule (2) acting_can) (fastforce simp: row_at_Some)

lemma subject_of_Inr:
  "subject_of db auth a = Inr s \<Longrightarrow> roles_ok db \<Longrightarrow>
   user_of db a = Some (s_user s) \<and> s_role s = held_role db a \<and> acting db (au_account auth) = Inr (s_acting s)"
  unfolding subject_of_def res_bind_eq_Inr
  by (auto simp: role_query_Inr user_of_def dest!: of_account_Inr split: if_splits)

lemma change_check_Inr:
  assumes "change_check db auth a form = Inr (user, r)" and "roles_ok db"
  shows "\<exists>act. held_role db (au_account auth) = Some act \<and> overrides act (held_role db a) \<and>
    user_of db a = Some user \<and> (\<forall>i. r = Some i \<longrightarrow> i \<noteq> EVERYONE_ROLE_ID \<and>
      (\<exists>row. row_at db i = Some row \<and> rr_position row \<le> r_position act))"
proof -
  from assms(1) obtain s role_id where s: "subject_of db auth a = Inr s" "can (s_acting s) [MANAGE_ROLES]"
      "overrides (s_acting s) (s_role s)"
    and c: "(case (if role_id = Some EVERYONE_ROLE_ID then None else role_id) of
        None \<Rightarrow> Inr (s_user s, None)
      | Some i \<Rightarrow>
          res_bind (role_query db QPosition (map_option rr_position (find (\<lambda>r. rr_id r = i) (rd_roles db)))) (\<lambda>p.
          res_bind (ok_or must_exist p) (\<lambda>position.
          if position > r_position (s_acting s)
          then Inl (Unprocessable ''Validation failed: Role cannot be higher than your current role'')
          else Inr (s_user s, Some i)))) = Inr (user, r)"
    unfolding change_check_def res_bind_eq_Inr authorize_Inr by blast
  note sub = subject_of_Inr [OF s(1) assms(2)]
  then have "held_role db (au_account auth) = Some (s_acting s)" using acting_can assms(2) s(2) by blast
  moreover have "user = s_user s" and "\<forall>i. r = Some i \<longrightarrow> i \<noteq> EVERYONE_ROLE_ID \<and>
      (\<exists>row. row_at db i = Some row \<and> rr_position row \<le> r_position (s_acting s))"
    using c by (auto simp: res_bind_eq_Inr role_query_Inr row_at_def split: if_splits option.splits)
  ultimately show ?thesis using sub s(3) by auto
qed

end
