(* ===== verification/RolesTheorems.thy ===== *)
theory RolesTheorems
  imports RolesFacts
begin

text \<open>
  The properties of roles: how permissions are named, which role an account is judged by, and
  that the roles an account may edit and hand out never raise its own.
\<close>

section \<open>Named permissions\<close>

lemmas flag_bits = ADMINISTRATOR_def VIEW_DEVOPS_def VIEW_AUDIT_LOG_def VIEW_DASHBOARD_def MANAGE_REPORTS_def
  MANAGE_FEDERATION_def MANAGE_SETTINGS_def MANAGE_BLOCKS_def MANAGE_TAXONOMIES_def MANAGE_APPEALS_def
  MANAGE_USERS_def MANAGE_INVITES_def MANAGE_RULES_def MANAGE_ANNOUNCEMENTS_def MANAGE_CUSTOM_EMOJIS_def
  MANAGE_WEBHOOKS_def INVITE_USERS_def MANAGE_ROLES_def MANAGE_USER_ACCESS_def DELETE_USER_DATA_def
  VIEW_FEEDS_def INVITE_BYPASS_APPROVAL_def MANAGE_EMAIL_SUBSCRIPTIONS_def

lemma flag_NAMES_bits: "map snd flag_NAMES = map (\<lambda>n. push_bit n 1) [0..<23]"
  by (simp add: flag_NAMES_def flag_bits upt_rec)

lemma flag_NAMES_distinct: "distinct (map fst flag_NAMES)"
  by (simp add: flag_NAMES_def)

lemma fold_or_bit: "bit (fold (\<lambda>(_, b) bits. bits OR b) xs p) n \<longleftrightarrow> bit p n \<or> (\<exists>x \<in> set xs. bit (snd x) n)"
  for p :: permissions
  by (induction xs arbitrary: p) (auto simp: bit_or_iff)

lemma bit_push: "bit (push_bit n 1 :: permissions) m \<longleftrightarrow> m = n \<and> n < 64"
  by (auto simp: bit_exp_iff)

lemma has_flag: "p AND push_bit n 1 = push_bit n 1 \<longleftrightarrow> bit p n" if "n < 64" for p :: permissions
  using that unfolding bit_eq_iff [where 'a = "64 word"] bit_and_iff bit_push by auto

lemma bit_exp [simp]: "bit (2 ^ n :: permissions) m \<longleftrightarrow> m = n \<and> n < 64"
  using bit_push [of n m] by simp

lemma flag_NAMES_nth: "(name, b) \<in> set flag_NAMES \<Longrightarrow> \<exists>n < 23. b = push_bit n 1"
proof -
  assume "(name, b) \<in> set flag_NAMES"
  then have "b \<in> set (map snd flag_NAMES)" by force
  then show ?thesis unfolding flag_NAMES_bits by auto
qed

lemma flag_NAMES_ex: "n < 23 \<Longrightarrow> \<exists>name. (name, push_bit n 1) \<in> set flag_NAMES"
proof -
  assume "n < 23"
  then have "push_bit n 1 \<in> set (map snd flag_NAMES)" unfolding flag_NAMES_bits by simp
  then show ?thesis by force
qed

lemma find_flag: "find (\<lambda>(x, _). x = name) flag_NAMES = Some (k, b) \<longleftrightarrow> (k, b) \<in> set flag_NAMES \<and> k = name"
  using find_distinct [OF flag_NAMES_distinct, of name "(k, b)"] by (simp add: case_prod_unfold)

lemma set_map_filter: "set (List.map_filter f xs) = {y. \<exists>x \<in> set xs. f x = Some y}"
  by (induction xs) (auto simp: List.map_filter_simps split: option.split)

lemma from_keys_bit: "bit (from_keys keys) n \<longleftrightarrow> (\<exists>(name, b) \<in> set flag_NAMES. name \<in> set keys \<and> bit b n)"
  unfolding from_keys_def fold_or_bit set_map_filter by (fastforce simp: find_flag)

lemma as_keys_mem: "name \<in> set (as_keys p) \<longleftrightarrow> (\<exists>b. (name, b) \<in> set flag_NAMES \<and> p AND b = b)"
  by (force simp: as_keys_def)

lemma bit_flag_ALL: "bit flag_ALL n \<longleftrightarrow> n < 23"
proof -
  have all: "flag_ALL = mask 23" by (simp add: flag_ALL_def mask_eq_exp_minus_1)
  show ?thesis unfolding all bit_mask_iff by auto
qed

text \<open>
  Permissions survive being written as names and read back, but for the bits that name no
  flag; and names survive being read as permissions and written back, but for the ones that
  name no flag, their order and their repetitions.
\<close>

theorem permissions_round_trip:
  "from_keys (as_keys p) = p AND flag_ALL \<and>
   set (as_keys (from_keys keys)) = set keys \<inter> fst ` set flag_NAMES"
proof
  show "from_keys (as_keys p) = p AND flag_ALL"
  proof (rule bit_eqI)
    fix n
    show "bit (from_keys (as_keys p)) n \<longleftrightarrow> bit (p AND flag_ALL) n"
      unfolding from_keys_bit as_keys_mem bit_and_iff bit_flag_ALL
    proof
      assume "\<exists>(name, b) \<in> set flag_NAMES. (\<exists>b. (name, b) \<in> set flag_NAMES \<and> p AND b = b) \<and> bit b n"
      then obtain name b b' where nb: "(name, b) \<in> set flag_NAMES" "(name, b') \<in> set flag_NAMES" "p AND b' = b'" "bit b n"
        by blast
      with flag_NAMES_distinct have "b = b'" by (metis eq_key_imp_eq_value)
      with nb flag_NAMES_nth [OF nb(1)] has_flag show "bit p n \<and> n < 23" by (auto simp: bit_push)
    next
      assume n: "bit p n \<and> n < 23"
      then obtain name where "(name, push_bit n 1) \<in> set flag_NAMES" using flag_NAMES_ex by blast
      with n has_flag [of n p] bit_push [of n n]
      show "\<exists>(name, b) \<in> set flag_NAMES. (\<exists>b. (name, b) \<in> set flag_NAMES \<and> p AND b = b) \<and> bit b n"
        by fastforce
    qed
  qed
  show "set (as_keys (from_keys keys)) = set keys \<inter> fst ` set flag_NAMES"
  proof (intro set_eqI iffI)
    fix name assume "name \<in> set (as_keys (from_keys keys))"
    then obtain b n where b: "(name, b) \<in> set flag_NAMES" "from_keys keys AND b = b" "b = push_bit n 1" "n < 23"
      using flag_NAMES_nth unfolding as_keys_mem by blast
    then have "bit (from_keys keys) n" using has_flag [of n] by simp
    then obtain name' b' where "(name', b') \<in> set flag_NAMES" "name' \<in> set keys" "bit b' n"
      unfolding from_keys_bit by blast
    moreover from this have "b' = b" using flag_NAMES_nth b by (fastforce simp: bit_push)
    moreover have "distinct (map snd flag_NAMES)" by (simp add: flag_NAMES_def flag_bits)
    ultimately have "name' = name" using b(1) by (auto simp: distinct_map dest: inj_onD [of snd _ "(name', b)" "(name, b)"])
    with \<open>name' \<in> set keys\<close> b(1) show "name \<in> set keys \<inter> fst ` set flag_NAMES" by force
  next
    fix name assume "name \<in> set keys \<inter> fst ` set flag_NAMES"
    then obtain b n where "name \<in> set keys" "(name, b) \<in> set flag_NAMES" "b = push_bit n 1" "n < 23"
      using flag_NAMES_nth by fastforce
    then have "bit (from_keys keys) n" unfolding from_keys_bit by (force simp: bit_push)
    with \<open>n < 23\<close> \<open>b = push_bit n 1\<close> have "from_keys keys AND b = b" using has_flag by simp
    with \<open>(name, b) \<in> set flag_NAMES\<close> show "name \<in> set (as_keys (from_keys keys))"
      unfolding as_keys_mem by blast
  qed
qed

section \<open>The role a policy judges by\<close>

text \<open>
  C14: With the database up, the role an account acts by is the one the tables give it: its own
  role with its permissions joined to everyone's, every permission for an administrator, the
  everyone role for a user without one; and nobody's, which can do nothing and outranks no
  role at a position of \<open>-1\<close> or above, for a disabled user or an account without one.
\<close>

theorem acting_role_is_the_held_role:
  assumes "roles_ok db" and "\<And>q. \<not> rd_down db q"
  shows "acting db a = Inr (case user_of db a of
      None \<Rightarrow> nobody
    | Some u \<Rightarrow> if ru_disabled u then nobody else
        (case row_at db (role_id u) of None \<Rightarrow> default_everyone | Some row \<Rightarrow> row_role row (everyone_perms db)))"
  using of_account_up [OF assms, of a] assms(2)
  by (auto simp: acting_def role_query_def held_role_def user_of_def split: option.split)

definition sample_roles :: role_db where
  "sample_roles = \<lparr>
     rd_roles = [\<lparr>rr_id = - 99, rr_name = [], rr_color = [], rr_position = - 1, rr_permissions = INVITE_USERS,
         rr_highlighted = False, rr_collection_limit = 10, rr_require_2fa = False\<rparr>,
       \<lparr>rr_id = 1, rr_name = ''Moderator'', rr_color = [], rr_position = 10, rr_permissions = MANAGE_ROLES,
         rr_highlighted = True, rr_collection_limit = 10, rr_require_2fa = False\<rparr>],
     rd_users = [\<lparr>ru_id = 1, ru_account = 11, ru_role = Some 1, ru_disabled = False\<rparr>,
       \<lparr>ru_id = 2, ru_account = 12, ru_role = None, ru_disabled = True\<rparr>],
     rd_accounts = [(11, None), (12, None)], rd_log = [], rd_seq = 2, rd_down = (\<lambda>_. False)\<rparr>"

definition moderator :: auth where
  "moderator = \<lparr>au_account = 11, au_scopes = [''admin:write'']\<rparr>"

lemma sample_roles_ok: "roles_ok sample_roles"
  by (simp add: roles_ok_def sample_roles_def)

theorem acting_role_is_the_held_role_witness: "acting sample_roles 12 = Inr nobody"
proof -
  have "\<not> rd_down sample_roles q" for q by (simp add: sample_roles_def)
  from acting_role_is_the_held_role [OF sample_roles_ok this, of 12] show ?thesis
    by (simp add: user_of_def sample_roles_def)
qed

section \<open>Editing roles\<close>

text \<open>One request of an account to the role handlers; the database may go down or come up.\<close>

inductive role_request :: "int \<Rightarrow> role_db \<Rightarrow> role_db \<Rightarrow> bool" for a where
  create: "au_account auth = a \<Longrightarrow> role_request a db (snd (create_admin_role db auth form))"
| update: "au_account auth = a \<Longrightarrow> role_request a db (snd (update_admin_role db auth i form))"
| delete: "au_account auth = a \<Longrightarrow> role_request a db (snd (delete_admin_role db auth i))"
| change: "au_account auth = a \<Longrightarrow> role_request a db (snd (change_user_role db auth b v))"
| weather: "role_request a db (db\<lparr>rd_down := down\<rparr>)"

inductive role_requests :: "int \<Rightarrow> role_db \<Rightarrow> role_db \<Rightarrow> bool" for a where
  none: "role_requests a db db"
| more: "role_requests a db db1 \<Longrightarrow> role_request a db1 db2 \<Longrightarrow> role_requests a db db2"

text \<open>What a request leaves, when it writes.\<close>

lemma create_cases:
  assumes "db' = snd (create_admin_role db auth form)"
  shows "db' = db \<or> db' = db\<lparr>rd_seq := rd_seq db + 1\<rparr> \<or>
    (\<exists>act draft. create_draft db auth form = Inr (act, draft) \<and>
      rd_roles db' = rd_roles db @ [row_of (rd_seq db) draft] \<and> rd_users db' = rd_users db \<and>
      rd_seq db' = rd_seq db + 1)"
  using assms by (cases "create_draft db auth form")
    (simp_all add: create_admin_role_def Let_def in_tx_def logged_def split: prod.split if_split)

lemma update_cases:
  assumes "db' = snd (update_admin_role db auth i form)"
  shows "db' = db \<or> (\<exists>act draft. update_draft db auth i form = Inr (act, draft) \<and>
      rd_roles db' = map (\<lambda>r. if rr_id r = i then row_of i draft else r) (rd_roles db) \<and>
      rd_users db' = rd_users db \<and> rd_seq db' = rd_seq db)"
  using assms by (cases "update_draft db auth i form")
    (simp_all add: update_admin_role_def in_tx_def logged_def split: prod.split if_split)

lemma delete_cases:
  assumes "db' = snd (delete_admin_role db auth i)"
  shows "db' = db \<or> (\<exists>u. delete_check db auth i = Inr u \<and>
      rd_roles db' = filter (\<lambda>r. rr_id r \<noteq> i) (rd_roles db) \<and>
      rd_users db' = map (\<lambda>u. if ru_role u = Some i then u\<lparr>ru_role := None\<rparr> else u) (rd_users db) \<and>
      rd_seq db' = rd_seq db)"
  using assms by (cases "delete_check db auth i")
    (simp_all add: delete_admin_role_def in_tx_def logged_def split: prod.split if_split)

lemma change_cases:
  assumes "db' = snd (change_user_role db auth b v)"
  shows "db' = db \<or> (\<exists>user r. change_check db auth b v = Inr (user, r) \<and> rd_roles db' = rd_roles db \<and>
      rd_users db' = map (\<lambda>u. if ru_id u = ru_id user then u\<lparr>ru_role := r\<rparr> else u) (rd_users db) \<and>
      rd_seq db' = rd_seq db)"
  using assms by (cases "change_check db auth b v")
    (simp_all add: change_user_role_def in_tx_def logged_def split: prod.split if_split)


lemma row_at_append: "row_at (db\<lparr>rd_roles := rd_roles db @ [r]\<rparr>) i =
  (case row_at db i of None \<Rightarrow> if rr_id r = i then Some r else None | Some x \<Rightarrow> Some x)"
proof -
  have "find P (xs @ [r]) = (case find P xs of None \<Rightarrow> if P r then Some r else None | Some x \<Rightarrow> Some x)" for P xs
    by (induction xs) auto
  then show ?thesis by (simp add: row_at_def)
qed

text \<open>What the account's role depends on.\<close>

lemma held_role_eqI:
  assumes "user_of db' a = user_of db a" and "everyone_perms db' = everyone_perms db"
    and "\<And>u. user_of db a = Some u \<Longrightarrow> row_at db' (role_id u) = row_at db (role_id u)"
  shows "held_role db' a = held_role db a"
  using assms by (cases "user_of db a") (simp_all add: held_role_def cong: option.case_cong)

lemma held_role_cong:
  "rd_roles db' = rd_roles db \<Longrightarrow> user_of db' a = user_of db a \<Longrightarrow> held_role db' a = held_role db a"
  by (rule held_role_eqI) (simp_all add: row_at_def everyone_perms_def)

lemma everyone_perms_row: "everyone_perms db = (case row_at db EVERYONE_ROLE_ID of None \<Rightarrow> flag_DEFAULT | Some r \<Rightarrow> rr_permissions r)"
  by (simp add: everyone_perms_def row_at_def)

lemma roles_ok_user: "roles_ok db \<Longrightarrow> user_of db a = Some u \<Longrightarrow> ru_role u = Some i \<Longrightarrow> \<exists>r. row_at db i = Some r"
  by (auto simp: user_of_Some row_at_Some roles_ok_def)

lemma held_role_id:
  "roles_ok db \<Longrightarrow> user_of db a = Some u \<Longrightarrow> \<exists>r. held_role db a = Some r \<and> r_id r = Some (role_id u)"
proof -
  assume ok: "roles_ok db" and u: "user_of db a = Some u"
  show ?thesis
  proof (cases "row_at db (role_id u)")
    case None
    with roles_ok_user [OF ok u] have "role_id u = EVERYONE_ROLE_ID"
      by (cases "ru_role u") (auto simp: role_id_def)
    with None u show ?thesis by (simp add: held_role_def default_everyone_def nobody_def)
  next
    case (Some row)
    moreover from this row_at_Some [OF ok] have "rr_id row = role_id u" by simp
    ultimately show ?thesis using u by (simp add: held_role_def)
  qed
qed

text \<open>Neither the permissions nor the place of a role have grown.\<close>

definition no_higher :: "role option \<Rightarrow> role option \<Rightarrow> bool" where
  "no_higher new old \<longleftrightarrow> (case (new, old) of
      (None, None) \<Rightarrow> True
    | (Some n, Some m) \<Rightarrow> r_id n = r_id m \<and> r_position n = r_position m \<and> within (r_computed n) (r_computed m)
    | _ \<Rightarrow> False)"

lemma no_higher_refl [simp]: "no_higher r r"
  by (simp add: no_higher_def split: option.split)

lemma no_higher_trans: "no_higher r s \<Longrightarrow> no_higher s t \<Longrightarrow> no_higher r t"
  by (auto simp: no_higher_def split: option.splits intro: within_trans)

lemma no_higher_row:
  assumes "rr_id r' = rr_id r" and "rr_id r \<noteq> EVERYONE_ROLE_ID \<longrightarrow> rr_position r' = rr_position r"
    and "rr_permissions r' = rr_permissions r"
    and "rr_id r = EVERYONE_ROLE_ID \<or> rr_permissions r AND ADMINISTRATOR \<noteq> 0 \<or> within e' (rr_permissions r OR e)"
  shows "no_higher (Some (row_role r' e')) (Some (row_role r e))"
  using assms by (auto simp: no_higher_def row_role_def Let_def within_or within_orI)

lemma create_keeps:
  assumes ok: "roles_ok db" and made: "rd_roles db' = rd_roles db @ [r]" "rr_id r = rd_seq db" "rd_users db' = rd_users db"
    "rd_seq db' = rd_seq db + 1"
  shows "roles_ok db' \<and> held_role db' a = held_role db a"
proof
  from ok made show "roles_ok db'" by (fastforce simp: roles_ok_def)
  have old: "row_at db' i = row_at db i" if "i \<noteq> rd_seq db" for i
    using that made row_at_append [of db r i] by (auto simp: row_at_def split: option.split)
  have e: "EVERYONE_ROLE_ID \<noteq> rd_seq db" using ok by (simp add: roles_ok_def EVERYONE_ROLE_ID_def)
  have "role_id u \<noteq> rd_seq db" if "user_of db a = Some u" for u
    using that e roles_ok_user [OF ok that] ok by (cases "ru_role u") (auto simp: role_id_def row_at_Some roles_ok_def)
  moreover have "user_of db' a = user_of db a" using made by (simp add: user_of_def)
  moreover have "everyone_perms db' = everyone_perms db" using old [OF e] by (simp add: everyone_perms_row)
  ultimately show "held_role db' a = held_role db a" using old by (intro held_role_eqI) auto
qed

lemma update_keeps:
  assumes ok: "roles_ok db" and held: "held_role db a = Some act" and row: "row_at db i = Some row"
    and draft: "validate form (Some row) act = Inr draft"
    and db': "rd_roles db' = map (\<lambda>r. if rr_id r = i then row_of i draft else r) (rd_roles db)"
      "rd_users db' = rd_users db" "rd_seq db' = rd_seq db"
  shows "roles_ok db' \<and> no_higher (held_role db' a) (held_role db a)"
proof
  let ?f = "\<lambda>r. if rr_id r = i then row_of i draft else r"
  have ids: "rr_id (?f r) = rr_id r" for r by (simp add: row_of_def)
  then have "rr_id \<circ> ?f = rr_id" by (simp add: fun_eq_iff)
  then have "map rr_id (rd_roles db') = map rr_id (rd_roles db)" by (simp add: db')
  moreover from this have "rr_id ` set (rd_roles db') = rr_id ` set (rd_roles db)" by (metis set_map)
  moreover have "\<forall>r \<in> set (rd_roles db'). rr_id r < rd_seq db'" using ok by (auto simp: db' roles_ok_def row_of_def)
  ultimately show "roles_ok db'" using ok db'(2,3) by (simp add: roles_ok_def)
  have at: "row_at db' j = map_option ?f (row_at db j)" for j
    unfolding row_at_def db' by (rule find_map_keep) (simp add: ids)
  have ri: "rr_id row = i" using row row_at_Some [OF ok] by simp
  note v = validate_Inr [OF draft]
  obtain u where u: "user_of db a = Some u" using held by (auto simp: held_role_def)
  then have u': "user_of db' a = Some u" by (simp add: user_of_def db')
  have id: "r_id act = Some (role_id u)" using held_role_id [OF ok u] held by simp
  show "no_higher (held_role db' a) (held_role db a)"
  proof (cases "row_at db (role_id u)")
    case None
    with at u u' show ?thesis by (simp add: held_role_def)
  next
    case (Some r)
    then have r: "rr_id r = role_id u" using row_at_Some [OF ok] by simp
    have act: "act = row_role r (everyone_perms db)" using held u Some by (simp add: held_role_def)
    have same: "rr_permissions (?f r) = rr_permissions r \<and> (rr_id r \<noteq> EVERYONE_ROLE_ID \<longrightarrow> rr_position (?f r) = rr_position r)"
    proof (cases "rr_id r = i")
      case True
      with r Some row have "r = row" by simp
      with v(4) [OF refl] id r True show ?thesis by (simp add: row_of_def)
    qed simp
    have e: "rr_id r = EVERYONE_ROLE_ID \<or> rr_permissions r AND ADMINISTRATOR \<noteq> 0 \<or>
        within (everyone_perms db') (rr_permissions r OR everyone_perms db)"
    proof (cases "i = EVERYONE_ROLE_ID")
      case True
      with at [of i] row ri have "everyone_perms db' = d_permissions draft"
        by (simp add: everyone_perms_row row_of_def)
      with v(1) act show ?thesis by (auto simp: row_role_def Let_def split: if_splits)
    next
      case False
      then have "everyone_perms db' = everyone_perms db"
        using at [of EVERYONE_ROLE_ID] row_at_Some [OF ok, of EVERYONE_ROLE_ID]
        by (cases "row_at db EVERYONE_ROLE_ID") (auto simp: everyone_perms_row)
      then show ?thesis by (simp add: within_orI)
    qed
    have "no_higher (Some (row_role (?f r) (everyone_perms db'))) (Some (row_role r (everyone_perms db)))"
      by (rule no_higher_row) (use same e ids in auto)
    with u u' Some at show ?thesis by (simp add: held_role_def)
  qed
qed

lemma users_map_id: "(\<And>u. ru_id (f u) = ru_id u \<and> ru_account (f u) = ru_account u) \<Longrightarrow>
  map ru_id (map f us) = map ru_id us \<and> map ru_account (map f us) = map ru_account us"
  by (induction us) auto

lemma delete_keeps:
  assumes ok: "roles_ok db" and held: "held_role db a = Some act" and i: "r_id act \<noteq> Some i" "i \<noteq> EVERYONE_ROLE_ID"
    and db': "rd_roles db' = filter (\<lambda>r. rr_id r \<noteq> i) (rd_roles db)"
      "rd_users db' = map (\<lambda>u. if ru_role u = Some i then u\<lparr>ru_role := None\<rparr> else u) (rd_users db)"
      "rd_seq db' = rd_seq db"
  shows "roles_ok db' \<and> held_role db' a = held_role db a"
proof
  let ?f = "\<lambda>u. if ru_role u = Some i then u\<lparr>ru_role := None\<rparr> else u"
  have "map ru_id (rd_users db') = map ru_id (rd_users db) \<and> map ru_account (rd_users db') = map ru_account (rd_users db)"
    unfolding db' by (rule users_map_id) simp
  moreover have "j \<in> rr_id ` set (rd_roles db')" if "u \<in> set (rd_users db')" "ru_role u = Some j" for u j
  proof -
    from that have "\<exists>w \<in> set (rd_users db). ru_role w = Some j \<and> j \<noteq> i" by (auto simp: db' split: if_splits)
    then have "j \<in> rr_id ` set (rd_roles db)" "j \<noteq> i" using ok by (auto simp: roles_ok_def)
    then show ?thesis by (auto simp: db')
  qed
  moreover have "distinct (map rr_id (rd_roles db'))" "\<forall>r \<in> set (rd_roles db'). rr_id r < rd_seq db'"
    using ok by (auto simp: db' roles_ok_def distinct_map_filter)
  ultimately show "roles_ok db'" using ok db'(3) by (simp add: roles_ok_def)
  have at: "row_at db' j = row_at db j" if "j \<noteq> i" for j
    unfolding row_at_def db' by (rule find_filter_keep) (use that in auto)
  obtain u where u: "user_of db a = Some u" using held by (auto simp: held_role_def)
  have ui: "role_id u \<noteq> i" using held_role_id [OF ok u] held i(1) by auto
  have "user_of db' a = map_option ?f (user_of db a)"
    unfolding user_of_def db' by (rule find_map_keep) simp
  with u ui have "user_of db' a = Some u" by (auto simp: role_id_def)
  with u at [OF ui] at [OF i(2) [symmetric]] show "held_role db' a = held_role db a"
    by (intro held_role_eqI) (simp_all add: everyone_perms_row)
qed

lemma change_keeps:
  assumes ok: "roles_ok db" and held: "held_role db a = Some act" and over: "overrides act (held_role db b)"
    and user: "user_of db b = Some user" and r: "\<forall>i. r = Some i \<longrightarrow> (\<exists>row. row_at db i = Some row)"
    and db': "rd_roles db' = rd_roles db"
      "rd_users db' = map (\<lambda>u. if ru_id u = ru_id user then u\<lparr>ru_role := r\<rparr> else u) (rd_users db)"
      "rd_seq db' = rd_seq db"
  shows "roles_ok db' \<and> held_role db' a = held_role db a"
proof
  let ?f = "\<lambda>u. if ru_id u = ru_id user then u\<lparr>ru_role := r\<rparr> else u"
  have "map ru_id (rd_users db') = map ru_id (rd_users db) \<and> map ru_account (rd_users db') = map ru_account (rd_users db)"
    unfolding db' by (rule users_map_id) simp
  moreover have "\<forall>u \<in> set (rd_users db'). \<forall>i. ru_role u = Some i \<longrightarrow> i \<in> rr_id ` set (rd_roles db')"
    using ok r row_at_Some [OF ok] by (force simp: db' roles_ok_def split: if_splits)
  ultimately show "roles_ok db'" using ok db'(1,3) by (simp add: roles_ok_def)
  have ab: "a \<noteq> b" using held over by (auto simp: overrides_def)
  obtain u where u: "user_of db a = Some u" using held by (auto simp: held_role_def)
  have "ru_id u \<noteq> ru_id user"
  proof
    assume "ru_id u = ru_id user"
    with u user have "u = user"
      using ok unfolding user_of_Some [OF ok] roles_ok_def by (auto simp: distinct_map dest: inj_onD)
    with u user ab show False by (simp add: user_of_Some [OF ok])
  qed
  moreover have "user_of db' a = map_option ?f (user_of db a)"
    unfolding user_of_def db' by (rule find_map_keep) simp
  ultimately have "user_of db' a = user_of db a" using u by simp
  then show "held_role db' a = held_role db a" by (rule held_role_cong [OF db'(1)])
qed

lemma held_role_fields:
  "rd_roles db' = rd_roles db \<Longrightarrow> rd_users db' = rd_users db \<Longrightarrow> held_role db' a = held_role db a"
  by (rule held_role_cong) (simp_all add: user_of_def)

lemma roles_ok_fields:
  "rd_roles db = rd_roles db' \<Longrightarrow> rd_users db = rd_users db' \<Longrightarrow> rd_seq db' \<le> rd_seq db \<Longrightarrow> roles_ok db' \<Longrightarrow> roles_ok db"
  by (force simp: roles_ok_def)

lemma role_request_keeps:
  assumes "role_request a db db'" and ok: "roles_ok db"
  shows "roles_ok db' \<and> no_higher (held_role db' a) (held_role db a)"
  using assms(1)
proof (cases rule: role_request.cases)
  case (create auth form)
  from create_cases [OF create(1)] show ?thesis
  proof (elim disjE exE conjE)
    fix act draft assume "rd_roles db' = rd_roles db @ [row_of (rd_seq db) draft]" "rd_users db' = rd_users db"
      "rd_seq db' = rd_seq db + 1"
    from create_keeps [OF ok this(1) _ this(2,3), of a] show ?thesis by (simp add: row_of_def)
  qed (use ok roles_ok_fields [of db' db] held_role_fields [of db' db a] in auto)
next
  case (update auth i form)
  from update_cases [OF update(1)] show ?thesis
  proof (elim disjE exE conjE)
    fix act draft assume "update_draft db auth i form = Inr (act, draft)"
      and db': "rd_roles db' = map (\<lambda>r. if rr_id r = i then row_of i draft else r) (rd_roles db)"
      "rd_users db' = rd_users db" "rd_seq db' = rd_seq db"
    with update_draft_Inr [OF _ ok] update(2) obtain row where "held_role db a = Some act" "row_at db i = Some row"
      "validate form (Some row) act = Inr draft" by blast
    then show ?thesis by (rule update_keeps [OF ok _ _ _ db'])
  qed (use ok in simp)
next
  case (delete auth i)
  from delete_cases [OF delete(1)] show ?thesis
  proof (elim disjE exE conjE)
    fix u assume "delete_check db auth i = Inr u"
      and db': "rd_roles db' = filter (\<lambda>r. rr_id r \<noteq> i) (rd_roles db)"
      "rd_users db' = map (\<lambda>u. if ru_role u = Some i then u\<lparr>ru_role := None\<rparr> else u) (rd_users db)"
      "rd_seq db' = rd_seq db"
    with delete_check_Inr [OF _ ok] delete(2) obtain act where "held_role db a = Some act" "r_id act \<noteq> Some i"
      "i \<noteq> EVERYONE_ROLE_ID" by blast
    from delete_keeps [OF ok this db'] show ?thesis by simp
  qed (use ok in simp)
next
  case (change auth b v)
  from change_cases [OF change(1)] show ?thesis
  proof (elim disjE exE conjE)
    fix user r assume c: "change_check db auth b v = Inr (user, r)" and db': "rd_roles db' = rd_roles db"
      "rd_users db' = map (\<lambda>u. if ru_id u = ru_id user then u\<lparr>ru_role := r\<rparr> else u) (rd_users db)"
      "rd_seq db' = rd_seq db"
    from change_check_Inr [OF c ok] change(2) obtain act where "held_role db a = Some act"
      "overrides act (held_role db b)" "user_of db b = Some user" "\<forall>i. r = Some i \<longrightarrow> (\<exists>row. row_at db i = Some row)"
      by blast
    from change_keeps [OF ok this db'] show ?thesis by simp
  qed (use ok in simp)
next
  case (weather down)
  with ok roles_ok_fields [of db' db] held_role_fields [of db' db a] show ?thesis by simp
qed

text \<open>
  C12: No sequence of requests to create, edit, delete or hand out roles, with the database
  failing anywhere, raises the role of the account that makes them: it keeps its role and its
  position, and its computed permissions never gain a bit, not even through the everyone role.
\<close>

theorem role_requests_never_elevate:
  assumes "role_requests a db db'" and "roles_ok db"
  shows "roles_ok db' \<and> no_higher (held_role db' a) (held_role db a)"
  using assms
proof (induction rule: role_requests.induct)
  case (more db db1 db2)
  with role_request_keeps [of a db1 db2] no_higher_trans show ?case by blast
qed simp


definition editor_form :: role_form where
  "editor_form = \<lparr>f_name = None, f_color = None, f_highlighted = None, f_position = None, f_require_2fa = None,
     f_collection_limit = None, f_permissions = Some []\<rparr>"

theorem role_requests_never_elevate_witness:
  "no_higher (held_role (snd (update_admin_role sample_roles moderator (- 99) editor_form)) 11) (held_role sample_roles 11)"
proof -
  have "role_requests 11 sample_roles (snd (update_admin_role sample_roles moderator (- 99) editor_form))"
    by (rule role_requests.more [OF role_requests.none role_request.update]) (simp add: moderator_def)
  from role_requests_never_elevate [OF this sample_roles_ok] show ?thesis by simp
qed

lemmas role_sample_defs = update_admin_role_def update_draft_def require_scope_def has_scope_def moderator_def
  find_role_def role_query_def row_at_def acting_def of_account_def joined_roles_def first_row_def role_from_row_def
  everyone_permissions_def authorize_def can_update_def can_def overrides_def row_role_def actor_role_def
  validate_def editor_form_def int_attribute_def error_if_def own_role_errors_def POSITION_LIMIT_def
  from_keys_def to_i32_def in_tx_def logged_def row_of_def sample_roles_def MANAGE_ROLES_def INVITE_USERS_def
  ADMINISTRATOR_def EVERYONE_ROLE_ID_def NOBODY_POSITION_def ok_or_def map_err_def Let_def

text \<open>
  C13: A role that a request creates or changes holds no permission that the role of the account
  lacks, stands no higher than it, and is the row with the id asked for; the everyone role keeps
  to the permissions that are safe for it and to the position \<open>-1\<close>.
\<close>

theorem saved_roles_stay_below_the_actor:
  assumes "roles_ok db"
    and "db' = snd (create_admin_role db auth form) \<or> db' = snd (update_admin_role db auth i form)"
    and "r \<in> set (rd_roles db')" and "r \<notin> set (rd_roles db)"
  shows "\<exists>act. held_role db (au_account auth) = Some act \<and>
    within (rr_permissions r) (r_computed act) \<and> rr_position r \<le> r_position act \<and>
    (rr_id r = EVERYONE_ROLE_ID \<longrightarrow> within (rr_permissions r) flag_SAFE \<and> rr_position r = NOBODY_POSITION) \<and>
    rr_id r \<in> {i, rd_seq db}"
  using assms(2)
proof
  assume "db' = snd (create_admin_role db auth form)"
  from create_cases [OF this] assms(3,4) obtain act draft where
    d: "create_draft db auth form = Inr (act, draft)" and r: "r = row_of (rd_seq db) draft" by auto
  have "EVERYONE_ROLE_ID \<noteq> rd_seq db" using assms(1) by (simp add: roles_ok_def EVERYONE_ROLE_ID_def)
  with create_draft_Inr [OF d assms(1)] validate_Inr(1,2) [of form None act draft] show ?thesis
    by (simp add: r row_of_def)
next
  assume "db' = snd (update_admin_role db auth i form)"
  from update_cases [OF this] assms(3,4) obtain act draft where
    d: "update_draft db auth i form = Inr (act, draft)" and r: "r = row_of i draft" by (auto split: if_splits)
  from update_draft_Inr [OF d assms(1)] obtain row where row: "held_role db (au_account auth) = Some act"
    "row_at db i = Some row" "validate form (Some row) act = Inr draft" by blast
  from validate_Inr(1-3) [OF row(3)] row(1,2) show ?thesis
    by (simp add: r row_of_def row_at_Some [OF assms(1)])
qed

theorem saved_roles_stay_below_the_actor_witness:
  "\<exists>r. r \<in> set (rd_roles (snd (update_admin_role sample_roles moderator (- 99) editor_form))) \<and>
    within (rr_permissions r) flag_SAFE \<and> rr_permissions r \<noteq> INVITE_USERS"
proof -
  let ?db' = "snd (update_admin_role sample_roles moderator (- 99) editor_form)"
  let ?r = "\<lparr>rr_id = - 99, rr_name = [], rr_color = [], rr_position = - 1, rr_permissions = 0,
         rr_highlighted = False, rr_collection_limit = 10, rr_require_2fa = False\<rparr>"
  have r: "?r \<in> set (rd_roles ?db')"
    by (simp add: role_sample_defs)
  have "?r \<notin> set (rd_roles sample_roles)" by (simp add: sample_roles_def INVITE_USERS_def)
  from saved_roles_stay_below_the_actor [OF sample_roles_ok disjI2 [OF refl] r this]
  have "within (rr_permissions ?r) flag_SAFE" by (auto simp: EVERYONE_ROLE_ID_def)
  with r show ?thesis by (intro exI [of _ ?r]) (simp add: INVITE_USERS_def)
qed

text \<open>
  The limit of collections is checked to be no less than nought before it is cut to 32 bits,
  so a request for three thousand million collections passes and a negative limit is saved.
\<close>

theorem collection_limit_wraps:
  "\<exists>draft. validate (editor_form\<lparr>f_name := Some ''Curator'', f_collection_limit := Some (VInt 3000000000)\<rparr>) None
      (nobody\<lparr>r_position := 10, r_computed := flag_ALL\<rparr>) = Inr draft \<and>
    d_collection_limit draft = - 1294967296"
  by (simp add: validate_def editor_form_def int_attribute_def as_i64_def error_if_def own_role_errors_def
    POSITION_LIMIT_def from_keys_def to_i32_def nobody_def trimmed_def trim_end_def is_space_def code_def ok_or_def Let_def)

end
