(* ===== verification/Utf8.thy ===== *)
theory Utf8
  imports RustText
begin

text \<open>
  \<^verbatim>\<open>str::from_utf8\<close> as Rust's validation has it, and the encoding of a string as bytes.
  A string is a list of code points, a byte a natural number below 256.
\<close>

definition scalar :: "nat \<Rightarrow> bool" where
  "scalar c \<longleftrightarrow> c < 55296 \<or> 57344 \<le> c \<and> c < 1114112"

definition utf8_char :: "nat \<Rightarrow> nat list" where
  "utf8_char c =
     (if c < 128 then [c]
      else if c < 2048 then [192 + c div 64, 128 + c mod 64]
      else if c < 65536 then [224 + c div 4096, 128 + c div 64 mod 64, 128 + c mod 64]
      else [240 + c div 262144, 128 + c div 4096 mod 64, 128 + c div 64 mod 64, 128 + c mod 64])"

definition utf8_encode :: "nat list \<Rightarrow> nat list" where
  "utf8_encode s = concat (map utf8_char s)"

definition tail_byte :: "nat \<Rightarrow> bool" where
  "tail_byte b \<longleftrightarrow> 128 \<le> b \<and> b < 192"

definition second_of_3 :: "nat \<Rightarrow> nat \<Rightarrow> bool" where
  "second_of_3 a b \<longleftrightarrow> tail_byte b \<and> (a = 224 \<longrightarrow> 160 \<le> b) \<and> (a = 237 \<longrightarrow> b < 160)"

definition second_of_4 :: "nat \<Rightarrow> nat \<Rightarrow> bool" where
  "second_of_4 a b \<longleftrightarrow> tail_byte b \<and> (a = 240 \<longrightarrow> 144 \<le> b) \<and> (a = 244 \<longrightarrow> b < 144)"

text \<open>The first character of some bytes, and how many bytes it takes; \<open>None\<close> where they are not UTF-8.\<close>

definition utf8_next :: "nat list \<Rightarrow> (nat \<times> nat) option" where
  "utf8_next bs = (case bs of
      [] \<Rightarrow> None
    | a # r \<Rightarrow>
        if a < 128 then Some (a, 1)
        else if 194 \<le> a \<and> a < 224 then
          (case r of b # _ \<Rightarrow> if tail_byte b then Some ((a - 192) * 64 + (b - 128), 2) else None | _ \<Rightarrow> None)
        else if 224 \<le> a \<and> a < 240 then
          (case r of b # c # _ \<Rightarrow> if second_of_3 a b \<and> tail_byte c
             then Some ((a - 224) * 4096 + (b - 128) * 64 + (c - 128), 3) else None | _ \<Rightarrow> None)
        else if 240 \<le> a \<and> a < 245 then
          (case r of b # c # d # _ \<Rightarrow> if second_of_4 a b \<and> tail_byte c \<and> tail_byte d
             then Some ((a - 240) * 262144 + (b - 128) * 4096 + (c - 128) * 64 + (d - 128), 4) else None | _ \<Rightarrow> None)
        else None)"

lemma utf8_next_size: "utf8_next bs = Some (c, n) \<Longrightarrow> 0 < n \<and> n \<le> length bs"
  by (auto simp: utf8_next_def split: list.splits if_splits)

text \<open>The string, or how many bytes were valid (\<^verbatim>\<open>valid_up_to\<close>).\<close>

function from_utf8 :: "nat list \<Rightarrow> nat \<Rightarrow> nat + nat list" where
  "from_utf8 bs at =
     (if bs = [] then Inr []
      else case utf8_next bs of
        None \<Rightarrow> Inl at
      | Some (c, n) \<Rightarrow> (case from_utf8 (drop n bs) (at + n) of Inl e \<Rightarrow> Inl e | Inr s \<Rightarrow> Inr (c # s)))"
  by pat_completeness auto
termination
  by (relation "measure (\<lambda>(bs, at). length bs)") (auto dest!: utf8_next_size)

declare from_utf8.simps [simp del]

lemma utf8_next_char:
  assumes "scalar c"
  shows "utf8_next (utf8_char c @ r) = Some (c, length (utf8_char c)) \<and> utf8_char c \<noteq> []"
proof -
  consider (one) "c < 128" | (two) "128 \<le> c" "c < 2048" | (three) "2048 \<le> c" "c < 65536" | (four) "65536 \<le> c" "c < 1114112"
    using assms unfolding scalar_def by linarith
  then show ?thesis
  proof cases
    case three
    have "c div 64 div 64 = c div 4096" by (simp add: div_mult2_eq [symmetric])
    with div_mult_mod_eq [of c 64] div_mult_mod_eq [of "c div 64" 64]
    have parts: "c = c div 4096 * 4096 + c div 64 mod 64 * 64 + c mod 64" by linarith
    have hi: "c div 4096 < 16" using three by (simp add: less_mult_imp_div_less)
    have "second_of_3 (224 + c div 4096) (128 + c div 64 mod 64)"
      unfolding second_of_3_def tail_byte_def
    proof (intro conjI impI)
      assume "224 + c div 4096 = 224"
      then have "c < 4096" by simp
      with three have "c div 64 < 64" "32 \<le> c div 64" by (auto simp: less_mult_imp_div_less div_le_mono [of 2048 c 64, simplified])
      then show "160 \<le> 128 + c div 64 mod 64" by simp
    next
      assume "224 + c div 4096 = 237"
      then have "c div 4096 = 13" by simp
      with parts have "c = 53248 + c div 64 mod 64 * 64 + c mod 64" by simp
      with assms three show "128 + c div 64 mod 64 < 160" by (simp add: scalar_def) linarith
    qed simp_all
    with three hi parts show ?thesis
      by (simp add: utf8_char_def utf8_next_def tail_byte_def)
  next
    case four
    have "c div 64 div 64 = c div 4096" "c div 4096 div 64 = c div 262144" by (simp_all add: div_mult2_eq [symmetric])
    with div_mult_mod_eq [of c 64] div_mult_mod_eq [of "c div 64" 64] div_mult_mod_eq [of "c div 4096" 64]
    have parts: "c = c div 262144 * 262144 + c div 4096 mod 64 * 4096 + c div 64 mod 64 * 64 + c mod 64" by linarith
    have hi: "c div 262144 < 5" using four by (simp add: less_mult_imp_div_less)
    have "second_of_4 (240 + c div 262144) (128 + c div 4096 mod 64)"
      unfolding second_of_4_def tail_byte_def
    proof (intro conjI impI)
      assume "240 + c div 262144 = 240"
      then have "c < 262144" by simp
      with four have "c div 4096 < 64" "16 \<le> c div 4096" by (auto simp: less_mult_imp_div_less div_le_mono [of 65536 c 4096, simplified])
      then show "144 \<le> 128 + c div 4096 mod 64" by simp
    next
      assume "240 + c div 262144 = 244"
      then have "c div 262144 = 4" by simp
      with parts have "c = 1048576 + c div 4096 mod 64 * 4096 + c div 64 mod 64 * 64 + c mod 64" by simp
      with four show "128 + c div 4096 mod 64 < 144" by linarith
    qed simp_all
    with four hi parts show ?thesis
      by (simp add: utf8_char_def utf8_next_def tail_byte_def)
  qed (auto simp: utf8_char_def utf8_next_def tail_byte_def less_mult_imp_div_less)
qed

lemma from_utf8_encode: "list_all scalar s \<Longrightarrow> from_utf8 (utf8_encode s) at = Inr s"
proof (induction s arbitrary: at)
  case (Cons c s)
  then have "scalar c" by simp
  from utf8_next_char [OF this, of "utf8_encode s"] Cons show ?case
    by (simp add: from_utf8.simps [of "utf8_char c @ _"] utf8_encode_def)
qed (simp add: utf8_encode_def from_utf8.simps)


section \<open>Lossy decoding\<close>

text \<open>How many bytes of a malformed sequence one replacement character (65533) stands for.\<close>

definition bad_length :: "nat list \<Rightarrow> nat" where
  "bad_length bs = (case bs of
      a # b # r \<Rightarrow>
        if 224 \<le> a \<and> a < 240 \<and> second_of_3 a b then 2
        else if 240 \<le> a \<and> a < 245 \<and> second_of_4 a b
          then (case r of c # _ \<Rightarrow> if tail_byte c then 3 else 2 | [] \<Rightarrow> 2)
        else 1
    | _ \<Rightarrow> 1)"

lemma bad_length_pos: "0 < bad_length bs"
  by (auto simp: bad_length_def split: list.splits)

function from_utf8_lossy :: "nat list \<Rightarrow> nat list" where
  "from_utf8_lossy bs =
     (if bs = [] then []
      else case utf8_next bs of
        Some (c, n) \<Rightarrow> c # from_utf8_lossy (drop n bs)
      | None \<Rightarrow> 65533 # from_utf8_lossy (drop (bad_length bs) bs))"
  by pat_completeness auto
termination
  by (relation "measure length") (auto dest!: utf8_next_size simp: bad_length_pos)

declare from_utf8_lossy.simps [simp del]

fun from_utf16_lossy :: "nat list \<Rightarrow> nat list" where
  "from_utf16_lossy [] = []"
| "from_utf16_lossy [u] = [if 55296 \<le> u \<and> u < 57344 then 65533 else u]"
| "from_utf16_lossy (u # v # us) =
     (if 55296 \<le> u \<and> u < 56320 \<and> 56320 \<le> v \<and> v < 57344
      then (65536 + (u - 55296) * 1024 + (v - 56320)) # from_utf16_lossy us
      else (if 55296 \<le> u \<and> u < 57344 then 65533 else u) # from_utf16_lossy (v # us))"

text \<open>\<^verbatim>\<open>split_ascii_whitespace\<close>\<close>

definition ascii_space :: "nat \<Rightarrow> bool" where
  "ascii_space c \<longleftrightarrow> c \<in> {9, 10, 12, 13, 32}"

fun ascii_words :: "nat list \<Rightarrow> nat list \<Rightarrow> nat list list" where
  "ascii_words w [] = (if w = [] then [] else [w])"
| "ascii_words w (c # s) =
     (if ascii_space c then (if w = [] then ascii_words [] s else w # ascii_words [] s) else ascii_words (w @ [c]) s)"

fun join_words :: "nat list list \<Rightarrow> nat list" where
  "join_words [] = []"
| "join_words [w] = w"
| "join_words (w # ws) = w @ 32 # join_words ws"

definition ascii_lower :: "nat \<Rightarrow> nat" where
  "ascii_lower c = (if 65 \<le> c \<and> c \<le> 90 then c + 32 else c)"

end
