(* ===== verification/Der.thy ===== *)
theory Der
  imports Errors Utf8
begin

text \<open>
  \<^verbatim>\<open>src/webauthn/der.rs\<close>: reading DER. A byte is a natural number below 256, so a shift is a
  division or a multiplication and a mask a remainder; the code's checks keep the tag within
  32 bits and a length within 32, so nothing wraps.
\<close>

type_synonym bytes = "nat list"

text \<open>\<open>Panicked\<close> is a panic of the code, where it slices a string inside a character.\<close>

datatype webauthn_error = Invalid string | Panicked

definition CLASS_UNIVERSAL :: nat where "CLASS_UNIVERSAL = 0"
definition CLASS_CONTEXT :: nat where "CLASS_CONTEXT = 2"

definition BOOLEAN :: nat where "BOOLEAN = 1"
definition INTEGER :: nat where "INTEGER = 2"
definition BIT_STRING :: nat where "BIT_STRING = 3"
definition OCTET_STRING :: nat where "OCTET_STRING = 4"
definition OID :: nat where "OID = 6"
definition SEQUENCE :: nat where "SEQUENCE = 16"
definition SET :: nat where "SET = 17"
definition UTC_TIME :: nat where "UTC_TIME = 23"
definition GENERALIZED_TIME :: nat where "GENERALIZED_TIME = 24"

record tlv =
  t_class :: nat
  t_constructed :: bool
  t_tag :: nat
  t_value :: bytes
  t_raw :: bytes

section \<open>Reading one value\<close>

definition ends_early :: webauthn_error where
  "ends_early = Invalid ''DER ends early''"

text \<open>The high tag number form, and how many bytes it takes.\<close>

fun read_high_tag :: "nat \<Rightarrow> nat \<Rightarrow> bytes \<Rightarrow> webauthn_error + nat \<times> nat" where
  "read_high_tag tag n [] = Inl ends_early"
| "read_high_tag tag n (b # bs) =
     (if tag > (2 ^ 32 - 1) div 2 ^ 7 then Inl (Invalid ''DER tag is too large'')
      else let tag' = tag * 2 ^ 7 + b mod 2 ^ 7 in
        if b < 2 ^ 7 then Inr (tag', n + 1) else read_high_tag tag' (n + 1) bs)"

fun read_length :: "nat \<Rightarrow> nat \<Rightarrow> bytes \<Rightarrow> webauthn_error + nat" where
  "read_length 0 len bs = Inr len"
| "read_length (Suc n) len [] = Inl ends_early"
| "read_length (Suc n) len (b # bs) = read_length n (len * 2 ^ 8 + b) bs"

text \<open>The tag and how many bytes it takes, after the first.\<close>

definition read_tag :: "nat \<Rightarrow> bytes \<Rightarrow> webauthn_error + nat \<times> nat" where
  "read_tag first rest =
     (let tag = first mod 2 ^ 5 in if tag = 31 then read_high_tag 0 0 rest else Inr (tag, 0))"

text \<open>The length of the contents and how many bytes it takes.\<close>

definition read_len :: "bytes \<Rightarrow> webauthn_error + nat \<times> nat" where
  "read_len bs = (case bs of
      [] \<Rightarrow> Inl ends_early
    | len_byte # rest \<Rightarrow>
        if len_byte < 128 then Inr (len_byte, 1)
        else let n = len_byte mod 2 ^ 7 in
          if n = 0 \<or> n > 4 then Inl (Invalid ''unsupported DER length'')
          else res_bind (read_length n 0 rest) (\<lambda>len. Inr (len, n + 1)))"

definition read :: "bytes \<Rightarrow> webauthn_error + tlv \<times> bytes" where
  "read input = (case input of
      [] \<Rightarrow> Inl ends_early
    | first # rest \<Rightarrow>
        res_bind (read_tag first rest) (\<lambda>(tag, n).
        res_bind (read_len (drop n rest)) (\<lambda>(len, m).
        let pos = 1 + n + m; end = pos + len in
        if end \<le> length input
        then Inr (\<lparr>t_class = first div 2 ^ 6, t_constructed = odd (first div 2 ^ 5), t_tag = tag,
               t_value = take len (drop pos input), t_raw = take end input\<rparr>, drop end input)
        else Inl (Invalid ''DER length overruns the data''))))"

definition tlv_parse :: "bytes \<Rightarrow> webauthn_error + tlv" where
  "tlv_parse bytes = res_bind (read bytes) (\<lambda>(tlv, rest).
     if rest \<noteq> [] then Inl (Invalid ''DER has trailing bytes'') else Inr tlv)"

section \<open>What a value holds\<close>

definition tlv_is :: "tlv \<Rightarrow> nat \<Rightarrow> nat \<Rightarrow> bool" where
  "tlv_is self cls tag \<longleftrightarrow> t_class self = cls \<and> t_tag self = tag"

definition is_universal :: "tlv \<Rightarrow> nat \<Rightarrow> bool" where
  "is_universal self tag = tlv_is self CLASS_UNIVERSAL tag"

lemma read_raw:
  assumes "read input = Inr (tlv, rest)"
  shows "input = t_raw tlv @ rest \<and> t_raw tlv \<noteq> []"
  using assms by (auto simp: read_def res_bind_eq_Inr Let_def split: list.splits prod.splits if_splits)

text \<open>\<^verbatim>\<open>while !rest.is_empty() { out.push(read(&mut rest)?) }\<close>\<close>

lemma read_shorter: "read input = Inr (tlv, rest) \<Longrightarrow> length rest < length input"
  using read_raw by (metis add_strict_increasing length_append length_greater_0_conv le_refl)

function read_all :: "bytes \<Rightarrow> webauthn_error + tlv list" where
  "read_all rest =
     (if rest = [] then Inr []
      else case read rest of
        Inl e \<Rightarrow> Inl e
      | Inr (t, rest') \<Rightarrow> (case read_all rest' of Inl e \<Rightarrow> Inl e | Inr ts \<Rightarrow> Inr (t # ts)))"
  by pat_completeness auto
termination
  by (relation "measure length") (auto dest: read_shorter)

declare read_all.simps [simp del]

definition children :: "tlv \<Rightarrow> webauthn_error + tlv list" where
  "children self = (if \<not> t_constructed self then Inl (Invalid ''DER value is not constructed'')
     else read_all (t_value self))"

definition tlv_sequence :: "tlv \<Rightarrow> webauthn_error + tlv list" where
  "tlv_sequence self = (if \<not> is_universal self SEQUENCE then Inl (Invalid ''DER value is not a SEQUENCE'')
     else children self)"

definition octets :: "tlv \<Rightarrow> webauthn_error + bytes" where
  "octets self = (if \<not> is_universal self OCTET_STRING \<or> t_constructed self
     then Inl (Invalid ''DER value is not an OCTET STRING'') else Inr (t_value self))"

definition tlv_bits :: "tlv \<Rightarrow> webauthn_error + bytes" where
  "tlv_bits self = (if \<not> is_universal self BIT_STRING \<or> t_constructed self
     then Inl (Invalid ''DER value is not a BIT STRING'')
     else case t_value self of
       [] \<Rightarrow> Inl (Invalid ''BIT STRING has unused bits'')
     | b # bits \<Rightarrow> if b = 0 then Inr bits else Inl (Invalid ''BIT STRING has unused bits''))"

definition tlv_oid :: "tlv \<Rightarrow> webauthn_error + bytes" where
  "tlv_oid self = (if \<not> is_universal self OID \<or> t_constructed self
     then Inl (Invalid ''DER value is not an OBJECT IDENTIFIER'') else Inr (t_value self))"

definition tlv_boolean :: "tlv \<Rightarrow> webauthn_error + bool" where
  "tlv_boolean self = (if \<not> is_universal self BOOLEAN \<or> length (t_value self) \<noteq> 1
     then Inl (Invalid ''DER value is not a BOOLEAN'') else Inr (hd (t_value self) \<noteq> 0))"

definition small_uint :: "tlv \<Rightarrow> webauthn_error + nat" where
  "small_uint self =
     (let bytes = t_value self in
      if \<not> is_universal self INTEGER \<and> \<not> is_universal self 10 then Inl (Invalid ''DER value is not an INTEGER'')
      else if bytes = [] \<or> 128 \<le> hd bytes then Inl (Invalid ''INTEGER is negative or empty'')
      else let bytes = (if hd bytes = 0 \<and> tl bytes \<noteq> [] then tl bytes else bytes) in
        if length bytes > 8 then Inl (Invalid ''INTEGER is too large'')
        else Inr (foldl (\<lambda>n b. n * 2 ^ 8 + b) 0 bytes))"

fun strip_zeroes :: "bytes \<Rightarrow> bytes" where
  "strip_zeroes (b # c # bs) = (if b = 0 then strip_zeroes (c # bs) else b # c # bs)"
| "strip_zeroes bs = bs"

definition unsigned_bytes :: "tlv \<Rightarrow> webauthn_error + bytes" where
  "unsigned_bytes self =
     (if \<not> is_universal self INTEGER \<or> t_value self = [] \<or> 128 \<le> hd (t_value self)
      then Inl (Invalid ''DER value is not a non-negative INTEGER'') else Inr (strip_zeroes (t_value self)))"

section \<open>Object identifiers\<close>

text \<open>Base 128, the high bit set on all but the last digit; the numbers are below \<open>2 ^ 64\<close>.\<close>

fun high_digits :: "nat \<Rightarrow> bytes" where
  "high_digits n = (if n = 0 then [] else high_digits (n div 2 ^ 7) @ [128 + n mod 2 ^ 7])"

declare high_digits.simps [simp del]

definition base_128 :: "nat \<Rightarrow> bytes" where
  "base_128 n = high_digits (n div 2 ^ 7) @ [n mod 2 ^ 7]"

text \<open>The code's \<^verbatim>\<open>oid\<close> on the arcs of the dotted form.\<close>

definition oid_of :: "nat list \<Rightarrow> bytes" where
  "oid_of arcs = base_128 (arcs ! 0 * 40 + arcs ! 1) @ concat (map base_128 (drop 2 arcs))"

text \<open>\<^verbatim>\<open>parse().unwrap()\<close> of each arc; the code only calls it with constants.\<close>

definition oid :: "string \<Rightarrow> bytes" where
  "oid dotted = oid_of (map (\<lambda>a. the (parse_unsigned 64 a)) (split_by (\<lambda>c. c = CHR ''.'') dotted))"

section \<open>The encoding a value is read from\<close>

text \<open>
  The encoding rules of X.690 with the shortest forms, as a reference: what \<open>read\<close> is the
  inverse of.
\<close>

definition der_tag :: "nat \<Rightarrow> bool \<Rightarrow> nat \<Rightarrow> bytes" where
  "der_tag cls constructed tag =
     (let first = cls * 64 + (if constructed then 32 else 0) in
      if tag < 31 then [first + tag] else (first + 31) # base_128 tag)"

fun be_bytes :: "nat \<Rightarrow> bytes" where
  "be_bytes n = (if n = 0 then [] else be_bytes (n div 256) @ [n mod 256])"

declare be_bytes.simps [simp del]

definition der_len :: "nat \<Rightarrow> bytes" where
  "der_len n = (if n < 128 then [n] else (128 + length (be_bytes n)) # be_bytes n)"

definition der_encode :: "nat \<Rightarrow> bool \<Rightarrow> nat \<Rightarrow> bytes \<Rightarrow> bytes" where
  "der_encode cls constructed tag value = der_tag cls constructed tag @ der_len (length value) @ value"

end
