(* ===== verification/DerTheorems.thy ===== *)
theory DerTheorems
  imports Der
begin

text \<open>
  The properties of the DER reader: it is the inverse of the encoding, it loses no byte, and
  the encodings of two object identifiers are the same only when the identifiers are.
\<close>

section \<open>Numbers\<close>

lemma read_high_digits:
  "m \<le> (2 ^ 32 - 1) div 2 ^ 7 \<Longrightarrow>
   read_high_tag 0 n (high_digits m @ bs) = read_high_tag m (n + length (high_digits m)) bs"
proof (induction m arbitrary: bs rule: high_digits.induct)
  case (1 m)
  show ?case
  proof (cases "m = 0")
    case True
    then show ?thesis by (simp add: high_digits.simps)
  next
    case False
    then have d: "high_digits m = high_digits (m div 2 ^ 7) @ [128 + m mod 2 ^ 7]" by (simp add: high_digits.simps [of m])
    have "m div 2 ^ 7 \<le> m" by simp
    with "1.prems" have le: "m div 2 ^ 7 \<le> (2 ^ 32 - 1) div 2 ^ 7" by (rule order_trans [rotated])
    from "1.IH" [OF False le, of "(128 + m mod 2 ^ 7) # bs"] le show ?thesis
      unfolding d by (simp add: Let_def mod_add_left_eq [of 128 128, symmetric])
  qed
qed

lemma read_base_128:
  assumes "m < 2 ^ 32"
  shows "read_high_tag 0 n (base_128 m @ bs) = Inr (m, n + length (base_128 m))"
proof -
  have "m div 2 ^ 7 \<le> (2 ^ 32 - 1) div 2 ^ 7" using assms by (intro div_le_mono) simp
  from read_high_digits [OF this, of n "[m mod 2 ^ 7] @ bs"] this show ?thesis
    by (simp add: base_128_def Let_def)
qed

lemma read_be_bytes:
  "read_length (length (be_bytes m) + k) 0 (be_bytes m @ bs) = read_length k m bs"
proof (induction m arbitrary: k bs rule: be_bytes.induct)
  case (1 m)
  show ?case
  proof (cases "m = 0")
    case False
    then have d: "be_bytes m = be_bytes (m div 256) @ [m mod 256]" by (simp add: be_bytes.simps [of m])
    from "1.IH" [OF False, of "Suc k" "(m mod 256) # bs"] show ?thesis unfolding d by simp
  qed (simp add: be_bytes.simps)
qed

lemma be_bytes_length: "m < 256 ^ k \<Longrightarrow> length (be_bytes m) \<le> k"
proof (induction m arbitrary: k rule: be_bytes.induct)
  case (1 m)
  show ?case
  proof (cases "m = 0")
    case False
    with "1.prems" obtain j where k: "k = Suc j" by (cases k) auto
    with "1.prems" have "m div 256 < 256 ^ j" by (simp add: less_mult_imp_div_less mult.commute)
    with "1.IH" [OF False] k False show ?thesis by (simp add: be_bytes.simps [of m])
  qed (simp add: be_bytes.simps)
qed

lemma read_len_der:
  assumes "n < 2 ^ 32"
  shows "read_len (der_len n @ r) = Inr (n, length (der_len n))"
proof (cases "n < 128")
  case False
  have "length (be_bytes n) \<le> 4" using assms by (intro be_bytes_length) simp
  moreover from False have "be_bytes n \<noteq> []" by (simp add: be_bytes.simps [of n])
  moreover have "read_length (length (be_bytes n)) 0 (be_bytes n @ r) = Inr n" using read_be_bytes [of n 0 r] by simp
  ultimately show ?thesis using False
    by (simp add: der_len_def read_len_def Let_def mod_add_left_eq [of 128 128, symmetric])
qed (simp add: der_len_def read_len_def)

lemma first_byte:
  assumes "t < 32" and "k < (2::nat)"
  shows "(cls * 64 + k * 32 + t) mod 32 = t" and "(cls * 64 + k * 32 + t) div 32 = cls * 2 + k"
    and "(cls * 64 + k * 32 + t) div 64 = cls"
proof -
  have x: "cls * 64 + k * 32 + t = t + (cls * 2 + k) * 32" by simp
  show "(cls * 64 + k * 32 + t) mod 32 = t" unfolding x mod_mult_self1 using assms(1) by simp
  show d: "(cls * 64 + k * 32 + t) div 32 = cls * 2 + k"
    unfolding x using assms(1) by (subst div_mult_self1) simp_all
  have "(cls * 64 + k * 32 + t) div 64 = (cls * 64 + k * 32 + t) div 32 div 2" by (simp add: div_mult2_eq [symmetric])
  also have "\<dots> = cls" unfolding d using assms(2) by simp
  finally show "(cls * 64 + k * 32 + t) div 64 = cls" .
qed

lemma read_tag_der:
  assumes "tag < 2 ^ 32"
  shows "\<exists>b bs. der_tag cls constructed tag = b # bs \<and> b div 2 ^ 6 = cls \<and> odd (b div 2 ^ 5) = constructed \<and>
    read_tag b (bs @ r) = Inr (tag, length bs)"
proof (cases "tag < 31")
  case True
  with first_byte [of tag "if constructed then 1 else 0" cls] show ?thesis
    by (auto simp: der_tag_def read_tag_def Let_def split: if_splits)
next
  case False
  with first_byte [of 31 "if constructed then 1 else 0" cls] read_base_128 [OF assms, of 0 r] show ?thesis
    by (auto simp: der_tag_def read_tag_def Let_def split: if_splits)
qed

text \<open>
  C30: Reading inverts the encoding: off the front of the encoding of any class, tag below
  \<open>2 ^ 32\<close> (the high tag number form included) and contents below \<open>2 ^ 32\<close> bytes, followed by
  anything, \<open>read\<close> takes exactly that value, with the bytes it was read from, and leaves the rest.
\<close>

theorem der_round_trip:
  assumes "tag < 2 ^ 32" and "length value < 2 ^ 32"
  shows "read (der_encode cls constructed tag value @ rest) =
    Inr (\<lparr>t_class = cls, t_constructed = constructed, t_tag = tag, t_value = value,
      t_raw = der_encode cls constructed tag value\<rparr>, rest)"
proof -
  obtain b bs where tag: "der_tag cls constructed tag = b # bs" "b div 2 ^ 6 = cls" "odd (b div 2 ^ 5) = constructed"
    "read_tag b (bs @ der_len (length value) @ value @ rest) = Inr (tag, length bs)"
    using read_tag_der [OF assms(1)] by blast
  have "read_len (der_len (length value) @ value @ rest) = Inr (length value, length (der_len (length value)))"
    by (rule read_len_der [OF assms(2)])
  with tag show ?thesis by (simp add: read_def der_encode_def Let_def)
qed

theorem der_round_trip_witness:
  "read (der_encode 2 True 702 [2, 1, 0] @ [5, 0]) =
   Inr (\<lparr>t_class = 2, t_constructed = True, t_tag = 702, t_value = [2, 1, 0],
     t_raw = der_encode 2 True 702 [2, 1, 0]\<rparr>, [5, 0])"
  by (rule der_round_trip) simp_all

section \<open>No byte is lost\<close>

lemma read_value:
  assumes "read input = Inr (tlv, rest)"
  shows "\<exists>header. header \<noteq> [] \<and> t_raw tlv = header @ t_value tlv"
proof -
  from assms obtain a where a: "0 < a" "a + length (t_value tlv) \<le> length input"
      "t_value tlv = take (length (t_value tlv)) (drop a input)" "t_raw tlv = take (a + length (t_value tlv)) input"
    by (auto simp: read_def res_bind_eq_Inr Let_def split: list.splits prod.splits if_splits) fastforce
  then have "t_raw tlv = take a input @ t_value tlv" by (simp add: take_add)
  with a show ?thesis by (intro exI [of _ "take a input"]) auto
qed

lemma read_all_raw:
  "read_all bs = Inr ts \<Longrightarrow> concat (map t_raw ts) = bs \<and> (\<forall>t \<in> set ts. \<exists>r r'. read r = Inr (t, r'))"
proof (induction bs arbitrary: ts rule: read_all.induct)
  case (1 bs)
  show ?case
  proof (cases "bs = []")
    case False
    with "1.prems" obtain t rest ts' where r: "read bs = Inr (t, rest)" "read_all rest = Inr ts'" "ts = t # ts'"
      by (subst (asm) read_all.simps) (auto split: sum.splits)
    with "1.IH" [OF False r(1) refl r(2)] read_raw [OF r(1)] show ?thesis by auto
  qed (use "1.prems" in \<open>simp add: read_all.simps\<close>)
qed

text \<open>
  The children of a value are its contents: their encodings, one after the other, are
  exactly the bytes of the contents, and each child's own contents end its encoding, after a
  header of at least a byte.
\<close>

theorem children_are_the_contents:
  assumes "children tlv = Inr ts"
  shows "concat (map t_raw ts) = t_value tlv \<and>
    (\<forall>t \<in> set ts. \<exists>header. header \<noteq> [] \<and> t_raw t = header @ t_value t)"
proof -
  have "read_all (t_value tlv) = Inr ts" using assms by (simp add: children_def split: if_splits)
  from read_all_raw [OF this] read_value show ?thesis by metis
qed

theorem children_are_the_contents_witness:
  "\<exists>ts. children \<lparr>t_class = 0, t_constructed = True, t_tag = 16, t_value = [2, 1, 7, 5, 0], t_raw = [48, 5, 2, 1, 7, 5, 0]\<rparr> = Inr ts \<and>
    concat (map t_raw ts) = [2, 1, 7, 5, 0]"
proof -
  let ?t = "\<lparr>t_class = 0, t_constructed = True, t_tag = 16, t_value = [2, 1, 7, 5, 0], t_raw = [48, 5, 2, 1, 7, 5, 0]\<rparr>"
  have "children ?t = Inr [\<lparr>t_class = 0, t_constructed = False, t_tag = 2, t_value = [7], t_raw = [2, 1, 7]\<rparr>,
    \<lparr>t_class = 0, t_constructed = False, t_tag = 5, t_value = [], t_raw = [5, 0]\<rparr>]"
    by code_simp
  from children_are_the_contents [OF this] this show ?thesis by simp
qed

section \<open>Object identifiers\<close>

lemma high_digits_value: "foldl (\<lambda>n b. n * 128 + (b - 128)) 0 (high_digits m) = m"
proof (induction m rule: high_digits.induct)
  case (1 m)
  then show ?case by (cases "m = 0") (simp_all add: high_digits.simps [of m] high_digits.simps [of 0])
qed

lemma high_digits_high: "b \<in> set (high_digits m) \<Longrightarrow> 128 \<le> b"
proof (induction m rule: high_digits.induct)
  case (1 m)
  then show ?case by (cases "m = 0") (auto simp: high_digits.simps [of m] high_digits.simps [of 0])
qed

lemma base_128_prefix:
  assumes "base_128 a @ x = base_128 b @ y"
  shows "a = b \<and> x = y"
proof -
  have t: "takeWhile (\<lambda>b. 128 \<le> b) (base_128 n @ z) = high_digits (n div 2 ^ 7) \<and>
      dropWhile (\<lambda>b. 128 \<le> b) (base_128 n @ z) = (n mod 2 ^ 7) # z" for n z
    using high_digits_high by (simp add: base_128_def takeWhile_append2 dropWhile_append2)
  from t [of a x] t [of b y] assms have "high_digits (a div 2 ^ 7) = high_digits (b div 2 ^ 7)"
    "(a mod 2 ^ 7) # x = (b mod 2 ^ 7) # y" by metis+
  then have "a div 2 ^ 7 = b div 2 ^ 7" "a mod 2 ^ 7 = b mod 2 ^ 7" "x = y"
    using high_digits_value [of "a div 2 ^ 7"] high_digits_value [of "b div 2 ^ 7"] by auto
  then show ?thesis using div_mult_mod_eq [of a "2 ^ 7"] div_mult_mod_eq [of b "2 ^ 7"] by metis
qed

lemma base_128_concat: "concat (map base_128 xs) = concat (map base_128 ys) \<Longrightarrow> xs = ys"
proof (induction xs arbitrary: ys)
  case Nil
  then show ?case by (cases ys) (simp_all add: base_128_def)
next
  case (Cons x xs)
  note IH = Cons.IH and eq = Cons.prems
  have "base_128 x \<noteq> []" by (simp add: base_128_def)
  with eq obtain y ys' where ys: "ys = y # ys'" by (cases ys) auto
  with eq have "base_128 x @ concat (map base_128 xs) = base_128 y @ concat (map base_128 ys')" by simp
  from base_128_prefix [OF this] IH ys show ?case by simp
qed

text \<open>
  Comparing the contents of an object identifier with the encoding of a dotted form compares
  the identifiers: two lists of arcs (the second below 40, as the first is below 2) have the
  same encoding only when they are the same.
\<close>

theorem oid_encoding_is_injective:
  assumes "oid_of (a # b # arcs) = oid_of (c # d # arcs')" and "b < 40" and "d < 40"
  shows "a = c \<and> b = d \<and> arcs = arcs'"
proof -
  from assms(1) have "base_128 (a * 40 + b) @ concat (map base_128 arcs) = base_128 (c * 40 + d) @ concat (map base_128 arcs')"
    by (simp add: oid_of_def)
  from base_128_prefix [OF this] have eq: "a * 40 + b = c * 40 + d" and "arcs = arcs'" using base_128_concat by auto
  moreover have "(a * 40 + b) div 40 = a" "(c * 40 + d) div 40 = c" "(a * 40 + b) mod 40 = b" "(c * 40 + d) mod 40 = d"
    using assms(2,3) by simp_all
  ultimately show ?thesis by metis
qed


theorem oid_encoding_is_injective_witness: "oid_of [1, 2, 840] \<noteq> oid_of [1, 2, 841]"
  using oid_encoding_is_injective [of 1 2 "[840]" 1 2 "[841]"] by auto

end
