(* ===== verification/X509.thy ===== *)
theory X509
  imports Der
begin

text \<open>
  \<^verbatim>\<open>src/webauthn/x509.rs\<close>: certificates and the check of a chain of them. Outside the
  source and parameters here: whether a point is on a curve and whether a signature verifies
  (\<open>crypto\<close>), and \<^verbatim>\<open>chrono\<close>'s calendar (\<open>calendar\<close>). Times are seconds.
\<close>

section \<open>Object identifiers\<close>

definition RSA_ENCRYPTION :: string where "RSA_ENCRYPTION = ''1.2.840.113549.1.1.1''"
definition EC_PUBLIC_KEY :: string where "EC_PUBLIC_KEY = ''1.2.840.10045.2.1''"
definition OID_P256 :: string where "OID_P256 = ''1.2.840.10045.3.1.7''"
definition OID_P384 :: string where "OID_P384 = ''1.3.132.0.34''"
definition SHA1_RSA :: string where "SHA1_RSA = ''1.2.840.113549.1.1.5''"
definition SHA256_RSA :: string where "SHA256_RSA = ''1.2.840.113549.1.1.11''"
definition SHA384_RSA :: string where "SHA384_RSA = ''1.2.840.113549.1.1.12''"
definition SHA512_RSA :: string where "SHA512_RSA = ''1.2.840.113549.1.1.13''"
definition ECDSA_SHA1 :: string where "ECDSA_SHA1 = ''1.2.840.10045.4.1''"
definition ECDSA_SHA256 :: string where "ECDSA_SHA256 = ''1.2.840.10045.4.3.2''"
definition ECDSA_SHA384 :: string where "ECDSA_SHA384 = ''1.2.840.10045.4.3.3''"
definition ECDSA_SHA512 :: string where "ECDSA_SHA512 = ''1.2.840.10045.4.3.4''"
definition SUBJECT_KEY_IDENTIFIER :: string where "SUBJECT_KEY_IDENTIFIER = ''2.5.29.14''"
definition KEY_USAGE :: string where "KEY_USAGE = ''2.5.29.15''"
definition BASIC_CONSTRAINTS :: string where "BASIC_CONSTRAINTS = ''2.5.29.19''"
definition AUTHORITY_KEY_IDENTIFIER :: string where "AUTHORITY_KEY_IDENTIFIER = ''2.5.29.35''"

text \<open>The netscape certificate type, the key usage, the subject's other names, the basic
  constraints, the policies, the extended key usage, the address blocks, the system ids, the
  policy constraints, the proxy information, the name constraints, the policy mappings and the
  inhibition of any policy.\<close>

definition SUPPORTED_CRITICAL :: "string list" where
  "SUPPORTED_CRITICAL = [''2.16.840.1.113730.1.1'', KEY_USAGE, ''2.5.29.17'', BASIC_CONSTRAINTS, ''2.5.29.32'',
     ''2.5.29.37'', ''1.3.6.1.5.5.7.1.7'', ''1.3.6.1.5.5.7.1.8'', ''2.5.29.36'', ''1.3.6.1.5.5.7.1.14'',
     ''2.5.29.30'', ''2.5.29.33'', ''2.5.29.54'']"

definition MAX_DEPTH :: nat where "MAX_DEPTH = 100"

section \<open>Names\<close>

record attribute =
  a_oid :: bytes
  a_tag :: nat
  a_value :: bytes

type_synonym name = "attribute list list"

fun map_ok :: "('a \<Rightarrow> 'e + 'b) \<Rightarrow> 'a list \<Rightarrow> 'e + 'b list" where
  "map_ok f [] = Inr []"
| "map_ok f (x # xs) = res_bind (f x) (\<lambda>y. res_bind (map_ok f xs) (\<lambda>ys. Inr (y # ys)))"

definition parse_attribute :: "tlv \<Rightarrow> webauthn_error + attribute" where
  "parse_attribute atv = res_bind (tlv_sequence atv) (\<lambda>parts. case parts of
      [k, value] \<Rightarrow> res_bind (tlv_oid k) (\<lambda>i.
        Inr \<lparr>a_oid = i, a_tag = t_tag value, a_value = t_value value\<rparr>)
    | _ \<Rightarrow> Inl (Invalid ''malformed name attribute''))"

definition name_parse :: "tlv \<Rightarrow> webauthn_error + name" where
  "name_parse tlv = res_bind (tlv_sequence tlv) (map_ok (\<lambda>rdn.
     if \<not> is_universal rdn SET then Inl (Invalid ''name entry is not a SET'')
     else res_bind (children rdn) (map_ok parse_attribute)))"

definition first_attribute :: "name \<Rightarrow> string \<Rightarrow> bytes option" where
  "first_attribute self dotted = map_option a_value (find (\<lambda>a. a_oid a = oid dotted) (concat self))"

fun chunks :: "nat \<Rightarrow> 'a list \<Rightarrow> 'a list list" where
  "chunks n [] = []"
| "chunks n (x # xs) = (if n = 0 then [] else take n (x # xs) # chunks n (drop (n - 1) xs))"

definition be_value :: "bytes \<Rightarrow> nat" where
  "be_value bs = foldl (\<lambda>n b. n * 256 + b) 0 bs"

definition padded :: "nat \<Rightarrow> bytes \<Rightarrow> bytes" where
  "padded n bs = bs @ replicate (n - length bs) 0"

definition canonical_string :: "nat \<Rightarrow> bytes \<Rightarrow> nat list option" where
  "canonical_string tag value =
     (let text = (if tag \<in> {12, 19, 26, 22} then Some (from_utf8_lossy value)
            else if tag = 20 then Some value
            else if tag = 30 then Some (from_utf16_lossy (map (\<lambda>c. be_value (padded 2 c)) (chunks 2 value)))
            else if tag = 28 then Some (filter scalar (map (\<lambda>c. be_value (padded 4 c)) (chunks 4 value)))
            else None)
      in map_option (\<lambda>t. map ascii_lower (join_words (ascii_words [] t))) text)"

definition canonical_attribute :: "attribute \<Rightarrow> bytes \<times> (nat list + nat \<times> bytes)" where
  "canonical_attribute a = (a_oid a, case canonical_string (a_tag a) (a_value a) of
     Some s \<Rightarrow> Inl s | None \<Rightarrow> Inr (a_tag a, a_value a))"

definition canonical :: "name \<Rightarrow> (bytes \<times> (nat list + nat \<times> bytes)) list list" where
  "canonical self = map (map canonical_attribute) self"

definition same_as :: "name \<Rightarrow> name \<Rightarrow> bool" where
  "same_as self other \<longleftrightarrow> canonical self = canonical other"

section \<open>Keys and signatures\<close>

datatype hash = Sha1 | Sha256 | Sha384 | Sha512

datatype curve = P256 | P384

text \<open>A point is outside the source; an RSA key is its modulus and exponent.\<close>

datatype 'k public_key = EcKey curve 'k | Rsa nat nat | Unsupported

record 'k crypto =
  ec_point :: "curve \<Rightarrow> bytes \<Rightarrow> 'k option"
  verify_pkcs1 :: "'k public_key \<Rightarrow> hash \<Rightarrow> bytes \<Rightarrow> bytes \<Rightarrow> bool"
  verify_ecdsa :: "'k public_key \<Rightarrow> hash \<Rightarrow> bytes \<Rightarrow> bytes \<Rightarrow> bool"

section \<open>A certificate\<close>

record extension =
  x_oid :: bytes
  x_critical :: bool
  x_value :: bytes

record 'k certificate =
  c_der :: bytes
  c_tbs :: bytes
  c_tbs_signature_algorithm :: bytes
  c_signature_algorithm :: bytes
  c_signature_oid :: bytes
  c_signature :: bytes
  c_version :: nat
  c_serial :: bytes
  c_issuer :: name
  c_subject :: name
  c_not_before :: int
  c_not_after :: int
  c_public_key :: "'k public_key"
  c_extensions :: "extension list"

text \<open>\<^verbatim>\<open>NaiveDate::from_ymd_opt\<close> and \<^verbatim>\<open>and_hms_opt\<close> at UTC, as seconds.\<close>

type_synonym calendar = "int \<Rightarrow> nat \<Rightarrow> nat \<Rightarrow> nat \<Rightarrow> nat \<Rightarrow> nat \<Rightarrow> int option"

definition malformed_time :: webauthn_error where
  "malformed_time = Invalid ''malformed time''"

text \<open>Slicing a string at a byte inside a character panics.\<close>

definition char_boundary :: "nat \<Rightarrow> bytes \<Rightarrow> bool" where
  "char_boundary i s \<longleftrightarrow> i = length s \<or> i < length s \<and> \<not> tail_byte (s ! i)"

definition ascii :: "bytes \<Rightarrow> string" where
  "ascii bs = map char_of bs"

text \<open>\<^verbatim>\<open>parse::<i32>\<close>; the four digits or fewer it is given are in range.\<close>

definition parse_year :: "nat \<Rightarrow> bytes \<Rightarrow> webauthn_error + int" where
  "parse_year n text = (if \<not> char_boundary n text then Inl Panicked
     else ok_or malformed_time (parse_i64 (ascii (take n text))))"

definition two_digits :: "bytes \<Rightarrow> nat \<Rightarrow> nat" where
  "two_digits rest i = undec_nat (ascii (take 2 (drop i rest)))"

definition parse_time :: "calendar \<Rightarrow> tlv \<Rightarrow> webauthn_error + int" where
  "parse_time calendar tlv =
     (let text = t_value tlv in
      case from_utf8 text 0 of
        Inl _ \<Rightarrow> Inl malformed_time
      | Inr _ \<Rightarrow>
          res_bind (if is_universal tlv UTC_TIME \<and> length text = 13 then
              res_bind (parse_year 2 text) (\<lambda>yy. Inr (if yy < 50 then 2000 + yy else 1900 + yy, drop 2 text))
            else if is_universal tlv GENERALIZED_TIME \<and> length text = 15 then
              res_bind (parse_year 4 text) (\<lambda>year. Inr (year, drop 4 text))
            else Inl malformed_time)
          (\<lambda>(year, rest).
            if last rest \<noteq> 90 \<or> \<not> list_all (\<lambda>b. 48 \<le> b \<and> b \<le> 57) (take 10 rest) then Inl malformed_time
            else ok_or malformed_time (calendar year (two_digits rest 0) (two_digits rest 2) (two_digits rest 4)
              (two_digits rest 6) (two_digits rest 8))))"

definition rsa_key :: "bytes \<Rightarrow> bytes \<Rightarrow> 'k public_key" where
  "rsa_key n e = Rsa (be_value n) (be_value e)"

definition ec_key :: "'k crypto \<Rightarrow> curve \<Rightarrow> bytes \<Rightarrow> 'k public_key option" where
  "ec_key cr c sec1 = map_option (EcKey c) (ec_point cr c sec1)"

definition parse_spki :: "'k crypto \<Rightarrow> tlv \<Rightarrow> webauthn_error + 'k public_key" where
  "parse_spki cr spki = res_bind (tlv_sequence spki) (\<lambda>parts. case parts of
      [algorithm, key] \<Rightarrow>
        res_bind (tlv_sequence algorithm) (\<lambda>algorithm.
        res_bind (ok_or (Invalid ''malformed public key algorithm'') (case algorithm of [] \<Rightarrow> None | a # _ \<Rightarrow> Some a)) (\<lambda>a.
        res_bind (tlv_oid a) (\<lambda>i.
        res_bind (tlv_bits key) (\<lambda>bits.
        if i = oid RSA_ENCRYPTION then
          res_bind (tlv_parse bits) (\<lambda>t. res_bind (tlv_sequence t) (\<lambda>ne. case ne of
              [n, e] \<Rightarrow> res_bind (unsigned_bytes n) (\<lambda>n. res_bind (unsigned_bytes e) (\<lambda>e. Inr (rsa_key n e)))
            | _ \<Rightarrow> Inl (Invalid ''malformed RSA key'')))
        else if i = oid EC_PUBLIC_KEY then
          (case (case algorithm of _ # p # _ \<Rightarrow> (case tlv_oid p of Inr c \<Rightarrow> Some c | Inl _ \<Rightarrow> None) | _ \<Rightarrow> None) of
             None \<Rightarrow> Inr Unsupported
           | Some c \<Rightarrow>
               if c = oid OID_P256 then Inr (case ec_key cr P256 bits of Some k \<Rightarrow> k | None \<Rightarrow> Unsupported)
               else if c = oid OID_P384 then Inr (case ec_key cr P384 bits of Some k \<Rightarrow> k | None \<Rightarrow> Unsupported)
               else Inr Unsupported)
        else Inr Unsupported))))
    | _ \<Rightarrow> Inl (Invalid ''malformed public key''))"

definition parse_extension :: "tlv \<Rightarrow> webauthn_error + extension" where
  "parse_extension ext = res_bind (tlv_sequence ext) (\<lambda>parts.
     res_bind (case parts of
         [i, value] \<Rightarrow> Inr (i, False, value)
       | [i, critical, value] \<Rightarrow> res_bind (tlv_boolean critical) (\<lambda>c. Inr (i, c, value))
       | _ \<Rightarrow> Inl (Invalid ''malformed extension''))
     (\<lambda>(i, critical, value).
     res_bind (tlv_oid i) (\<lambda>i. res_bind (octets value) (\<lambda>v.
     Inr \<lparr>x_oid = i, x_critical = critical, x_value = v\<rparr>))))"

definition parse_extensions :: "tlv list \<Rightarrow> webauthn_error + extension list" where
  "parse_extensions flds = res_bind (map_ok (\<lambda>field.
       res_bind (tlv_parse (t_value field)) (\<lambda>t. res_bind (tlv_sequence t) (map_ok parse_extension)))
     (filter (\<lambda>f. tlv_is f CLASS_CONTEXT 3) flds)) (\<lambda>xss. Inr (concat xss))"

definition next_field :: "tlv list \<Rightarrow> webauthn_error + tlv \<times> tlv list" where
  "next_field flds = (case flds of
      [] \<Rightarrow> Inl (Invalid ''certificate ends early'') | f # fs \<Rightarrow> Inr (f, fs))"

definition from_der :: "'k crypto \<Rightarrow> calendar \<Rightarrow> bytes \<Rightarrow> webauthn_error + 'k certificate" where
  "from_der cr calendar bytes =
     res_bind (tlv_parse bytes) (\<lambda>cert.
     res_bind (tlv_sequence cert) (\<lambda>parts. case parts of
       [tbs, signature_algorithm, signature] \<Rightarrow>
         res_bind (tlv_sequence signature_algorithm) (\<lambda>sa.
         res_bind (ok_or (Invalid ''malformed signature algorithm'') (case sa of [] \<Rightarrow> None | a # _ \<Rightarrow> Some a)) (\<lambda>a.
         res_bind (tlv_oid a) (\<lambda>signature_oid.
         res_bind (tlv_bits signature) (\<lambda>signature.
         res_bind (tlv_sequence tbs) (\<lambda>flds.
         res_bind (case flds of
             [] \<Rightarrow> Inr (0, flds)
           | v # fs \<Rightarrow> if tlv_is v CLASS_CONTEXT 0
               then res_bind (tlv_parse (t_value v)) (\<lambda>t. res_bind (small_uint t) (\<lambda>n. Inr (n, fs)))
               else Inr (0, flds)) (\<lambda>(version, flds).
         res_bind (next_field flds) (\<lambda>(serial, flds).
         if \<not> is_universal serial INTEGER then Inl (Invalid ''malformed serial number'')
         else
         res_bind (next_field flds) (\<lambda>(tbs_algorithm, flds).
         res_bind (next_field flds) (\<lambda>(f, flds).
         res_bind (name_parse f) (\<lambda>issuer.
         res_bind (next_field flds) (\<lambda>(f, flds).
         res_bind (tlv_sequence f) (\<lambda>validity. case validity of
           [not_before, not_after] \<Rightarrow>
             res_bind (next_field flds) (\<lambda>(f, flds).
             res_bind (name_parse f) (\<lambda>subject.
             res_bind (next_field flds) (\<lambda>(f, flds).
             res_bind (parse_spki cr f) (\<lambda>public_key.
             res_bind (parse_extensions flds) (\<lambda>extensions.
             res_bind (parse_time calendar not_before) (\<lambda>not_before.
             res_bind (parse_time calendar not_after) (\<lambda>not_after.
             Inr \<lparr>c_der = bytes, c_tbs = t_raw tbs, c_tbs_signature_algorithm = t_raw tbs_algorithm,
               c_signature_algorithm = t_raw signature_algorithm, c_signature_oid = signature_oid,
               c_signature = signature, c_version = version, c_serial = t_value serial, c_issuer = issuer,
               c_subject = subject, c_not_before = not_before, c_not_after = not_after,
               c_public_key = public_key, c_extensions = extensions\<rparr>)))))))
         | _ \<Rightarrow> Inl (Invalid ''malformed validity'')))))))))))))
     | _ \<Rightarrow> Inl (Invalid ''malformed certificate'')))"

definition parse_all :: "'k crypto \<Rightarrow> calendar \<Rightarrow> bytes list \<Rightarrow> webauthn_error + 'k certificate list" where
  "parse_all cr calendar ders = map_ok (from_der cr calendar) ders"

end
