(* ===== verification/X509Chain.thy ===== *)
theory X509Chain
  imports X509
begin

text \<open>
  What \<^verbatim>\<open>src/webauthn/x509.rs\<close> reads in a certificate's extensions, which certificate can
  have issued another, and \<^verbatim>\<open>verify_chain\<close>: the chain it builds and the checks on it. The
  key usage is the number of its first two bytes, \<open>keyCertSign\<close> its bit 2.
\<close>

section \<open>Extensions\<close>

definition extension_of :: "'k certificate \<Rightarrow> string \<Rightarrow> extension option" where
  "extension_of self dotted = find (\<lambda>e. x_oid e = oid dotted) (c_extensions self)"

text \<open>The parts of a basic constraints sequence, in order.\<close>

fun constraint_parts :: "tlv list \<Rightarrow> bool \<times> nat option \<Rightarrow> webauthn_error + bool \<times> nat option" where
  "constraint_parts [] acc = Inr acc"
| "constraint_parts (part # parts) (ca, path_len) =
     (if is_universal part BOOLEAN
      then res_bind (tlv_boolean part) (\<lambda>ca. constraint_parts parts (ca, path_len))
      else res_bind (small_uint part) (\<lambda>n. constraint_parts parts (ca, Some n)))"

definition basic_constraints :: "'k certificate \<Rightarrow> webauthn_error + (bool \<times> nat option) option" where
  "basic_constraints self = (case extension_of self BASIC_CONSTRAINTS of
      None \<Rightarrow> Inr None
    | Some ext \<Rightarrow>
        res_bind (tlv_parse (x_value ext)) (\<lambda>t.
        res_bind (tlv_sequence t) (\<lambda>parts.
        res_bind (constraint_parts parts (False, None)) (\<lambda>c. Inr (Some c)))))"

definition basic_constraints_ca_false :: "'k certificate \<Rightarrow> bool" where
  "basic_constraints_ca_false self \<longleftrightarrow> basic_constraints self = Inr (Some (False, None))"

definition key_usage :: "'k certificate \<Rightarrow> webauthn_error + nat option" where
  "key_usage self = (case extension_of self KEY_USAGE of
      None \<Rightarrow> Inr None
    | Some ext \<Rightarrow>
        res_bind (tlv_parse (x_value ext)) (\<lambda>t.
        if \<not> is_universal t BIT_STRING \<or> t_value t = [] then Inl (Invalid ''malformed key usage'')
        else let bits = drop 1 (t_value t) in
          Inr (Some ((if bits = [] then 0 else hd bits) + 2 ^ 8 * (if length bits < 2 then 0 else bits ! 1)))))"

definition key_cert_sign :: "nat \<Rightarrow> bool" where
  "key_cert_sign ku \<longleftrightarrow> odd (ku div 2 ^ 2)"

definition ok_opt :: "'e + 'a \<Rightarrow> 'a option" where
  "ok_opt r = (case r of Inl _ \<Rightarrow> None | Inr v \<Rightarrow> Some v)"

definition subject_key_id :: "'k certificate \<Rightarrow> bytes option" where
  "subject_key_id self = Option.bind (extension_of self SUBJECT_KEY_IDENTIFIER)
     (\<lambda>ext. ok_opt (res_bind (tlv_parse (x_value ext)) octets))"

definition authority_key_id :: "'k certificate \<Rightarrow> bytes option \<times> bytes option" where
  "authority_key_id self = (case extension_of self AUTHORITY_KEY_IDENTIFIER of
      None \<Rightarrow> (None, None)
    | Some ext \<Rightarrow> (case res_bind (tlv_parse (x_value ext)) tlv_sequence of
        Inl _ \<Rightarrow> (None, None)
      | Inr parts \<Rightarrow> foldl (\<lambda>(key_id, serial) part.
          if tlv_is part CLASS_CONTEXT 0 then (Some (t_value part), serial)
          else if tlv_is part CLASS_CONTEXT 2 then (key_id, Some (t_value part))
          else (key_id, serial)) (None, None) parts))"

definition extensions_valid :: "'k certificate \<Rightarrow> bool" where
  "extensions_valid self \<longleftrightarrow> distinct (map x_oid (c_extensions self)) \<and>
     (case basic_constraints self of
        Inl _ \<Rightarrow> False
      | Inr c \<Rightarrow> (case c of Some (ca, path_len) \<Rightarrow> ca \<or> path_len = None | None \<Rightarrow> True)) \<and>
     (case key_usage self of Inl _ \<Rightarrow> False | Inr _ \<Rightarrow> True)"

section \<open>Which certificate issued which\<close>

definition akid_matches :: "'k certificate \<Rightarrow> 'k certificate \<Rightarrow> bool" where
  "akid_matches self issuer =
     (let (key_id, serial) = authority_key_id self in
      (case (key_id, subject_key_id issuer) of (Some k, Some s) \<Rightarrow> k = s | _ \<Rightarrow> True) \<and>
      (case serial of Some s \<Rightarrow> s = c_serial issuer | None \<Rightarrow> True))"

definition self_issued :: "'k certificate \<Rightarrow> bool" where
  "self_issued self \<longleftrightarrow> same_as (c_subject self) (c_issuer self) \<and> akid_matches self self"

definition could_be_issued_by :: "'k certificate \<Rightarrow> 'k certificate \<Rightarrow> bool" where
  "could_be_issued_by self issuer \<longleftrightarrow>
     same_as (c_subject issuer) (c_issuer self) \<and> akid_matches self issuer \<and>
     (case key_usage issuer of Inr (Some ku) \<Rightarrow> key_cert_sign ku | _ \<Rightarrow> True)"

definition in_validity_period :: "'k certificate \<Rightarrow> int \<Rightarrow> bool" where
  "in_validity_period self now \<longleftrightarrow> c_not_before self \<le> now \<and> now < c_not_after self"

definition signed_by :: "'k crypto \<Rightarrow> 'k certificate \<Rightarrow> 'k public_key \<Rightarrow> bool" where
  "signed_by cr self issuer =
     (let is = (\<lambda>dotted. c_signature_oid self = oid dotted);
          rsa = (\<lambda>hash. verify_pkcs1 cr issuer hash (c_tbs self) (c_signature self));
          ecdsa = (\<lambda>hash. verify_ecdsa cr issuer hash (c_tbs self) (c_signature self))
      in if c_signature_algorithm self \<noteq> c_tbs_signature_algorithm self then False
         else if is SHA1_RSA then rsa Sha1
         else if is SHA256_RSA then rsa Sha256
         else if is SHA384_RSA then rsa Sha384
         else if is SHA512_RSA then rsa Sha512
         else if is ECDSA_SHA1 then ecdsa Sha1
         else if is ECDSA_SHA256 then ecdsa Sha256
         else if is ECDSA_SHA384 then ecdsa Sha384
         else if is ECDSA_SHA512 then ecdsa Sha512
         else False)"

definition check_ca :: "'k certificate \<Rightarrow> nat" where
  "check_ca self =
     (let usage = (case ok_opt (key_usage self) of Some ku \<Rightarrow> ku | None \<Rightarrow> None) in
      if (case usage of Some ku \<Rightarrow> \<not> key_cert_sign ku | None \<Rightarrow> False) then 0
      else case basic_constraints self of
        Inr (Some (ca, _)) \<Rightarrow> if ca then 1 else 0
      | Inr None \<Rightarrow> if c_version self = 0 \<and> self_issued self then 3 else if usage \<noteq> None then 4 else 0
      | Inl _ \<Rightarrow> 0)"

definition unhandled_critical_extension :: "'k certificate \<Rightarrow> bool" where
  "unhandled_critical_extension self \<longleftrightarrow>
     list_ex (\<lambda>e. x_critical e \<and> \<not> list_ex (\<lambda>dotted. oid dotted = x_oid e) SUPPORTED_CRITICAL) (c_extensions self)"

section \<open>Building a chain\<close>

definition find_issuer_in :: "'k certificate \<Rightarrow> 'k certificate list \<Rightarrow> int \<Rightarrow> 'k certificate option" where
  "find_issuer_in cert candidates now =
     (let matching = filter (\<lambda>c. c_der c \<noteq> c_der cert \<and> could_be_issued_by cert c) candidates in
      case find (\<lambda>c. in_validity_period c now) matching of
        Some c \<Rightarrow> Some c
      | None \<Rightarrow> (case matching of [] \<Rightarrow> None | c # _ \<Rightarrow> Some c))"

definition untrusted_issuer ::
  "'k certificate list \<Rightarrow> 'k certificate list \<Rightarrow> int \<Rightarrow> 'k certificate option" where
  "untrusted_issuer untrusted chain now = find_issuer_in (last chain)
     (filter (\<lambda>c. \<not> list_ex (\<lambda>in_chain. c_der in_chain = c_der c) chain) untrusted) now"

text \<open>The chain so far, the leaf first and never empty.\<close>

function build_chain ::
  "'k certificate list \<Rightarrow> 'k certificate list \<Rightarrow> int \<Rightarrow> 'k certificate list \<Rightarrow> webauthn_error + 'k certificate list" where
  "build_chain untrusted trusted now chain =
     (if length chain > MAX_DEPTH then Inl (Invalid ''certificate chain is too long'')
      else let current = last chain in
        if self_issued current then
          (if list_ex (\<lambda>t. c_der t = c_der current) trusted then Inr chain
           else case find_issuer_in current trusted now of
             Some root \<Rightarrow> if self_issued root then Inr (butlast chain @ [root])
               else Inl (Invalid ''certificate chain ends in an untrusted self-signed certificate'')
           | None \<Rightarrow> Inl (Invalid ''certificate chain ends in an untrusted self-signed certificate''))
        else case (case find_issuer_in current trusted now of
               Some i \<Rightarrow> Some i | None \<Rightarrow> untrusted_issuer untrusted chain now) of
             Some issuer \<Rightarrow> build_chain untrusted trusted now (chain @ [issuer])
           | None \<Rightarrow> Inl (Invalid ''unable to get the issuer certificate''))"
  by pat_completeness auto
termination
  by (relation "measure (\<lambda>(untrusted, trusted, now, chain). MAX_DEPTH + 1 - length chain)") auto

declare build_chain.simps [simp del]

section \<open>Checking it\<close>

definition check_link :: "'k crypto \<Rightarrow> int \<Rightarrow> nat \<Rightarrow> nat \<Rightarrow> 'k certificate \<Rightarrow> 'k certificate list \<Rightarrow> webauthn_error + unit" where
  "check_link cr now i path_len cert uppers =
     (if \<not> in_validity_period cert now then Inl (Invalid ''certificate is not within its validity period'')
      else if \<not> extensions_valid cert then Inl (Invalid ''certificate has an invalid extension'')
      else if unhandled_critical_extension cert then Inl (Invalid ''certificate has an unhandled critical extension'')
      else if i > 0 \<and> (check_ca cert = 0 \<or> uppers \<noteq> [] \<and> check_ca cert \<noteq> 1) then Inl (Invalid ''issuer is not a CA'')
      else if i > 1 \<and> (case basic_constraints cert of Inr (Some (_, Some m)) \<Rightarrow> path_len > m | _ \<Rightarrow> False)
        then Inl (Invalid ''path length constraint exceeded'')
      else if uppers \<noteq> [] \<and> \<not> signed_by cr cert (c_public_key (hd uppers))
        then Inl (Invalid ''certificate signature does not verify'')
      else Inr ())"

fun check_chain :: "'k crypto \<Rightarrow> int \<Rightarrow> nat \<Rightarrow> nat \<Rightarrow> 'k certificate list \<Rightarrow> webauthn_error + unit" where
  "check_chain cr now i path_len [] = Inr ()"
| "check_chain cr now i path_len (cert # uppers) =
     res_bind (check_link cr now i path_len cert uppers) (\<lambda>_.
       check_chain cr now (i + 1)
         (if i > 0 \<and> \<not> same_as (c_subject cert) (c_issuer cert) then path_len + 1 else path_len) uppers)"

definition verify_chain ::
  "'k crypto \<Rightarrow> 'k certificate \<Rightarrow> 'k certificate list \<Rightarrow> 'k certificate list \<Rightarrow> int \<Rightarrow>
   webauthn_error + 'k certificate list" where
  "verify_chain cr leaf untrusted trusted now =
     res_bind (build_chain untrusted trusted now [leaf]) (\<lambda>chain.
     res_bind (check_chain cr now 0 0 chain) (\<lambda>_. Inr chain))"

end
