(* ===== verification/X509Theorems.thy ===== *)
theory X509Theorems
  imports X509Chain
begin

text \<open>
  What a verified chain guarantees, and what it does not: the certificate that was to be
  verified may have left it.
\<close>

lemma find_issuer_inD:
  "find_issuer_in cert candidates now = Some c \<Longrightarrow>
   c \<in> set candidates \<and> c_der c \<noteq> c_der cert \<and> could_be_issued_by cert c"
  by (auto simp: find_issuer_in_def Let_def find_Some_iff dest: nth_mem split: option.splits list.splits)
    (metis (mono_tags, lifting) filter_eq_Cons_iff in_set_conv_decomp list.set_intros(1) mem_Collect_eq set_filter nth_mem)+

text \<open>What the loop keeps of the chain and what it ends with.\<close>

lemma build_chain_ends:
  assumes "build_chain untrusted trusted now chain = Inr res" and "chain \<noteq> []"
  shows "\<exists>mid root. res = mid @ [root] \<and> self_issued root \<and> (\<exists>t \<in> set trusted. c_der t = c_der root) \<and>
    length res \<le> MAX_DEPTH \<and>
    ((\<exists>more. res = chain @ more) \<or> mid = butlast chain \<and> self_issued (last chain) \<and> root \<in> set trusted)"
  using assms
proof (induction untrusted trusted now chain rule: build_chain.induct)
  case (1 untrusted trusted now chain)
  let ?c = "last chain"
  note eq = "1.prems"(1) [unfolded build_chain.simps [of untrusted trusted now chain] Let_def]
  have short: "\<not> length chain > MAX_DEPTH" using eq by (auto split: if_splits)
  show ?case
  proof (cases "self_issued ?c")
    case True
    show ?thesis
    proof (cases "list_ex (\<lambda>t. c_der t = c_der ?c) trusted")
      case True
      with eq short \<open>self_issued ?c\<close> have "res = chain" by simp
      with True short \<open>self_issued ?c\<close> "1.prems"(2) show ?thesis
        by (intro exI [of _ "butlast chain"] exI [of _ ?c]) (auto simp: list_ex_iff)
    next
      case False
      with eq short \<open>self_issued ?c\<close> obtain root where "find_issuer_in ?c trusted now = Some root" "self_issued root"
        "res = butlast chain @ [root]" by (auto split: option.splits if_splits)
      with find_issuer_inD [of ?c trusted now root] short \<open>self_issued ?c\<close> "1.prems"(2) show ?thesis
        by (intro exI [of _ "butlast chain"] exI [of _ root]) auto
    qed
  next
    case False
    with eq short obtain issuer where i: "(case find_issuer_in ?c trusted now of
        Some i \<Rightarrow> Some i | None \<Rightarrow> untrusted_issuer untrusted chain now) = Some issuer"
      and r: "build_chain untrusted trusted now (chain @ [issuer]) = Inr res"
      by (auto split: option.splits)
    have "chain @ [issuer] \<noteq> []" by simp
    from "1.IH" [OF short refl False i r this, unfolded butlast_snoc] obtain mid root where
      m: "res = mid @ [root]" "self_issued root" "\<exists>t \<in> set trusted. c_der t = c_der root" "length res \<le> MAX_DEPTH"
      and alt: "(\<exists>more. res = (chain @ [issuer]) @ more) \<or> mid = chain" by blast
    then have "\<exists>more. res = chain @ more" by auto
    with m show ?thesis by blast
  qed
qed

lemma check_chain_links:
  assumes "check_chain cr now i path_len certs = Inr u" and "certs = pre @ cert # uppers"
  shows "\<exists>n. check_link cr now (i + length pre) n cert uppers = Inr ()"
  using assms
proof (induction certs arbitrary: i path_len pre)
  case (Cons c certs)
  then show ?case
  proof (cases pre)
    case (Cons p pre')
    from Cons.prems Cons have rest: "check_chain cr now (i + 1)
        (if i > 0 \<and> \<not> same_as (c_subject c) (c_issuer c) then path_len + 1 else path_len) certs = Inr u"
      "certs = pre' @ cert # uppers" by (auto simp: res_bind_eq_Inr)
    from Cons.IH [OF this] Cons show ?thesis by simp
  qed (auto simp: res_bind_eq_Inr)
qed simp

lemma check_link_ok:
  assumes "check_link cr now i n cert uppers = Inr ()"
  shows "in_validity_period cert now \<and> extensions_valid cert \<and> \<not> unhandled_critical_extension cert \<and>
    (i > 0 \<longrightarrow> check_ca cert \<noteq> 0 \<and> (uppers \<noteq> [] \<longrightarrow> check_ca cert = 1)) \<and>
    (uppers \<noteq> [] \<longrightarrow> signed_by cr cert (c_public_key (hd uppers)))"
  using assms by (auto simp: check_link_def split: if_splits)

text \<open>
  C28: A chain that verifies ends in a self-issued certificate that is byte for byte a trusted
  one; every certificate of it is within its validity period, with valid extensions and none
  critical that is unknown; each but the last is signed by the key of the next, and each above
  the first may sign certificates, its basic constraints saying so unless it is the last; and
  it is at most a hundred long. Its first certificate is the one to verify, or the chain is
  nothing but a trusted root that has taken its place.
\<close>

theorem verified_chain_leads_to_a_root:
  assumes "verify_chain cr leaf untrusted trusted now = Inr chain"
  shows "chain \<noteq> [] \<and> length chain \<le> MAX_DEPTH \<and> self_issued (last chain) \<and>
    (\<exists>t \<in> set trusted. c_der t = c_der (last chain)) \<and>
    (\<forall>pre cert uppers. chain = pre @ cert # uppers \<longrightarrow>
       in_validity_period cert now \<and> extensions_valid cert \<and> \<not> unhandled_critical_extension cert \<and>
       (pre \<noteq> [] \<longrightarrow> check_ca cert \<noteq> 0 \<and> (uppers \<noteq> [] \<longrightarrow> check_ca cert = 1)) \<and>
       (uppers \<noteq> [] \<longrightarrow> signed_by cr cert (c_public_key (hd uppers)))) \<and>
    (hd chain = leaf \<or> self_issued leaf \<and> (\<exists>root \<in> set trusted. chain = [root]))"
proof -
  from assms obtain u where b: "build_chain untrusted trusted now [leaf] = Inr chain"
    and c: "check_chain cr now 0 0 chain = Inr u"
    by (auto simp: verify_chain_def res_bind_eq_Inr)
  have "butlast [leaf] = []" "last [leaf] = leaf" "[leaf] \<noteq> []" by simp_all
  with build_chain_ends [OF b] obtain mid root where
    m: "chain = mid @ [root]" "self_issued root" "\<exists>t \<in> set trusted. c_der t = c_der root" "length chain \<le> MAX_DEPTH"
    and alt: "(\<exists>more. chain = [leaf] @ more) \<or> mid = [] \<and> self_issued leaf \<and> root \<in> set trusted" by metis
  have "in_validity_period cert now \<and> extensions_valid cert \<and> \<not> unhandled_critical_extension cert \<and>
       (pre \<noteq> [] \<longrightarrow> check_ca cert \<noteq> 0 \<and> (uppers \<noteq> [] \<longrightarrow> check_ca cert = 1)) \<and>
       (uppers \<noteq> [] \<longrightarrow> signed_by cr cert (c_public_key (hd uppers)))" if "chain = pre @ cert # uppers" for pre cert uppers
    using check_chain_links [OF c that] check_link_ok by fastforce
  moreover have "hd chain = leaf \<or> self_issued leaf \<and> (\<exists>root \<in> set trusted. chain = [root])"
    using alt m(1) by auto
  ultimately show ?thesis using m by simp
qed

definition sample_crypto :: "unit crypto" where
  "sample_crypto = \<lparr>ec_point = (\<lambda>_ _. None), verify_pkcs1 = (\<lambda>k _ message signature. k = Rsa 5 3 \<and> signature = message),
     verify_ecdsa = (\<lambda>_ _ _ _. False)\<rparr>"

definition sample_name :: "nat \<Rightarrow> name" where
  "sample_name c = [[\<lparr>a_oid = [85, 4, 3], a_tag = 12, a_value = [c]\<rparr>]]"

definition sample_cert :: "nat \<Rightarrow> nat \<Rightarrow> nat \<Rightarrow> nat \<Rightarrow> unit certificate" where
  "sample_cert i issuer subject key = \<lparr>c_der = [i], c_tbs = [i, i], c_tbs_signature_algorithm = [1],
     c_signature_algorithm = [1], c_signature_oid = oid SHA256_RSA, c_signature = [i, i], c_version = 0, c_serial = [i],
     c_issuer = sample_name issuer, c_subject = sample_name subject, c_not_before = 0, c_not_after = 10,
     c_public_key = Rsa key 3, c_extensions = []\<rparr>"

lemma oid_values:
  "oid SHA1_RSA = [42, 134, 72, 134, 247, 13, 1, 1, 5]" "oid SHA256_RSA = [42, 134, 72, 134, 247, 13, 1, 1, 11]"
  by (simp_all add: oid_def SHA1_RSA_def SHA256_RSA_def parse_unsigned_def parse_digits_def is_digit_def code_def
    undec_nat_def undigit_def oid_of_def base_128_def high_digits.simps)

lemmas x509_eval = sample_cert_def sample_name_def sample_crypto_def self_issued_def same_as_def canonical_def
  canonical_attribute_def canonical_string_def from_utf8_lossy.simps utf8_next_def ascii_space_def ascii_lower_def
  akid_matches_def authority_key_id_def subject_key_id_def extension_of_def could_be_issued_by_def key_usage_def
  basic_constraints_def in_validity_period_def extensions_valid_def unhandled_critical_extension_def check_ca_def
  ok_opt_def signed_by_def find_issuer_in_def Let_def

theorem verified_chain_leads_to_a_root_witness:
  "\<exists>chain. verify_chain sample_crypto (sample_cert 1 65 66 7) [] [sample_cert 2 65 65 5] 4 = Inr chain \<and>
    last chain = sample_cert 2 65 65 5 \<and>
    signed_by sample_crypto (sample_cert 1 65 66 7) (c_public_key (sample_cert 2 65 65 5))"
proof -
  let ?chain = "[sample_cert 1 65 66 7, sample_cert 2 65 65 5]"
  have v: "verify_chain sample_crypto (sample_cert 1 65 66 7) [] [sample_cert 2 65 65 5] 4 = Inr ?chain"
    by (simp add: verify_chain_def build_chain.simps MAX_DEPTH_def check_link_def x509_eval oid_values)
  from verified_chain_leads_to_a_root [OF v]
  have "\<forall>pre cert uppers. ?chain = pre @ cert # uppers \<longrightarrow>
      (uppers \<noteq> [] \<longrightarrow> signed_by sample_crypto cert (c_public_key (hd uppers)))" by blast
  then have "signed_by sample_crypto (sample_cert 1 65 66 7) (c_public_key (sample_cert 2 65 65 5))"
    by (metis append_Nil list.distinct(1) list.sel(1))
  with v show ?thesis by simp
qed

text \<open>
  C29: A certificate that is self-issued under a trusted root's name verifies whoever made it:
  where no trusted certificate is the same, the root takes its place in the chain, so neither its
  signature nor its key nor its validity is looked at. OpenSSL asks for an exact match there.
\<close>

theorem mimic_of_a_root_verifies:
  assumes "self_issued leaf" and "self_issued root" and "could_be_issued_by leaf root"
    and "c_der root \<noteq> c_der leaf" and "in_validity_period root now" and "extensions_valid root"
    and "\<not> unhandled_critical_extension root"
  shows "verify_chain cr leaf untrusted [root] now = Inr [root]"
proof -
  have "find_issuer_in leaf [root] now = Some root" using assms by (simp add: find_issuer_in_def)
  then have "build_chain untrusted [root] now [leaf] = Inr [root]"
    using assms by (simp add: build_chain.simps [of untrusted "[root]" now "[leaf]"] MAX_DEPTH_def)
  then show ?thesis using assms by (simp add: verify_chain_def check_link_def)
qed


text \<open>The mimic signs nothing the root's key would accept.\<close>

theorem mimic_of_a_root_verifies_witness:
  "verify_chain sample_crypto ((sample_cert 1 65 65 7)\<lparr>c_signature := [], c_not_after := 0\<rparr>) [] [sample_cert 2 65 65 5] 4 =
     Inr [sample_cert 2 65 65 5] \<and>
   \<not> signed_by sample_crypto ((sample_cert 1 65 65 7)\<lparr>c_signature := [], c_not_after := 0\<rparr>) (Rsa 5 3)"
proof
  show "verify_chain sample_crypto ((sample_cert 1 65 65 7)\<lparr>c_signature := [], c_not_after := 0\<rparr>) [] [sample_cert 2 65 65 5] 4 =
     Inr [sample_cert 2 65 65 5]"
    by (rule mimic_of_a_root_verifies; simp add: x509_eval)
qed (simp add: x509_eval oid_values)

section \<open>Times\<close>

text \<open>
  A time that is not all ASCII can panic the reader: a \<^verbatim>\<open>UTCTime\<close> of thirteen bytes that
  begins with a three-byte character is cut inside it.
\<close>

theorem time_can_panic:
  "parse_time calendar \<lparr>t_class = 0, t_constructed = False, t_tag = UTC_TIME,
     t_value = [226, 130, 172, 48, 48, 48, 48, 48, 48, 48, 48, 48, 90], t_raw = raw\<rparr> = Inl Panicked"
  by (simp add: parse_time_def from_utf8.simps utf8_next_def second_of_3_def tail_byte_def is_universal_def tlv_is_def
    CLASS_UNIVERSAL_def UTC_TIME_def parse_year_def char_boundary_def res_bind_def)

end
