(* ===== verification/Csv.thy ===== *)
theory Csv
  imports Utf8
begin

text \<open>
  \<^verbatim>\<open>src/portability/csv.rs\<close>: writing a row as Ruby's \<^verbatim>\<open>CSV.generate\<close> does and reading
  a file as its \<^verbatim>\<open>CSV.open\<close> does. Text is a list of code points: 34 is the quote, 44 the
  comma, 13 and 10 the line endings. A field is \<open>None\<close> where Ruby has \<^verbatim>\<open>nil\<close>.
\<close>

type_synonym field = "nat list option"

section \<open>Writing\<close>

definition needs_quotes :: "nat list \<Rightarrow> bool" where
  "needs_quotes s \<longleftrightarrow> s = [] \<or> list_ex (\<lambda>c. c \<in> {34, 44, 13, 10}) s"

definition doubled :: "nat list \<Rightarrow> nat list" where
  "doubled s = concat (map (\<lambda>c. if c = 34 then [34, 34] else [c]) s)"

definition write_field :: "field \<Rightarrow> nat list" where
  "write_field f = (case f of
      None \<Rightarrow> []
    | Some s \<Rightarrow> if needs_quotes s then 34 # doubled s @ [34] else s)"

fun write_fields :: "field list \<Rightarrow> nat list" where
  "write_fields [] = []"
| "write_fields [f] = write_field f"
| "write_fields (f # fs) = write_field f @ 44 # write_fields fs"

definition write_row :: "field list \<Rightarrow> nat list" where
  "write_row fields = write_fields fields @ [10]"

section \<open>Reading\<close>

datatype row_sep = Crlf | Cr | Lf

fun sep :: "row_sep \<Rightarrow> nat list" where
  "sep Crlf = [13, 10]"
| "sep Cr = [13]"
| "sep Lf = [10]"

definition starts_with :: "nat list \<Rightarrow> nat list \<Rightarrow> bool" where
  "starts_with p s \<longleftrightarrow> take (length p) s = p"

text \<open>\<^verbatim>\<open>row_sep: :auto\<close>\<close>

definition row_sep_of :: "nat list \<Rightarrow> row_sep" where
  "row_sep_of text =
     (let r = dropWhile (\<lambda>c. c \<noteq> 13 \<and> c \<noteq> 10) text in
      if starts_with [13, 10] r then Crlf else if starts_with [13] r then Cr else Lf)"

text \<open>The error with its line; \<open>NewLine\<close> also has the character.\<close>

datatype malformed = InvalidBytes nat | Unclosed nat | AfterQuoted nat | IllegalQuoting nat | NewLine nat nat

fun malformed_message :: "malformed \<Rightarrow> string" where
  "malformed_message (InvalidBytes line) = ''Invalid byte sequence in UTF-8 in line '' @ dec_nat line @ ''.''"
| "malformed_message (Unclosed line) = ''Unclosed quoted field in line '' @ dec_nat line @ ''.''"
| "malformed_message (AfterQuoted line) = ''Any value after quoted field isn'' @ CHR 0x27 # ''t allowed in line '' @ dec_nat line @ ''.''"
| "malformed_message (IllegalQuoting line) = ''Illegal quoting in line '' @ dec_nat line @ ''.''"
| "malformed_message (NewLine c line) = ''Unquoted fields do not allow new line <'' @
     [CHR 0x27, CHR 0x5C, if c = 13 then CHR ''r'' else CHR ''n'', CHR 0x27] @ ''> in line '' @ dec_nat line @ ''.''"

text \<open>The value of a quoted field, from after its opening quote, the line it ends in and what follows.\<close>

fun quoted_value :: "nat \<Rightarrow> nat list \<Rightarrow> (nat list \<times> nat \<times> nat list) option" where
  "quoted_value line [] = None"
| "quoted_value line (c # r) =
     (if c = 34 then
        (case r of
           [] \<Rightarrow> Some ([], line, r)
         | d # r' \<Rightarrow> if d = 34 then map_option (\<lambda>(v, l, t). (34 # v, l, t)) (quoted_value line r')
             else Some ([], line, r))
      else map_option (\<lambda>(v, l, t). (c # v, l, t)) (quoted_value (if c = 10 then line + 1 else line) r))"

text \<open>What a comma after a field leaves: an empty field at the end of the row.\<close>

definition after_comma :: "nat list \<Rightarrow> nat list \<Rightarrow> field list" where
  "after_comma sp rest = (if rest = [] \<or> starts_with sp rest then [None] else [])"

definition in_field :: "nat list \<Rightarrow> nat \<Rightarrow> bool" where
  "in_field sp c \<longleftrightarrow> \<not> (c = 44 \<or> starts_with [c] sp \<or> c = 13 \<or> c = 10)"

text \<open>One field with the comma after it: the fields it adds to the row, the line and the rest.\<close>

definition read_field :: "nat list \<Rightarrow> nat \<Rightarrow> nat list \<Rightarrow> malformed + field list \<times> nat \<times> nat list" where
  "read_field sp line rest =
     (if starts_with [34] rest then
        (case quoted_value line (drop 1 rest) of
           None \<Rightarrow> Inl (Unclosed line)
         | Some (v, line', rest') \<Rightarrow>
             if starts_with [44] rest' then Inr (Some v # after_comma sp (drop 1 rest'), line', drop 1 rest')
             else if rest' = [] \<or> starts_with sp rest' then Inr ([Some v], line', rest')
             else Inl (AfterQuoted line'))
      else
        (let v = takeWhile (in_field sp) rest; rest' = dropWhile (in_field sp) rest;
             f = (if v = [] then None else Some v)
         in if 34 \<in> set v then Inl (IllegalQuoting line)
            else if rest' = [] \<or> starts_with sp rest' then Inr ([f], line, rest')
            else if starts_with [44] rest' then Inr (f # after_comma sp (drop 1 rest'), line, drop 1 rest')
            else Inl (NewLine (hd rest') line)))"

lemma starts_with_Cons: "starts_with [c] s \<longleftrightarrow> s \<noteq> [] \<and> hd s = c"
  by (cases s) (auto simp: starts_with_def)

lemma quoted_value_shorter: "quoted_value line s = Some (v, l, t) \<Longrightarrow> length t < length s"
  by (induction line s arbitrary: v l t rule: quoted_value.induct)
    (fastforce split: if_splits list.splits nat.splits)+

lemma dropWhile_shorter: "dropWhile P xs \<noteq> xs \<Longrightarrow> length (dropWhile P xs) < length xs"
proof (cases xs)
  case (Cons x ys)
  assume "dropWhile P xs \<noteq> xs"
  with Cons show ?thesis using length_dropWhile_le [of P ys] by (auto split: if_splits)
qed simp

lemma read_field_shorter:
  assumes "read_field sp line rest = Inr (fs, l, t)" and "rest \<noteq> []" and "\<not> starts_with sp rest"
  shows "length t < length rest"
proof (cases "starts_with [34] rest")
  case True
  with assms(1) obtain v l' t' where "quoted_value line (drop 1 rest) = Some (v, l', t')" "length t \<le> length t'"
    by (auto simp: read_field_def split: if_splits option.splits)
  with quoted_value_shorter [of line "drop 1 rest" v l' t'] assms(2) show ?thesis by simp
next
  case False
  define r where "r = dropWhile (in_field sp) rest"
  have le: "length r \<le> length rest" by (simp add: r_def length_dropWhile_le)
  have "t = r \<and> (t = [] \<or> starts_with sp t) \<or> t = drop 1 r \<and> r \<noteq> []"
    using assms(1) False unfolding read_field_def Let_def r_def [symmetric]
    by (simp add: starts_with_Cons split: if_splits)
  then show ?thesis
  proof (rule disjE)
    assume "t = r \<and> (t = [] \<or> starts_with sp t)"
    then have t: "t = r" and "r = [] \<or> starts_with sp r" by auto
    with assms(2,3) have "r \<noteq> rest" by auto
    with dropWhile_shorter [of "in_field sp" rest] show ?thesis unfolding t r_def by blast
  next
    assume "t = drop 1 r \<and> r \<noteq> []"
    with le show ?thesis by (cases r) simp_all
  qed
qed

lemma drop_sep_shorter: "rest \<noteq> [] \<Longrightarrow> length rest - length (sep rs) < length rest"
  by (cases rs) (simp_all add: diff_less)

text \<open>The loop over the text: the row being read, if one has begun, and the rows read.\<close>

function parse_rows ::
  "row_sep \<Rightarrow> field list option \<Rightarrow> nat \<Rightarrow> nat list \<Rightarrow> malformed + field list list" where
  "parse_rows rs row line rest =
     (if rest = [] then Inr (case row of None \<Rightarrow> [] | Some fs \<Rightarrow> [fs])
      else if starts_with (sep rs) rest then
        (case parse_rows rs None (line + 1) (drop (length (sep rs)) rest) of
           Inl e \<Rightarrow> Inl e
         | Inr rows \<Rightarrow> Inr ((case row of None \<Rightarrow> [] | Some fs \<Rightarrow> [fs]) @ rows))
      else case read_field (sep rs) line rest of
          Inl e \<Rightarrow> Inl e
        | Inr (fs, line', rest') \<Rightarrow>
            parse_rows rs (Some ((case row of None \<Rightarrow> [] | Some begun \<Rightarrow> begun) @ fs)) line' rest')"
  by pat_completeness auto
termination
  by (relation "measure (\<lambda>(rs, row, line, rest). length rest)")
    (auto simp: drop_sep_shorter dest: read_field_shorter)

declare parse_rows.simps [simp del]

definition parse_text :: "nat list \<Rightarrow> malformed + field list list" where
  "parse_text text = parse_rows (row_sep_of text) None 1 text"

definition parse_csv :: "nat list \<Rightarrow> malformed + field list list" where
  "parse_csv data = (case from_utf8 data 0 of
      Inl valid \<Rightarrow> Inl (InvalidBytes (length (filter (\<lambda>b. b = 10) (take valid data)) + 1))
    | Inr text \<Rightarrow> parse_text text)"

end
