(* ===== verification/CsvTheorems.thy ===== *)
theory CsvTheorems
  imports Csv
begin

text \<open>
  The properties of the CSV reader and writer: what is written is read back, and where it is not.
\<close>

section \<open>Reading one written field\<close>

lemma starts_with_simps [simp]:
  "starts_with [c] (d # s) \<longleftrightarrow> d = c" "starts_with [c] [] \<longleftrightarrow> False" "starts_with [] s"
  by (auto simp: starts_with_def)

lemma quoted_value_doubled:
  "r = [] \<or> hd r \<noteq> 34 \<Longrightarrow>
   \<exists>l. quoted_value line (doubled v @ 34 # r) = Some (v, l, r)"
proof (induction v arbitrary: line)
  case Nil
  then show ?case by (cases r) (simp_all add: doubled_def)
next
  case (Cons c v)
  have d: "doubled (c # v) = (if c = 34 then [34, 34] else [c]) @ doubled v" by (simp add: doubled_def)
  from Cons.IH [OF Cons.prems, of line] Cons.IH [OF Cons.prems, of "if c = 10 then line + 1 else line"]
  show ?case unfolding d by (cases "c = 34") (auto split: if_splits)
qed

lemma in_field_plain: "\<not> needs_quotes s \<Longrightarrow> s \<noteq> [] \<and> 34 \<notin> set s \<and> (\<forall>c \<in> set s. in_field [10] c)"
  by (auto simp: needs_quotes_def in_field_def list_ex_iff)

lemma takeWhile_field: "\<forall>c \<in> set s. P c \<Longrightarrow> \<not> P d \<Longrightarrow> takeWhile P (s @ d # r) = s \<and> dropWhile P (s @ d # r) = d # r"
  by (induction s) auto

text \<open>A field that is written before a comma or a line feed.\<close>

lemma read_written:
  assumes "d \<in> {44, 10}"
  shows "\<exists>l. read_field [10] line (write_field f @ d # r) =
    Inr (if d = 44 then (f # after_comma [10] r, l, r) else ([f], l, d # r))"
proof -
  have stop: "\<not> in_field [10] d" using assms by (auto simp: in_field_def)
  consider (nil) "f = None" | (quoted) v where "f = Some v" "needs_quotes v" | (plain) v where "f = Some v" "\<not> needs_quotes v"
    by (cases f) auto
  then show ?thesis
  proof cases
    case nil
    then show ?thesis using assms stop by (auto simp: read_field_def write_field_def Let_def)
  next
    case quoted
    from assms have "d # r = [] \<or> hd (d # r) \<noteq> 34" by auto
    from quoted_value_doubled [OF this, of line v] obtain l where
      "quoted_value line (doubled v @ 34 # d # r) = Some (v, l, d # r)" by blast
    with quoted assms show ?thesis by (auto simp: read_field_def write_field_def)
  next
    case plain
    note v = in_field_plain [OF plain(2)]
    then have "\<not> starts_with [34] (v @ d # r)" by (cases v) auto
    with takeWhile_field [of v "in_field [10]" d r] v stop plain assms show ?thesis
      by (auto simp: read_field_def write_field_def Let_def)
  qed
qed

section \<open>Reading a written row\<close>

definition row_text :: "field list \<Rightarrow> nat list \<Rightarrow> nat list" where
  "row_text fs r = write_fields fs @ 10 # r"

lemma row_text_simps:
  "row_text [f] r = write_field f @ 10 # r"
  "row_text (f # g # fs) r = write_field f @ 44 # row_text (g # fs) r"
  by (simp_all add: row_text_def)

lemma write_field_head: "f \<noteq> None \<Longrightarrow> \<exists>c s. write_field f = c # s \<and> c \<noteq> 10"
proof -
  assume "f \<noteq> None"
  then obtain v where v: "f = Some v" by blast
  show ?thesis
  proof (cases "needs_quotes v")
    case False
    with in_field_plain [OF False] v show ?thesis by (cases v) (auto simp: write_field_def in_field_def)
  qed (simp add: v write_field_def)
qed

lemma row_text_starts: "fs \<noteq> [] \<Longrightarrow> row_text fs r \<noteq> [] \<and> (starts_with [10] (row_text fs r) \<longleftrightarrow> fs = [None])"
proof -
  assume "fs \<noteq> []"
  then obtain f gs where fs: "fs = f # gs" by (cases fs) auto
  show ?thesis
  proof (cases f)
    case None
    then show ?thesis by (cases gs) (simp_all add: fs row_text_simps write_field_def)
  next
    case (Some v)
    with write_field_head [of f] obtain c s where "write_field f = c # s" "c \<noteq> 10" by auto
    with Some show ?thesis by (cases gs) (simp_all add: fs row_text_simps)
  qed
qed

lemma parse_rows_row:
  assumes "fs \<noteq> []" and "fs \<noteq> [None]"
  shows "\<exists>l. parse_rows Lf row line (row_text fs r) =
    parse_rows Lf (Some ((case row of None \<Rightarrow> [] | Some begun \<Rightarrow> begun) @ fs)) l (10 # r)"
  using assms
proof (induction fs arbitrary: row line)
  case (Cons f fs)
  note start = row_text_starts [of "f # fs" r]
  show ?case
  proof (cases fs)
    case Nil
    with read_written [of 10 line f r] obtain l where "read_field [10] line (row_text [f] r) = Inr ([f], l, 10 # r)"
      by (auto simp: row_text_simps)
    with start Cons.prems Nil show ?thesis by (auto simp: parse_rows.simps [of Lf row line "row_text _ _"])
  next
    case (Cons g gs)
    with read_written [of 44 line f "row_text (g # gs) r"] obtain l where
      "read_field [10] line (row_text (f # fs) r) = Inr (f # after_comma [10] (row_text fs r), l, row_text fs r)"
      by (auto simp: row_text_simps)
    with start Cons have step: "parse_rows Lf row line (row_text (f # fs) r) =
        parse_rows Lf (Some ((case row of None \<Rightarrow> [] | Some begun \<Rightarrow> begun) @ f # after_comma [10] (row_text fs r))) l
          (row_text fs r)"
      by (simp add: parse_rows.simps [of Lf row line "row_text _ _"])
    have s: "row_text fs r \<noteq> []" "starts_with [10] (row_text fs r) \<longleftrightarrow> fs = [None]"
      using row_text_starts [of fs r] Cons by simp_all
    show ?thesis
    proof (cases "fs = [None]")
      case True
      then have "row_text fs r = 10 # r" by (simp add: row_text_simps write_field_def)
      with step True show ?thesis by (auto simp: after_comma_def)
    next
      case False
      with step s Cons Cons.IH [of "Some ((case row of None \<Rightarrow> [] | Some begun \<Rightarrow> begun) @ [f])" l]
      show ?thesis by (auto simp: after_comma_def)
    qed
  qed
qed simp

lemma parse_rows_rows:
  assumes "\<forall>fs \<in> set rows. fs \<noteq> [] \<and> fs \<noteq> [None]"
  shows "parse_rows Lf None line (concat (map write_row rows)) = Inr rows"
  using assms
proof (induction rows arbitrary: line)
  case (Cons fs rows)
  let ?r = "concat (map write_row rows)"
  have "concat (map write_row (fs # rows)) = row_text fs ?r" by (simp add: row_text_def write_row_def)
  with parse_rows_row [of fs None line ?r] Cons.prems obtain l where
    "parse_rows Lf None line (concat (map write_row (fs # rows))) = parse_rows Lf (Some fs) l (10 # ?r)" by auto
  with Cons.IH [of "l + 1"] Cons.prems show ?case
    by (simp add: parse_rows.simps [of Lf "Some fs" l] starts_with_def)
qed (simp add: parse_rows.simps)

lemma no_cr_Lf: "13 \<notin> set text \<Longrightarrow> row_sep_of text = Lf"
proof -
  assume a: "13 \<notin> set text"
  have "\<not> starts_with (13 # p) (dropWhile (\<lambda>c. c \<noteq> 13 \<and> c \<noteq> 10) text)" for p
  proof
    assume "starts_with (13 # p) (dropWhile (\<lambda>c. c \<noteq> 13 \<and> c \<noteq> 10) text)"
    then have "13 \<in> set (dropWhile (\<lambda>c. c \<noteq> 13 \<and> c \<noteq> 10) text)"
      by (cases "dropWhile (\<lambda>c. c \<noteq> 13 \<and> c \<noteq> 10) text") (auto simp: starts_with_def)
    with a show False using set_dropWhileD by metis
  qed
  then show ?thesis by (simp add: row_sep_of_def Let_def)
qed

definition field_scalars :: "field list list \<Rightarrow> bool" where
  "field_scalars rows \<longleftrightarrow> (\<forall>fs \<in> set rows. \<forall>v. Some v \<in> set fs \<longrightarrow> list_all scalar v \<and> 13 \<notin> set v)"

lemma write_field_chars: "c \<in> set (write_field f) \<Longrightarrow> c = 34 \<or> (\<exists>v. f = Some v \<and> c \<in> set v)"
  by (auto simp: write_field_def doubled_def split: option.splits if_splits)

lemma write_fields_chars: "c \<in> set (write_fields fs) \<Longrightarrow> c \<in> {34, 44} \<or> (\<exists>v. Some v \<in> set fs \<and> c \<in> set v)"
  by (induction fs rule: write_fields.induct) (auto dest: write_field_chars)

lemma written_chars: "c \<in> set (concat (map write_row rows)) \<Longrightarrow>
  c \<in> {34, 44, 10} \<or> (\<exists>fs \<in> set rows. \<exists>v. Some v \<in> set fs \<and> c \<in> set v)"
  by (auto simp: write_row_def split: if_splits dest!: write_fields_chars)

text \<open>
  C31: A file of written rows is read back as those rows, \<^verbatim>\<open>nil\<close> fields, empty fields, quotes,
  commas and line feeds included, when no field holds a carriage return and no row is without
  fields or one \<^verbatim>\<open>nil\<close> (which are written as a blank line).
\<close>

theorem csv_round_trip:
  assumes "field_scalars rows" and "\<forall>fs \<in> set rows. fs \<noteq> [] \<and> fs \<noteq> [None]"
  shows "parse_csv (utf8_encode (concat (map write_row rows))) = Inr rows"
proof -
  let ?text = "concat (map write_row rows)"
  have "c \<noteq> 13 \<and> scalar c" if "c \<in> set ?text" for c
    using written_chars [OF that] assms(1) by (auto simp: field_scalars_def list_all_iff scalar_def)
  then have "13 \<notin> set ?text" "list_all scalar ?text" by (auto simp: list_all_iff)
  then show ?thesis
    using parse_rows_rows [OF assms(2)] by (simp add: parse_csv_def parse_text_def from_utf8_encode no_cr_Lf)
qed

theorem csv_round_trip_witness:
  "parse_csv (utf8_encode (concat (map write_row [[Some [97, 34, 44, 10], None], [Some [], Some [54620]]]))) =
   Inr [[Some [97, 34, 44, 10], None], [Some [], Some [54620]]]"
  by (rule csv_round_trip) (auto simp: field_scalars_def scalar_def)

text \<open>
  A carriage return in a field is not always read back: the reader takes the first line
  ending of the file, that of a quoted field too, for the one between rows, so a first field
  with a Windows line ending makes the rest of the file an error.
\<close>

theorem csv_carriage_return_breaks:
  "parse_csv (utf8_encode (concat (map write_row [[Some [97, 13, 10, 98], Some [99]]]))) = Inl (NewLine 10 2)"
  by code_simp

end
