(* ===== verification/SearchQuery.thy ===== *)
theory SearchQuery
  imports Errors RustText
begin

text \<open>
  \<^verbatim>\<open>src/search/query.rs\<close>: the post search syntax. A parser of the code takes a position in
  the query and gives the one it stops at; here it takes the rest of the query and gives what it
  leaves. The calendar (\<^verbatim>\<open>chrono\<close>) and the known languages are parameters.
\<close>

section \<open>The grammar\<close>

datatype body = Term string | Phrase "string list" | Shortcode

record clause_row =
  cl_operator :: "char option"
  cl_prefix :: "string option"
  cl_body :: body

datatype parsed = Clause clause_row | Junk

datatype query_error = ParseFailed | InvalidDate | UnsupportedClause string

definition quote :: char where "quote = CHR 0x22"

definition term_char :: "char \<Rightarrow> bool" where
  "term_char c \<longleftrightarrow> c \<noteq> quote \<and> c \<noteq> CHR '':'' \<and> \<not> is_space c"

definition p_term :: "string \<Rightarrow> (string \<times> string) option" where
  "p_term s = (if takeWhile term_char s = [] then None else Some (takeWhile term_char s, dropWhile term_char s))"

definition p_char :: "char \<Rightarrow> string \<Rightarrow> string option" where
  "p_char c s = (case s of [] \<Rightarrow> None | x # r \<Rightarrow> if x = c then Some r else None)"

definition p_space :: "string \<Rightarrow> string option" where
  "p_space s = (if takeWhile is_space s = [] then None else Some (dropWhile is_space s))"

definition or_stay :: "string \<Rightarrow> string option \<Rightarrow> string" where
  "or_stay s r = (case r of None \<Rightarrow> s | Some t \<Rightarrow> t)"

definition p_prefix :: "string \<Rightarrow> (string \<times> string) option" where
  "p_prefix s = Option.bind (p_term s) (\<lambda>(t, r). map_option (Pair t) (p_char (CHR '':'') r))"

definition p_shortcode :: "string \<Rightarrow> (string \<times> string) option" where
  "p_shortcode s = Option.bind (p_char (CHR '':'') s) (\<lambda>r.
     map_option (\<lambda>(t, r'). (t, or_stay r' (p_char (CHR '':'') r'))) (p_term r))"

definition word_char :: "char \<Rightarrow> bool" where
  "word_char c \<longleftrightarrow> c \<noteq> quote \<and> \<not> is_space c"

lemma or_stay_space: "or_stay s (p_space s) = dropWhile is_space s"
  by (cases s) (auto simp: or_stay_def p_space_def)

lemma dropWhile_less: "takeWhile P s \<noteq> [] \<Longrightarrow> length (dropWhile P s) < length s"
proof -
  assume "takeWhile P s \<noteq> []"
  then have "0 < length (takeWhile P s)" by (simp only: length_greater_0_conv not_False_eq_True)
  moreover have "length (takeWhile P s) + length (dropWhile P s) = length s"
    by (metis length_append takeWhile_dropWhile_id)
  ultimately show ?thesis by linarith
qed

text \<open>The words of a phrase, from after its opening quote.\<close>

function p_words :: "string \<Rightarrow> string list \<times> string" where
  "p_words s =
     (if takeWhile word_char s = [] then ([], s)
      else let r = dropWhile word_char s; (ws, t) = p_words (or_stay r (p_space r))
           in (takeWhile word_char s # ws, t))"
  by pat_completeness auto
termination
  by (relation "measure length")
    (auto simp del: takeWhile_eq_Nil_iff simp: or_stay_space intro: le_less_trans [OF length_dropWhile_le dropWhile_less])

declare p_words.simps [simp del]

definition p_phrase :: "string \<Rightarrow> (string list \<times> string) option" where
  "p_phrase s = Option.bind (p_char quote s) (\<lambda>r.
     case p_words r of (ws, t) \<Rightarrow> map_option (Pair ws) (p_char quote t))"

definition p_body :: "string \<Rightarrow> (body \<times> string) option" where
  "p_body s = (case p_phrase s of
      Some (ws, r) \<Rightarrow> Some (Phrase ws, r)
    | None \<Rightarrow> (case p_term s of
        Some (t, r) \<Rightarrow> Some (Term t, r)
      | None \<Rightarrow> map_option (\<lambda>(_, r). (Shortcode, r)) (p_shortcode s)))"

definition p_operator :: "string \<Rightarrow> char option \<times> string" where
  "p_operator s = (case s of
      [] \<Rightarrow> (None, s)
    | c # r \<Rightarrow> if c \<in> {CHR ''+'', CHR ''-''} then (Some c, r) else (None, s))"

definition full_clause :: "string \<Rightarrow> (parsed \<times> string) option" where
  "full_clause s =
     (let (operator, s1) = p_operator s;
          (prefix, s2) = (case p_prefix s1 of Some (p, r) \<Rightarrow> (Some p, r) | None \<Rightarrow> (None, s1))
      in map_option (\<lambda>(b, r). (Clause \<lparr>cl_operator = operator, cl_prefix = prefix, cl_body = b\<rparr>, r)) (p_body s2))"

definition p_clause :: "string \<Rightarrow> (parsed \<times> string) option" where
  "p_clause s = (case full_clause s of
      Some found \<Rightarrow> Some found
    | None \<Rightarrow> (case p_prefix s of
        Some (t, r) \<Rightarrow> Some (Clause \<lparr>cl_operator = None, cl_prefix = None, cl_body = Term t\<rparr>, r)
      | None \<Rightarrow> map_option (Pair Junk) (p_char quote s)))"

lemma p_char_less: "p_char c s = Some r \<Longrightarrow> length r < length s"
  by (auto simp: p_char_def split: list.splits if_splits)

lemma p_term_less: "p_term s = Some (t, r) \<Longrightarrow> length r < length s"
  using dropWhile_less [of term_char s] by (auto simp: p_term_def simp del: takeWhile_eq_Nil_iff split: if_splits)

lemma or_stay_char: "length (or_stay s (p_char c s)) \<le> length s"
  by (auto simp: or_stay_def dest: p_char_less split: option.split)

lemma p_prefix_less: "p_prefix s = Some (t, r) \<Longrightarrow> length r < length s"
  by (auto simp: p_prefix_def bind_eq_Some_conv dest!: p_term_less p_char_less)

lemma p_words_le: "length (snd (p_words s)) \<le> length s"
proof (induction s rule: p_words.induct)
  case (1 s)
  show ?case
  proof (cases "takeWhile word_char s = []")
    case False
    have "length (or_stay (dropWhile word_char s) (p_space (dropWhile word_char s))) \<le> length (dropWhile word_char s)"
      by (simp add: or_stay_space length_dropWhile_le)
    moreover note "1" [OF False refl] dropWhile_less [OF False]
    ultimately show ?thesis using False
      by (subst p_words.simps) (simp add: Let_def case_prod_unfold del: takeWhile_eq_Nil_iff)
  qed (subst p_words.simps, simp)
qed

lemma p_phrase_less: "p_phrase s = Some (ws, r) \<Longrightarrow> length r < length s"
proof -
  assume "p_phrase s = Some (ws, r)"
  then obtain q where q: "p_char quote s = Some q" "p_char quote (snd (p_words q)) = Some r"
    by (auto simp: p_phrase_def bind_eq_Some_conv case_prod_unfold)
  from p_char_less [OF q(1)] p_char_less [OF q(2)] p_words_le [of q] show ?thesis by linarith
qed

lemma p_shortcode_less: "p_shortcode s = Some (t, r) \<Longrightarrow> length r < length s"
  using or_stay_char by (fastforce simp: p_shortcode_def bind_eq_Some_conv dest!: p_term_less p_char_less intro: le_less_trans)

lemma p_body_less: "p_body s = Some (b, r) \<Longrightarrow> length r < length s"
  by (auto simp: p_body_def dest: p_phrase_less p_term_less p_shortcode_less split: option.splits)

lemma full_clause_less: "full_clause s = Some (c, r) \<Longrightarrow> length r < length s"
  by (auto simp: full_clause_def p_operator_def dest!: p_body_less dest: p_prefix_less
    split: list.splits option.splits if_splits)

lemma p_clause_less: "p_clause s = Some (c, r) \<Longrightarrow> length r < length s"
  by (auto simp: p_clause_def dest: full_clause_less p_prefix_less p_char_less split: option.splits)

text \<open>The loop over the clauses: what they are, and what no clause begins.\<close>

function p_clauses :: "string \<Rightarrow> parsed list \<times> string" where
  "p_clauses s = (case p_clause s of
      None \<Rightarrow> ([], s)
    | Some (c, r) \<Rightarrow> (case p_clauses (or_stay r (p_space r)) of (cs, t) \<Rightarrow> (c # cs, t)))"
  by pat_completeness auto
termination
  by (relation "measure length")
    (auto simp: or_stay_space dest!: p_clause_less intro: le_less_trans [OF length_dropWhile_le])

declare p_clauses.simps [simp del]

definition parse_query :: "string \<Rightarrow> query_error + parsed list" where
  "parse_query s = (case p_clauses s of (cs, t) \<Rightarrow> if t = [] then Inr cs else Inl ParseFailed)"

end
