(* ===== verification/Json.thy ===== *)
theory Json
  imports EunhaPrelude
begin

text \<open>
  \<^verbatim>\<open>serde_json::Value\<close>, without numbers that are not integers: an object is the list of its
  members, of which the first of a name counts.
\<close>

datatype json =
    JNull | JBool bool | JInt int | JString string | JList "json list" | JObject "(string \<times> json) list"

fun jget :: "json \<Rightarrow> string \<Rightarrow> json option" where
  "jget (JObject members) k = map_of members k"
| "jget _ k = None"

fun jstr :: "json \<Rightarrow> string option" where
  "jstr (JString s) = Some s"
| "jstr _ = None"

definition jget_str :: "json \<Rightarrow> string \<Rightarrow> string option" where
  "jget_str v k = Option.bind (jget v k) jstr"

fun is_object :: "json \<Rightarrow> bool" where
  "is_object (JObject members) = True"
| "is_object _ = False"

text \<open>\<^verbatim>\<open>Map::insert\<close>. The order of the members means nothing.\<close>

fun jinsert :: "string \<Rightarrow> json \<Rightarrow> (string \<times> json) list \<Rightarrow> (string \<times> json) list" where
  "jinsert k v [] = [(k, v)]"
| "jinsert k v ((k', v') # members) = (if k = k' then (k, v) # members else (k', v') # jinsert k v members)"

lemma jinsert_lookup [simp]: "map_of (jinsert k v members) k' = (if k' = k then Some v else map_of members k')"
  by (induction members) auto

end
