(* ===== verification/SearchRequest.thy ===== *)
theory SearchRequest
  imports SearchQuery Json
begin

text \<open>
  \<^verbatim>\<open>SearchQueryTransformer\<close> of \<^verbatim>\<open>src/search/query.rs\<close>: the clauses sorted by what they do,
  and the request for Elasticsearch. What \<^verbatim>\<open>chrono\<close> accepts as a date or a time and which
  locales are supported are parameters (\<open>dates\<close>).
\<close>

definition SUPPORTED_PREFIXES :: "string list" where
  "SUPPORTED_PREFIXES = [''has'', ''is'', ''language'', ''from'', ''before'', ''after'', ''during'', ''in'']"

datatype operator = Must | MustNot

definition operator_from :: "char option \<Rightarrow> operator" where
  "operator_from c = (if c = Some (CHR ''-'') then MustNot else Must)"

record term_clause =
  tc_operator :: operator
  tc_term :: string

record phrase_clause =
  pc_operator :: operator
  pc_phrase :: string

datatype filter = Property string | Language string | From string | Date "(string \<times> string) list"

record prefix_clause =
  px_prefix :: string
  px_negated :: bool
  px_filter :: filter

record search_query =
  must_terms :: "term_clause list"
  must_not_terms :: "term_clause list"
  must_phrases :: "phrase_clause list"
  must_not_phrases :: "phrase_clause list"
  filters :: "prefix_clause list"
  scope :: "string option"

definition query_default :: search_query where
  "query_default = \<lparr>must_terms = [], must_not_terms = [], must_phrases = [], must_not_phrases = [],
     filters = [], scope = None\<rparr>"

section \<open>Dates\<close>

record dates =
  from_ymd :: "nat \<Rightarrow> nat \<Rightarrow> nat \<Rightarrow> bool"
  from_yo :: "nat \<Rightarrow> nat \<Rightarrow> bool"
  from_isoywd :: "nat \<Rightarrow> nat \<Rightarrow> nat \<Rightarrow> bool"
  compact_date :: "string \<Rightarrow> bool"
  clock_time :: "string \<Rightarrow> string \<Rightarrow> bool"
  known_locale :: "string \<Rightarrow> bool"

definition is_epoch :: "string \<Rightarrow> bool" where
  "is_epoch term \<longleftrightarrow> term \<noteq> [] \<and> list_all is_digit term"

definition digits :: "string \<Rightarrow> nat \<Rightarrow> bool" where
  "digits s n \<longleftrightarrow> length s = n \<and> list_all is_digit s"

definition iso_date :: "dates \<Rightarrow> string \<Rightarrow> bool" where
  "iso_date d date = (case split_by (\<lambda>c. c = CHR ''-'') date of
      [a] \<Rightarrow> digits a 8 \<and> compact_date d a
    | [a, b] \<Rightarrow> digits a 4 \<and> digits b 3 \<and> from_yo d (undec_nat a) (undec_nat b)
    | [a, b, c] \<Rightarrow>
        if digits a 4 \<and> digits b 2 \<and> digits c 2 then from_ymd d (undec_nat a) (undec_nat b) (undec_nat c)
        else digits a 4 \<and> length b = 3 \<and> hd b = CHR ''W'' \<and> digits (drop 1 b) 2 \<and> digits c 1 \<and>
          undec_nat c \<in> {1..7} \<and> from_isoywd d (undec_nat a) (undec_nat (drop 1 b)) (undec_nat c)
    | _ \<Rightarrow> False)"

definition iso_zone :: "string \<Rightarrow> bool" where
  "iso_zone z \<longleftrightarrow> z = [] \<or> z = ''Z'' \<or> z = ''z'' \<or>
     (let rest = List.filter (\<lambda>c. c \<noteq> CHR '':'') (drop 1 z) in length rest \<in> {2, 4} \<and> list_all is_digit rest)"

definition iso_time :: "dates \<Rightarrow> string \<Rightarrow> bool" where
  "iso_time d time =
     (let zoned = (\<lambda>c. c \<in> {CHR ''Z'', CHR ''z'', CHR ''+'', CHR ''-''});
          clock = takeWhile (\<lambda>c. \<not> zoned c) time; zone = dropWhile (\<lambda>c. \<not> zoned c) time;
          (hms, fraction_ok) = (case split_once (\<lambda>c. c \<in> {CHR ''.'', CHR '',''}) clock of
             Some (c, f) \<Rightarrow> (c, f \<noteq> [] \<and> list_all is_digit f) | None \<Rightarrow> (clock, True))
      in iso_zone zone \<and> fraction_ok \<and>
         list_ex (\<lambda>f. clock_time d f hms) [''%H:%M:%S'', ''%H:%M'', ''%H%M%S'', ''%H%M''])"

definition is_iso8601 :: "dates \<Rightarrow> string \<Rightarrow> bool" where
  "is_iso8601 d term = (case split_once (\<lambda>c. c \<in> {CHR ''T'', CHR ''t''}) term of
      None \<Rightarrow> iso_date d term
    | Some (date, time) \<Rightarrow> iso_date d date \<and> iso_time d time)"

definition date_from_term :: "dates \<Rightarrow> string \<Rightarrow> query_error + string" where
  "date_from_term d term = (if is_epoch term \<or> is_iso8601 d term then Inr term else Inl InvalidDate)"

definition language_code_from_term :: "dates \<Rightarrow> string \<Rightarrow> string" where
  "language_code_from_term d term =
     (let lower = to_lowercase term;
          base = to_lowercase (hd (split_by (\<lambda>c. c \<in> {CHR ''_'', CHR ''-''}) term))
      in if known_locale d term then term
         else if known_locale d lower then lower
         else if known_locale d base then base
         else term)"

section \<open>Sorting the clauses\<close>

definition add_term :: "char option \<Rightarrow> string \<Rightarrow> search_query \<Rightarrow> search_query" where
  "add_term operator term self =
     (let clause = \<lparr>tc_operator = operator_from operator, tc_term = term\<rparr> in
      case tc_operator clause of
        Must \<Rightarrow> self\<lparr>must_terms := must_terms self @ [clause]\<rparr>
      | MustNot \<Rightarrow> self\<lparr>must_not_terms := must_not_terms self @ [clause]\<rparr>)"

definition add_phrase :: "char option \<Rightarrow> string \<Rightarrow> search_query \<Rightarrow> search_query" where
  "add_phrase operator term self =
     (let phrase = \<lparr>pc_operator = operator_from operator, pc_phrase = term\<rparr> in
      case pc_operator phrase of
        Must \<Rightarrow> self\<lparr>must_phrases := must_phrases self @ [phrase]\<rparr>
      | MustNot \<Rightarrow> self\<lparr>must_not_phrases := must_not_phrases self @ [phrase]\<rparr>)"

definition prefix_filter :: "dates \<Rightarrow> string \<Rightarrow> string \<Rightarrow> query_error + filter" where
  "prefix_filter d prefix term =
     (if prefix \<in> {''has'', ''is''} then Inr (Property term)
      else if prefix = ''language'' then Inr (Language (language_code_from_term d term))
      else if prefix = ''from'' then Inr (From term)
      else res_bind (date_from_term d term) (\<lambda>date. Inr (Date (
        if prefix = ''before'' then [(''lt'', date)]
        else if prefix = ''after'' then [(''gt'', date)]
        else [(''gte'', date), (''lte'', date)]))))"

definition add_prefix :: "dates \<Rightarrow> string \<Rightarrow> char option \<Rightarrow> string \<Rightarrow> search_query \<Rightarrow> query_error + search_query" where
  "add_prefix d prefix operator term self =
     (if prefix = ''in'' then Inr (self\<lparr>scope := Some term\<rparr>)
      else res_bind (prefix_filter d prefix term) (\<lambda>f.
        Inr (self\<lparr>filters := filters self @
          [\<lparr>px_prefix = prefix, px_negated = (operator = Some (CHR ''-'')), px_filter = f\<rparr>]\<rparr>)))"

fun body_term :: "body \<Rightarrow> query_error + string" where
  "body_term (Phrase words) = (if words = []
     then Inl (UnsupportedClause (''undefined method '' @ CHR 0x27 # ''map'' @ CHR 0x27 # '' for an instance of Parslet::Slice''))
     else Inr (join_with '' '' words))"
| "body_term (Term t) = Inr t"
| "body_term Shortcode = Inr []"

definition add_clause :: "dates \<Rightarrow> clause_row \<Rightarrow> search_query \<Rightarrow> query_error + search_query" where
  "add_clause d clause self =
     res_bind (body_term (cl_body clause)) (\<lambda>term.
     case map_option to_lowercase (cl_prefix clause) of
       Some prefix \<Rightarrow>
         if prefix \<in> set SUPPORTED_PREFIXES then add_prefix d prefix (cl_operator clause) term self
         else Inr (add_term (cl_operator clause) (prefix @ '' '' @ term) self)
     | None \<Rightarrow> (case cl_body clause of
         Term _ \<Rightarrow> Inr (add_term (cl_operator clause) term self)
       | Phrase _ \<Rightarrow> Inr (add_phrase (cl_operator clause) term self)
       | Shortcode \<Rightarrow> Inl (UnsupportedClause ''Unexpected clause type: a bare emoji shortcode'')))"

fun query_new :: "dates \<Rightarrow> parsed list \<Rightarrow> search_query \<Rightarrow> query_error + search_query" where
  "query_new d [] query = Inr query"
| "query_new d (Junk # ps) query = query_new d ps query"
| "query_new d (Clause c # ps) query = res_bind (add_clause d c query) (query_new d ps)"

text \<open>\<^verbatim>\<open>PrefixClause::term\<close>: what is matched, or the date bounds.\<close>

definition clause_term :: "prefix_clause \<Rightarrow> string" where
  "clause_term self = (case px_filter self of
      Property t \<Rightarrow> t | Language t \<Rightarrow> t | From t \<Rightarrow> t
    | Date bounds \<Rightarrow> join_with '' '' (map (\<lambda>(op, v). op @ '':'' @ v) bounds))"

definition from_terms :: "search_query \<Rightarrow> string list" where
  "from_terms self = List.map_filter (\<lambda>f. case px_filter f of From t \<Rightarrow> Some t | _ \<Rightarrow> None) (filters self)"

definition indexes :: "search_query \<Rightarrow> string list" where
  "indexes self = (if scope self = Some ''library'' then [''statuses'']
     else if scope self = Some ''public'' then [''public_statuses'']
     else [''public_statuses'', ''statuses''])"

section \<open>The request\<close>

definition j1 :: "string \<Rightarrow> json \<Rightarrow> json" where
  "j1 k v = JObject [(k, v)]"

definition term_to_query :: "term_clause \<Rightarrow> json" where
  "term_to_query self =
     (if tc_term self \<noteq> [] \<and> hd (tc_term self) = CHR ''#'' then
        j1 ''match'' (j1 ''tags'' (JObject [(''query'', JString (tc_term self)), (''operator'', JString ''and'')]))
      else j1 ''multi_match'' (JObject [(''type'', JString ''most_fields''), (''query'', JString (tc_term self)),
        (''fields'', JList [JString ''text'', JString ''text.stemmed'']), (''operator'', JString ''and'')]))"

definition phrase_to_query :: "phrase_clause \<Rightarrow> json" where
  "phrase_to_query self = j1 ''match_phrase'' (j1 ''text'' (j1 ''query'' (JString (pc_phrase self))))"

definition j_term :: "string \<Rightarrow> json \<Rightarrow> json" where
  "j_term field v = j1 ''term'' (j1 field v)"

definition default_filter :: "int \<Rightarrow> (string \<Rightarrow> string) \<Rightarrow> json" where
  "default_filter viewer_id index_name = j1 ''bool'' (JObject [
     (''should'', JList [
        j_term ''_index'' (JString (index_name ''public_statuses'')),
        j1 ''bool'' (j1 ''must'' (JList [
          j_term ''_index'' (JString (index_name ''statuses'')),
          j_term ''searchable_by'' (JInt viewer_id)]))]),
     (''minimum_should_match'', JInt 1)])"

definition filter_to_query :: "string \<Rightarrow> (string \<Rightarrow> int) \<Rightarrow> prefix_clause \<Rightarrow> json" where
  "filter_to_query time_zone account_id clause =
     (let inner = (case px_filter clause of
          Property t \<Rightarrow> j_term ''properties'' (JString t)
        | Language t \<Rightarrow> j_term ''language'' (JString t)
        | From t \<Rightarrow> j_term ''account_id'' (JInt (account_id t))
        | Date bounds \<Rightarrow> j1 ''range'' (j1 ''created_at'' (JObject
            (map (\<lambda>(op, v). (op, JString v)) bounds @ [(''time_zone'', JString time_zone)]))))
      in if px_negated clause then j1 ''bool'' (j1 ''must_not'' inner) else inner)"

definition request :: "search_query \<Rightarrow> int \<Rightarrow> string \<Rightarrow> (string \<Rightarrow> string) \<Rightarrow> (string \<Rightarrow> int) \<Rightarrow> json" where
  "request self viewer_id time_zone index_name account_id = j1 ''bool'' (JObject [
     (''must'', JList (map term_to_query (must_terms self) @ map phrase_to_query (must_phrases self))),
     (''must_not'', JList (map term_to_query (must_not_terms self) @ map phrase_to_query (must_not_phrases self))),
     (''filter'', JList (default_filter viewer_id index_name # map (filter_to_query time_zone account_id) (filters self)))])"

end
