(* ===== verification/SearchTheorems.thy ===== *)
theory SearchTheorems
  imports SearchRequest
begin

text \<open>
  The search syntax reads back what is written in it, and every request keeps to the posts its
  viewer may find.
\<close>

section \<open>Writing a query\<close>

fun show_body :: "body \<Rightarrow> string" where
  "show_body (Term t) = t"
| "show_body (Phrase ws) = quote # join_with '' '' ws @ [quote]"
| "show_body Shortcode = '':x:''"

definition show_prefix :: "string option \<Rightarrow> string" where
  "show_prefix p = (case p of None \<Rightarrow> [] | Some t \<Rightarrow> t @ '':'')"

definition show_operator :: "char option \<Rightarrow> string" where
  "show_operator c = (case c of None \<Rightarrow> [] | Some x \<Rightarrow> [x])"

definition show_clause :: "clause_row \<Rightarrow> string" where
  "show_clause c = show_operator (cl_operator c) @ show_prefix (cl_prefix c) @ show_body (cl_body c)"

definition is_word :: "(char \<Rightarrow> bool) \<Rightarrow> string \<Rightarrow> bool" where
  "is_word P t \<longleftrightarrow> t \<noteq> [] \<and> list_all P t"

text \<open>A clause that can be written: without an operator, what follows must not look like one.\<close>

definition signed :: "string \<Rightarrow> bool" where
  "signed t \<longleftrightarrow> t \<noteq> [] \<and> hd t \<in> {CHR ''+'', CHR ''-''}"

definition writable :: "clause_row \<Rightarrow> bool" where
  "writable c \<longleftrightarrow>
     cl_operator c \<in> {None, Some (CHR ''+''), Some (CHR ''-'')} \<and>
     (case cl_prefix c of None \<Rightarrow> True | Some p \<Rightarrow> is_word term_char p) \<and>
     (case cl_body c of Term t \<Rightarrow> is_word term_char t | Phrase ws \<Rightarrow> list_all (is_word word_char) ws | Shortcode \<Rightarrow> True) \<and>
     (cl_operator c = None \<longrightarrow> \<not> signed (show_prefix (cl_prefix c) @ show_body (cl_body c)))"

text \<open>What follows a clause: nothing, or a space.\<close>

definition ends :: "string \<Rightarrow> bool" where
  "ends r \<longleftrightarrow> r = [] \<or> is_space (hd r)"

lemma takeWhile_word:
  "list_all P t \<Longrightarrow> r = [] \<or> \<not> P (hd r) \<Longrightarrow> takeWhile P (t @ r) = t \<and> dropWhile P (t @ r) = r"
  by (cases r) (auto simp: list_all_iff takeWhile_append dropWhile_append)

lemma ends_term [simp]: "ends r \<Longrightarrow> r = [] \<or> \<not> term_char (hd r)"
  by (auto simp: ends_def term_char_def)

lemma space_not_colon: "ends r \<Longrightarrow> p_char (CHR '':'') r = None"
  by (cases r) (auto simp: ends_def p_char_def is_space_def code_def)

lemma p_term_word:
  assumes "is_word term_char t" "r = [] \<or> \<not> term_char (hd r)"
  shows "p_term (t @ r) = Some (t, r)"
  using assms takeWhile_word [of term_char t r] by (simp add: p_term_def is_word_def del: takeWhile_eq_Nil_iff)

lemma colon_ends: "\<not> term_char (CHR '':'')" "\<not> term_char quote" "\<not> is_space quote"
  by (simp_all add: term_char_def quote_def is_space_def code_def)

lemma p_term_none: "\<not> term_char x \<Longrightarrow> p_term (x # s) = None"
  by (simp add: p_term_def)

lemma p_phrase_none: "x \<noteq> quote \<Longrightarrow> p_phrase (x # s) = None"
  by (simp add: p_phrase_def p_char_def)

lemma term_char_not_quote: "term_char c \<Longrightarrow> c \<noteq> quote"
  by (simp add: term_char_def)

lemma p_words_join:
  "list_all (is_word word_char) ws \<Longrightarrow> p_words (join_with '' '' ws @ quote # r) = (ws, quote # r)"
proof (induction ws)
  case Nil
  show ?case by (simp add: p_words.simps word_char_def)
next
  case (Cons w ws)
  define r' where "r' = (if ws = [] then quote # r else CHR '' '' # join_with '' '' ws @ quote # r)"
  have word: "is_word word_char w" and rest: "list_all (is_word word_char) ws" using Cons.prems by auto
  have shown: "join_with '' '' (w # ws) @ quote # r = w @ r'"
    by (cases "ws = []") (simp_all add: r'_def join_with_Cons)
  have stop: "r' = [] \<or> \<not> word_char (hd r')"
    by (simp add: r'_def word_char_def is_space_def code_def)
  have next_word: "ws \<noteq> [] \<Longrightarrow> dropWhile is_space (join_with '' '' ws @ quote # r) = join_with '' '' ws @ quote # r"
  proof -
    assume "ws \<noteq> []"
    then obtain v vs where ws: "ws = v # vs" by (cases ws) auto
    then obtain x v' where "v = x # v'" "word_char x" using rest by (cases v) (auto simp: is_word_def)
    then show ?thesis using ws by (cases vs) (auto simp: word_char_def)
  qed
  have skip: "or_stay r' (p_space r') = join_with '' '' ws @ quote # r"
    using next_word by (auto simp: or_stay_space r'_def colon_ends is_space_def [of "CHR '' ''"] code_def)
  show ?case
    using word takeWhile_word [of word_char w r'] stop Cons.IH [OF rest]
    by (subst p_words.simps) (simp add: shown skip is_word_def Let_def del: takeWhile_eq_Nil_iff)
qed

lemma p_phrase_show: "list_all (is_word word_char) ws \<Longrightarrow> p_phrase (show_body (Phrase ws) @ r) = Some (ws, r)"
  using p_words_join [of ws r] by (simp add: p_phrase_def p_char_def)

text \<open>A body is read back, whatever may end it follows.\<close>

lemma p_body_show:
  assumes "case b of Term t \<Rightarrow> is_word term_char t | Phrase ws \<Rightarrow> list_all (is_word word_char) ws | Shortcode \<Rightarrow> True"
    and "ends r"
  shows "p_body (show_body b @ r) = Some (b, r)"
proof (cases b)
  case (Term t)
  then obtain x t' where "t = x # t'" "x \<noteq> quote" using assms by (cases t) (auto simp: is_word_def term_char_def)
  then have "p_phrase (t @ r) = None" by (simp add: p_phrase_none)
  then show ?thesis using Term assms p_term_word [of t r] by (simp add: p_body_def)
next
  case (Phrase ws)
  then show ?thesis using assms p_phrase_show [of ws r] by (simp add: p_body_def)
next
  case Shortcode
  have one: "p_term (''x'' @ CHR '':'' # r) = Some (''x'', CHR '':'' # r)"
    by (rule p_term_word) (simp_all add: is_word_def term_char_def quote_def is_space_def code_def)
  have "p_phrase ('':x:'' @ r) = None" by (simp add: p_phrase_def p_char_def quote_def)
  moreover have "p_term ('':x:'' @ r) = None" by (simp add: p_term_none term_char_def)
  moreover have "p_shortcode ('':x:'' @ r) = Some (''x'', r)"
    using one by (simp add: p_shortcode_def p_char_def or_stay_def)
  ultimately show ?thesis using Shortcode by (simp add: p_body_def)
qed

lemma no_prefix_of_body:
  assumes "case b of Term t \<Rightarrow> is_word term_char t | Phrase ws \<Rightarrow> list_all (is_word word_char) ws | Shortcode \<Rightarrow> True"
    and "ends r"
  shows "p_prefix (show_body b @ r) = None"
proof (cases b)
  case (Term t)
  then show ?thesis using assms p_term_word [of t r] by (simp add: p_prefix_def space_not_colon)
next
  case (Phrase ws)
  then show ?thesis by (simp add: p_prefix_def p_term_none colon_ends)
next
  case Shortcode
  then show ?thesis by (simp add: p_prefix_def p_term_none colon_ends)
qed

lemma p_clause_show:
  assumes "writable c" "ends r"
  shows "p_clause (show_clause c @ r) = Some (Clause c, r)"
proof -
  let ?body = "show_body (cl_body c) @ r"
  let ?rest = "show_prefix (cl_prefix c) @ ?body"
  note w = assms(1) [unfolded writable_def]
  have body: "p_body ?body = Some (cl_body c, r)" by (rule p_body_show) (use w assms in auto)
  have prefix: "p_prefix ?rest = (case cl_prefix c of None \<Rightarrow> None | Some p \<Rightarrow> Some (p, ?body))"
  proof (cases "cl_prefix c")
    case None
    have "p_prefix ?body = None" by (rule no_prefix_of_body) (use w assms in auto)
    then show ?thesis using None by (simp add: show_prefix_def)
  next
    case (Some p)
    then have "is_word term_char p" using w by simp
    then have "p_term (p @ CHR '':'' # ?body) = Some (p, CHR '':'' # ?body)"
      by (intro p_term_word) (auto simp: colon_ends)
    then show ?thesis using Some by (simp add: show_prefix_def p_prefix_def p_char_def)
  qed
  have op: "p_operator (show_clause c @ r) = (cl_operator c, ?rest)"
  proof (cases "cl_operator c")
    case None
    have "\<not> signed ?rest"
      using w None by (cases "cl_body c"; cases "cl_prefix c")
        (auto simp: signed_def show_prefix_def is_word_def hd_append quote_def split: if_splits)
    then show ?thesis using None
      by (cases ?rest) (auto simp: p_operator_def show_clause_def show_operator_def signed_def)
  next
    case (Some x)
    then show ?thesis using w by (auto simp: p_operator_def show_clause_def show_operator_def)
  qed
  have "full_clause (show_clause c @ r) = Some (Clause c, r)"
    using op prefix body by (cases "cl_prefix c") (simp_all add: full_clause_def show_prefix_def)
  then show ?thesis by (simp add: p_clause_def)
qed

lemma show_clause_starts:
  "writable c \<Longrightarrow> \<exists>x s. show_clause c = x # s \<and> \<not> is_space x"
  by (cases "cl_operator c"; cases "cl_prefix c"; cases "cl_body c"; cases "the (cl_prefix c)")
    (auto simp: writable_def show_clause_def show_operator_def show_prefix_def is_word_def quote_def
      is_space_def code_def term_char_def neq_Nil_conv)

definition show_query :: "clause_row list \<Rightarrow> string" where
  "show_query cs = join_with '' '' (map show_clause cs)"

lemma show_query_starts:
  "cs \<noteq> [] \<Longrightarrow> list_all writable cs \<Longrightarrow> \<exists>x s. show_query cs = x # s \<and> \<not> is_space x"
proof -
  assume cs: "cs \<noteq> []" "list_all writable cs"
  then obtain c ds where c: "cs = c # ds" "writable c" by (cases cs) auto
  then obtain x s where "show_clause c = x # s" "\<not> is_space x" using show_clause_starts by blast
  then show ?thesis using c by (cases ds) (auto simp: show_query_def)
qed

lemma p_clauses_show: "list_all writable cs \<Longrightarrow> p_clauses (show_query cs) = (map Clause cs, [])"
proof (induction cs)
  case Nil
  have "p_clause [] = None"
    by (simp add: p_clause_def full_clause_def p_operator_def p_prefix_def p_term_def p_body_def p_phrase_def
      p_char_def p_shortcode_def)
  then show ?case by (simp add: p_clauses.simps show_query_def)
next
  case (Cons c cs)
  define r where "r = (if cs = [] then [] else CHR '' '' # show_query cs)"
  have shown: "show_query (c # cs) = show_clause c @ r"
    by (cases "cs = []") (simp_all add: show_query_def r_def join_with_Cons)
  have "ends r" by (simp add: ends_def r_def is_space_def code_def)
  then have first: "p_clause (show_query (c # cs)) = Some (Clause c, r)"
    using p_clause_show [of c r] Cons.prems by (simp add: shown)
  have starts: "cs \<noteq> [] \<Longrightarrow> \<exists>x s. show_query cs = x # s \<and> \<not> is_space x"
    using show_query_starts Cons.prems by auto
  have "or_stay r (p_space r) = show_query cs"
    using starts by (cases "cs = []")
      (auto simp: or_stay_space r_def show_query_def [of "[]"] is_space_def [of "CHR '' ''"] code_def)
  then show ?case using first Cons by (subst p_clauses.simps) simp
qed

text \<open>
  C32: A query written from its clauses (terms, phrases and shortcodes, each with an optional sign
  and an optional prefix, separated by spaces) is parsed to those clauses. Without a sign a
  clause must not begin with a plus or a minus, and terms hold no quote, colon or space.
\<close>

theorem query_round_trip:
  assumes "list_all writable cs"
  shows "parse_query (show_query cs) = Inr (map Clause cs)"
  using p_clauses_show [OF assms] by (simp add: parse_query_def)

lemma query_round_trip_witness:
  "parse_query (show_query
     [\<lparr>cl_operator = None, cl_prefix = Some ''from'', cl_body = Term ''me''\<rparr>,
      \<lparr>cl_operator = Some (CHR ''-''), cl_prefix = None, cl_body = Phrase [''a'', ''b:c'']\<rparr>]) =
   Inr [Clause \<lparr>cl_operator = None, cl_prefix = Some ''from'', cl_body = Term ''me''\<rparr>,
      Clause \<lparr>cl_operator = Some (CHR ''-''), cl_prefix = None, cl_body = Phrase [''a'', ''b:c'']\<rparr>]"
  by (subst query_round_trip)
    (simp_all add: writable_def is_word_def signed_def show_prefix_def term_char_def word_char_def
      quote_def is_space_def code_def)

section \<open>What a request finds\<close>

text \<open>
  Elasticsearch is not part of the sources: which documents a query matches is a parameter, of
  which only the documented meaning of \<^verbatim>\<open>bool\<close> and of \<^verbatim>\<open>term\<close> on two fields is used.
\<close>

definition clauses_of :: "string \<Rightarrow> (string \<times> json) list \<Rightarrow> json list" where
  "clauses_of k kvs = (case map_of kvs k of None \<Rightarrow> [] | Some (JList qs) \<Rightarrow> qs | Some q \<Rightarrow> [q])"

definition bool_law :: "('d \<Rightarrow> json \<Rightarrow> bool) \<Rightarrow> bool" where
  "bool_law finds \<longleftrightarrow> (\<forall>d kvs. distinct (map fst kvs) \<longrightarrow>
     map_of kvs ''should'' = None \<or> map_of kvs ''minimum_should_match'' = Some (JInt 1) \<longrightarrow>
     finds d (j1 ''bool'' (JObject kvs)) =
       ((\<forall>q \<in> set (clauses_of ''must'' kvs). finds d q) \<and>
        (\<forall>q \<in> set (clauses_of ''must_not'' kvs). \<not> finds d q) \<and>
        (\<forall>q \<in> set (clauses_of ''filter'' kvs). finds d q) \<and>
        (map_of kvs ''should'' = None \<or> (\<exists>q \<in> set (clauses_of ''should'' kvs). finds d q))))"

definition term_law :: "('d \<Rightarrow> json \<Rightarrow> bool) \<Rightarrow> ('d \<Rightarrow> string) \<Rightarrow> ('d \<Rightarrow> int list) \<Rightarrow> bool" where
  "term_law finds index searchable_by \<longleftrightarrow> (\<forall>d n v.
     finds d (j_term ''_index'' (JString n)) = (index d = n) \<and>
     finds d (j_term ''searchable_by'' (JInt v)) = (v \<in> set (searchable_by d)))"

text \<open>What a clause asks of a document; \<^verbatim>\<open>in:\<close> asks nothing, it chooses the indexes.\<close>

definition asks :: "dates \<Rightarrow> string \<Rightarrow> (string \<Rightarrow> int) \<Rightarrow> clause_row \<Rightarrow> json option" where
  "asks dt tz acc c = (case body_term (cl_body c) of Inl _ \<Rightarrow> None | Inr t \<Rightarrow>
     (case map_option to_lowercase (cl_prefix c) of
        None \<Rightarrow> Some (case cl_body c of
          Phrase _ \<Rightarrow> phrase_to_query \<lparr>pc_operator = Must, pc_phrase = t\<rparr>
        | _ \<Rightarrow> term_to_query \<lparr>tc_operator = Must, tc_term = t\<rparr>)
      | Some p \<Rightarrow>
          if p = ''in'' then None
          else if p \<in> set SUPPORTED_PREFIXES then
            (case prefix_filter dt p t of Inl _ \<Rightarrow> None
             | Inr f \<Rightarrow> Some (filter_to_query tz acc \<lparr>px_prefix = p, px_negated = False, px_filter = f\<rparr>))
          else Some (term_to_query \<lparr>tc_operator = Must, tc_term = p @ '' '' @ t\<rparr>)))"

definition meets :: "('d \<Rightarrow> json \<Rightarrow> bool) \<Rightarrow> 'd \<Rightarrow> dates \<Rightarrow> string \<Rightarrow> (string \<Rightarrow> int) \<Rightarrow> clause_row \<Rightarrow> bool" where
  "meets finds d dt tz acc c = (case asks dt tz acc c of None \<Rightarrow> True
     | Some q \<Rightarrow> finds d q = (cl_operator c \<noteq> Some (CHR ''-'')))"

text \<open>What the query built so far asks.\<close>

definition satisfies :: "('d \<Rightarrow> json \<Rightarrow> bool) \<Rightarrow> 'd \<Rightarrow> string \<Rightarrow> (string \<Rightarrow> int) \<Rightarrow> search_query \<Rightarrow> bool" where
  "satisfies finds d tz acc q \<longleftrightarrow>
     (\<forall>t \<in> set (must_terms q). finds d (term_to_query t)) \<and>
     (\<forall>t \<in> set (must_phrases q). finds d (phrase_to_query t)) \<and>
     (\<forall>t \<in> set (must_not_terms q). \<not> finds d (term_to_query t)) \<and>
     (\<forall>t \<in> set (must_not_phrases q). \<not> finds d (phrase_to_query t)) \<and>
     (\<forall>f \<in> set (filters q). finds d (filter_to_query tz acc f))"

lemma operator_irrelevant:
  "term_to_query \<lparr>tc_operator = x, tc_term = t\<rparr> = term_to_query \<lparr>tc_operator = Must, tc_term = t\<rparr>"
  "phrase_to_query \<lparr>pc_operator = x, pc_phrase = t\<rparr> = phrase_to_query \<lparr>pc_operator = Must, pc_phrase = t\<rparr>"
  by (simp_all add: term_to_query_def phrase_to_query_def)

lemma satisfies_add_term:
  "satisfies finds d tz acc (add_term op t q) \<longleftrightarrow> satisfies finds d tz acc q \<and>
     finds d (term_to_query \<lparr>tc_operator = Must, tc_term = t\<rparr>) = (op \<noteq> Some (CHR ''-''))"
  using operator_irrelevant(1) [of MustNot t] by (auto simp: satisfies_def add_term_def operator_from_def)

lemma satisfies_add_phrase:
  "satisfies finds d tz acc (add_phrase op t q) \<longleftrightarrow> satisfies finds d tz acc q \<and>
     finds d (phrase_to_query \<lparr>pc_operator = Must, pc_phrase = t\<rparr>) = (op \<noteq> Some (CHR ''-''))"
  using operator_irrelevant(2) [of MustNot t] by (auto simp: satisfies_def add_phrase_def operator_from_def)

lemma negated_filter:
  "bool_law finds \<Longrightarrow> finds d (filter_to_query tz acc \<lparr>px_prefix = p, px_negated = n, px_filter = f\<rparr>) =
     (finds d (filter_to_query tz acc \<lparr>px_prefix = p, px_negated = False, px_filter = f\<rparr>) = (\<not> n))"
proof -
  assume law: "bool_law finds"
  have "finds d (j1 ''bool'' (j1 ''must_not'' (JObject kvs))) = (\<not> finds d (JObject kvs))" for kvs
    using law [unfolded bool_law_def, rule_format, of "[(''must_not'', JObject kvs)]" d]
    by (simp add: clauses_of_def j1_def)
  then show ?thesis
    by (cases f) (simp_all add: filter_to_query_def j_term_def Let_def j1_def)
qed

lemma satisfies_scope: "satisfies finds d tz acc (q\<lparr>scope := x\<rparr>) = satisfies finds d tz acc q"
  by (simp add: satisfies_def)

lemma satisfies_add_filter:
  assumes "bool_law finds"
  shows "satisfies finds d tz acc (q\<lparr>filters := filters q @ [\<lparr>px_prefix = p, px_negated = n, px_filter = f\<rparr>]\<rparr>) \<longleftrightarrow>
     satisfies finds d tz acc q \<and>
     finds d (filter_to_query tz acc \<lparr>px_prefix = p, px_negated = False, px_filter = f\<rparr>) = (\<not> n)"
  using negated_filter [OF assms, of d tz acc p n f] by (auto simp: satisfies_def)

lemma satisfies_add_clause:
  assumes "bool_law finds" "add_clause dt c q = Inr q'"
  shows "satisfies finds d tz acc q' \<longleftrightarrow> satisfies finds d tz acc q \<and> meets finds d dt tz acc c"
proof -
  obtain t where t: "body_term (cl_body c) = Inr t"
    using assms(2) by (auto simp: add_clause_def res_bind_eq_Inr)
  note adding = satisfies_add_term satisfies_add_phrase satisfies_scope satisfies_add_filter [OF assms(1)]
  show ?thesis
  proof (cases "cl_prefix c")
    case None
    then show ?thesis using assms(2) t
      by (cases "cl_body c") (auto simp: add_clause_def meets_def asks_def adding)
  next
    case (Some p)
    then have q': "(if to_lowercase p \<in> set SUPPORTED_PREFIXES then add_prefix dt (to_lowercase p) (cl_operator c) t q
         else Inr (add_term (cl_operator c) (to_lowercase p @ '' '' @ t) q)) = Inr q'"
      using assms(2) t by (simp add: add_clause_def)
    have in_supported: "''in'' \<in> set SUPPORTED_PREFIXES" by (simp add: SUPPORTED_PREFIXES_def)
    show ?thesis
    proof (cases "to_lowercase p \<in> set SUPPORTED_PREFIXES \<and> to_lowercase p \<noteq> ''in''")
      case False
      with q' have "q' = q\<lparr>scope := Some t\<rparr> \<and> to_lowercase p = ''in'' \<or>
          q' = add_term (cl_operator c) (to_lowercase p @ '' '' @ t) q \<and> to_lowercase p \<notin> set SUPPORTED_PREFIXES"
        by (auto simp: add_prefix_def split: if_splits)
      then show ?thesis using t Some in_supported by (auto simp: meets_def asks_def adding simp del: append.simps)
    next
      case True
      then obtain f where f: "prefix_filter dt (to_lowercase p) t = Inr f"
        and new: "q' = q\<lparr>filters := filters q @ [\<lparr>px_prefix = to_lowercase p,
           px_negated = (cl_operator c = Some (CHR ''-'')), px_filter = f\<rparr>]\<rparr>"
        using q' by (auto simp: add_prefix_def res_bind_eq_Inr)
      show ?thesis using t Some True f by (simp add: new meets_def asks_def adding)
    qed
  qed
qed

lemma satisfies_query_new:
  assumes "bool_law finds" "query_new dt ps q = Inr q'"
  shows "satisfies finds d tz acc q' \<longleftrightarrow>
    satisfies finds d tz acc q \<and> (\<forall>c. Clause c \<in> set ps \<longrightarrow> meets finds d dt tz acc c)"
  using assms(2)
  by (induction dt ps q rule: query_new.induct)
    (auto simp: res_bind_eq_Inr dest!: satisfies_add_clause [OF assms(1), where d = d and tz = tz and acc = acc])

definition may_find :: "('d \<Rightarrow> string) \<Rightarrow> ('d \<Rightarrow> int list) \<Rightarrow> (string \<Rightarrow> string) \<Rightarrow> int \<Rightarrow> 'd \<Rightarrow> bool" where
  "may_find index searchable_by index_name viewer d \<longleftrightarrow>
     index d = index_name ''public_statuses'' \<or>
     index d = index_name ''statuses'' \<and> viewer \<in> set (searchable_by d)"

lemma default_filter_finds:
  assumes "bool_law finds" "term_law finds index searchable_by"
  shows "finds d (default_filter viewer index_name) = may_find index searchable_by index_name viewer d"
proof -
  note law = assms(1) [unfolded bool_law_def, rule_format]
  have inner: "finds d (j1 ''bool'' (j1 ''must'' (JList qs))) = (\<forall>q \<in> set qs. finds d q)" for qs
    using law [of "[(''must'', JList qs)]" d] by (simp add: clauses_of_def j1_def)
  have outer: "finds d (j1 ''bool'' (JObject [(''should'', JList qs), (''minimum_should_match'', JInt 1)])) =
      (\<exists>q \<in> set qs. finds d q)" for qs
    using law [of "[(''should'', JList qs), (''minimum_should_match'', JInt 1)]" d] by (simp add: clauses_of_def)
  show ?thesis
    using assms(2) by (simp add: default_filter_def outer inner term_law_def may_find_def)
qed

lemma request_finds:
  assumes "bool_law finds" "term_law finds index searchable_by"
  shows "finds d (request q viewer tz index_name acc) \<longleftrightarrow>
    may_find index searchable_by index_name viewer d \<and> satisfies finds d tz acc q"
proof -
  have "finds d (request q viewer tz index_name acc) \<longleftrightarrow>
      (\<forall>j \<in> set (map term_to_query (must_terms q) @ map phrase_to_query (must_phrases q)). finds d j) \<and>
      (\<forall>j \<in> set (map term_to_query (must_not_terms q) @ map phrase_to_query (must_not_phrases q)). \<not> finds d j) \<and>
      (\<forall>j \<in> set (default_filter viewer index_name # map (filter_to_query tz acc) (filters q)). finds d j)"
    unfolding request_def
    by (subst assms(1) [unfolded bool_law_def, rule_format]) (simp_all add: clauses_of_def)
  then show ?thesis
    using default_filter_finds [OF assms, of d viewer index_name] by (auto simp: satisfies_def)
qed

text \<open>
  C33: The request built from a query finds exactly the posts its viewer may find (those of the
  public index, and those of the other whose author let the viewer find them) that meet every
  clause: what a plain or plus clause asks, and not what a minus clause asks. So no query, however
  it is written, finds a post outside. Hypotheses: the documented meaning of Elasticsearch's bool
  queries and of term queries on the index and on \<^verbatim>\<open>searchable_by\<close>.
\<close>

theorem search_finds_what_the_clauses_ask:
  assumes "bool_law finds" "term_law finds index searchable_by"
    and "parse_query s = Inr ps" "query_new dt ps query_default = Inr q"
  shows "finds d (request q viewer tz index_name acc) \<longleftrightarrow>
    may_find index searchable_by index_name viewer d \<and>
    (\<forall>c. Clause c \<in> set ps \<longrightarrow> meets finds d dt tz acc c)"
proof -
  have "satisfies finds d tz acc query_default" by (simp add: satisfies_def query_default_def)
  then show ?thesis
    using request_finds [OF assms(1,2)] satisfies_query_new [OF assms(1,4)] by simp
qed

text \<open>An evaluator of the queries a request is made of, for a post with its index and its readers.\<close>

fun answers :: "string \<times> int list \<times> string \<Rightarrow> json \<Rightarrow> bool" where
  "answers d (JObject [(k, v)]) =
     (if k = ''bool'' then (case v of JObject kvs \<Rightarrow> list_all (\<lambda>(key, q).
          if key \<in> {''must'', ''filter''} then (case q of JList qs \<Rightarrow> list_all (answers d) qs | _ \<Rightarrow> answers d q)
          else if key = ''must_not'' then (case q of JList qs \<Rightarrow> list_all (\<lambda>x. \<not> answers d x) qs | _ \<Rightarrow> \<not> answers d q)
          else if key = ''should'' then (case q of JList qs \<Rightarrow> list_ex (answers d) qs | _ \<Rightarrow> answers d q)
          else True) kvs | _ \<Rightarrow> False)
      else if k = ''term'' then (case v of
          JObject [(field, x)] \<Rightarrow> (case x of
             JString n \<Rightarrow> field = ''_index'' \<and> fst d = n
           | JInt i \<Rightarrow> field = ''searchable_by'' \<and> i \<in> set (fst (snd d))
           | _ \<Rightarrow> False)
        | _ \<Rightarrow> False)
      else if k = ''multi_match'' then (case v of
          JObject kvs \<Rightarrow> map_of kvs ''query'' = Some (JString (snd (snd d))) | _ \<Rightarrow> False)
      else False)"
| "answers d _ = False"

lemma answers_term_law: "term_law answers fst (\<lambda>d. fst (snd d))"
  by (simp add: term_law_def j_term_def j1_def)

lemma entries_of_key:
  assumes "distinct (map fst kvs)"
  shows "(\<forall>v. (k, v) \<in> set kvs \<longrightarrow> Q v) \<longleftrightarrow> (case map_of kvs k of None \<Rightarrow> True | Some v \<Rightarrow> Q v)"
proof -
  have "(k, v) \<in> set kvs \<longleftrightarrow> map_of kvs k = Some v" for v
    by (rule map_of_eq_Some_iff [OF assms, symmetric])
  then show ?thesis by (auto split: option.split)
qed

lemma clauses_of_in:
  assumes "distinct (map fst kvs)"
  shows "(\<forall>q \<in> set (clauses_of k kvs). P q) \<longleftrightarrow>
     (\<forall>v. (k, v) \<in> set kvs \<longrightarrow> (case v of JList qs \<Rightarrow> list_all P qs | _ \<Rightarrow> P v))"
  unfolding entries_of_key [OF assms] clauses_of_def
  by (cases "map_of kvs k") (simp_all add: list_all_iff split: json.split)

lemma should_in:
  assumes "distinct (map fst kvs)"
  shows "(map_of kvs ''should'' = None \<or> (\<exists>q \<in> set (clauses_of ''should'' kvs). P q)) \<longleftrightarrow>
     (\<forall>v. (''should'', v) \<in> set kvs \<longrightarrow> (case v of JList qs \<Rightarrow> list_ex P qs | _ \<Rightarrow> P v))"
  unfolding entries_of_key [OF assms] clauses_of_def
  by (cases "map_of kvs ''should''") (simp_all add: list_ex_iff split: json.split)

lemma answers_bool:
  "answers d (j1 ''bool'' (JObject kvs)) \<longleftrightarrow>
   (\<forall>key v. (key, v) \<in> set kvs \<longrightarrow>
      (key \<in> {''must'', ''filter''} \<longrightarrow> (case v of JList qs \<Rightarrow> list_all (answers d) qs | _ \<Rightarrow> answers d v)) \<and>
      (key = ''must_not'' \<longrightarrow> (case v of JList qs \<Rightarrow> list_all (\<lambda>q. \<not> answers d q) qs | _ \<Rightarrow> \<not> answers d v)) \<and>
      (key = ''should'' \<longrightarrow> (case v of JList qs \<Rightarrow> list_ex (answers d) qs | _ \<Rightarrow> answers d v)))"
  by (auto simp: j1_def list_all_iff [of _ kvs])

lemma answers_bool_law: "bool_law answers"
  unfolding bool_law_def answers_bool
proof (intro allI impI)
  fix d :: "string \<times> int list \<times> string" and kvs :: "(string \<times> json) list"
  assume "distinct (map fst kvs)"
  note c = clauses_of_in [OF this] should_in [OF this]
  show "(\<forall>key v. (key, v) \<in> set kvs \<longrightarrow>
      (key \<in> {''must'', ''filter''} \<longrightarrow> (case v of JList qs \<Rightarrow> list_all (answers d) qs | _ \<Rightarrow> answers d v)) \<and>
      (key = ''must_not'' \<longrightarrow> (case v of JList qs \<Rightarrow> list_all (\<lambda>q. \<not> answers d q) qs | _ \<Rightarrow> \<not> answers d v)) \<and>
      (key = ''should'' \<longrightarrow> (case v of JList qs \<Rightarrow> list_ex (answers d) qs | _ \<Rightarrow> answers d v))) \<longleftrightarrow>
     ((\<forall>q \<in> set (clauses_of ''must'' kvs). answers d q) \<and>
      (\<forall>q \<in> set (clauses_of ''must_not'' kvs). \<not> answers d q) \<and>
      (\<forall>q \<in> set (clauses_of ''filter'' kvs). answers d q) \<and>
      (map_of kvs ''should'' = None \<or> (\<exists>q \<in> set (clauses_of ''should'' kvs). answers d q)))"
    unfolding c by blast
qed

text \<open>A query of two words, of which a post of somebody else's library matches the first.\<close>

definition some_dates :: dates where
  "some_dates = \<lparr>from_ymd = \<lambda>y m d. True, from_yo = \<lambda>y d. True, from_isoywd = \<lambda>y w d. True,
     compact_date = \<lambda>s. True, clock_time = \<lambda>f s. True, known_locale = \<lambda>s. False\<rparr>"

definition plain_and_minus :: "clause_row list" where
  "plain_and_minus =
     [\<lparr>cl_operator = None, cl_prefix = None, cl_body = Term ''a''\<rparr>,
      \<lparr>cl_operator = Some (CHR ''-''), cl_prefix = None, cl_body = Term ''b''\<rparr>]"

lemma search_finds_what_the_clauses_ask_witness:
  "\<exists>q. query_new some_dates (map Clause plain_and_minus) query_default = Inr q \<and>
     answers (''public_statuses'', [], ''a'') (request q 7 ''UTC'' (\<lambda>n. n) (\<lambda>t. -1)) \<and>
     \<not> answers (''statuses'', [8], ''a'') (request q 7 ''UTC'' (\<lambda>n. n) (\<lambda>t. -1)) \<and>
     answers (''statuses'', [7], ''a'') (request q 7 ''UTC'' (\<lambda>n. n) (\<lambda>t. -1)) \<and>
     \<not> answers (''statuses'', [7], ''b'') (request q 7 ''UTC'' (\<lambda>n. n) (\<lambda>t. -1))"
proof -
  obtain q where q: "query_new some_dates (map Clause plain_and_minus) query_default = Inr q"
    by (simp add: plain_and_minus_def add_clause_def)
  have parsed: "parse_query ''a -b'' = Inr (map Clause plain_and_minus)"
    using p_clauses_show [of plain_and_minus]
    by (simp add: parse_query_def plain_and_minus_def show_query_def show_clause_def show_operator_def
      show_prefix_def writable_def is_word_def signed_def term_char_def quote_def is_space_def code_def)
  have every: "(\<forall>c. Clause c \<in> set (map Clause cs) \<longrightarrow> P c) \<longleftrightarrow> list_all P cs" for cs P
    by (auto simp: list_all_iff)
  note finds = search_finds_what_the_clauses_ask [OF answers_bool_law answers_term_law parsed q, unfolded every]
  show ?thesis
    by (rule exI [of _ q])
      (simp add: q finds, simp add: plain_and_minus_def may_find_def meets_def asks_def term_to_query_def j1_def)
qed

end
