(* ===== verification/Cbor.thy ===== *)
theory Cbor
  imports Der
begin

text \<open>
  The module \<^verbatim>\<open>cbor\<close> of \<^verbatim>\<open>src/webauthn.rs\<close>: reading and writing CBOR. Where the code
  keeps a position in the bytes, a reader here takes the bytes that are left and gives what it
  leaves; \<open>all\<close> is the number of all bytes, which the code compares a length with. A text is its
  code points.
\<close>

datatype cbor =
    CInt int
  | CBytes bytes
  | CText "nat list"
  | CArray "cbor list"
  | CMap "(cbor \<times> cbor) list"
  | CBool bool
  | CNull
  | CTagged nat cbor

fun as_int :: "cbor \<Rightarrow> int option" where
  "as_int (CInt i) = Some i"
| "as_int _ = None"

fun as_bytes :: "cbor \<Rightarrow> bytes option" where
  "as_bytes (CBytes b) = Some b"
| "as_bytes _ = None"

fun as_text :: "cbor \<Rightarrow> nat list option" where
  "as_text (CText t) = Some t"
| "as_text _ = None"

fun cbor_get :: "cbor \<Rightarrow> cbor \<Rightarrow> cbor option" where
  "cbor_get (CMap entries) key = map_option snd (find (\<lambda>(k, _). k = key) entries)"
| "cbor_get _ key = None"

definition get_text :: "cbor \<Rightarrow> string \<Rightarrow> cbor option" where
  "get_text self key = cbor_get self (CText (map code key))"

definition get_int :: "cbor \<Rightarrow> int \<Rightarrow> cbor option" where
  "get_int self key = cbor_get self (CInt key)"

section \<open>Reading\<close>

definition MAX_CBOR_DEPTH :: nat where
  "MAX_CBOR_DEPTH = 16"

definition take_n :: "nat \<Rightarrow> bytes \<Rightarrow> webauthn_error + bytes \<times> bytes" where
  "take_n n bs = (if n \<le> length bs then Inr (take n bs, drop n bs) else Inl (Invalid ''CBOR ends early''))"

text \<open>\<^verbatim>\<open>from_be_bytes\<close>\<close>

definition from_be :: "bytes \<Rightarrow> nat" where
  "from_be bs = fold (\<lambda>b n. n * 256 + b) bs 0"

definition argument :: "nat \<Rightarrow> bytes \<Rightarrow> webauthn_error + nat \<times> bytes" where
  "argument info bs =
     (let big_endian = (\<lambda>n. res_bind (take_n n bs) (\<lambda>(b, rest). Inr (from_be b, rest))) in
      if info \<le> 23 then Inr (info, bs)
      else if info = 24 then big_endian 1
      else if info = 25 then big_endian 2
      else if info = 26 then big_endian 4
      else if info = 27 then big_endian 8
      else Inl (Invalid ''unsupported CBOR length''))"

definition cbor_length :: "nat \<Rightarrow> nat \<Rightarrow> bytes \<Rightarrow> webauthn_error + nat \<times> bytes" where
  "cbor_length all info bs =
     res_bind (argument info bs) (\<lambda>(n, rest).
       if n \<le> all then Inr (n, rest) else Inl (Invalid ''CBOR length is too large''))"

definition cbor_int :: "nat \<Rightarrow> bytes \<Rightarrow> webauthn_error + int \<times> bytes" where
  "cbor_int info bs =
     res_bind (argument info bs) (\<lambda>(n, rest).
       if n < 2 ^ 63 then Inr (int n, rest) else Inl (Invalid ''CBOR integer is too large''))"

text \<open>The items that hold no other.\<close>

definition scalar_item :: "nat \<Rightarrow> nat \<Rightarrow> nat \<Rightarrow> bytes \<Rightarrow> webauthn_error + cbor \<times> bytes" where
  "scalar_item all major info bs =
     (if major = 0 then res_bind (cbor_int info bs) (\<lambda>(i, rest). Inr (CInt i, rest))
      else if major = 1 then res_bind (cbor_int info bs) (\<lambda>(i, rest). Inr (CInt (- 1 - i), rest))
      else if major = 2 then
        res_bind (cbor_length all info bs) (\<lambda>(n, rest).
        res_bind (take_n n rest) (\<lambda>(b, rest'). Inr (CBytes b, rest')))
      else if major = 3 then
        res_bind (cbor_length all info bs) (\<lambda>(n, rest).
        res_bind (take_n n rest) (\<lambda>(b, rest').
          case from_utf8 b 0 of Inl _ \<Rightarrow> Inl (Invalid ''CBOR text is not UTF-8'') | Inr t \<Rightarrow> Inr (CText t, rest')))
      else if info = 20 then Inr (CBool False, bs)
      else if info = 21 then Inr (CBool True, bs)
      else if info = 22 \<or> info = 23 then Inr (CNull, bs)
      else Inl (Invalid ''unsupported CBOR simple value''))"

function (sequential) cbor_item :: "nat \<Rightarrow> nat \<Rightarrow> bytes \<Rightarrow> webauthn_error + cbor \<times> bytes"
  and cbor_items :: "nat \<Rightarrow> nat \<Rightarrow> nat \<Rightarrow> bytes \<Rightarrow> webauthn_error + cbor list \<times> bytes"
  and cbor_entries :: "nat \<Rightarrow> nat \<Rightarrow> nat \<Rightarrow> bytes \<Rightarrow> webauthn_error + (cbor \<times> cbor) list \<times> bytes"
where
  "cbor_item all depth bytes =
     (if depth > MAX_CBOR_DEPTH then Inl (Invalid ''CBOR nests too deeply'')
      else case bytes of
        [] \<Rightarrow> Inl (Invalid ''CBOR ends early'')
      | initial # bs \<Rightarrow>
          let major = initial div 32; info = initial mod 32 in
          if major = 4 then
            (case cbor_length all info bs of
               Inl e \<Rightarrow> Inl e
             | Inr (n, rest) \<Rightarrow> (case cbor_items all (depth + 1) n rest of
                 Inl e \<Rightarrow> Inl e | Inr (items, rest') \<Rightarrow> Inr (CArray items, rest')))
          else if major = 5 then
            (case cbor_length all info bs of
               Inl e \<Rightarrow> Inl e
             | Inr (n, rest) \<Rightarrow> (case cbor_entries all (depth + 1) n rest of
                 Inl e \<Rightarrow> Inl e | Inr (entries, rest') \<Rightarrow> Inr (CMap entries, rest')))
          else if major = 6 then
            (case argument info bs of
               Inl e \<Rightarrow> Inl e
             | Inr (tag, rest) \<Rightarrow> (case cbor_item all (depth + 1) rest of
                 Inl e \<Rightarrow> Inl e | Inr (v, rest') \<Rightarrow> Inr (CTagged tag v, rest')))
          else scalar_item all major info bs)"
| "cbor_items all depth 0 bytes = Inr ([], bytes)"
| "cbor_items all depth (Suc n) bytes =
     (case cbor_item all depth bytes of
        Inl e \<Rightarrow> Inl e
      | Inr (v, rest) \<Rightarrow> (case cbor_items all depth n rest of
          Inl e \<Rightarrow> Inl e | Inr (vs, rest') \<Rightarrow> Inr (v # vs, rest')))"
| "cbor_entries all depth 0 bytes = Inr ([], bytes)"
| "cbor_entries all depth (Suc n) bytes =
     (case cbor_item all depth bytes of
        Inl e \<Rightarrow> Inl e
      | Inr (k, rest) \<Rightarrow> (case cbor_item all depth rest of
          Inl e \<Rightarrow> Inl e
        | Inr (v, rest') \<Rightarrow> (case cbor_entries all depth n rest' of
            Inl e \<Rightarrow> Inl e | Inr (vs, rest'') \<Rightarrow> Inr ((k, v) # vs, rest''))))"
  by pat_completeness auto
termination
  by (relation "measures [\<lambda>x. case x of Inl (t, d, b) \<Rightarrow> 17 - d | Inr (Inl (t, d, n, b)) \<Rightarrow> 17 - d
      | Inr (Inr (t, d, n, b)) \<Rightarrow> 17 - d,
      \<lambda>x. case x of Inl _ \<Rightarrow> 0 | Inr (Inl (t, d, n, b)) \<Rightarrow> n | Inr (Inr (t, d, n, b)) \<Rightarrow> n]")
    (auto simp: MAX_CBOR_DEPTH_def)

declare cbor_item.simps [simp del]

definition cbor_parse :: "bytes \<Rightarrow> webauthn_error + cbor \<times> nat" where
  "cbor_parse bytes = res_bind (cbor_item (length bytes) 0 bytes) (\<lambda>(v, rest). Inr (v, length bytes - length rest))"

section \<open>Writing\<close>

definition to_be :: "nat \<Rightarrow> nat \<Rightarrow> bytes" where
  "to_be width n = map (\<lambda>i. n div 256 ^ (width - 1 - i) mod 256) [0..<width]"

definition cbor_head :: "nat \<Rightarrow> nat \<Rightarrow> bytes" where
  "cbor_head major n =
     (if n < 24 then [major * 32 + n]
      else if n < 2 ^ 8 then (major * 32 + 24) # to_be 1 n
      else if n < 2 ^ 16 then (major * 32 + 25) # to_be 2 n
      else if n < 2 ^ 32 then (major * 32 + 26) # to_be 4 n
      else (major * 32 + 27) # to_be 8 n)"

fun cbor_encode :: "cbor \<Rightarrow> bytes" where
  "cbor_encode (CInt i) = (if 0 \<le> i then cbor_head 0 (nat i) else cbor_head 1 (nat (- 1 - i)))"
| "cbor_encode (CBytes b) = cbor_head 2 (length b) @ b"
| "cbor_encode (CText t) = cbor_head 3 (length (utf8_encode t)) @ utf8_encode t"
| "cbor_encode (CArray items) = cbor_head 4 (length items) @ concat (map cbor_encode items)"
| "cbor_encode (CMap entries) = cbor_head 5 (length entries) @
     concat (map (\<lambda>e. case e of (k, v) \<Rightarrow> cbor_encode k @ cbor_encode v) entries)"
| "cbor_encode (CTagged tag v) = cbor_head 6 tag @ cbor_encode v"
| "cbor_encode (CBool False) = [244]"
| "cbor_encode (CBool True) = [245]"
| "cbor_encode CNull = [246]"

end
