(* ===== verification/CborTheorems.thy ===== *)
theory CborTheorems
  imports Cbor
begin

text \<open>
  Reading CBOR undoes writing it, and what is read is a value Rust's types hold, nested no deeper
  than the limit, with no more parts than bytes were read: a short input cannot make a large value.
\<close>

section \<open>Values of Rust's types\<close>

fun cbor_fits :: "nat \<Rightarrow> cbor \<Rightarrow> bool" where
  "cbor_fits d (CInt i) = (d \<le> MAX_CBOR_DEPTH \<and> - (2 ^ 63) \<le> i \<and> i < 2 ^ 63)"
| "cbor_fits d (CBytes b) = (d \<le> MAX_CBOR_DEPTH \<and> length b < 2 ^ 64 \<and> list_all (\<lambda>x. x < 256) b)"
| "cbor_fits d (CText t) = (d \<le> MAX_CBOR_DEPTH \<and> length (utf8_encode t) < 2 ^ 64 \<and> list_all scalar t)"
| "cbor_fits d (CArray items) =
     (d \<le> MAX_CBOR_DEPTH \<and> length items < 2 ^ 64 \<and> list_all (cbor_fits (d + 1)) items)"
| "cbor_fits d (CMap entries) =
     (d \<le> MAX_CBOR_DEPTH \<and> length entries < 2 ^ 64 \<and>
      list_all (\<lambda>e. case e of (k, v) \<Rightarrow> cbor_fits (d + 1) k \<and> cbor_fits (d + 1) v) entries)"
| "cbor_fits d (CTagged tag v) = (d \<le> MAX_CBOR_DEPTH \<and> tag < 2 ^ 64 \<and> cbor_fits (d + 1) v)"
| "cbor_fits d v = (d \<le> MAX_CBOR_DEPTH)"

fun cbor_parts :: "cbor \<Rightarrow> nat" where
  "cbor_parts (CBytes b) = 1 + length b"
| "cbor_parts (CText t) = 1 + length t"
| "cbor_parts (CArray items) = 1 + sum_list (map cbor_parts items)"
| "cbor_parts (CMap entries) = 1 + sum_list (map (\<lambda>e. case e of (k, v) \<Rightarrow> cbor_parts k + cbor_parts v) entries)"
| "cbor_parts (CTagged tag v) = 1 + cbor_parts v"
| "cbor_parts _ = 1"

section \<open>The argument of an item\<close>

lemma from_be_snoc: "from_be (bs @ [b]) = from_be bs * 256 + b"
  by (simp add: from_be_def)

lemma to_be_Suc: "to_be (Suc w) n = to_be w (n div 256) @ [n mod 256]"
proof -
  have "n div 256 ^ (Suc w - 1 - i) mod 256 = n div 256 div 256 ^ (w - 1 - i) mod 256" if "i < w" for i
  proof -
    have "Suc w - 1 - i = Suc (w - 1 - i)" using that by simp
    then show ?thesis by (simp add: div_mult2_eq)
  qed
  then show ?thesis by (simp add: to_be_def)
qed

lemma from_be_to_be: "n < 256 ^ w \<Longrightarrow> from_be (to_be w n) = n"
proof (induction w arbitrary: n)
  case (Suc w)
  then have "n div 256 < 256 ^ w" by (simp add: less_mult_imp_div_less mult.commute)
  with Suc.IH [of "n div 256"] show ?case by (simp add: to_be_Suc from_be_snoc)
qed (simp add: to_be_def from_be_def)

lemma length_to_be [simp]: "length (to_be w n) = w"
  by (simp add: to_be_def)

lemma from_be_less: "list_all (\<lambda>x. x < 256) bs \<Longrightarrow> from_be bs < 256 ^ length bs"
proof (induction bs rule: rev_induct)
  case (snoc b bs)
  then have "from_be bs + 1 \<le> 256 ^ length bs" "b < 256" by auto
  then have "(from_be bs + 1) * 256 \<le> 256 ^ length bs * 256" by (intro mult_right_mono) auto
  with \<open>b < 256\<close> show ?case by (simp add: from_be_snoc)
qed (simp add: from_be_def)

lemma take_n_append [simp]: "length b = n \<Longrightarrow> take_n n (b @ r) = Inr (b, r)"
  by (simp add: take_n_def)

lemma take_n_Inr: "take_n n bs = Inr (b, r) \<longleftrightarrow> bs = b @ r \<and> length b = n"
  by (auto simp: take_n_def)

lemma argument_head:
  assumes "n < 2 ^ 64" "major < 8"
  shows "\<exists>info rest. cbor_head major n @ r = (major * 32 + info) # rest \<and> info < 32 \<and> argument info rest = Inr (n, r)"
proof -
  consider "n < 24" | "24 \<le> n" "n < 2 ^ 8" | "2 ^ 8 \<le> n" "n < 2 ^ 16" | "2 ^ 16 \<le> n" "n < 2 ^ 32"
    | "2 ^ 32 \<le> n" "n < 2 ^ 64"
    using assms by linarith
  then show ?thesis
  proof cases
    case 1 then show ?thesis by (simp add: cbor_head_def argument_def)
  next
    case 2 then show ?thesis using from_be_to_be [of n 1] by (simp add: cbor_head_def argument_def)
  next
    case 3 then show ?thesis using from_be_to_be [of n 2] by (simp add: cbor_head_def argument_def)
  next
    case 4 then show ?thesis using from_be_to_be [of n 4] by (simp add: cbor_head_def argument_def)
  next
    case 5 then show ?thesis using from_be_to_be [of n 8] by (simp add: cbor_head_def argument_def)
  qed
qed

lemma argument_Inr:
  assumes "argument info bs = Inr (n, r)"
  shows "\<exists>b. bs = b @ r \<and> (list_all (\<lambda>x. x < 256) bs \<longrightarrow> n < 2 ^ 64)"
proof -
  have big: "n < 2 ^ 64" if "take_n w bs = Inr (b, r)" "n = from_be b" "w \<le> 8" "list_all (\<lambda>x. x < 256) bs" for w b
  proof -
    have "list_all (\<lambda>x. x < 256) b" "length b \<le> 8" using that by (auto simp: take_n_Inr)
    with from_be_less [of b] have "n < 256 ^ length b" using that by simp
    also have "(256 :: nat) ^ length b \<le> 256 ^ 8" using \<open>length b \<le> 8\<close> by (intro power_increasing) auto
    finally show ?thesis by simp
  qed
  show ?thesis
    using assms big [of 1] big [of 2] big [of 4] big [of 8]
    by (auto simp: argument_def Let_def res_bind_eq_Inr take_n_Inr split: if_splits)
qed

section \<open>Reading undoes writing\<close>

lemma cbor_head_nonempty [simp]: "cbor_head major n \<noteq> []"
  by (simp add: cbor_head_def)

lemma cbor_encode_nonempty [simp]: "cbor_encode v \<noteq> []"
  by (cases v rule: cbor_encode.cases) auto

lemma count_le_encoded: "(\<And>x. x \<in> set xs \<Longrightarrow> f x \<noteq> []) \<Longrightarrow> length xs \<le> length (concat (map f xs))"
proof (induction xs)
  case (Cons x xs)
  have "f x \<noteq> []" by (rule Cons.prems) simp
  then have "1 \<le> length (f x)" by (cases "f x") auto
  moreover have "length xs \<le> length (concat (map f xs))" by (rule Cons.IH) (simp add: Cons.prems)
  ultimately show ?case by simp
qed simp

text \<open>An item whose head is read: what its contents make of it.\<close>

lemma cbor_item_cons:
  assumes "d \<le> MAX_CBOR_DEPTH" "major < 8" "info < 32"
  shows "cbor_item all d ((major * 32 + info) # bs) =
     (if major = 4 then
        (case cbor_length all info bs of
           Inl e \<Rightarrow> Inl e
         | Inr (n, rest) \<Rightarrow> (case cbor_items all (d + 1) n rest of
             Inl e \<Rightarrow> Inl e | Inr (items, rest') \<Rightarrow> Inr (CArray items, rest')))
      else if major = 5 then
        (case cbor_length all info bs of
           Inl e \<Rightarrow> Inl e
         | Inr (n, rest) \<Rightarrow> (case cbor_entries all (d + 1) n rest of
             Inl e \<Rightarrow> Inl e | Inr (entries, rest') \<Rightarrow> Inr (CMap entries, rest')))
      else if major = 6 then
        (case argument info bs of
           Inl e \<Rightarrow> Inl e
         | Inr (tag, rest) \<Rightarrow> (case cbor_item all (d + 1) rest of
             Inl e \<Rightarrow> Inl e | Inr (v, rest') \<Rightarrow> Inr (CTagged tag v, rest')))
      else scalar_item all major info bs)"
proof -
  have "(major * 32 + info) div 32 = major" "(major * 32 + info) mod 32 = info" using assms by auto
  then show ?thesis using assms(1) by (subst cbor_item.simps) (simp add: Let_def)
qed

lemma scalar_item_encode:
  assumes "cbor_fits d v" "length (cbor_encode v) \<le> all"
    and "\<nexists>xs. v = CArray xs" "\<nexists>xs. v = CMap xs" "\<nexists>t x. v = CTagged t x"
  shows "cbor_item all d (cbor_encode v @ r) = Inr (v, r)"
proof -
  have d: "d \<le> MAX_CBOR_DEPTH" using assms(1) by (cases v) auto
  have int_case: "cbor_item all d (cbor_head m n @ r) = Inr (CInt (if m = 0 then int n else - 1 - int n), r)"
    if "n < 2 ^ 63" "m = 0 \<or> m = 1" for m n
  proof -
    have "n < 2 ^ 64" "m < 8" using that by auto
    then obtain info rest where h: "cbor_head m n @ r = (m * 32 + info) # rest" "info < 32" "argument info rest = Inr (n, r)"
      using argument_head [of n m r] by blast
    then show ?thesis using that cbor_item_cons [OF d _ h(2), of m all rest]
      by (auto simp: scalar_item_def cbor_int_def)
  qed
  have str_case: "cbor_item all d (cbor_head m (length b) @ b @ r) = scalar_item all m info rest"
    if "cbor_head m (length b) @ b @ r = (m * 32 + info) # rest" "info < 32" "m = 2 \<or> m = 3" for m b info rest
    using cbor_item_cons [OF d _ that(2), of m all rest] that by auto
  show ?thesis
  proof (cases v)
    case (CInt i)
    then show ?thesis using assms(1) int_case [of "nat i" 0] int_case [of "nat (- 1 - i)" 1]
      by (cases "0 \<le> i") (auto simp: nat_less_iff)
  next
    case (CBytes b)
    then obtain info rest where h: "cbor_head 2 (length b) @ b @ r = (2 * 32 + info) # rest" "info < 32"
        "argument info rest = Inr (length b, b @ r)"
      using argument_head [of "length b" 2 "b @ r"] assms(1) by auto
    then show ?thesis using CBytes assms str_case [OF h(1,2)]
      by (auto simp: scalar_item_def cbor_length_def)
  next
    case (CText t)
    let ?b = "utf8_encode t"
    obtain info rest where h: "cbor_head 3 (length ?b) @ ?b @ r = (3 * 32 + info) # rest" "info < 32"
        "argument info rest = Inr (length ?b, ?b @ r)"
      using argument_head [of "length ?b" 3 "?b @ r"] assms(1) CText by auto
    then show ?thesis using CText assms str_case [OF h(1,2)]
      by (auto simp: scalar_item_def cbor_length_def from_utf8_encode)
  next
    case (CBool b)
    then show ?thesis using cbor_item_cons [OF d, of 7 20 all r] cbor_item_cons [OF d, of 7 21 all r]
      by (cases b) (auto simp: scalar_item_def)
  next
    case CNull
    then show ?thesis using cbor_item_cons [OF d, of 7 22 all r] by (auto simp: scalar_item_def)
  qed (use assms in auto)
qed

lemma cbor_items_encode:
  "(\<And>v r. v \<in> set vs \<Longrightarrow> cbor_item all d (cbor_encode v @ r) = Inr (v, r)) \<Longrightarrow>
   cbor_items all d (length vs) (concat (map cbor_encode vs) @ r) = Inr (vs, r)"
  by (induction vs) auto

lemma cbor_entries_encode:
  "(\<And>k v r. (k, v) \<in> set es \<Longrightarrow> cbor_item all d (cbor_encode k @ r) = Inr (k, r) \<and>
      cbor_item all d (cbor_encode v @ r) = Inr (v, r)) \<Longrightarrow>
   cbor_entries all d (length es) (concat (map (\<lambda>e. case e of (k, v) \<Rightarrow> cbor_encode k @ cbor_encode v) es) @ r) =
     Inr (es, r)"
  by (induction es) force+

lemma part_of_encoded: "x \<in> set xs \<Longrightarrow> length (f x) \<le> length (concat (map f xs))"
  by (induction xs) auto

lemma cbor_item_encode:
  "cbor_fits d v \<Longrightarrow> length (cbor_encode v) \<le> all \<Longrightarrow> cbor_item all d (cbor_encode v @ r) = Inr (v, r)"
proof (induction d v arbitrary: r rule: cbor_fits.induct)
  case (4 d items)
  let ?body = "concat (map cbor_encode items)"
  obtain info rest where h: "cbor_head 4 (length items) @ ?body @ r = (4 * 32 + info) # rest" "info < 32"
      "argument info rest = Inr (length items, ?body @ r)"
    using argument_head [of "length items" 4 "?body @ r"] 4 by auto
  have "length items \<le> all" using 4 count_le_encoded [of items cbor_encode] by auto
  moreover have "cbor_items all (d + 1) (length items) (?body @ r) = Inr (items, r)"
  proof (rule cbor_items_encode)
    fix v r' assume v: "v \<in> set items"
    have "length (cbor_encode v) \<le> all" using part_of_encoded [OF v, of cbor_encode] "4.prems" by simp
    then show "cbor_item all (d + 1) (cbor_encode v @ r') = Inr (v, r')"
      using "4.IH" [OF v] "4.prems" v by (auto simp: list_all_iff)
  qed
  ultimately show ?case using h cbor_item_cons [OF _ _ h(2), of d 4 all rest] 4
    by (simp add: cbor_length_def)
next
  case (5 d entries)
  let ?f = "\<lambda>e. case e of (k, v) \<Rightarrow> cbor_encode k @ cbor_encode v"
  let ?body = "concat (map ?f entries)"
  obtain info rest where h: "cbor_head 5 (length entries) @ ?body @ r = (5 * 32 + info) # rest" "info < 32"
      "argument info rest = Inr (length entries, ?body @ r)"
    using argument_head [of "length entries" 5 "?body @ r"] 5 by auto
  have "length entries \<le> all" using 5 count_le_encoded [of entries ?f] by auto
  moreover have "cbor_entries all (d + 1) (length entries) (?body @ r) = Inr (entries, r)"
  proof (rule cbor_entries_encode)
    fix k v r' assume e: "(k, v) \<in> set entries"
    have "length (cbor_encode k) \<le> all" "length (cbor_encode v) \<le> all"
      using part_of_encoded [OF e, of ?f] "5.prems" by auto
    then show "cbor_item all (d + 1) (cbor_encode k @ r') = Inr (k, r') \<and>
        cbor_item all (d + 1) (cbor_encode v @ r') = Inr (v, r')"
      using "5.IH" [OF e refl] "5.prems" e by (auto simp: list_all_iff)
  qed
  ultimately show ?case using h cbor_item_cons [OF _ _ h(2), of d 5 all rest] 5
    by (simp add: cbor_length_def)
next
  case (6 d tag v)
  obtain info rest where h: "cbor_head 6 tag @ cbor_encode v @ r = (6 * 32 + info) # rest" "info < 32"
      "argument info rest = Inr (tag, cbor_encode v @ r)"
    using argument_head [of tag 6 "cbor_encode v @ r"] 6 by auto
  then show ?case using cbor_item_cons [OF _ _ h(2), of d 6 all rest] 6 by simp
qed (rule scalar_item_encode; simp)+

text \<open>
  C25: Reading inverts writing: a value of Rust's types that nests at most sixteen deep is read
  back from its encoding, and as many bytes are taken as were written, whatever follows.
\<close>

theorem cbor_round_trip:
  assumes "cbor_fits 0 v"
  shows "cbor_parse (cbor_encode v @ r) = Inr (v, length (cbor_encode v))"
  using cbor_item_encode [OF assms, of "length (cbor_encode v @ r)" r] by (simp add: cbor_parse_def)

lemma cbor_round_trip_witness:
  "cbor_parse (cbor_encode (CMap [(CInt 3, CInt (- 257)), (CText [233], CArray [CBytes [1, 2], CTagged 300 CNull])]) @ [7]) =
   Inr (CMap [(CInt 3, CInt (- 257)), (CText [233], CArray [CBytes [1, 2], CTagged 300 CNull])], 16)"
  by (subst cbor_round_trip)
    (simp_all add: MAX_CBOR_DEPTH_def scalar_def utf8_encode_def utf8_char_def cbor_head_def to_be_def)

section \<open>What is read\<close>

text \<open>Decoding UTF-8 gives code points, and their encoding is what was decoded.\<close>

lemma divmod_64: "(z :: nat) < 64 \<Longrightarrow> c = m * 64 + z \<Longrightarrow> c div 64 = m \<and> c mod 64 = z"
  by auto

lemma utf8_next_scalar:
  assumes "utf8_next bs = Some (c, n)"
  shows "scalar c \<and> utf8_char c = take n bs"
proof (cases bs)
  case (Cons a r)
  show ?thesis
  proof (cases "a < 224")
    case True
    show ?thesis
    proof (cases "a < 128")
      case True
      then show ?thesis using assms Cons by (auto simp: utf8_next_def scalar_def utf8_char_def)
    next
      case False
      then obtain b s where r: "r = b # s" "tail_byte b" "194 \<le> a"
        and c: "c = (a - 192) * 64 + (b - 128)" "n = 2"
        using assms Cons True by (auto simp: utf8_next_def split: list.splits if_splits)
      define x y where "x = a - 192" and "y = b - 128"
      have eqs: "a = 192 + x" "b = 128 + y" "2 \<le> x" "x < 32" "y < 64" "c = x * 64 + y"
        using True r c by (auto simp: x_def y_def tail_byte_def)
      then have "c div 64 = x" "c mod 64 = y" "128 \<le> c" "c < 2048" by auto
      then show ?thesis using Cons r c(2) eqs by (simp add: utf8_char_def scalar_def)
    qed
  next
    case False
    note big = False
    show ?thesis
    proof (cases "a < 240")
      case True
      then obtain b d s where r: "r = b # d # s" "second_of_3 a b" "tail_byte d"
        and c: "c = (a - 224) * 4096 + (b - 128) * 64 + (d - 128)" "n = 3"
        using assms Cons big by (auto simp: utf8_next_def split: list.splits if_splits)
      define x y z where "x = a - 224" and "y = b - 128" and "z = d - 128"
      have eqs: "a = 224 + x" "b = 128 + y" "d = 128 + z" "x < 16" "y < 64" "z < 64" "c = x * 4096 + y * 64 + z"
        using True big r c by (auto simp: x_def y_def z_def second_of_3_def tail_byte_def)
      have ranges: "x = 0 \<longrightarrow> 32 \<le> y" "x = 13 \<longrightarrow> y < 32" using r(2) eqs by (auto simp: second_of_3_def)
      have "c = (x * 64 + y) * 64 + z" using eqs by simp
      then have low: "c div 64 = x * 64 + y" "c mod 64 = z" using divmod_64 [OF eqs(6)] by blast+
      then have "c div 64 mod 64 = y" "c div 64 div 64 = x" using divmod_64 [OF eqs(5)] by blast+
      moreover have "c div 64 div 64 = c div 4096" by (simp add: div_mult2_eq [symmetric])
      ultimately have "c div 4096 = x" "c div 64 mod 64 = y" "c mod 64 = z" using low by auto
      moreover have "2048 \<le> c" using eqs ranges by (cases "x = 0") auto
      moreover have "c < 65536" using eqs by linarith
      moreover have "scalar c"
      proof -
        consider "x \<le> 12" | "x = 13" | "14 \<le> x" by linarith
        then have "c < 55296 \<or> 57344 \<le> c" using eqs ranges by cases linarith+
        then show ?thesis using \<open>c < 65536\<close> by (auto simp: scalar_def)
      qed
      ultimately show ?thesis using Cons r c(2) eqs by (simp add: utf8_char_def)
    next
      case False
      then obtain b d e s where r: "r = b # d # e # s" "second_of_4 a b" "tail_byte d" "tail_byte e"
        and c: "c = (a - 240) * 262144 + (b - 128) * 4096 + (d - 128) * 64 + (e - 128)" "n = 4" "a < 245"
        using assms Cons big by (auto simp: utf8_next_def split: list.splits if_splits)
      define x y z w where "x = a - 240" and "y = b - 128" and "z = d - 128" and "w = e - 128"
      have eqs: "a = 240 + x" "b = 128 + y" "d = 128 + z" "e = 128 + w" "x < 5" "y < 64" "z < 64" "w < 64"
          "c = x * 262144 + y * 4096 + z * 64 + w"
        using False r c by (auto simp: x_def y_def z_def w_def second_of_4_def tail_byte_def)
      have ranges: "x = 0 \<longrightarrow> 16 \<le> y" "x = 4 \<longrightarrow> y < 16" using r(2) eqs by (auto simp: second_of_4_def)
      have "c = ((x * 64 + y) * 64 + z) * 64 + w" using eqs by simp
      then have low: "c div 64 = (x * 64 + y) * 64 + z" "c mod 64 = w" using divmod_64 [OF eqs(8)] by blast+
      then have mid: "c div 64 mod 64 = z" "c div 64 div 64 = x * 64 + y" using divmod_64 [OF eqs(7)] by blast+
      then have "c div 64 div 64 mod 64 = y" "c div 64 div 64 div 64 = x" using divmod_64 [OF eqs(6)] by blast+
      moreover have "c div 64 div 64 = c div 4096" "c div 64 div 64 div 64 = c div 262144"
        by (simp_all add: div_mult2_eq [symmetric])
      ultimately have "c div 262144 = x" "c div 4096 mod 64 = y" "c div 64 mod 64 = z" "c mod 64 = w"
        using low mid by auto
      moreover have "65536 \<le> c" using eqs ranges by (cases "x = 0") auto
      moreover have "c < 1114112" using eqs ranges by (cases "x = 4") linarith+
      moreover have "scalar c" using calculation by (simp add: scalar_def)
      ultimately show ?thesis using Cons r c(2) eqs by (simp add: utf8_char_def)
    qed
  qed
qed (use assms in \<open>simp add: utf8_next_def\<close>)

lemma from_utf8_scalar: "from_utf8 bs at = Inr s \<Longrightarrow> list_all scalar s \<and> utf8_encode s = bs"
proof (induction bs at arbitrary: s rule: from_utf8.induct)
  case (1 bs at)
  show ?case
  proof (cases "bs = []")
    case True
    then show ?thesis using "1.prems" by (simp add: from_utf8.simps utf8_encode_def)
  next
    case False
    then obtain c n t where n: "utf8_next bs = Some (c, n)" "from_utf8 (drop n bs) (at + n) = Inr t" "s = c # t"
      using "1.prems" by (subst (asm) from_utf8.simps) (auto split: option.splits sum.splits)
    have ih: "list_all scalar t \<and> utf8_encode t = drop n bs"
      using "1.IH" [OF False n(1) refl n(2)] .
    then have "utf8_encode s = take n bs @ drop n bs"
      using utf8_next_scalar [OF n(1)] n(3) by (simp add: utf8_encode_def)
    then show ?thesis using ih utf8_next_scalar [OF n(1)] n(3) by simp
  qed
qed

lemma length_utf8_encode: "length s \<le> length (utf8_encode s)"
  by (induction s) (auto simp: utf8_encode_def utf8_char_def)

text \<open>
  A reader that was given bytes takes some from the front, and what it makes fits and has no more
  parts than bytes were taken.
\<close>

definition reads :: "(webauthn_error + 'v \<times> bytes) \<Rightarrow> bytes \<Rightarrow> ('v \<Rightarrow> bool) \<Rightarrow> ('v \<Rightarrow> nat) \<Rightarrow> bool" where
  "reads res bs P parts \<longleftrightarrow> (case res of Inl _ \<Rightarrow> True
     | Inr (v, r) \<Rightarrow> \<exists>p. bs = p @ r \<and> P v \<and> parts v \<le> length p)"

lemma readsD: "reads res bs P parts \<Longrightarrow> res = Inr (v, r) \<Longrightarrow> \<exists>p. bs = p @ r \<and> P v \<and> parts v \<le> length p"
  by (simp add: reads_def)

lemma readsI: "(\<And>v r. res = Inr (v, r) \<Longrightarrow> \<exists>p. bs = p @ r \<and> P v \<and> parts v \<le> length p) \<Longrightarrow> reads res bs P parts"
  by (auto simp: reads_def split: sum.split)

abbreviation byte_list :: "bytes \<Rightarrow> bool" where
  "byte_list bs \<equiv> list_all (\<lambda>x. x < 256) bs"

lemma cbor_int_Inr: "cbor_int info bs = Inr (i, r) \<Longrightarrow> 0 \<le> i \<and> i < 2 ^ 63 \<and> (\<exists>p. bs = p @ r)"
  by (auto simp: cbor_int_def res_bind_eq_Inr dest!: argument_Inr split: if_splits)

lemma cbor_length_Inr:
  "cbor_length all info bs = Inr (n, r) \<Longrightarrow> n \<le> all \<and> (\<exists>p. bs = p @ r)"
  by (auto simp: cbor_length_def res_bind_eq_Inr dest!: argument_Inr split: if_splits)

lemma scalar_item_reads:
  assumes "byte_list bs" "d \<le> MAX_CBOR_DEPTH" "all < 2 ^ 64"
  shows "reads (scalar_item all major info bs) (x # bs) (cbor_fits d) cbor_parts"
proof (rule readsI)
  fix v r assume "scalar_item all major info bs = Inr (v, r)"
  then consider (int) i where "cbor_int info bs = Inr (i, r)" "v = CInt i \<or> v = CInt (- 1 - i)"
    | (bytes) n rest where "cbor_length all info bs = Inr (n, rest)" "\<exists>b. take_n n rest = Inr (b, r) \<and> v = CBytes b"
    | (str) n rest where "cbor_length all info bs = Inr (n, rest)"
        "\<exists>b t. take_n n rest = Inr (b, r) \<and> from_utf8 b 0 = Inr t \<and> v = CText t"
    | (simple) "bs = r" "(\<exists>b. v = CBool b) \<or> v = CNull"
    by (auto simp: scalar_item_def res_bind_eq_Inr split: if_splits sum.splits) (metis sum.exhaust)
  then show "\<exists>p. x # bs = p @ r \<and> cbor_fits d v \<and> cbor_parts v \<le> length p"
  proof cases
    case int
    then obtain p where "bs = p @ r" using cbor_int_Inr by blast
    then show ?thesis using cbor_int_Inr [OF int(1)] int(2) assms by (intro exI [of _ "x # p"]) auto
  next
    case bytes
    then obtain p b where p: "bs = p @ rest" "n \<le> all" "rest = b @ r" "length b = n" "v = CBytes b"
      using cbor_length_Inr by (fastforce simp: take_n_Inr)
    then show ?thesis using assms by (intro exI [of _ "x # p @ b"]) auto
  next
    case str
    then obtain p b t where p: "bs = p @ rest" "n \<le> all" "rest = b @ r" "length b = n" "from_utf8 b 0 = Inr t" "v = CText t"
      using cbor_length_Inr by (fastforce simp: take_n_Inr)
    have "utf8_encode t = b" "list_all scalar t" using from_utf8_scalar [OF p(5)] by auto
    moreover have "length t \<le> length b" using length_utf8_encode [of t] calculation by simp
    ultimately show ?thesis using p assms by (intro exI [of _ "x # p @ b"]) auto
  next
    case simple
    then show ?thesis using assms by (intro exI [of _ "[x]"]) auto
  qed
qed

abbreviation entry_fits :: "nat \<Rightarrow> cbor \<times> cbor \<Rightarrow> bool" where
  "entry_fits d \<equiv> \<lambda>e. case e of (k, v) \<Rightarrow> cbor_fits d k \<and> cbor_fits d v"

abbreviation entry_parts :: "cbor \<times> cbor \<Rightarrow> nat" where
  "entry_parts \<equiv> \<lambda>e. case e of (k, v) \<Rightarrow> cbor_parts k + cbor_parts v"

lemma byte_list_rest: "byte_list (p @ r) \<Longrightarrow> byte_list r"
  by simp

lemma cbor_reads:
  "byte_list bs \<Longrightarrow> all < 2 ^ 64 \<Longrightarrow> reads (cbor_item all d bs) bs (cbor_fits d) cbor_parts"
  "byte_list bs \<Longrightarrow> all < 2 ^ 64 \<Longrightarrow> reads (cbor_items all d n bs) bs
     (\<lambda>vs. length vs = n \<and> list_all (cbor_fits d) vs) (\<lambda>vs. sum_list (map cbor_parts vs))"
  "byte_list bs \<Longrightarrow> all < 2 ^ 64 \<Longrightarrow> reads (cbor_entries all d n bs) bs
     (\<lambda>es. length es = n \<and> list_all (entry_fits d) es) (\<lambda>es. sum_list (map entry_parts es))"
proof (induction all d bs and all d n bs and all d n bs rule: cbor_item_cbor_items_cbor_entries.induct)
  case (1 all d bytes)
  show ?case
  proof (rule readsI)
    fix v r assume v: "cbor_item all d bytes = Inr (v, r)"
    then obtain x bs where d: "\<not> MAX_CBOR_DEPTH < d" and bytes: "bytes = x # bs"
      by (subst (asm) cbor_item.simps) (auto split: if_splits list.splits)
    note eq = v [unfolded bytes, unfolded cbor_item.simps [of all d "x # bs"], simplified d if_False list.case Let_def]
    note ih = "1.IH" [OF d bytes refl refl]
    have bs: "byte_list bs" using "1.prems" bytes by simp
    consider (arr) n rest items where "x div 32 = 4" "cbor_length all (x mod 32) bs = Inr (n, rest)"
        "cbor_items all (d + 1) n rest = Inr (items, r)" "v = CArray items"
      | (mp) n rest entries where "x div 32 = 5" "cbor_length all (x mod 32) bs = Inr (n, rest)"
        "cbor_entries all (d + 1) n rest = Inr (entries, r)" "v = CMap entries"
      | (tag) t rest u where "x div 32 = 6" "argument (x mod 32) bs = Inr (t, rest)"
        "cbor_item all (d + 1) rest = Inr (u, r)" "v = CTagged t u"
      | (scalar) "scalar_item all (x div 32) (x mod 32) bs = Inr (v, r)"
      using eq by (auto split: if_splits sum.splits)
    then show "\<exists>p. bytes = p @ r \<and> cbor_fits d v \<and> cbor_parts v \<le> length p"
    proof cases
      case arr
      obtain p where p: "bs = p @ rest" "n \<le> all" using cbor_length_Inr [OF arr(2)] by blast
      then have "byte_list rest" using bs by simp
      from readsD [OF ih(1) [OF arr(1,2) refl this "1.prems"(2)] arr(3)]
      obtain q where "rest = q @ r" "length items = n" "list_all (cbor_fits (d + 1)) items"
          "sum_list (map cbor_parts items) \<le> length q" by blast
      then show ?thesis using p d arr(4) bytes "1.prems" by (intro exI [of _ "x # p @ q"]) auto
    next
      case mp
      obtain p where p: "bs = p @ rest" "n \<le> all" using cbor_length_Inr [OF mp(2)] by blast
      then have "byte_list rest" using bs by simp
      moreover have "x div 32 \<noteq> 4" using mp(1) by simp
      ultimately have "reads (cbor_entries all (d + 1) n rest) rest
          (\<lambda>es. length es = n \<and> list_all (entry_fits (d + 1)) es) (\<lambda>es. sum_list (map entry_parts es))"
        using ih(2) mp(1,2) "1.prems"(2) by blast
      from readsD [OF this mp(3)]
      obtain q where "rest = q @ r" "length entries = n" "list_all (entry_fits (d + 1)) entries"
          "sum_list (map entry_parts entries) \<le> length q" by blast
      then show ?thesis using p d mp(4) bytes "1.prems" by (intro exI [of _ "x # p @ q"]) auto
    next
      case tag
      obtain p where p: "bs = p @ rest" "t < 2 ^ 64" using argument_Inr [OF tag(2)] bs by blast
      then have "byte_list rest" using bs by simp
      moreover have "x div 32 \<noteq> 4" "x div 32 \<noteq> 5" using tag(1) by simp_all
      ultimately have "reads (cbor_item all (d + 1) rest) rest (cbor_fits (d + 1)) cbor_parts"
        using ih(3) tag(1,2) "1.prems"(2) by blast
      from readsD [OF this tag(3)]
      obtain q where "rest = q @ r" "cbor_fits (d + 1) u" "cbor_parts u \<le> length q" by blast
      then show ?thesis using p d tag(4) bytes by (intro exI [of _ "x # p @ q"]) auto
    next
      case scalar
      show ?thesis
        using readsD [OF scalar_item_reads [OF bs _ "1.prems"(2)] scalar] d bytes by simp
    qed
  qed
next
  case (3 all d n bytes)
  show ?case
  proof (rule readsI)
    fix vs r assume "cbor_items all d (Suc n) bytes = Inr (vs, r)"
    then obtain v rest us where *: "cbor_item all d bytes = Inr (v, rest)" "cbor_items all d n rest = Inr (us, r)" "vs = v # us"
      by (auto split: sum.splits)
    from readsD [OF "3.IH"(1) [OF "3.prems"] *(1)] obtain p
      where p: "bytes = p @ rest" "cbor_fits d v" "cbor_parts v \<le> length p" by blast
    then have "byte_list rest" using "3.prems" by simp
    from readsD [OF "3.IH"(2) [OF *(1) refl this "3.prems"(2)] *(2)] obtain q
      where "rest = q @ r" "length us = n" "list_all (cbor_fits d) us" "sum_list (map cbor_parts us) \<le> length q" by blast
    then show "\<exists>p. bytes = p @ r \<and> (length vs = Suc n \<and> list_all (cbor_fits d) vs) \<and> sum_list (map cbor_parts vs) \<le> length p"
      using p *(3) by (intro exI [of _ "p @ q"]) auto
  qed
next
  case (5 all d n bytes)
  show ?case
  proof (rule readsI)
    fix vs r assume "cbor_entries all d (Suc n) bytes = Inr (vs, r)"
    then obtain k v rest rest' us where *: "cbor_item all d bytes = Inr (k, rest)" "cbor_item all d rest = Inr (v, rest')"
        "cbor_entries all d n rest' = Inr (us, r)" "vs = (k, v) # us"
      by (auto split: sum.splits)
    from readsD [OF "5.IH"(1) [OF "5.prems"] *(1)] obtain p
      where p: "bytes = p @ rest" "cbor_fits d k" "cbor_parts k \<le> length p" by blast
    then have "byte_list rest" using "5.prems" by simp
    from readsD [OF "5.IH"(2) [OF *(1) refl this "5.prems"(2)] *(2)] obtain p'
      where p': "rest = p' @ rest'" "cbor_fits d v" "cbor_parts v \<le> length p'" by blast
    then have "byte_list rest'" using \<open>byte_list rest\<close> by simp
    from readsD [OF "5.IH"(3) [OF *(1) refl *(2) refl this "5.prems"(2)] *(3)] obtain q
      where "rest' = q @ r" "length us = n" "list_all (entry_fits d) us" "sum_list (map entry_parts us) \<le> length q" by blast
    then show "\<exists>p. bytes = p @ r \<and> (length vs = Suc n \<and> list_all (entry_fits d) vs) \<and> sum_list (map entry_parts vs) \<le> length p"
      using p p' *(4) by (intro exI [of _ "p @ p' @ q"]) auto
  qed
qed (simp_all add: reads_def)

text \<open>
  C26: What \<^verbatim>\<open>cbor::parse\<close> answers is a value of Rust's types (integers of 64 bits, texts of
  Unicode characters, tags of 64 bits), nested at most sixteen deep, and it has at most as many
  parts as bytes were taken from the front of the input.
\<close>

theorem cbor_values_are_typed:
  assumes "list_all (\<lambda>x. x < 256) bs" "length bs < 2 ^ 64" "cbor_parse bs = Inr (v, used)"
  shows "cbor_fits 0 v \<and> used \<le> length bs \<and> cbor_parts v \<le> used"
proof -
  obtain r where r: "cbor_item (length bs) 0 bs = Inr (v, r)" "used = length bs - length r"
    using assms(3) by (auto simp: cbor_parse_def res_bind_eq_Inr)
  from readsD [OF cbor_reads(1) [OF assms(1,2)] r(1)] show ?thesis using r(2) by auto
qed

lemma cbor_values_are_typed_witness:
  "cbor_parse [130, 1, 97, 122, 0] = Inr (CArray [CInt 1, CText [122]], 4) \<and>
   cbor_fits 0 (CArray [CInt 1, CText [122]]) \<and> cbor_parts (CArray [CInt 1, CText [122]]) \<le> 4"
proof -
  have "cbor_parse [130, 1, 97, 122, 0] = Inr (CArray [CInt 1, CText [122]], 4)"
    using cbor_round_trip [of "CArray [CInt 1, CText [122]]" "[0]"]
    by (simp add: MAX_CBOR_DEPTH_def scalar_def utf8_encode_def utf8_char_def cbor_head_def)
  then show ?thesis using cbor_values_are_typed [of "[130, 1, 97, 122, 0]"] by simp
qed

end
