(* ===== verification/Coordination.thy ===== *)
theory Coordination
  imports RedisKeys
begin

text \<open>
  The coordination Redis, as far as what expires in it goes, and the lock of
  \<^verbatim>\<open>src/redis_lock.rs\<close>. The keys of one kind (pending sign-ins, counters, locks) are a map
  from names to values with the time each is gone at; different kinds have different prefixes, so
  their maps do not meet. Time is in microseconds. Whether Redis answers a command is an argument
  (\<open>up\<close>).
\<close>

type_synonym 'v ttl_store = "string \<Rightarrow> ('v \<times> int option) option"

definition live :: "int \<Rightarrow> 'v ttl_store \<Rightarrow> string \<Rightarrow> ('v \<times> int option) option" where
  "live now s k = (case s k of None \<Rightarrow> None
     | Some (v, e) \<Rightarrow> if (case e of None \<Rightarrow> False | Some t \<Rightarrow> t < now) then None else Some (v, e))"

definition ttl_get :: "int \<Rightarrow> 'v ttl_store \<Rightarrow> string \<Rightarrow> 'v option" where
  "ttl_get now s k = map_option fst (live now s k)"

definition ttl_set_ex :: "int \<Rightarrow> int \<Rightarrow> string \<Rightarrow> 'v \<Rightarrow> 'v ttl_store \<Rightarrow> 'v ttl_store" where
  "ttl_set_ex now ttl k v s = s(k := Some (v, Some (now + ttl)))"

definition ttl_set_nx :: "int \<Rightarrow> int \<Rightarrow> string \<Rightarrow> 'v \<Rightarrow> 'v ttl_store \<Rightarrow> bool \<times> 'v ttl_store" where
  "ttl_set_nx now ttl k v s = (case ttl_get now s k of
      Some _ \<Rightarrow> (False, s) | None \<Rightarrow> (True, ttl_set_ex now ttl k v s))"

definition ttl_del :: "string \<Rightarrow> 'v ttl_store \<Rightarrow> 'v ttl_store" where
  "ttl_del k s = s(k := None)"

definition ttl_expire :: "int \<Rightarrow> int \<Rightarrow> string \<Rightarrow> 'v ttl_store \<Rightarrow> 'v ttl_store" where
  "ttl_expire now ttl k s = (case live now s k of None \<Rightarrow> s | Some (v, _) \<Rightarrow> s(k := Some (v, Some (now + ttl))))"

definition ttl_incr :: "int \<Rightarrow> string \<Rightarrow> int ttl_store \<Rightarrow> int \<times> int ttl_store" where
  "ttl_incr now k s = (case live now s k of
      None \<Rightarrow> (1, s(k := Some (1, None)))
    | Some (n, e) \<Rightarrow> (n + 1, s(k := Some (n + 1, e))))"

definition millis :: "int \<Rightarrow> int" where
  "millis n = n * 1000"

section \<open>The interface\<close>

text \<open>
  What a client relies on: a value set to expire is there until then and no other key is touched,
  a deleted one is gone, and setting only a missing key says whether it was missing.
\<close>

locale expiring_store =
  fixes get :: "int \<Rightarrow> 's \<Rightarrow> string \<Rightarrow> 'v option"
    and set_nx :: "int \<Rightarrow> int \<Rightarrow> string \<Rightarrow> 'v \<Rightarrow> 's \<Rightarrow> bool \<times> 's"
    and del :: "string \<Rightarrow> 's \<Rightarrow> 's"
  assumes get_nx: "set_nx now ttl k v s = (True, s') \<Longrightarrow> now \<le> t \<Longrightarrow> t \<le> now + ttl \<Longrightarrow> get t s' k = Some v"
    and nx_held: "get now s k = Some w \<Longrightarrow> set_nx now ttl k v s = (False, s)"
    and nx_free: "get now s k = None \<Longrightarrow> fst (set_nx now ttl k v s)"
    and nx_other: "k \<noteq> k' \<Longrightarrow> get t (snd (set_nx now ttl k v s)) k' = get t s k'"
    and del_same: "get t (del k s) k = None"
    and del_other: "k \<noteq> k' \<Longrightarrow> get t (del k s) k' = get t s k'"
begin

lemma held_nx: "get now s k = Some v \<Longrightarrow> get t (snd (set_nx now ttl k' w s)) k = get t s k"
  by (cases "k' = k") (simp_all add: nx_held nx_other)

lemma held_release: "get now s k = Some v \<Longrightarrow> get now s k' = Some w \<Longrightarrow> k' \<noteq> k \<or> w \<noteq> v \<Longrightarrow> get t (del k' s) k = get t s k"
  by (cases "k' = k") (simp_all add: del_other)

end

interpretation redis: expiring_store ttl_get ttl_set_nx ttl_del
  by unfold_locales
    (auto simp: ttl_set_nx_def ttl_get_def ttl_set_ex_def ttl_del_def live_def split: option.splits)

section \<open>A counter in a stretch of time\<close>

text \<open>The counter stands at \<open>n\<close> from \<open>a\<close> until before \<open>b\<close>; at nought there is none.\<close>

definition stands_at :: "int \<Rightarrow> int \<Rightarrow> string \<Rightarrow> int ttl_store \<Rightarrow> int \<Rightarrow> bool" where
  "stands_at a b k s n \<longleftrightarrow> (\<forall>t. a \<le> t \<longrightarrow> t < b \<longrightarrow>
     (case live t s k of None \<Rightarrow> n = 0 | Some (m, _) \<Rightarrow> m = n \<and> n > 0))"

text \<open>Counting once, with or without a new expiry that reaches past the stretch.\<close>

lemma counted:
  assumes "stands_at a b k s n" "a \<le> now" "now < b" "0 \<le> n" "b \<le> a + ttl"
  shows "fst (ttl_incr now k s) = n + 1"
    and "stands_at a b k (snd (ttl_incr now k s)) (n + 1)"
    and "stands_at a b k (ttl_expire now ttl k (snd (ttl_incr now k s))) (n + 1)"
proof -
  have at: "case live t s k of None \<Rightarrow> n = 0 | Some (m, _) \<Rightarrow> m = n \<and> n > 0" if "a \<le> t" "t < b" for t
    using assms(1) that by (simp add: stands_at_def)
  consider "live now s k = None" "n = 0" | e where "live now s k = Some (n, e)" "n > 0"
    using at [OF assms(2,3)] by (auto split: option.splits)
  then have "fst (ttl_incr now k s) = n + 1 \<and> stands_at a b k (snd (ttl_incr now k s)) (n + 1) \<and>
    stands_at a b k (ttl_expire now ttl k (snd (ttl_incr now k s))) (n + 1)"
  proof cases
    case 1
    then show ?thesis using assms(2,5)
      by (auto simp: ttl_incr_def ttl_expire_def stands_at_def live_def)
  next
    case (2 e)
    then have s: "s k = Some (n, e)" by (auto simp: live_def split: option.splits if_splits)
    have "\<not> (case e of None \<Rightarrow> False | Some x \<Rightarrow> x < t)" if "a \<le> t" "t < b" for t
      using at [OF that] s 2(2) by (auto simp: live_def split: if_splits)
    moreover from this [OF assms(2,3)] have "\<not> (case e of None \<Rightarrow> False | Some x \<Rightarrow> x < now)" .
    ultimately show ?thesis using 2 s assms(2,4,5)
      by (auto simp: ttl_incr_def ttl_expire_def stands_at_def live_def)
  qed
  then show "fst (ttl_incr now k s) = n + 1"
    "stands_at a b k (snd (ttl_incr now k s)) (n + 1)"
    "stands_at a b k (ttl_expire now ttl k (snd (ttl_incr now k s))) (n + 1)" by simp_all
qed

lemma stands_at_cong: "s k = s' k \<Longrightarrow> stands_at a b k s n = stands_at a b k s' n"
  by (simp add: stands_at_def live_def)

text \<open>A command on one key leaves the others.\<close>

lemma ttl_other:
  "k' \<noteq> k \<Longrightarrow> ttl_set_ex now ttl k' v s k = s k"
  "k' \<noteq> k \<Longrightarrow> ttl_del k' s k = s k"
  "k' \<noteq> k \<Longrightarrow> ttl_expire now ttl k' s k = s k"
  "k' \<noteq> k \<Longrightarrow> snd (ttl_incr now k' c) k = c k"
  by (auto simp: ttl_set_ex_def ttl_del_def ttl_expire_def ttl_incr_def split: option.split)

section \<open>The lock\<close>

definition DEFAULT_TTL_MS :: int where
  "DEFAULT_TTL_MS = 15 * 60 * 1000"

record redis_lock =
  lk_key :: string
  lk_token :: string

text \<open>\<open>token\<close> is the decimal of a fresh snowflake id.\<close>

definition try_acquire_on ::
  "bool \<Rightarrow> int \<Rightarrow> keyspace \<Rightarrow> string \<Rightarrow> string \<Rightarrow> int \<Rightarrow> string ttl_store \<Rightarrow> redis_lock option \<times> string ttl_store" where
  "try_acquire_on up now keys name token ttl_ms s =
     (if \<not> up then (None, s)
      else case ttl_set_nx now (millis ttl_ms) (ks_key keys name) token s of
        (acquired, s') \<Rightarrow> (if acquired then Some \<lparr>lk_key = ks_key keys name, lk_token = token\<rparr> else None, s'))"

definition lock_drop :: "bool \<Rightarrow> int \<Rightarrow> redis_lock \<Rightarrow> string ttl_store \<Rightarrow> string ttl_store" where
  "lock_drop up now lock s =
     (if up \<and> ttl_get now s (lk_key lock) = Some (lk_token lock) then ttl_del (lk_key lock) s else s)"

text \<open>The snowflake id a token is made of: milliseconds and sixteen random bits, as 64 bits.\<close>

definition next_id :: "int \<Rightarrow> int \<Rightarrow> int" where
  "next_id ms random = (let u = (ms * 2 ^ 16 + random) mod 2 ^ 64 in if u < 2 ^ 63 then u else u - 2 ^ 64)"

text \<open>What happens to the locks: one is asked for, or a guard is dropped.\<close>

datatype lock_event =
    Ask bool int string string int
  | Drop bool int redis_lock

fun lock_event_time :: "lock_event \<Rightarrow> int" where
  "lock_event_time (Ask up now name token ttl) = now"
| "lock_event_time (Drop up now lock) = now"

fun on_lock_event :: "keyspace \<Rightarrow> lock_event \<Rightarrow> string ttl_store \<Rightarrow> redis_lock option \<times> string ttl_store" where
  "on_lock_event keys (Ask up now name token ttl) s = try_acquire_on up now keys name token ttl s"
| "on_lock_event keys (Drop up now lock) s = (None, lock_drop up now lock s)"

fun lock_run :: "keyspace \<Rightarrow> lock_event list \<Rightarrow> string ttl_store \<Rightarrow> string ttl_store" where
  "lock_run keys [] s = s"
| "lock_run keys (e # es) s = lock_run keys es (snd (on_lock_event keys e s))"

lemma lock_event_keeps:
  assumes "e \<noteq> Drop True (lock_event_time e) \<lparr>lk_key = k, lk_token = v\<rparr>"
    and "ttl_get (lock_event_time e) s k = Some v"
  shows "ttl_get t (snd (on_lock_event keys e s)) k = ttl_get t s k"
proof (cases e)
  case (Ask up now name token ttl)
  then show ?thesis using assms redis.held_nx [of now s k v t "millis ttl" "ks_key keys name" token]
    by (auto simp: try_acquire_on_def split: prod.splits)
next
  case (Drop up now lock)
  show ?thesis
  proof (cases "up \<and> ttl_get now s (lk_key lock) = Some (lk_token lock)")
    case True
    then have "lk_key lock \<noteq> k \<or> lk_token lock \<noteq> v" using assms Drop by (cases lock) auto
    then show ?thesis using True Drop assms redis.held_release [of now s k v "lk_key lock" "lk_token lock" t]
      by (auto simp: lock_drop_def)
  qed (auto simp: Drop lock_drop_def)
qed

lemma lock_run_keeps:
  assumes "list_all (\<lambda>e. lo \<le> lock_event_time e \<and> lock_event_time e \<le> until \<and>
      e \<noteq> Drop True (lock_event_time e) \<lparr>lk_key = k, lk_token = v\<rparr>) es"
    and "\<And>t. lo \<le> t \<Longrightarrow> t \<le> until \<Longrightarrow> ttl_get t s k = Some v"
  shows "lo \<le> t \<Longrightarrow> t \<le> until \<Longrightarrow> ttl_get t (lock_run keys es s) k = Some v"
  using assms
proof (induction es arbitrary: s)
  case (Cons e es)
  have "ttl_get u (snd (on_lock_event keys e s)) k = Some v" if "lo \<le> u" "u \<le> until" for u
    using lock_event_keeps [of e k v s u keys] Cons.prems that by simp
  then show ?case using Cons.IH [of "snd (on_lock_event keys e s)"] Cons.prems by simp
qed simp

text \<open>
  C27: A lock that is held is nobody else's until its time is up: whatever is asked for and dropped in
  between, except the guard of this very lock, asking for it again in that time is refused.
\<close>

theorem held_lock_is_exclusive:
  assumes "try_acquire_on True now keys name token ttl_ms s = (Some lock, s')"
    and "list_all (\<lambda>e. now \<le> lock_event_time e \<and> lock_event_time e \<le> now + millis ttl_ms \<and>
      e \<noteq> Drop True (lock_event_time e) lock) es"
    and "now \<le> t" "t \<le> now + millis ttl_ms"
  shows "fst (try_acquire_on up t keys name token' ttl' (lock_run keys es s')) = None"
proof -
  have lock: "lock = \<lparr>lk_key = ks_key keys name, lk_token = token\<rparr>"
    and nx: "ttl_set_nx now (millis ttl_ms) (ks_key keys name) token s = (True, s')"
    using assms(1) by (auto simp: try_acquire_on_def split: prod.splits if_splits)
  have "ttl_get t (lock_run keys es s') (ks_key keys name) = Some token"
    using assms(2-4) lock redis.get_nx [OF nx]
    by (intro lock_run_keeps [where lo = now and until = "now + millis ttl_ms"]) auto
  from redis.nx_held [OF this] show ?thesis by (simp add: try_acquire_on_def)
qed

lemma held_lock_is_exclusive_witness:
  "fst (try_acquire_on True 5 \<lparr>ks_prefix = []\<rparr> ''backup'' ''2'' 1000
     (lock_run \<lparr>ks_prefix = []\<rparr> [Drop True 3 \<lparr>lk_key = ''backup'', lk_token = ''9''\<rparr>]
       (snd (try_acquire_on True 1 \<lparr>ks_prefix = []\<rparr> ''backup'' ''1'' 1000 (\<lambda>_. None))))) = None"
  by (rule held_lock_is_exclusive [where now = 1 and name = "''backup''" and token = "''1''" and ttl_ms = 1000 and s = "\<lambda>_. None"
      and lock = "\<lparr>lk_key = ''backup'', lk_token = ''1''\<rparr>"])
    (simp_all add: try_acquire_on_def ttl_set_nx_def ttl_get_def live_def ks_key_def millis_def)

end
