(* ===== verification/TwoFactor.thy ===== *)
theory TwoFactor
  imports Errors Utf8 Coordination "HOL-Library.Word"
begin

unbundle bit_operations_syntax

text \<open>
  \<^verbatim>\<open>src/two_factor.rs\<close>: time-based codes, recovery codes, and the state of a user's second
  factor. HMAC, bcrypt, the encryptor of the secret, and the encodings of other crates are
  arguments (\<open>two_factor_lib\<close>); what a request meets (the clock, which calls fail, the random
  bytes it draws) is its \<open>moment\<close>. Time is in microseconds.
\<close>

definition OTP_INTERVAL :: int where "OTP_INTERVAL = 30"
definition OTP_DIGITS :: nat where "OTP_DIGITS = 6"
definition OTP_ALLOWED_DRIFT :: int where "OTP_ALLOWED_DRIFT = 30"
definition OTP_SECRET_BYTES :: nat where "OTP_SECRET_BYTES = 32"
definition BACKUP_CODE_COUNT :: nat where "BACKUP_CODE_COUNT = 10"
definition BACKUP_CODE_LENGTH :: nat where "BACKUP_CODE_LENGTH = 16"
definition MAX_2FA_ATTEMPTS_PER_HOUR :: int where "MAX_2FA_ATTEMPTS_PER_HOUR = 10"

type_synonym byte = "8 word"

record two_factor_lib =
  tl_hmac_sha1 :: "byte list \<Rightarrow> byte list \<Rightarrow> byte list"
  tl_bcrypt_verify :: "string \<Rightarrow> string \<Rightarrow> bool"
  tl_bcrypt_hash :: "string \<Rightarrow> string option"
  tl_encryptor :: "((string \<Rightarrow> string option) \<times> (string \<Rightarrow> string option)) option"
  tl_base32 :: "byte list \<Rightarrow> string"
  tl_hex :: "byte list \<Rightarrow> string"

section \<open>Time-based codes\<close>

definition BASE32_ALPHABET :: string where
  "BASE32_ALPHABET = ''ABCDEFGHIJKLMNOPQRSTUVWXYZ234567''"

definition ascii_upper_char :: "char \<Rightarrow> char" where
  "ascii_upper_char c = (if 97 \<le> code c \<and> code c \<le> 122 then char_of (code c - 32) else c)"

fun position :: "('a \<Rightarrow> bool) \<Rightarrow> 'a list \<Rightarrow> nat option" where
  "position p [] = None"
| "position p (x # xs) = (if p x then Some 0 else map_option Suc (position p xs))"

text \<open>The loop over the characters: the buffer, how many of its bits count, the bytes so far.\<close>

fun decode_loop :: "string \<Rightarrow> 32 word \<Rightarrow> nat \<Rightarrow> byte list \<Rightarrow> byte list option" where
  "decode_loop [] buffer bits bytes = Some bytes"
| "decode_loop (c # cs) buffer bits bytes =
     (case position (\<lambda>a. a = ascii_upper_char c) BASE32_ALPHABET of
        None \<Rightarrow> None
      | Some value \<Rightarrow>
          let buffer = push_bit 5 buffer OR word_of_nat value; bits = bits + 5 in
          if bits \<ge> 8 then let bits = bits - 8 in
            decode_loop cs (buffer AND (push_bit bits 1 - 1)) bits (bytes @ [ucast (drop_bit bits buffer)])
          else decode_loop cs buffer bits bytes)"

definition decode_secret :: "string \<Rightarrow> byte list option" where
  "decode_secret secret = decode_loop (filter (\<lambda>c. \<not> is_space c \<and> c \<noteq> CHR ''='') secret) 0 0 []"

text \<open>\<^verbatim>\<open>to_be_bytes\<close> of 64 bits, \<^verbatim>\<open>from_be_bytes\<close> of 32.\<close>

definition be64 :: "64 word \<Rightarrow> byte list" where
  "be64 w = map (\<lambda>i. ucast (drop_bit (8 * (7 - i)) w)) [0..<8]"

definition be32 :: "byte \<Rightarrow> byte \<Rightarrow> byte \<Rightarrow> byte \<Rightarrow> 32 word" where
  "be32 a b c d = push_bit 24 (ucast a) OR push_bit 16 (ucast b) OR push_bit 8 (ucast c) OR ucast d"

text \<open>\<^verbatim>\<open>{:0width$}\<close>\<close>

definition zero_padded :: "nat \<Rightarrow> nat \<Rightarrow> string" where
  "zero_padded width n = replicate (width - length (dec_nat n)) (CHR ''0'') @ dec_nat n"

definition hotp :: "two_factor_lib \<Rightarrow> byte list \<Rightarrow> 64 word \<Rightarrow> string" where
  "hotp lib key counter =
     (let digest = tl_hmac_sha1 lib key (be64 counter);
          offset = unat (digest ! (length digest - 1) AND 15);
          binary = be32 (digest ! offset AND 127) (digest ! (offset + 1)) (digest ! (offset + 2)) (digest ! (offset + 3))
      in zero_padded OTP_DIGITS (unat binary mod 10 ^ OTP_DIGITS))"

definition timestep :: "int \<Rightarrow> int" where
  "timestep unix_seconds = unix_seconds div OTP_INTERVAL"

definition totp_at :: "two_factor_lib \<Rightarrow> string \<Rightarrow> int \<Rightarrow> string option" where
  "totp_at lib secret unix_seconds =
     map_option (\<lambda>key. hotp lib key (word_of_int (timestep unix_seconds))) (decode_secret secret)"

definition constant_time_eq :: "byte list \<Rightarrow> byte list \<Rightarrow> bool" where
  "constant_time_eq a b =
     (if length a \<noteq> length b then False else fold (\<lambda>(x, y) acc. acc OR (x XOR y)) (zip a b) 0 = 0)"

definition as_bytes_of :: "string \<Rightarrow> byte list" where
  "as_bytes_of s = map word_of_nat (utf8_encode (map code s))"

definition verify_totp :: "two_factor_lib \<Rightarrow> string \<Rightarrow> string \<Rightarrow> int \<Rightarrow> int option \<Rightarrow> int option" where
  "verify_totp lib secret given now after_step =
     Option.bind (decode_secret secret) (\<lambda>key.
     let typed = filter (\<lambda>c. \<not> is_space c) given in
     if typed = [] then None
     else let first = timestep (now - OTP_ALLOWED_DRIFT); last = timestep (now + OTP_ALLOWED_DRIFT) in
       find (\<lambda>step. constant_time_eq (as_bytes_of (hotp lib key (word_of_int step))) (as_bytes_of typed))
         (filter (\<lambda>step. case after_step of None \<Rightarrow> True | Some after \<Rightarrow> step > after) [first..last]))"

section \<open>The tables\<close>

record tf_user_row =
  tu_id :: int
  tu_account :: int
  tu_email :: string
  tu_otp_required :: bool
  tu_otp_secret :: "string option"
  tu_backup_codes :: "string list option"
  tu_consumed :: "int option"
  tu_updated_at :: int
  tu_role :: "int option"
  tu_time_zone :: "string option"
  tu_confirmed :: bool
  tu_current_sign_in :: "int option"
  tu_last_sign_in :: "int option"
  tu_sign_in_count :: int
  tu_password :: string
  tu_disabled :: bool

record key_row =
  kr_id :: int
  kr_user :: int
  kr_external_id :: string
  kr_public_key :: string
  kr_sign_count :: int

record login_row =
  lo_user :: int
  lo_method :: string
  lo_success :: bool
  lo_failure :: "string option"

datatype owned_notice =
    TwoFactorEnabled | TwoFactorRecoveryCodesChanged | WebauthnEnabled | WebauthnDisabled
  | WebauthnCredentialAdded string | WebauthnCredentialDeleted string | PasswordChange | EmailChanged string

datatype mail = TwoFactorDisabledMail string | SecurityMail string owned_notice | SuspiciousMail string | FailedTwoFactorMail string

record auth_db =
  ad_users :: "tf_user_row list"
  ad_accounts :: "(int \<times> bool) list"
  ad_roles :: "(int \<times> bool) list"
  ad_keys :: "key_row list"
  ad_logins :: "login_row list"
  ad_mails :: "mail list"
  ad_counters :: "int ttl_store"
  ad_notified :: "string ttl_store"

datatype auth_call =
    DbLoad | DbConsume | DbBackup | DbEnable | DbRegenerate | DbDisable | DbRemoveKeys
  | BcryptTask | BcryptCheck
  | RedisIncr | RedisExpire | RedisForget | RedisNotice
  | DbKey | DbSignCount | DbSuspicious | DbSignIn | DbLogin | DbKeys | RedisStore | RedisLoad | RedisDiscard

record moment =
  mo_now :: int
  mo_down :: "auth_call \<Rightarrow> bool"
  mo_token :: "byte list"
  mo_secret :: "byte list"
  mo_codes :: "byte list list"
  mo_challenge :: string

definition unix_seconds :: "moment \<Rightarrow> int" where
  "unix_seconds mo = mo_now mo div 1000000"

text \<open>\<^verbatim>\<open>UPDATE users SET ..., updated_at = now() WHERE id = $1\<close>\<close>

definition update_users :: "int \<Rightarrow> int \<Rightarrow> (tf_user_row \<Rightarrow> tf_user_row) \<Rightarrow> 'z auth_db_scheme \<Rightarrow> 'z auth_db_scheme" where
  "update_users now user_id f db =
     db\<lparr>ad_users := map (\<lambda>u. if tu_id u = user_id then (f u)\<lparr>tu_updated_at := now\<rparr> else u) (ad_users db)\<rparr>"

section \<open>The user's state\<close>

record user_two_factor =
  tf_user_id :: int
  tf_email :: string
  tf_otp_required :: bool
  tf_otp_secret :: "string option"
  tf_backup_codes :: "string list"
  tf_consumed :: "int option"
  tf_keys :: nat
  tf_updated_at :: int
  tf_role_requires :: bool
  tf_memorial :: bool
  tf_time_zone :: "string option"

definition otp_enabled :: "user_two_factor \<Rightarrow> bool" where
  "otp_enabled self = tf_otp_required self"

definition webauthn_enabled :: "user_two_factor \<Rightarrow> bool" where
  "webauthn_enabled self = (tf_keys self > 0)"

definition tf_enabled :: "user_two_factor \<Rightarrow> bool" where
  "tf_enabled self = (otp_enabled self \<or> webauthn_enabled self)"

definition tf_missing :: "user_two_factor \<Rightarrow> bool" where
  "tf_missing self = (\<not> tf_enabled self \<and> tf_role_requires self)"

definition two_factor_of :: "'z auth_db_scheme \<Rightarrow> tf_user_row \<Rightarrow> bool \<Rightarrow> user_two_factor" where
  "two_factor_of db u memorial =
     \<lparr>tf_user_id = tu_id u, tf_email = tu_email u, tf_otp_required = tu_otp_required u, tf_otp_secret = tu_otp_secret u,
      tf_backup_codes = (case tu_backup_codes u of None \<Rightarrow> [] | Some cs \<Rightarrow> cs), tf_consumed = tu_consumed u,
      tf_keys = length (filter (\<lambda>w. kr_user w = tu_id u) (ad_keys db)), tf_updated_at = tu_updated_at u,
      tf_role_requires = (case map_of (ad_roles db) (case tu_role u of None \<Rightarrow> - 99 | Some r \<Rightarrow> r) of
         None \<Rightarrow> False | Some required \<Rightarrow> required),
      tf_memorial = memorial, tf_time_zone = tu_time_zone u\<rparr>"

definition tf_load :: "moment \<Rightarrow> 'z auth_db_scheme \<Rightarrow> int \<Rightarrow> app_error + user_two_factor option" where
  "tf_load mo db user_id =
     (if mo_down mo DbLoad then Inl (Database SqlxError)
      else Inr (case find (\<lambda>u. tu_id u = user_id) (ad_users db) of
          None \<Rightarrow> None
        | Some u \<Rightarrow> map_option (two_factor_of db u) (map_of (ad_accounts db) (tu_account u))))"

definition seal_secret :: "two_factor_lib \<Rightarrow> string \<Rightarrow> app_error + string" where
  "seal_secret lib secret = (case tl_encryptor lib of
      None \<Rightarrow> Inl (ServiceUnavailable
        (''Two-factor authentication needs the instance'' @ CHR 0x27 # ''s ActiveRecord encryption keys''))
    | Some (encrypt, _) \<Rightarrow> ok_or (Internal ''sealing an OTP secret'') (encrypt secret))"

definition open_secret :: "two_factor_lib \<Rightarrow> string \<Rightarrow> string option" where
  "open_secret lib sealed = (case tl_encryptor lib of None \<Rightarrow> None | Some (_, decrypt) \<Rightarrow> decrypt sealed)"

definition as_i32 :: "int \<Rightarrow> int" where
  "as_i32 n = sint (word_of_int n :: 32 word)"

definition validate_and_consume_otp ::
  "two_factor_lib \<Rightarrow> moment \<Rightarrow> user_two_factor \<Rightarrow> string \<Rightarrow> string option \<Rightarrow> 'z auth_db_scheme \<Rightarrow> bool \<times> 'z auth_db_scheme"
where
  "validate_and_consume_otp lib mo user given secret db =
     (case (case secret of Some s \<Rightarrow> Some s | None \<Rightarrow> Option.bind (tf_otp_secret user) (open_secret lib)) of
        None \<Rightarrow> (False, db)
      | Some s \<Rightarrow>
          if s = [] then (False, db)
          else let now = unix_seconds mo in
            if verify_totp lib s given now (tf_consumed user) = None then (False, db)
            else let current = as_i32 (timestep now) in
              if tf_consumed user = Some current then (False, db)
              else if mo_down mo DbConsume then (False, db)
              else (True, update_users (mo_now mo) (tf_user_id user) (\<lambda>u. u\<lparr>tu_consumed := Some current\<rparr>) db))"

section \<open>Recovery codes\<close>

definition generate_otp_secret :: "two_factor_lib \<Rightarrow> moment \<Rightarrow> string" where
  "generate_otp_secret lib mo = tl_base32 lib (mo_secret mo)"

fun hash_all :: "two_factor_lib \<Rightarrow> string list \<Rightarrow> string list option" where
  "hash_all lib [] = Some []"
| "hash_all lib (c # cs) = (case tl_bcrypt_hash lib c of None \<Rightarrow> None | Some d \<Rightarrow> map_option (Cons d) (hash_all lib cs))"

definition generate_backup_codes :: "two_factor_lib \<Rightarrow> moment \<Rightarrow> app_error + string list \<times> string list" where
  "generate_backup_codes lib mo =
     (if mo_down mo BcryptTask then Inl (Internal ''recovery codes did not finish'')
      else let codes = map (tl_hex lib) (mo_codes mo) in
        res_bind (ok_or (Internal ''hashing recovery codes'') (hash_all lib codes)) (\<lambda>digests. Inr (codes, digests)))"

definition remove_at :: "nat \<Rightarrow> 'a list \<Rightarrow> 'a list" where
  "remove_at i xs = take i xs @ drop (i + 1) xs"

definition invalidate_backup_code ::
  "two_factor_lib \<Rightarrow> moment \<Rightarrow> user_two_factor \<Rightarrow> string \<Rightarrow> 'z auth_db_scheme \<Rightarrow> bool \<times> 'z auth_db_scheme" where
  "invalidate_backup_code lib mo user given db =
     (if given = [] \<or> tf_backup_codes user = [] \<or> mo_down mo BcryptCheck then (False, db)
      else case position (tl_bcrypt_verify lib given) (tf_backup_codes user) of
        None \<Rightarrow> (False, db)
      | Some index \<Rightarrow>
          if mo_down mo DbBackup then (False, db)
          else (True, update_users (mo_now mo) (tf_user_id user)
            (\<lambda>u. u\<lparr>tu_backup_codes := Some (remove_at index (tf_backup_codes user))\<rparr>) db))"

section \<open>Changing it\<close>

definition enable :: "two_factor_lib \<Rightarrow> moment \<Rightarrow> int \<Rightarrow> string \<Rightarrow> 'z auth_db_scheme \<Rightarrow> (app_error + string list) \<times> 'z auth_db_scheme" where
  "enable lib mo user_id secret db =
     (case res_bind (seal_secret lib secret) (\<lambda>sealed.
             res_bind (generate_backup_codes lib mo) (\<lambda>(codes, digests). Inr (sealed, codes, digests))) of
        Inl e \<Rightarrow> (Inl e, db)
      | Inr (sealed, codes, digests) \<Rightarrow>
          if mo_down mo DbEnable then (Inl (Database SqlxError), db)
          else (Inr codes, update_users (mo_now mo) user_id
            (\<lambda>u. u\<lparr>tu_otp_required := True, tu_otp_secret := Some sealed, tu_backup_codes := Some digests\<rparr>) db))"

definition regenerate_backup_codes ::
  "two_factor_lib \<Rightarrow> moment \<Rightarrow> int \<Rightarrow> 'z auth_db_scheme \<Rightarrow> (app_error + string list) \<times> 'z auth_db_scheme" where
  "regenerate_backup_codes lib mo user_id db =
     (case generate_backup_codes lib mo of
        Inl e \<Rightarrow> (Inl e, db)
      | Inr (codes, digests) \<Rightarrow>
          if mo_down mo DbRegenerate then (Inl (Database SqlxError), db)
          else (Inr codes, update_users (mo_now mo) user_id (\<lambda>u. u\<lparr>tu_backup_codes := Some digests\<rparr>) db))"

text \<open>On the caller's connection: when the second statement fails, the first has been done.\<close>

definition disable :: "moment \<Rightarrow> int \<Rightarrow> 'z auth_db_scheme \<Rightarrow> (app_error + unit) \<times> 'z auth_db_scheme" where
  "disable mo user_id db =
     (if mo_down mo DbDisable then (Inl (Database SqlxError), db)
      else let db' = update_users (mo_now mo) user_id (\<lambda>u. u\<lparr>tu_otp_required := False, tu_otp_secret := None,
          tu_backup_codes := map_option (\<lambda>_. []) (tu_backup_codes u)\<rparr>) db in
        if mo_down mo DbRemoveKeys then (Inl (Database SqlxError), db')
        else (Inr (), db'\<lparr>ad_keys := filter (\<lambda>w. kr_user w \<noteq> user_id) (ad_keys db')\<rparr>))"

datatype notice_kind = TwoFactorDisabled | Security owned_notice

definition notify_now :: "user_two_factor \<Rightarrow> notice_kind \<Rightarrow> 'z auth_db_scheme \<Rightarrow> 'z auth_db_scheme" where
  "notify_now user kind db =
     (if tf_memorial user then db
      else db\<lparr>ad_mails := ad_mails db @ [case kind of
         TwoFactorDisabled \<Rightarrow> TwoFactorDisabledMail (tf_email user) | Security k \<Rightarrow> SecurityMail (tf_email user) k]\<rparr>)"

section \<open>Sign-in bookkeeping\<close>

definition attempts_key :: "moment \<Rightarrow> keyspace \<Rightarrow> int \<Rightarrow> string" where
  "attempts_key mo keys user_id =
     ks_key keys (''2fa_auth_attempts:'' @ dec user_id @ '':'' @ dec (unix_seconds mo div 3600 mod 24))"

definition second_factor_rate_limited ::
  "moment \<Rightarrow> keyspace \<Rightarrow> int \<Rightarrow> 'z auth_db_scheme \<Rightarrow> bool \<times> 'z auth_db_scheme" where
  "second_factor_rate_limited mo keys user_id db =
     (if mo_down mo RedisIncr then (False, db)
      else case ttl_incr (mo_now mo) (attempts_key mo keys user_id) (ad_counters db) of
        (attempts, counters) \<Rightarrow>
          (attempts \<ge> MAX_2FA_ATTEMPTS_PER_HOUR,
           db\<lparr>ad_counters := if mo_down mo RedisExpire then counters
                else ttl_expire (mo_now mo) (seconds 3600) (attempts_key mo keys user_id) counters\<rparr>))"

definition clear_second_factor_attempts :: "moment \<Rightarrow> keyspace \<Rightarrow> int \<Rightarrow> 'z auth_db_scheme \<Rightarrow> 'z auth_db_scheme" where
  "clear_second_factor_attempts mo keys user_id db =
     (if mo_down mo RedisForget then db
      else db\<lparr>ad_counters := ttl_del (attempts_key mo keys user_id) (ad_counters db)\<rparr>)"

definition notify_failed_second_factor :: "moment \<Rightarrow> keyspace \<Rightarrow> user_two_factor \<Rightarrow> 'z auth_db_scheme \<Rightarrow> 'z auth_db_scheme" where
  "notify_failed_second_factor mo keys user db =
     (if mo_down mo RedisNotice then db
      else case ttl_set_nx (mo_now mo) (seconds 3600)
          (ks_key keys (''2fa_failure_notification:'' @ dec (tf_user_id user))) ''1'' (ad_notified db) of
        (fresh, notified) \<Rightarrow>
          if fresh then db\<lparr>ad_notified := notified, ad_mails := ad_mails db @ [FailedTwoFactorMail (tf_email user)]\<rparr>
          else db)"

end
