(* ===== verification/WebAuthn.thy ===== *)
theory WebAuthn
  imports Cbor X509 Json
begin

text \<open>
  \<^verbatim>\<open>src/webauthn.rs\<close>: registering a security key and checking an assertion of one. JSON,
  base64url, SHA-256 and the signature algorithms are other crates' and are arguments
  (\<open>wa_lib\<close>); so is the check of an attestation statement, \<^verbatim>\<open>attestation::verify\<close>, which is
  not modelled.
\<close>

definition ES256 :: int where "ES256 = - 7"
definition PS256 :: int where "PS256 = - 37"
definition RS256 :: int where "RS256 = - 257"

definition FLAG_USER_PRESENT :: nat where "FLAG_USER_PRESENT = 1"
definition FLAG_ATTESTED_CREDENTIAL :: nat where "FLAG_ATTESTED_CREDENTIAL = 64"

text \<open>A flag that is a power of two, in a byte.\<close>

definition has_flag :: "nat \<Rightarrow> nat \<Rightarrow> bool" where
  "has_flag flags flag \<longleftrightarrow> flags div flag mod 2 = 1"

record 'k wa_lib =
  wa_crypto :: "'k crypto"
  wa_verify_pss :: "'k public_key \<Rightarrow> hash \<Rightarrow> bytes \<Rightarrow> bytes \<Rightarrow> bool"
  wa_verify_raw_or_der :: "'k public_key \<Rightarrow> hash \<Rightarrow> bytes \<Rightarrow> bytes \<Rightarrow> bool"
  wa_encode :: "bytes \<Rightarrow> string"
  wa_decode :: "string \<Rightarrow> bytes option"
  wa_json :: "bytes \<Rightarrow> json option"
  wa_sha256 :: "bytes \<Rightarrow> bytes"

definition bytes_of :: "string \<Rightarrow> bytes" where
  "bytes_of s = utf8_encode (map code s)"

definition trim_equals :: "string \<Rightarrow> string" where
  "trim_equals s = rev (dropWhile (\<lambda>c. c = CHR ''='') (rev s))"

definition wa_decoded :: "'k wa_lib \<Rightarrow> string \<Rightarrow> webauthn_error + bytes" where
  "wa_decoded lib t = ok_or (Invalid ''not base64url'') (wa_decode lib (trim_equals t))"

record relying_party =
  rp_id :: string
  rp_origin :: string

definition for_domain :: "string \<Rightarrow> relying_party" where
  "for_domain domain = \<lparr>rp_id = domain, rp_origin = ''https://'' @ domain\<rparr>"

section \<open>Authenticator data\<close>

record attested_credential =
  at_aaguid :: bytes
  at_id :: bytes
  at_public_key :: bytes

record authenticator_data =
  ad_rp_id_hash :: bytes
  ad_flags :: nat
  ad_sign_count :: nat
  ad_credential :: "attested_credential option"

definition parse_attested :: "bytes \<Rightarrow> webauthn_error + attested_credential" where
  "parse_attested rest =
     (if length rest < 18 then Inl (Invalid ''attested credential data is too short'')
      else let id_end = 18 + from_be (take 2 (drop 16 rest)) in
        if length rest < id_end then Inl (Invalid ''credential id overruns the data'')
        else res_bind (cbor_parse (drop id_end rest)) (\<lambda>(_, used).
          Inr \<lparr>at_aaguid = take 16 rest, at_id = take (id_end - 18) (drop 18 rest),
            at_public_key = take used (drop id_end rest)\<rparr>))"

definition authenticator_data_parse :: "bytes \<Rightarrow> webauthn_error + authenticator_data" where
  "authenticator_data_parse bytes =
     (if length bytes < 37 then Inl (Invalid ''authenticator data is too short'')
      else let flags = bytes ! 32 in
        res_bind (if has_flag flags FLAG_ATTESTED_CREDENTIAL
            then res_bind (parse_attested (drop 37 bytes)) (\<lambda>c. Inr (Some c)) else Inr None)
          (\<lambda>credential. Inr \<lparr>ad_rp_id_hash = take 32 bytes, ad_flags = flags,
             ad_sign_count = from_be (take 4 (drop 33 bytes)), ad_credential = credential\<rparr>))"

definition authenticator_data_verify :: "'k wa_lib \<Rightarrow> authenticator_data \<Rightarrow> relying_party \<Rightarrow> webauthn_error + unit" where
  "authenticator_data_verify lib self rp =
     (if ad_rp_id_hash self \<noteq> wa_sha256 lib (bytes_of (rp_id rp)) then Inl (Invalid ''relying party does not match'')
      else if \<not> has_flag (ad_flags self) FLAG_USER_PRESENT then Inl (Invalid ''user was not present'')
      else Inr ())"

section \<open>COSE keys\<close>

record 'k cose_key =
  ck_alg :: int
  ck_key :: "'k public_key"
  ck_ec :: "(bytes \<times> bytes) option"

definition bytes_at :: "cbor \<Rightarrow> int \<Rightarrow> webauthn_error + bytes" where
  "bytes_at m key = ok_or (Invalid ''key is missing a parameter'') (Option.bind (get_int m key) as_bytes)"

definition cose_parse :: "'k wa_lib \<Rightarrow> bytes \<Rightarrow> webauthn_error + 'k cose_key" where
  "cose_parse lib bytes =
     res_bind (cbor_parse bytes) (\<lambda>(m, _).
     res_bind (ok_or (Invalid ''key has no algorithm'') (Option.bind (get_int m 3) as_int)) (\<lambda>alg.
     res_bind (ok_or (Invalid ''key has no type'') (Option.bind (get_int m 1) as_int)) (\<lambda>kty.
     if kty = 2 \<and> alg = ES256 then
       (if Option.bind (get_int m (- 1)) as_int \<noteq> Some 1 then Inl (Invalid ''only P-256 is supported'')
        else res_bind (bytes_at m (- 2)) (\<lambda>x. res_bind (bytes_at m (- 3)) (\<lambda>y.
          if length x \<noteq> 32 \<or> length y \<noteq> 32 then Inl (Invalid ''malformed P-256 key'')
          else res_bind (ok_or (Invalid ''malformed P-256 key'') (ec_key (wa_crypto lib) P256 (4 # x @ y))) (\<lambda>k.
            Inr \<lparr>ck_alg = alg, ck_key = k, ck_ec = Some (x, y)\<rparr>))))
     else if kty = 3 \<and> (alg = PS256 \<or> alg = RS256) then
       res_bind (bytes_at m (- 1)) (\<lambda>n. res_bind (bytes_at m (- 2)) (\<lambda>e.
         Inr \<lparr>ck_alg = alg, ck_key = rsa_key n e, ck_ec = None\<rparr>))
     else Inl (Invalid ''unsupported key algorithm''))))"

fun key_curve :: "'k public_key \<Rightarrow> curve option" where
  "key_curve (EcKey c _) = Some c"
| "key_curve _ = None"

definition is_rsa :: "'k public_key \<Rightarrow> bool" where
  "is_rsa k = (case k of Rsa _ _ \<Rightarrow> True | _ \<Rightarrow> False)"

definition verify_cose :: "'k wa_lib \<Rightarrow> string \<Rightarrow> 'k public_key \<Rightarrow> bytes \<Rightarrow> bytes \<Rightarrow> webauthn_error + bool" where
  "verify_cose lib alg key data signature =
     (if alg = ''ES256'' \<and> key_curve key \<noteq> None then
        (if key_curve key = Some P256 then Inr (wa_verify_raw_or_der lib key Sha256 data signature)
         else Inl (Invalid ''key is not on P-256''))
      else if alg = ''PS256'' \<and> is_rsa key then Inr (wa_verify_pss lib key Sha256 data signature)
      else if alg = ''RS256'' \<and> is_rsa key then Inr (verify_pkcs1 (wa_crypto lib) key Sha256 data signature)
      else Inl (Invalid ''incompatible algorithm and key''))"

definition cose_verify :: "'k wa_lib \<Rightarrow> 'k cose_key \<Rightarrow> bytes \<Rightarrow> bytes \<Rightarrow> webauthn_error + unit" where
  "cose_verify lib self message signature =
     res_bind (verify_cose lib
       (if ck_alg self = ES256 then ''ES256'' else if ck_alg self = PS256 then ''PS256'' else ''RS256'')
       (ck_key self) message signature)
       (\<lambda>ok. if ok then Inr () else Inl (Invalid ''signature does not verify''))"

section \<open>Client data\<close>

definition verify_client_data ::
  "'k wa_lib \<Rightarrow> bytes \<Rightarrow> string \<Rightarrow> string \<Rightarrow> relying_party \<Rightarrow> webauthn_error + unit" where
  "verify_client_data lib raw expected_type challenge rp =
     res_bind (ok_or (Invalid ''client data is not JSON'') (wa_json lib raw)) (\<lambda>data.
     if jget_str data ''type'' \<noteq> Some expected_type then Inl (Invalid ''client data has the wrong type'')
     else res_bind (ok_or (Invalid ''client data has no challenge'') (jget_str data ''challenge'')) (\<lambda>given.
     res_bind (wa_decoded lib given) (\<lambda>g. res_bind (wa_decoded lib challenge) (\<lambda>c.
     if g \<noteq> c then Inl (Invalid ''challenge does not match'')
     else if jget_str data ''origin'' \<noteq> Some (rp_origin rp) then Inl (Invalid ''origin does not match'')
     else Inr ()))))"

definition str_field :: "json \<Rightarrow> string \<Rightarrow> webauthn_error + string" where
  "str_field v name = ok_or (Invalid name) (jget_str v name)"

definition decoded_field :: "'k wa_lib \<Rightarrow> json \<Rightarrow> string \<Rightarrow> webauthn_error + bytes" where
  "decoded_field lib v name = res_bind (str_field v name) (wa_decoded lib)"

definition credential_id :: "json \<Rightarrow> webauthn_error + string" where
  "credential_id credential = ok_or (Invalid ''credential has no id'')
     (case jget_str credential ''id'' of Some i \<Rightarrow> if i = [] then None else Some i | None \<Rightarrow> None)"

section \<open>An assertion\<close>

definition sign_count_moved :: "int \<Rightarrow> int \<Rightarrow> bool" where
  "sign_count_moved stored count \<longleftrightarrow> \<not> ((count \<noteq> 0 \<or> stored \<noteq> 0) \<and> count \<le> stored)"

definition verify_assertion ::
  "'k wa_lib \<Rightarrow> json \<Rightarrow> string \<Rightarrow> relying_party \<Rightarrow> string \<Rightarrow> int \<Rightarrow> webauthn_error + int" where
  "verify_assertion lib credential challenge rp public_key stored_sign_count =
     res_bind (ok_or (Invalid ''no response'') (jget credential ''response'')) (\<lambda>response.
     res_bind (decoded_field lib response ''clientDataJSON'') (\<lambda>client_data_json.
     res_bind (verify_client_data lib client_data_json ''webauthn.get'' challenge rp) (\<lambda>_.
     res_bind (decoded_field lib response ''authenticatorData'') (\<lambda>auth_data.
     res_bind (decoded_field lib response ''signature'') (\<lambda>signature.
     res_bind (authenticator_data_parse auth_data) (\<lambda>data.
     res_bind (authenticator_data_verify lib data rp) (\<lambda>_.
     res_bind (wa_decoded lib public_key) (\<lambda>key_bytes.
     res_bind (cose_parse lib key_bytes) (\<lambda>key.
     res_bind (cose_verify lib key (auth_data @ wa_sha256 lib client_data_json) signature) (\<lambda>_.
     if sign_count_moved stored_sign_count (int (ad_sign_count data)) then Inr (int (ad_sign_count data))
     else Inl (Invalid ''sign count did not increase'')))))))))))"

section \<open>A registration\<close>

record 'k attested =
  as_auth_data :: bytes
  as_rp_id_hash :: bytes
  as_aaguid :: bytes
  as_credential_id :: bytes
  as_credential_key :: "'k cose_key"
  as_client_data_hash :: bytes

record new_credential =
  nc_external_id :: string
  nc_public_key :: string
  nc_sign_count :: int

type_synonym 'k attestation = "nat list \<Rightarrow> cbor \<Rightarrow> 'k attested \<Rightarrow> webauthn_error + unit"

definition verify_registration ::
  "'k wa_lib \<Rightarrow> 'k attestation \<Rightarrow> json \<Rightarrow> string \<Rightarrow> relying_party \<Rightarrow> webauthn_error + new_credential" where
  "verify_registration lib attestation_verify credential challenge rp =
     res_bind (credential_id credential) (\<lambda>i.
     res_bind (ok_or (Invalid ''no response'') (jget credential ''response'')) (\<lambda>response.
     res_bind (decoded_field lib response ''clientDataJSON'') (\<lambda>client_data_json.
     res_bind (verify_client_data lib client_data_json ''webauthn.create'' challenge rp) (\<lambda>_.
     res_bind (decoded_field lib response ''attestationObject'') (\<lambda>attestation.
     res_bind (cbor_parse attestation) (\<lambda>(obj, _).
     res_bind (ok_or (Invalid ''attestation has no format'') (Option.bind (get_text obj ''fmt'') as_text)) (\<lambda>fmt.
     res_bind (ok_or (Invalid ''attestation has no statement'') (get_text obj ''attStmt'')) (\<lambda>statement.
     res_bind (ok_or (Invalid ''attestation has no authenticator data'')
       (Option.bind (get_text obj ''authData'') as_bytes)) (\<lambda>auth_data.
     res_bind (authenticator_data_parse auth_data) (\<lambda>data.
     res_bind (authenticator_data_verify lib data rp) (\<lambda>_.
     res_bind (ok_or (Invalid ''no attested credential'') (ad_credential data)) (\<lambda>attested.
     if wa_encode lib (at_id attested) \<noteq> trim_equals i then Inl (Invalid ''credential id does not match'')
     else res_bind (cose_parse lib (at_public_key attested)) (\<lambda>key.
     res_bind (attestation_verify fmt statement
       \<lparr>as_auth_data = auth_data, as_rp_id_hash = ad_rp_id_hash data, as_aaguid = at_aaguid attested,
        as_credential_id = at_id attested, as_credential_key = key,
        as_client_data_hash = wa_sha256 lib client_data_json\<rparr>) (\<lambda>_.
     Inr \<lparr>nc_external_id = i, nc_public_key = wa_encode lib (at_public_key attested),
       nc_sign_count = int (ad_sign_count data)\<rparr>))))))))))))))"

end
