(* ===== verification/SignIn.thy ===== *)
theory SignIn
  imports TwoFactor WebAuthn
begin

text \<open>
  \<^verbatim>\<open>src/api/account/sign_in.rs\<close>: a web sign-in from after the password on. A pending
  sign-in is an attempt kept in Redis under a random token; that \<^verbatim>\<open>serde_json\<close> reads back the
  attempt it wrote is taken for granted. Rendering the page is left out, \<open>sign_in_page\<close> is what it
  is made from. Of \<^verbatim>\<open>middleware.rs\<close> and \<^verbatim>\<open>accounts.rs\<close> this holds \<^verbatim>\<open>update_sign_in\<close>
  (without the activity counters and the regeneration of the feed) and \<^verbatim>\<open>record_login\<close>.
\<close>

definition ATTEMPT_TTL_SECONDS :: int where
  "ATTEMPT_TTL_SECONDS = 3600"

datatype continuation = Oauth string string string string | AccountPages

datatype stage = Challenge | Setup string | RecoveryCodes

record attempt =
  sa_user_id :: int
  sa_updated_at :: string
  sa_stage :: stage
  sa_challenge :: "string option"
  sa_continuation :: continuation

record sign_in_page =
  pg_token :: string
  pg_mode :: string
  pg_continuation :: continuation
  pg_error :: "string option"
  pg_notice :: "string option"
  pg_webauthn :: bool
  pg_secret :: "string option"
  pg_account :: string
  pg_recovery_codes :: "string list"

datatype sign_in_step = SignedIn int continuation | Render sign_in_page | Restart continuation | Failed continuation

record submitted =
  sb_attempt :: "string option"
  sb_otp :: "string option"
  sb_credential :: "string option"
  sb_setup_otp :: "string option"
  sb_resume :: "string option"

record sign_in_db = auth_db +
  ad_attempts :: "attempt ttl_store"

text \<open>The functions outside the sources, and the instance's own settings.\<close>

record 'k sign_in_lib =
  sl_two_factor :: two_factor_lib
  sl_webauthn :: "'k wa_lib"
  sl_near :: "int \<Rightarrow> string \<Rightarrow> bool"
  sl_keys :: keyspace
  sl_domain :: string

definition is_attempt :: "submitted \<Rightarrow> bool" where
  "is_attempt self = (case sb_attempt self of None \<Rightarrow> False | Some a \<Rightarrow> a \<noteq> [])"

definition lower_hex :: "nat \<Rightarrow> char" where
  "lower_hex n = (if n < 10 then char_of (48 + n) else char_of (87 + n))"

definition generate_token :: "byte list \<Rightarrow> string" where
  "generate_token drawn = concat (map (\<lambda>b. [lower_hex (unat b div 16), lower_hex (unat b mod 16)]) drawn)"

section \<open>The pending sign-in\<close>

definition attempt_key :: "'k sign_in_lib \<Rightarrow> string \<Rightarrow> string" where
  "attempt_key lib token = ks_key (sl_keys lib) (''sign_in_attempt:'' @ token)"

definition store :: "'k sign_in_lib \<Rightarrow> moment \<Rightarrow> string \<Rightarrow> attempt \<Rightarrow> sign_in_db \<Rightarrow> bool \<times> sign_in_db" where
  "store lib mo token att db =
     (if mo_down mo RedisStore then (False, db)
      else (True, db\<lparr>ad_attempts := ttl_set_ex (mo_now mo) (seconds ATTEMPT_TTL_SECONDS) (attempt_key lib token) att
        (ad_attempts db)\<rparr>))"

definition load :: "'k sign_in_lib \<Rightarrow> moment \<Rightarrow> string \<Rightarrow> sign_in_db \<Rightarrow> attempt option" where
  "load lib mo token db =
     (if token = [] \<or> \<not> list_all is_hex_digit token \<or> mo_down mo RedisLoad then None
      else ttl_get (mo_now mo) (ad_attempts db) (attempt_key lib token))"

definition discard :: "'k sign_in_lib \<Rightarrow> moment \<Rightarrow> string \<Rightarrow> sign_in_db \<Rightarrow> sign_in_db" where
  "discard lib mo token db =
     (if mo_down mo RedisDiscard then db
      else db\<lparr>ad_attempts := ttl_del (attempt_key lib token) (ad_attempts db)\<rparr>)"

definition stamp :: "user_two_factor \<Rightarrow> string" where
  "stamp user = dec (tf_updated_at user)"

section \<open>What a sign-in leaves behind\<close>

definition update_sign_in :: "moment \<Rightarrow> int \<Rightarrow> bool \<Rightarrow> 'z auth_db_scheme \<Rightarrow> 'z auth_db_scheme" where
  "update_sign_in mo user_id new_sign_in db =
     (if mo_down mo DbSignIn then db
      else db\<lparr>ad_users := map (\<lambda>u. if tu_id u = user_id
          then u\<lparr>tu_last_sign_in := Some (case tu_current_sign_in u of None \<Rightarrow> mo_now mo | Some t \<Rightarrow> t),
                 tu_current_sign_in := Some (mo_now mo),
                 tu_sign_in_count := tu_sign_in_count u + (if new_sign_in then 1 else 0)\<rparr>
          else u) (ad_users db)\<rparr>)"

definition record_login :: "moment \<Rightarrow> int \<Rightarrow> string \<Rightarrow> bool \<Rightarrow> string option \<Rightarrow> 'z auth_db_scheme \<Rightarrow> 'z auth_db_scheme" where
  "record_login mo user_id method success failure db =
     (if mo_down mo DbLogin then db
      else db\<lparr>ad_logins := ad_logins db @ [\<lparr>lo_user = user_id, lo_method = method, lo_success = success, lo_failure = failure\<rparr>]\<rparr>)"

definition suspicious_sign_in :: "'k sign_in_lib \<Rightarrow> moment \<Rightarrow> user_two_factor \<Rightarrow> string option \<Rightarrow> 'z auth_db_scheme \<Rightarrow> bool" where
  "suspicious_sign_in lib mo user ip db =
     (case ip of None \<Rightarrow> False | Some addr \<Rightarrow>
        if tf_otp_required user \<or> mo_down mo DbSuspicious then False
        else (case find (\<lambda>u. tu_id u = tf_user_id user) (ad_users db) of None \<Rightarrow> False
          | Some u \<Rightarrow> tu_current_sign_in u \<noteq> None \<and> \<not> sl_near lib (tf_user_id user) addr))"

definition on_authentication_success ::
  "'k sign_in_lib \<Rightarrow> moment \<Rightarrow> user_two_factor \<Rightarrow> string \<Rightarrow> string option \<Rightarrow> 'z auth_db_scheme \<Rightarrow> 'z auth_db_scheme" where
  "on_authentication_success lib mo user method ip db =
     (let db1 = clear_second_factor_attempts mo (sl_keys lib) (tf_user_id user) db;
          suspicious = suspicious_sign_in lib mo user ip db1;
          db2 = record_login mo (tf_user_id user) method True None (update_sign_in mo (tf_user_id user) True db1)
      in if suspicious then db2\<lparr>ad_mails := ad_mails db2 @ [SuspiciousMail (tf_email user)]\<rparr> else db2)"

definition on_authentication_failure ::
  "'k sign_in_lib \<Rightarrow> moment \<Rightarrow> user_two_factor \<Rightarrow> string \<Rightarrow> string \<Rightarrow> 'z auth_db_scheme \<Rightarrow> 'z auth_db_scheme" where
  "on_authentication_failure lib mo user method reason db =
     notify_failed_second_factor mo (sl_keys lib) user (record_login mo (tf_user_id user) method False (Some reason) db)"

section \<open>The steps\<close>

definition challenge_page :: "string \<Rightarrow> continuation \<Rightarrow> string option \<Rightarrow> user_two_factor \<Rightarrow> sign_in_page" where
  "challenge_page token c err user =
     \<lparr>pg_token = token, pg_mode = ''challenge'', pg_continuation = c, pg_error = err, pg_notice = None,
      pg_webauthn = webauthn_enabled user, pg_secret = None, pg_account = [], pg_recovery_codes = []\<rparr>"

definition setup_page :: "string \<Rightarrow> continuation \<Rightarrow> string option \<Rightarrow> user_two_factor \<Rightarrow> string \<Rightarrow> sign_in_page" where
  "setup_page token c err user secret =
     \<lparr>pg_token = token, pg_mode = ''setup'', pg_continuation = c, pg_error = err, pg_notice = None,
      pg_webauthn = False, pg_secret = Some secret, pg_account = tf_email user, pg_recovery_codes = []\<rparr>"

definition begin_setup :: "'k sign_in_lib \<Rightarrow> moment \<Rightarrow> user_two_factor \<Rightarrow> continuation \<Rightarrow> sign_in_db \<Rightarrow> sign_in_step \<times> sign_in_db" where
  "begin_setup lib mo user c db =
     (if tl_encryptor (sl_two_factor lib) = None then (Failed c, db)
      else let token = generate_token (mo_token mo); secret = generate_otp_secret (sl_two_factor lib) mo;
             (stored, db') = store lib mo token
               \<lparr>sa_user_id = tf_user_id user, sa_updated_at = stamp user, sa_stage = Setup secret, sa_challenge = None,
                sa_continuation = c\<rparr> db
           in if stored then (Render (setup_page token c None user secret), db') else (Failed c, db'))"

definition after_password ::
  "'k sign_in_lib \<Rightarrow> moment \<Rightarrow> int \<Rightarrow> continuation \<Rightarrow> string option \<Rightarrow> sign_in_db \<Rightarrow> sign_in_step \<times> sign_in_db" where
  "after_password lib mo user_id c ip db =
     (case tf_load mo db user_id of
        Inl _ \<Rightarrow> (Failed c, db)
      | Inr None \<Rightarrow> (Failed c, db)
      | Inr (Some user) \<Rightarrow>
          if tf_enabled user then
            let token = generate_token (mo_token mo);
                (stored, db') = store lib mo token
                  \<lparr>sa_user_id = user_id, sa_updated_at = stamp user, sa_stage = Challenge, sa_challenge = None,
                   sa_continuation = c\<rparr> db
            in if stored then (Render (challenge_page token c None user), db') else (Failed c, db')
          else let db' = on_authentication_success lib mo user ''password'' ip db in
            if tf_missing user then begin_setup lib mo user c db' else (SignedIn user_id c, db'))"

definition valid_webauthn_credential ::
  "'k sign_in_lib \<Rightarrow> moment \<Rightarrow> user_two_factor \<Rightarrow> string \<Rightarrow> string option \<Rightarrow> sign_in_db \<Rightarrow> bool \<times> sign_in_db" where
  "valid_webauthn_credential lib mo user raw challenge db =
     (case challenge of None \<Rightarrow> (False, db) | Some ch \<Rightarrow>
      case wa_json (sl_webauthn lib) (bytes_of raw) of None \<Rightarrow> (False, db) | Some credential \<Rightarrow>
      case credential_id credential of Inl _ \<Rightarrow> (False, db) | Inr i \<Rightarrow>
      if mo_down mo DbKey then (False, db) else
      case find (\<lambda>w. kr_user w = tf_user_id user \<and> kr_external_id w = i) (ad_keys db) of None \<Rightarrow> (False, db) | Some stored \<Rightarrow>
      case verify_assertion (sl_webauthn lib) credential ch (for_domain (sl_domain lib)) (kr_public_key stored) (kr_sign_count stored) of
        Inl _ \<Rightarrow> (False, db)
      | Inr sign_count \<Rightarrow>
          if mo_down mo DbSignCount then (False, db)
          else (True, db\<lparr>ad_keys := map (\<lambda>w. if kr_id w = kr_id stored then w\<lparr>kr_sign_count := sign_count\<rparr> else w) (ad_keys db)\<rparr>))"

definition or_empty :: "string option \<Rightarrow> string" where
  "or_empty s = (case s of None \<Rightarrow> [] | Some t \<Rightarrow> t)"

definition continue_setup ::
  "'k sign_in_lib \<Rightarrow> moment \<Rightarrow> submitted \<Rightarrow> string \<Rightarrow> attempt \<Rightarrow> user_two_factor \<Rightarrow> string \<Rightarrow> sign_in_db \<Rightarrow> sign_in_step \<times> sign_in_db"
where
  "continue_setup lib mo form token att user secret db =
     (let c = sa_continuation att; tl = sl_two_factor lib in
      if sa_updated_at att \<noteq> stamp user then (Restart c, discard lib mo token db)
      else let (valid, db1) = validate_and_consume_otp tl mo user (or_empty (sb_setup_otp form)) (Some secret) db in
        if \<not> valid then (Render (setup_page token c (Some ''otp_wrong_code'') user secret), db1)
        else case enable tl mo (tf_user_id user) secret db1 of
          (Inl _, db2) \<Rightarrow> (Failed c, db2)
        | (Inr codes, db2) \<Rightarrow>
            (Render \<lparr>pg_token = token, pg_mode = ''recovery_codes'', pg_continuation = c, pg_error = None,
               pg_notice = Some ''two_factor_enabled_success'', pg_webauthn = False, pg_secret = None, pg_account = [],
               pg_recovery_codes = codes\<rparr>,
             snd (store lib mo token (att\<lparr>sa_stage := RecoveryCodes\<rparr>)
               (notify_now user (Security TwoFactorEnabled) db2))))"

definition continue_challenge ::
  "'k sign_in_lib \<Rightarrow> moment \<Rightarrow> submitted \<Rightarrow> string \<Rightarrow> attempt \<Rightarrow> user_two_factor \<Rightarrow> string option \<Rightarrow> sign_in_db \<Rightarrow> sign_in_step \<times> sign_in_db"
where
  "continue_challenge lib mo form token att user ip db =
     (let c = sa_continuation att; tl = sl_two_factor lib;
          retry = (\<lambda>err. Render (challenge_page token c (Some err) user)) in
      if sa_updated_at att \<noteq> stamp user then (Restart c, discard lib mo token db)
      else if webauthn_enabled user \<and> or_empty (sb_credential form) \<noteq> [] then
        (case valid_webauthn_credential lib mo user (or_empty (sb_credential form)) (sa_challenge att) db of
           (True, db1) \<Rightarrow> (SignedIn (tf_user_id user) c,
             on_authentication_success lib mo user ''webauthn'' ip (discard lib mo token db1))
         | (False, db1) \<Rightarrow> (retry ''invalid_security_key'',
             on_authentication_failure lib mo user ''webauthn'' ''invalid_credential'' db1))
      else case sb_otp form of
        None \<Rightarrow> (retry [], db)
      | Some typed \<Rightarrow>
          (case second_factor_rate_limited mo (sl_keys lib) (tf_user_id user) db of
             (True, db1) \<Rightarrow> (retry ''rate_limited'', db1)
           | (False, db1) \<Rightarrow>
               let (by_otp, db2) = validate_and_consume_otp tl mo user typed None db1;
                   (valid, db3) = (if by_otp then (True, db2) else invalidate_backup_code tl mo user typed db2)
               in if valid then (SignedIn (tf_user_id user) c,
                    on_authentication_success lib mo user ''otp'' ip (discard lib mo token db3))
                  else (retry ''invalid_otp_token'',
                    on_authentication_failure lib mo user ''otp'' ''invalid_otp_token'' db3)))"

definition continue_attempt ::
  "'k sign_in_lib \<Rightarrow> moment \<Rightarrow> submitted \<Rightarrow> continuation \<Rightarrow> string option \<Rightarrow> sign_in_db \<Rightarrow> sign_in_step \<times> sign_in_db" where
  "continue_attempt lib mo form fallback ip db =
     (let token = or_empty (sb_attempt form) in
      case load lib mo token db of None \<Rightarrow> (Restart fallback, db) | Some att \<Rightarrow>
      case tf_load mo db (sa_user_id att) of
        Inr (Some user) \<Rightarrow>
          (case sa_stage att of
             RecoveryCodes \<Rightarrow>
               if sb_resume form \<noteq> None then (SignedIn (tf_user_id user) (sa_continuation att), discard lib mo token db)
               else (Restart (sa_continuation att), db)
           | Setup secret \<Rightarrow> continue_setup lib mo form token att user secret db
           | Challenge \<Rightarrow> continue_challenge lib mo form token att user ip db)
      | _ \<Rightarrow> (Restart (sa_continuation att), discard lib mo token db))"

text \<open>The options for a security key, when the user of a challenge has one.\<close>

definition security_key_options :: "'k sign_in_lib \<Rightarrow> moment \<Rightarrow> string \<Rightarrow> sign_in_db \<Rightarrow> (string \<times> string list) option \<times> sign_in_db" where
  "security_key_options lib mo token db =
     (case load lib mo token db of None \<Rightarrow> (None, db) | Some att \<Rightarrow>
      if sa_stage att \<noteq> Challenge then (None, db)
      else let allow = (if mo_down mo DbKeys then []
            else map kr_external_id (sort_key kr_id (filter (\<lambda>w. kr_user w = sa_user_id att) (ad_keys db)))) in
        if allow = [] then (None, db)
        else (Some (mo_challenge mo, allow),
          snd (store lib mo token (att\<lparr>sa_challenge := Some (mo_challenge mo)\<rparr>) db)))"

end
