(* ===== verification/SignInFacts.thy ===== *)
theory SignInFacts
  imports SignIn
begin

text \<open>
  What the steps of a sign-in do to the pending sign-ins, and the runs of sign-in steps with a
  record of what has been shown: which attempts began with a password and which confirmed a new
  authenticator.
\<close>

section \<open>What the parts leave alone\<close>

lemma clear_attempts [simp]: "ad_attempts (clear_second_factor_attempts mo keys u db) = ad_attempts db"
  by (simp add: clear_second_factor_attempts_def)

lemma update_sign_in_attempts [simp]: "ad_attempts (update_sign_in mo u new db) = ad_attempts db"
  by (simp add: update_sign_in_def)

lemma record_login_attempts [simp]: "ad_attempts (record_login mo u m s f db) = ad_attempts db"
  by (simp add: record_login_def)

lemma success_attempts [simp]: "ad_attempts (on_authentication_success lib mo user m ip db) = ad_attempts db"
  by (simp add: on_authentication_success_def Let_def)

lemma notify_failed_attempts [simp]: "ad_attempts (notify_failed_second_factor mo keys user db) = ad_attempts db"
  by (simp add: notify_failed_second_factor_def split: prod.split)

lemma failure_attempts [simp]: "ad_attempts (on_authentication_failure lib mo user m r db) = ad_attempts db"
  by (simp add: on_authentication_failure_def)

lemma update_users_attempts [simp]: "ad_attempts (update_users now i f db) = ad_attempts db"
  by (simp add: update_users_def)

lemma validate_attempts [simp]: "ad_attempts (snd (validate_and_consume_otp tf mo user c s db)) = ad_attempts db"
  by (simp add: validate_and_consume_otp_def Let_def split: option.split)

lemma invalidate_attempts [simp]: "ad_attempts (snd (invalidate_backup_code tf mo user c db)) = ad_attempts db"
  by (simp add: invalidate_backup_code_def split: option.split)

lemma limited_attempts [simp]: "ad_attempts (snd (second_factor_rate_limited mo keys u db)) = ad_attempts db"
  by (simp add: second_factor_rate_limited_def split: prod.split)

lemma enable_attempts [simp]: "ad_attempts (snd (enable tf mo u s db)) = ad_attempts db"
  by (simp add: enable_def split: sum.split prod.split)

lemma notify_attempts [simp]: "ad_attempts (notify_now user k db) = ad_attempts db"
  by (simp add: notify_now_def)

lemma credential_attempts [simp]: "ad_attempts (snd (valid_webauthn_credential lib mo user raw ch db)) = ad_attempts db"
  by (simp add: valid_webauthn_credential_def Let_def split: option.split sum.split)

lemma results_attempts:
  "validate_and_consume_otp tf mo user c s db = (b, db') \<Longrightarrow> ad_attempts db' = ad_attempts db"
  "invalidate_backup_code tf mo user c db = (b, db') \<Longrightarrow> ad_attempts db' = ad_attempts db"
  "second_factor_rate_limited mo keys u db = (b, db') \<Longrightarrow> ad_attempts db' = ad_attempts db"
  "enable tf mo u secret db = (r, db') \<Longrightarrow> ad_attempts db' = ad_attempts db"
  "valid_webauthn_credential lib mo user raw ch db = (b, db') \<Longrightarrow> ad_attempts db' = ad_attempts db"
  using validate_attempts [of tf mo user c s db] invalidate_attempts [of tf mo user c db]
    limited_attempts [of mo keys u db] enable_attempts [of tf mo u secret db]
    credential_attempts [of lib mo user raw ch db]
  by simp_all

section \<open>Attempts come from the steps\<close>

text \<open>Every attempt of the second state is one of the first, or is the given one.\<close>

definition attempts_from :: "sign_in_db \<Rightarrow> sign_in_db \<Rightarrow> (string \<Rightarrow> attempt \<Rightarrow> bool) \<Rightarrow> bool" where
  "attempts_from db db' new \<longleftrightarrow>
     (\<forall>k att e. ad_attempts db' k = Some (att, e) \<longrightarrow> (\<exists>e. ad_attempts db k = Some (att, e)) \<or> new k att)"

lemma attempts_from_same: "ad_attempts db' = ad_attempts db \<Longrightarrow> attempts_from db db' new"
  by (auto simp: attempts_from_def)

lemma attempts_from_discard: "ad_attempts db1 = ad_attempts db \<Longrightarrow> attempts_from db (discard lib mo token db1) new"
  by (auto simp: attempts_from_def discard_def ttl_del_def)

lemma attempts_from_store:
  "ad_attempts db1 = ad_attempts db \<Longrightarrow> new (attempt_key lib token) att \<Longrightarrow>
   attempts_from db (snd (store lib mo token att db1)) new"
  by (auto simp: attempts_from_def store_def ttl_set_ex_def)

lemma load_att: "load lib mo token db = Some att \<Longrightarrow> \<exists>e. ad_attempts db (attempt_key lib token) = Some (att, e)"
  by (auto simp: load_def ttl_get_def live_def split: if_splits option.splits)

lemma tf_load_id: "tf_load mo db i = Inr (Some user) \<Longrightarrow> tf_user_id user = i"
  by (auto simp: tf_load_def two_factor_of_def find_Some_iff split: if_splits option.splits)

lemma begin_setup_attempts:
  "attempts_from db (snd (begin_setup lib mo user c db))
     (\<lambda>k att. k = attempt_key lib (generate_token (mo_token mo)) \<and> sa_user_id att = tf_user_id user \<and> sa_stage att \<noteq> RecoveryCodes)"
  by (auto simp: attempts_from_def begin_setup_def store_def ttl_set_ex_def Let_def split: if_splits)

lemma attempts_from_trans:
  "ad_attempts db1 = ad_attempts db \<Longrightarrow> attempts_from db1 db2 new \<Longrightarrow> attempts_from db db2 new"
  by (simp add: attempts_from_def)

lemma after_password_attempts:
  "attempts_from db (snd (after_password lib mo u c ip db))
     (\<lambda>k att. k = attempt_key lib (generate_token (mo_token mo)) \<and> sa_user_id att = u \<and> sa_stage att \<noteq> RecoveryCodes)"
proof (cases "tf_load mo db u")
  case (Inl e)
  then show ?thesis by (simp add: after_password_def attempts_from_same)
next
  case (Inr found)
  show ?thesis
  proof (cases found)
    case None
    then show ?thesis using Inr by (simp add: after_password_def attempts_from_same)
  next
    case (Some user)
    then have load: "tf_load mo db u = Inr (Some user)" using Inr by simp
    show ?thesis
    proof (cases "tf_enabled user")
      case True
      then show ?thesis using load
        by (auto simp: after_password_def attempts_from_def store_def ttl_set_ex_def Let_def split: if_splits)
    next
      case False
      let ?db = "on_authentication_success lib mo user ''password'' ip db"
      have "attempts_from db (snd (begin_setup lib mo user c ?db))
          (\<lambda>k att. k = attempt_key lib (generate_token (mo_token mo)) \<and> sa_user_id att = u \<and> sa_stage att \<noteq> RecoveryCodes)"
        using begin_setup_attempts [of ?db lib mo user c] tf_load_id [OF load] by (simp add: attempts_from_def)
      then show ?thesis using load False
        by (cases "tf_missing user") (simp_all add: after_password_def Let_def attempts_from_same)
    qed
  qed
qed

lemma security_key_options_attempts:
  "attempts_from db (snd (security_key_options lib mo token db))
     (\<lambda>k att. \<exists>old e. k = attempt_key lib token \<and> ad_attempts db k = Some (old, e) \<and>
        sa_user_id att = sa_user_id old \<and> sa_stage att = Challenge)"
proof (cases "load lib mo token db")
  case None
  then show ?thesis by (simp add: security_key_options_def attempts_from_same)
next
  case (Some att)
  with load_att [OF Some] show ?thesis
    by (auto simp: security_key_options_def Let_def attempts_from_same intro!: attempts_from_store)
qed

section \<open>What has been shown\<close>

text \<open>A code of the authenticator that is being set up.\<close>

definition confirms_setup :: "'k sign_in_lib \<Rightarrow> moment \<Rightarrow> submitted \<Rightarrow> attempt \<Rightarrow> user_two_factor \<Rightarrow> bool" where
  "confirms_setup lib mo form att user \<longleftrightarrow> (case sa_stage att of
      Setup secret \<Rightarrow> secret \<noteq> [] \<and> sa_updated_at att = stamp user \<and>
        verify_totp (sl_two_factor lib) secret (or_empty (sb_setup_otp form)) (unix_seconds mo) (tf_consumed user) \<noteq> None
    | _ \<Rightarrow> False)"

text \<open>The user's second factor: an assertion of a key, a code of the authenticator, a recovery code.\<close>

definition shows_key :: "'k sign_in_lib \<Rightarrow> submitted \<Rightarrow> attempt \<Rightarrow> user_two_factor \<Rightarrow> sign_in_db \<Rightarrow> bool" where
  "shows_key lib form att user db \<longleftrightarrow> (\<exists>challenge credential i row n.
     sa_challenge att = Some challenge \<and>
     wa_json (sl_webauthn lib) (bytes_of (or_empty (sb_credential form))) = Some credential \<and>
     credential_id credential = Inr i \<and>
     row \<in> set (ad_keys db) \<and> kr_user row = tf_user_id user \<and> kr_external_id row = i \<and>
     verify_assertion (sl_webauthn lib) credential challenge (for_domain (sl_domain lib)) (kr_public_key row)
       (kr_sign_count row) = Inr n)"

definition shows_otp :: "'k sign_in_lib \<Rightarrow> moment \<Rightarrow> submitted \<Rightarrow> user_two_factor \<Rightarrow> bool" where
  "shows_otp lib mo form user \<longleftrightarrow> (\<exists>typed sealed secret.
     sb_otp form = Some typed \<and> tf_otp_secret user = Some sealed \<and>
     open_secret (sl_two_factor lib) sealed = Some secret \<and>
     verify_totp (sl_two_factor lib) secret typed (unix_seconds mo) (tf_consumed user) \<noteq> None)"

definition shows_recovery_code :: "'k sign_in_lib \<Rightarrow> submitted \<Rightarrow> user_two_factor \<Rightarrow> bool" where
  "shows_recovery_code lib form user \<longleftrightarrow> (\<exists>typed digest.
     sb_otp form = Some typed \<and> digest \<in> set (tf_backup_codes user) \<and>
     tl_bcrypt_verify (sl_two_factor lib) typed digest)"

definition shows_second_factor :: "'k sign_in_lib \<Rightarrow> moment \<Rightarrow> submitted \<Rightarrow> attempt \<Rightarrow> user_two_factor \<Rightarrow> sign_in_db \<Rightarrow> bool" where
  "shows_second_factor lib mo form att user db \<longleftrightarrow>
     shows_key lib form att user db \<or> shows_otp lib mo form user \<or> shows_recovery_code lib form user"

lemma validate_True:
  "validate_and_consume_otp tf mo user typed secret db = (True, db') \<Longrightarrow>
   \<exists>s. (case secret of Some s \<Rightarrow> Some s | None \<Rightarrow> Option.bind (tf_otp_secret user) (open_secret tf)) = Some s \<and> s \<noteq> [] \<and>
     verify_totp tf s typed (unix_seconds mo) (tf_consumed user) \<noteq> None"
  by (auto simp: validate_and_consume_otp_def Let_def split: option.splits if_splits)

lemma position_Some: "position p xs = Some i \<Longrightarrow> i < length xs \<and> p (xs ! i) \<and> (\<forall>j < i. \<not> p (xs ! j))"
proof (induction xs arbitrary: i)
  case (Cons x xs)
  then show ?case by (auto split: if_splits simp: less_Suc_eq_0_disj)
qed simp

lemma invalidate_True:
  "invalidate_backup_code tf mo user typed db = (True, db') \<Longrightarrow>
   \<exists>digest \<in> set (tf_backup_codes user). tl_bcrypt_verify tf typed digest"
  by (fastforce simp: invalidate_backup_code_def split: option.splits if_splits dest: position_Some nth_mem)

lemma credential_True:
  assumes "valid_webauthn_credential lib mo user (or_empty (sb_credential form)) (sa_challenge att) db = (True, db')"
  shows "shows_key lib form att user db"
  using assms unfolding valid_webauthn_credential_def shows_key_def
  by (auto simp: find_Some_iff Let_def split: option.splits sum.splits if_splits) (metis nth_mem)

lemma continue_setup_never_signs_in: "fst (continue_setup lib mo form token att user secret db) \<noteq> SignedIn u c"
  by (simp add: continue_setup_def Let_def split: prod.split sum.split)

lemma continue_challenge_signs_in:
  assumes "continue_challenge lib mo form token att user ip db = (SignedIn u c, db')"
  shows "u = tf_user_id user \<and> sa_updated_at att = stamp user \<and> shows_second_factor lib mo form att user db"
proof -
  have fresh: "sa_updated_at att = stamp user"
    using assms by (auto simp: continue_challenge_def Let_def split: if_splits)
  show ?thesis
  proof (cases "webauthn_enabled user \<and> or_empty (sb_credential form) \<noteq> []")
    case True
    obtain ok db1 where v: "valid_webauthn_credential lib mo user (or_empty (sb_credential form)) (sa_challenge att) db = (ok, db1)"
      by fastforce
    then have "ok \<and> u = tf_user_id user"
      using assms True fresh by (cases ok) (auto simp: continue_challenge_def Let_def)
    then show ?thesis using credential_True [of lib mo user form att db db1] v fresh by (auto simp: shows_second_factor_def)
  next
    case False
    then obtain typed where typed: "sb_otp form = Some typed"
      using assms fresh by (cases "sb_otp form") (auto simp: continue_challenge_def Let_def)
    obtain limited db1 where l: "second_factor_rate_limited mo (sl_keys lib) (tf_user_id user) db = (limited, db1)" by fastforce
    obtain by_otp db2 where o: "validate_and_consume_otp (sl_two_factor lib) mo user typed None db1 = (by_otp, db2)" by fastforce
    obtain by_code db3 where b: "invalidate_backup_code (sl_two_factor lib) mo user typed db2 = (by_code, db3)" by fastforce
    have "u = tf_user_id user \<and> (by_otp \<or> by_code)"
      using assms False fresh typed l o b
      by (cases limited; cases by_otp; cases by_code) (auto simp: continue_challenge_def Let_def)
    moreover have "by_otp \<Longrightarrow> shows_otp lib mo form user"
      using validate_True [of "sl_two_factor lib" mo user typed None db1 db2] o typed
      by (auto simp: shows_otp_def bind_eq_Some_conv)
    moreover have "by_code \<Longrightarrow> shows_recovery_code lib form user"
      using invalidate_True b typed by (fastforce simp: shows_recovery_code_def)
    ultimately show ?thesis using fresh by (auto simp: shows_second_factor_def)
  qed
qed

lemma continue_setup_attempts:
  assumes "sa_stage att = Setup secret"
  shows "attempts_from db (snd (continue_setup lib mo form token att user secret db))
     (\<lambda>k new. k = attempt_key lib token \<and> sa_user_id new = sa_user_id att \<and>
        (sa_stage new = RecoveryCodes \<longrightarrow> confirms_setup lib mo form att user))"
    (is "attempts_from _ _ ?new")
proof -
  obtain valid db1 where v: "validate_and_consume_otp (sl_two_factor lib) mo user (or_empty (sb_setup_otp form)) (Some secret) db = (valid, db1)"
    by fastforce
  obtain res db2 where e: "enable (sl_two_factor lib) mo (tf_user_id user) secret db1 = (res, db2)" by fastforce
  have same: "ad_attempts db1 = ad_attempts db" "ad_attempts db2 = ad_attempts db"
    using results_attempts(1) [OF v] results_attempts(4) [OF e] by simp_all
  show ?thesis
  proof (cases "sa_updated_at att = stamp user \<and> valid")
    case True
    then have "confirms_setup lib mo form att user"
      using validate_True [of "sl_two_factor lib" mo user _ "Some secret" db db1] v assms by (auto simp: confirms_setup_def)
    then have "attempts_from db (snd (store lib mo token (att\<lparr>sa_stage := RecoveryCodes\<rparr>)
        (notify_now user (Security TwoFactorEnabled) db2))) ?new"
      using same by (intro attempts_from_store) auto
    then show ?thesis using v e same True
      by (cases res) (simp_all add: continue_setup_def Let_def attempts_from_same)
  next
    case False
    then show ?thesis using v same
      by (cases valid) (auto simp: continue_setup_def Let_def attempts_from_same attempts_from_discard)
  qed
qed

lemma continue_challenge_attempts:
  "attempts_from db (snd (continue_challenge lib mo form token att user ip db)) (\<lambda>k new. False)"
proof -
  have same: "attempts_from db (on_authentication_success lib mo user m ip (discard lib mo token db1)) (\<lambda>k new. False)"
    if "ad_attempts db1 = ad_attempts db" for m db1
    using attempts_from_discard [OF that, of lib mo token "\<lambda>k new. False"] by (simp add: attempts_from_def)
  show ?thesis
    unfolding continue_challenge_def Let_def
    by (auto split: prod.split option.split bool.split if_splits
      intro!: attempts_from_discard same dest!: results_attempts) (auto simp: attempts_from_same)
qed

lemma continue_attempt_attempts:
  "attempts_from db (snd (continue_attempt lib mo form fallback ip db))
     (\<lambda>k new. \<exists>old e user. k = attempt_key lib (or_empty (sb_attempt form)) \<and>
        load lib mo (or_empty (sb_attempt form)) db = Some old \<and> ad_attempts db k = Some (old, e) \<and>
        sa_user_id new = sa_user_id old \<and> tf_load mo db (sa_user_id old) = Inr (Some user) \<and>
        (sa_stage new = RecoveryCodes \<longrightarrow> confirms_setup lib mo form old user))"
proof (cases "load lib mo (or_empty (sb_attempt form)) db")
  case None
  then show ?thesis by (simp add: continue_attempt_def Let_def attempts_from_same)
next
  case (Some att)
  then obtain e where e: "ad_attempts db (attempt_key lib (or_empty (sb_attempt form))) = Some (att, e)"
    using load_att by blast
  show ?thesis
  proof (cases "\<exists>user. tf_load mo db (sa_user_id att) = Inr (Some user)")
    case False
    then show ?thesis using Some
      by (auto simp: continue_attempt_def Let_def attempts_from_discard split: sum.split option.split)
  next
    case True
    then obtain user where user: "tf_load mo db (sa_user_id att) = Inr (Some user)" by blast
    show ?thesis
    proof (cases "sa_stage att")
      case Challenge
      then show ?thesis using Some user continue_challenge_attempts [of db lib mo form _ att user ip]
        by (simp add: continue_attempt_def Let_def attempts_from_def)
    next
      case (Setup secret)
      then show ?thesis using Some user e continue_setup_attempts [OF Setup, of db lib mo form "or_empty (sb_attempt form)" user]
        by (simp add: continue_attempt_def Let_def attempts_from_def) blast
    next
      case RecoveryCodes
      then show ?thesis using Some user
        by (simp add: continue_attempt_def Let_def attempts_from_discard attempts_from_same)
    qed
  qed
qed

end
