(* ===== verification/SignInTheorems.thy ===== *)
theory SignInTheorems
  imports SignInFacts
begin

text \<open>
  A web sign-in needs the password and, for whoever has one, the second factor; how often a code
  works; how many may be tried.
\<close>

section \<open>Both factors\<close>

text \<open>
  What can happen to the pending sign-ins, from none: a good password is handed on, a form is
  posted, the options of a security key are asked for, and anything at all happens to the users,
  their keys, roles and counters. \<open>passed\<close> is where a password was good, \<open>confirmed\<close> where a code
  of a new authenticator was.
\<close>

inductive signing :: "'k sign_in_lib \<Rightarrow> (string \<times> int) set \<Rightarrow> (string \<times> int) set \<Rightarrow> sign_in_db \<Rightarrow> bool" for lib where
  signing_start: "ad_attempts db = (\<lambda>_. None) \<Longrightarrow> signing lib {} {} db"
| signing_password: "signing lib passed confirmed db \<Longrightarrow>
    signing lib (insert (attempt_key lib (generate_token (mo_token mo)), u) passed) confirmed
      (snd (after_password lib mo u c ip db))"
| signing_form: "signing lib passed confirmed db \<Longrightarrow>
    confirmed' = confirmed \<union> {(attempt_key lib (or_empty (sb_attempt form)), sa_user_id att) |att user.
      load lib mo (or_empty (sb_attempt form)) db = Some att \<and>
      tf_load mo db (sa_user_id att) = Inr (Some user) \<and> confirms_setup lib mo form att user} \<Longrightarrow>
    signing lib passed confirmed' (snd (continue_attempt lib mo form fallback ip db))"
| signing_options: "signing lib passed confirmed db \<Longrightarrow>
    signing lib passed confirmed (snd (security_key_options lib mo token db))"
| signing_elsewhere: "signing lib passed confirmed db \<Longrightarrow> ad_attempts db' = ad_attempts db \<Longrightarrow>
    signing lib passed confirmed db'"

definition attempts_earned :: "(string \<times> int) set \<Rightarrow> (string \<times> int) set \<Rightarrow> sign_in_db \<Rightarrow> bool" where
  "attempts_earned passed confirmed db \<longleftrightarrow>
     (\<forall>k att e. ad_attempts db k = Some (att, e) \<longrightarrow>
        (k, sa_user_id att) \<in> passed \<and> (sa_stage att = RecoveryCodes \<longrightarrow> (k, sa_user_id att) \<in> confirmed))"

lemma earned_step:
  assumes "attempts_earned passed confirmed db" "attempts_from db db' new"
    and "passed \<subseteq> passed'" "confirmed \<subseteq> confirmed'"
    and "\<And>k att. new k att \<Longrightarrow> (k, sa_user_id att) \<in> passed' \<and> (sa_stage att = RecoveryCodes \<longrightarrow> (k, sa_user_id att) \<in> confirmed')"
  shows "attempts_earned passed' confirmed' db'"
  using assms unfolding attempts_earned_def attempts_from_def by blast

lemma signing_earned: "signing lib passed confirmed db \<Longrightarrow> attempts_earned passed confirmed db"
proof (induction rule: signing.induct)
  case (signing_start db)
  then show ?case by (simp add: attempts_earned_def)
next
  case (signing_password passed confirmed db mo u c ip)
  show ?case
    by (rule earned_step [OF signing_password.IH after_password_attempts]) auto
next
  case (signing_form passed confirmed db confirmed' form mo fallback ip)
  show ?case
  proof (rule earned_step [OF signing_form.IH continue_attempt_attempts])
    fix k att
    assume "\<exists>old e user. k = attempt_key lib (or_empty (sb_attempt form)) \<and>
        load lib mo (or_empty (sb_attempt form)) db = Some old \<and> ad_attempts db k = Some (old, e) \<and>
        sa_user_id att = sa_user_id old \<and> tf_load mo db (sa_user_id old) = Inr (Some user) \<and>
        (sa_stage att = RecoveryCodes \<longrightarrow> confirms_setup lib mo form old user)"
    then obtain old e user where o: "k = attempt_key lib (or_empty (sb_attempt form))"
        "load lib mo (or_empty (sb_attempt form)) db = Some old" "ad_attempts db k = Some (old, e)"
        "sa_user_id att = sa_user_id old" "tf_load mo db (sa_user_id old) = Inr (Some user)"
        "sa_stage att = RecoveryCodes \<Longrightarrow> confirms_setup lib mo form old user" by blast
    show "(k, sa_user_id att) \<in> passed \<and> (sa_stage att = RecoveryCodes \<longrightarrow> (k, sa_user_id att) \<in> confirmed')"
      using signing_form.IH signing_form.hyps o by (auto simp: attempts_earned_def)
  qed (use signing_form.hyps in auto)
next
  case (signing_options passed confirmed db mo token)
  show ?case
    by (rule earned_step [OF signing_options.IH security_key_options_attempts])
      (use signing_options.IH in \<open>auto simp: attempts_earned_def\<close>)
next
  case (signing_elsewhere passed confirmed db db')
  then show ?case by (simp add: attempts_earned_def)
qed

lemma after_password_signs_in:
  "after_password lib mo u c ip db = (SignedIn w c', db') \<Longrightarrow>
   w = u \<and> (\<exists>user. tf_load mo db u = Inr (Some user) \<and> \<not> tf_enabled user \<and> \<not> tf_role_requires user)"
  by (auto simp: after_password_def begin_setup_def tf_missing_def Let_def split: sum.splits option.splits prod.splits if_splits)

lemma continue_attempt_signs_in:
  assumes "continue_attempt lib mo form fallback ip db = (SignedIn w c, db')"
  shows "\<exists>att user. load lib mo (or_empty (sb_attempt form)) db = Some att \<and> sa_user_id att = w \<and>
    tf_load mo db w = Inr (Some user) \<and>
    (sa_stage att = Challenge \<and> sa_updated_at att = stamp user \<and> shows_second_factor lib mo form att user db \<or>
     sa_stage att = RecoveryCodes)"
proof -
  obtain att where att: "load lib mo (or_empty (sb_attempt form)) db = Some att"
    using assms by (cases "load lib mo (or_empty (sb_attempt form)) db") (auto simp: continue_attempt_def)
  obtain user where user: "tf_load mo db (sa_user_id att) = Inr (Some user)"
    using assms att by (auto simp: continue_attempt_def Let_def split: sum.splits option.splits)
  note id = tf_load_id [OF user]
  show ?thesis
  proof (cases "sa_stage att")
    case Challenge
    then have "continue_challenge lib mo form (or_empty (sb_attempt form)) att user ip db = (SignedIn w c, db')"
      using assms att user by (simp add: continue_attempt_def Let_def)
    from continue_challenge_signs_in [OF this] show ?thesis using att user id Challenge by auto
  next
    case (Setup secret)
    then have "fst (continue_setup lib mo form (or_empty (sb_attempt form)) att user secret db) = SignedIn w c"
      using assms att user by (simp add: continue_attempt_def Let_def)
    then show ?thesis using continue_setup_never_signs_in by metis
  next
    case RecoveryCodes
    then have "w = tf_user_id user" using assms att user
      by (auto simp: continue_attempt_def Let_def split: if_splits)
    then show ?thesis using att user id RecoveryCodes by auto
  qed
qed

text \<open>
  C15: Whatever is posted and whatever happens to the tables in between, a sign-in of an account
  ends in a session in one of three ways: its password was just good, it has no second factor and
  its role asks for none; or the form carries on an attempt that began with its password, nothing
  changed since, and it shows the second factor (an assertion by one of the account's keys, a code
  of its authenticator, or one of its recovery codes); or the attempt began with its password and
  confirmed a code of the authenticator it has just set up.
\<close>

theorem sign_in_needs_both_factors:
  assumes "signing lib passed confirmed db"
  shows "(after_password lib mo u c ip db = (SignedIn w c', db') \<longrightarrow>
      w = u \<and> (\<exists>user. tf_load mo db u = Inr (Some user) \<and> \<not> tf_enabled user \<and> \<not> tf_role_requires user)) \<and>
    (continue_attempt lib mo form fallback ip db = (SignedIn w c', db') \<longrightarrow>
      (attempt_key lib (or_empty (sb_attempt form)), w) \<in> passed \<and>
      ((attempt_key lib (or_empty (sb_attempt form)), w) \<in> confirmed \<or>
       (\<exists>att user. load lib mo (or_empty (sb_attempt form)) db = Some att \<and> sa_user_id att = w \<and>
          tf_load mo db w = Inr (Some user) \<and> sa_updated_at att = stamp user \<and>
          shows_second_factor lib mo form att user db)))"
proof (intro conjI [OF impI impI])
  assume "after_password lib mo u c ip db = (SignedIn w c', db')"
  then show "w = u \<and> (\<exists>user. tf_load mo db u = Inr (Some user) \<and> \<not> tf_enabled user \<and> \<not> tf_role_requires user)"
    by (rule after_password_signs_in)
next
  assume "continue_attempt lib mo form fallback ip db = (SignedIn w c', db')"
  from continue_attempt_signs_in [OF this] signing_earned [OF assms]
  show "(attempt_key lib (or_empty (sb_attempt form)), w) \<in> passed \<and>
      ((attempt_key lib (or_empty (sb_attempt form)), w) \<in> confirmed \<or>
       (\<exists>att user. load lib mo (or_empty (sb_attempt form)) db = Some att \<and> sa_user_id att = w \<and>
          tf_load mo db w = Inr (Some user) \<and> sa_updated_at att = stamp user \<and>
          shows_second_factor lib mo form att user db))"
    unfolding attempts_earned_def by (blast dest: load_att)
qed

text \<open>An account whose authenticator cannot be read and that has one recovery code.\<close>

definition sample_two_factor :: two_factor_lib where
  "sample_two_factor = \<lparr>tl_hmac_sha1 = \<lambda>k m. replicate 20 0, tl_bcrypt_verify = (=), tl_bcrypt_hash = Some,
     tl_encryptor = None, tl_base32 = \<lambda>_. [], tl_hex = \<lambda>_. []\<rparr>"

definition sample_webauthn :: "unit wa_lib" where
  "sample_webauthn = \<lparr>wa_crypto = \<lparr>ec_point = \<lambda>_ _. None, verify_pkcs1 = \<lambda>_ _ _ _. False, verify_ecdsa = \<lambda>_ _ _ _. False\<rparr>,
     wa_verify_pss = \<lambda>_ _ _ _. False, wa_verify_raw_or_der = \<lambda>_ _ _ _. False, wa_encode = \<lambda>_. [],
     wa_decode = \<lambda>_. None, wa_json = \<lambda>_. None, wa_sha256 = \<lambda>_. []\<rparr>"

definition sample_lib :: "unit sign_in_lib" where
  "sample_lib = \<lparr>sl_two_factor = sample_two_factor, sl_webauthn = sample_webauthn, sl_near = \<lambda>_ _. True,
     sl_keys = \<lparr>ks_prefix = []\<rparr>, sl_domain = ''keys.example''\<rparr>"

definition sample_moment :: moment where
  "sample_moment = \<lparr>mo_now = 5, mo_down = \<lambda>_. False, mo_token = [171], mo_secret = [], mo_codes = [], mo_challenge = []\<rparr>"

definition sample_tf_user :: tf_user_row where
  "sample_tf_user = \<lparr>tu_id = 1, tu_account = 2, tu_email = ''a'', tu_otp_required = True, tu_otp_secret = Some ''x'',
     tu_backup_codes = Some [''c0de'', ''beef''], tu_consumed = None, tu_updated_at = 3, tu_role = None, tu_time_zone = None,
     tu_confirmed = True, tu_current_sign_in = None, tu_last_sign_in = None, tu_sign_in_count = 0, tu_password = [], tu_disabled = False\<rparr>"

definition sample_auth_db :: sign_in_db where
  "sample_auth_db = \<lparr>ad_users = [sample_tf_user], ad_accounts = [(2, False)], ad_roles = [], ad_keys = [], ad_logins = [],
     ad_mails = [], ad_counters = \<lambda>_. None, ad_notified = \<lambda>_. None, ad_attempts = \<lambda>_. None\<rparr>"

definition sample_form :: submitted where
  "sample_form = \<lparr>sb_attempt = Some ''ab'', sb_otp = Some ''c0de'', sb_credential = None, sb_setup_otp = None, sb_resume = None\<rparr>"

lemmas sign_in_samples = sample_two_factor_def sample_lib_def sample_moment_def sample_tf_user_def sample_auth_db_def sample_form_def

lemmas sign_in_eval = tf_load_def two_factor_of_def tf_enabled_def otp_enabled_def webauthn_enabled_def store_def
  ttl_set_ex_def attempt_key_def ks_key_def load_def is_hex_digit_def is_digit_def
  code_def ttl_get_def live_def seconds_def ATTEMPT_TTL_SECONDS_def stamp_def or_empty_def Let_def

lemma sample_token: "generate_token [171] = ''ab''"
  by code_simp

lemma sample_after_password:
  "ad_attempts (snd (after_password sample_lib sample_moment 1 AccountPages None sample_auth_db)) =
     [''sign_in_attempt:ab'' \<mapsto> (\<lparr>sa_user_id = 1, sa_updated_at = dec 3, sa_stage = Challenge, sa_challenge = None,
        sa_continuation = AccountPages\<rparr>, Some (5 + seconds 3600))] \<and>
   snd (after_password sample_lib sample_moment 1 AccountPages None sample_auth_db) =
     sample_auth_db\<lparr>ad_attempts := ad_attempts (snd (after_password sample_lib sample_moment 1 AccountPages None sample_auth_db))\<rparr>"
  by (simp add: after_password_def sign_in_samples sign_in_eval sample_token)

lemma sample_continue:
  "fst (continue_attempt sample_lib sample_moment sample_form AccountPages None
     (snd (after_password sample_lib sample_moment 1 AccountPages None sample_auth_db))) = SignedIn 1 AccountPages"
proof -
  obtain db where db: "snd (after_password sample_lib sample_moment 1 AccountPages None sample_auth_db) = db"
    and attempts: "ad_attempts db = [''sign_in_attempt:ab'' \<mapsto> (\<lparr>sa_user_id = 1, sa_updated_at = dec 3, sa_stage = Challenge,
        sa_challenge = None, sa_continuation = AccountPages\<rparr>, Some (5 + seconds 3600))]"
    and rest: "db = sample_auth_db\<lparr>ad_attempts := ad_attempts db\<rparr>"
    using sample_after_password by blast
  have att: "load sample_lib sample_moment ''ab'' db =
      Some \<lparr>sa_user_id = 1, sa_updated_at = dec 3, sa_stage = Challenge, sa_challenge = None, sa_continuation = AccountPages\<rparr>"
    by (simp add: load_def attempts sign_in_samples sign_in_eval)
  have user: "tf_load sample_moment db 1 = Inr (Some (two_factor_of db sample_tf_user False))"
    by (subst (1 2) rest) (simp add: tf_load_def sample_moment_def sample_auth_db_def sample_tf_user_def two_factor_of_def)
  let ?att = "\<lparr>sa_user_id = 1, sa_updated_at = dec 3, sa_stage = Challenge, sa_challenge = None, sa_continuation = AccountPages\<rparr>"
  have step: "continue_attempt sample_lib sample_moment sample_form AccountPages None db =
      continue_challenge sample_lib sample_moment sample_form ''ab'' ?att (two_factor_of db sample_tf_user False) None db"
    using att user by (simp add: continue_attempt_def sample_form_def or_empty_def Let_def)
  have parts: "ad_keys db = []" "ad_roles db = []" "ad_counters db = (\<lambda>_. None)"
    by (subst rest, simp add: sample_auth_db_def)+
  define user where "user = two_factor_of db sample_tf_user False"
  have u: "stamp user = dec 3" "\<not> webauthn_enabled user" "tf_otp_secret user = Some ''x''"
      "tf_backup_codes user = [''c0de'', ''beef'']" "tf_user_id user = 1"
    by (simp_all add: user_def two_factor_of_def sample_tf_user_def stamp_def webauthn_enabled_def parts)
  obtain db1 where limited: "second_factor_rate_limited sample_moment (sl_keys sample_lib) 1 db = (False, db1)"
    by (simp add: second_factor_rate_limited_def ttl_incr_def live_def parts sample_moment_def MAX_2FA_ATTEMPTS_PER_HOUR_def)
  have otp: "validate_and_consume_otp (sl_two_factor sample_lib) sample_moment user ''c0de'' None db1 = (False, db1)"
    by (simp add: validate_and_consume_otp_def u open_secret_def sample_lib_def sample_two_factor_def)
  obtain db3 where code: "invalidate_backup_code (sl_two_factor sample_lib) sample_moment user ''c0de'' db1 = (True, db3)"
    by (simp add: invalidate_backup_code_def u sample_lib_def sample_two_factor_def sample_moment_def)
  show ?thesis
    unfolding db step user_def [symmetric]
    by (simp add: continue_challenge_def Let_def u limited otp code sample_form_def or_empty_def)
qed

lemma sign_in_needs_both_factors_witness:
  "(''sign_in_attempt:ab'', 1) \<in> {(attempt_key sample_lib (generate_token (mo_token sample_moment)), 1)} \<and>
   (\<exists>db. signing sample_lib {(attempt_key sample_lib (generate_token (mo_token sample_moment)), 1)} {} db \<and>
      (\<exists>att user. load sample_lib sample_moment ''ab'' db = Some att \<and>
         shows_second_factor sample_lib sample_moment sample_form att user db))"
proof -
  let ?db = "snd (after_password sample_lib sample_moment 1 AccountPages None sample_auth_db)"
  have key: "attempt_key sample_lib (generate_token (mo_token sample_moment)) = ''sign_in_attempt:ab''"
    by (simp add: attempt_key_def sample_lib_def ks_key_def sample_moment_def sample_token)
  have run: "signing sample_lib {(attempt_key sample_lib (generate_token (mo_token sample_moment)), 1)} {} ?db"
    by (rule signing_password [OF signing_start]) (simp add: sample_auth_db_def)
  obtain db' where c: "continue_attempt sample_lib sample_moment sample_form AccountPages None ?db = (SignedIn 1 AccountPages, db')"
    using sample_continue by (metis prod.collapse)
  have form: "or_empty (sb_attempt sample_form) = ''ab''" by (simp add: sample_form_def or_empty_def)
  have "\<exists>att user. load sample_lib sample_moment ''ab'' ?db = Some att \<and>
      shows_second_factor sample_lib sample_moment sample_form att user ?db"
    using sign_in_needs_both_factors [OF run, THEN conjunct2, THEN mp, OF c, unfolded form] by auto
  then show ?thesis using run key by auto
qed

end
