(* ===== verification/TwoFactorTheorems.thy ===== *)
theory TwoFactorTheorems
  imports SignInTheorems
begin

text \<open>
  How often a code of an authenticator and a recovery code work, and how many may be tried.
\<close>

section \<open>Codes of the authenticator\<close>

text \<open>
  Codes tried one after the other on an account, each on what the last left: of those that were
  good, the time step it was and the step the code was of.
\<close>

fun otp_run :: "two_factor_lib \<Rightarrow> int \<Rightarrow> (moment \<times> string) list \<Rightarrow> 'z auth_db_scheme \<Rightarrow> (int \<times> int) list" where
  "otp_run lib u [] db = []"
| "otp_run lib u ((mo, typed) # rest) db =
     (case tf_load mo db u of
        Inr (Some user) \<Rightarrow>
          (case validate_and_consume_otp lib mo user typed None db of
             (True, db') \<Rightarrow> (timestep (unix_seconds mo),
               the (verify_totp lib (the (Option.bind (tf_otp_secret user) (open_secret lib))) typed (unix_seconds mo)
                 (tf_consumed user))) # otp_run lib u rest db'
           | (False, db') \<Rightarrow> otp_run lib u rest db')
      | _ \<Rightarrow> otp_run lib u rest db)"

definition consumed_of :: "'z auth_db_scheme \<Rightarrow> int \<Rightarrow> int option" where
  "consumed_of db u = Option.bind (find (\<lambda>r. tu_id r = u) (ad_users db)) tu_consumed"

lemma as_i32_small: "0 \<le> n \<Longrightarrow> n < 2 ^ 31 \<Longrightarrow> as_i32 n = n"
  unfolding as_i32_def by transfer (simp add: signed_take_bit_int_eq_self)

lemma tf_load_consumed: "tf_load mo db u = Inr (Some user) \<Longrightarrow> tf_consumed user = consumed_of db u"
  by (auto simp: tf_load_def two_factor_of_def consumed_of_def split: if_splits option.splits)

lemma consumed_update:
  "find (\<lambda>r. tu_id r = u) (ad_users db) \<noteq> None \<Longrightarrow>
   consumed_of (update_users now u (\<lambda>r. r\<lparr>tu_consumed := Some n\<rparr>) db) u = Some n"
proof -
  assume "find (\<lambda>r. tu_id r = u) (ad_users db) \<noteq> None"
  then obtain r where r: "find (\<lambda>r. tu_id r = u) (ad_users db) = Some r" by blast
  then have "tu_id r = u" by (auto simp: find_Some_iff)
  then show ?thesis using r by (simp add: consumed_of_def update_users_def find_map_keep)
qed

lemma verify_totp_after:
  "verify_totp lib s typed now after = Some m \<Longrightarrow> (case after of None \<Rightarrow> True | Some c \<Rightarrow> c < m) \<and>
     m \<le> timestep (now + OTP_ALLOWED_DRIFT) \<and> timestep (now - OTP_ALLOWED_DRIFT) \<le> m"
proof -
  assume "verify_totp lib s typed now after = Some m"
  then have "\<exists>key. find (\<lambda>step. constant_time_eq (as_bytes_of (hotp lib key (word_of_int step)))
        (as_bytes_of (filter (\<lambda>c. \<not> is_space c) typed)))
      (filter (\<lambda>step. case after of None \<Rightarrow> True | Some after \<Rightarrow> step > after)
        [timestep (now - OTP_ALLOWED_DRIFT)..timestep (now + OTP_ALLOWED_DRIFT)]) = Some m"
    by (auto simp: verify_totp_def Let_def bind_eq_Some_conv split: if_splits)
  then have "m \<in> set (filter (\<lambda>step. case after of None \<Rightarrow> True | Some after \<Rightarrow> step > after)
        [timestep (now - OTP_ALLOWED_DRIFT)..timestep (now + OTP_ALLOWED_DRIFT)])"
    by (auto simp: find_Some_iff simp del: set_filter)
  then show ?thesis by (auto split: option.splits)
qed

text \<open>A code that is taken: its step is recorded.\<close>

lemma validate_taken:
  assumes "tf_load mo db u = Inr (Some user)" "validate_and_consume_otp lib mo user typed None db = (True, db')"
    and "0 \<le> timestep (unix_seconds mo)" "timestep (unix_seconds mo) < 2 ^ 31"
  shows "consumed_of db' u = Some (timestep (unix_seconds mo))"
    and "consumed_of db u \<noteq> Some (timestep (unix_seconds mo))"
    and "\<exists>s m. Option.bind (tf_otp_secret user) (open_secret lib) = Some s \<and>
      verify_totp lib s typed (unix_seconds mo) (consumed_of db u) = Some m"
proof -
  obtain s m where s: "Option.bind (tf_otp_secret user) (open_secret lib) = Some s"
    "verify_totp lib s typed (unix_seconds mo) (tf_consumed user) = Some m"
    using validate_True [OF assms(2)] by auto
  have db': "tf_consumed user \<noteq> Some (timestep (unix_seconds mo))"
    "db' = update_users (mo_now mo) (tf_user_id user) (\<lambda>r. r\<lparr>tu_consumed := Some (timestep (unix_seconds mo))\<rparr>) db"
    using assms(2) s as_i32_small [OF assms(3,4)]
    by (auto simp: validate_and_consume_otp_def Let_def split: if_splits)
  have "find (\<lambda>r. tu_id r = u) (ad_users db) \<noteq> None"
    using assms(1) by (auto simp: tf_load_def split: if_splits option.splits)
  then show "consumed_of db' u = Some (timestep (unix_seconds mo))"
    using db'(2) tf_load_id [OF assms(1)] consumed_update by simp
  show "consumed_of db u \<noteq> Some (timestep (unix_seconds mo))"
    using db'(1) tf_load_consumed [OF assms(1)] by simp
  show "\<exists>s m. Option.bind (tf_otp_secret user) (open_secret lib) = Some s \<and>
      verify_totp lib s typed (unix_seconds mo) (consumed_of db u) = Some m"
    using s tf_load_consumed [OF assms(1)] by auto
qed

lemma validate_refused: "validate_and_consume_otp lib mo user typed secret db = (False, db') \<Longrightarrow> db' = db"
  by (auto simp: validate_and_consume_otp_def Let_def split: option.splits if_splits)

definition step_times :: "(moment \<times> string) list \<Rightarrow> int list" where
  "step_times tries = map (\<lambda>x. timestep (unix_seconds (fst x))) tries"

lemma otp_run_Cons:
  fixes db :: "'z auth_db_scheme"
  assumes "0 \<le> timestep (unix_seconds mo)" "timestep (unix_seconds mo) < 2 ^ 31"
  shows "(\<exists>m (db' :: 'z auth_db_scheme). otp_run lib u ((mo, typed) # rest) db = (timestep (unix_seconds mo), m) # otp_run lib u rest db' \<and>
      consumed_of db' u = Some (timestep (unix_seconds mo)) \<and>
      consumed_of db u \<noteq> Some (timestep (unix_seconds mo)) \<and>
      (\<forall>c. consumed_of db u = Some c \<longrightarrow> c < m)) \<or>
    otp_run lib u ((mo, typed) # rest) db = otp_run lib u rest db"
proof (cases "tf_load mo db u")
  case (Inr found)
  show ?thesis
  proof (cases found)
    case (Some user)
    then have load: "tf_load mo db u = Inr (Some user)" using Inr by simp
    obtain ok db' where v: "validate_and_consume_otp lib mo user typed None db = (ok, db')" by fastforce
    show ?thesis
    proof (cases ok)
      case True
      then have taken: "validate_and_consume_otp lib mo user typed None db = (True, db')" using v by simp
      note t = validate_taken [OF load taken assms]
      obtain s m where s: "Option.bind (tf_otp_secret user) (open_secret lib) = Some s"
          "verify_totp lib s typed (unix_seconds mo) (consumed_of db u) = Some m"
        using t(3) by blast
      have "\<forall>c. consumed_of db u = Some c \<longrightarrow> c < m" using verify_totp_after [OF s(2)] by auto
      then show ?thesis using load taken s t(1,2) tf_load_consumed [OF load]
        by (intro disjI1 exI [of _ m] exI [of _ db']) simp
    next
      case False
      then show ?thesis using load v validate_refused [of lib mo user typed None db db'] by auto
    qed
  qed (simp add: Inr)
qed simp

lemma otp_run_later:
  fixes db :: "'z auth_db_scheme"
  assumes "list_all (\<lambda>t. 0 \<le> t \<and> t < 2 ^ 31) (step_times tries)" "sorted (step_times tries)"
    and "consumed_of db u = Some c" "\<forall>t \<in> set (step_times tries). c \<le> t"
  shows "\<forall>(t, m) \<in> set (otp_run lib u tries db). c < t \<and> c < m"
  using assms
proof (induction tries arbitrary: db c)
  case (Cons x rest)
  obtain mo typed where x: "x = (mo, typed)" by fastforce
  let ?t = "timestep (unix_seconds mo)"
  have ih: "\<forall>(t, m) \<in> set (otp_run lib u rest db'). d < t \<and> d < m"
    if "consumed_of db' u = Some d" "\<forall>t \<in> set (step_times rest). d \<le> t" for db' :: "'z auth_db_scheme" and d
    by (rule Cons.IH [OF _ _ that]) (use Cons.prems x in \<open>simp_all add: step_times_def\<close>)
  have range: "0 \<le> ?t" "?t < 2 ^ 31" using Cons.prems x by (simp_all add: step_times_def)
  from otp_run_Cons [OF range, of lib u typed rest db] show ?case
  proof (elim disjE exE conjE)
    fix m and db' :: "'z auth_db_scheme"
    assume run: "otp_run lib u ((mo, typed) # rest) db = (?t, m) # otp_run lib u rest db'"
      and c': "consumed_of db' u = Some ?t" "consumed_of db u \<noteq> Some ?t" "\<forall>c. consumed_of db u = Some c \<longrightarrow> c < m"
    have "\<forall>t \<in> set (step_times rest). ?t \<le> t" using Cons.prems x by (simp add: step_times_def)
    from ih [OF c'(1) this] run c' Cons.prems x show ?case by (force simp: step_times_def)
  next
    assume "otp_run lib u ((mo, typed) # rest) db = otp_run lib u rest db"
    then show ?case using ih [of db c] Cons.prems x by (simp add: step_times_def)
  qed
qed simp

text \<open>
  C18: Of the codes tried one after the other on an account, at most one is taken in a time step of
  thirty seconds, and once one is taken no code of that step or an earlier one is ever taken
  again.
\<close>

theorem codes_are_taken_in_order:
  fixes db :: "'z auth_db_scheme"
  assumes "sorted (step_times tries)" "list_all (\<lambda>t. 0 \<le> t \<and> t < 2 ^ 31) (step_times tries)"
  shows "sorted_wrt (\<lambda>(t, m) (t', m'). t < t' \<and> t < m') (otp_run lib u tries db)"
  using assms
proof (induction tries arbitrary: db)
  case (Cons x rest)
  obtain mo typed where x: "x = (mo, typed)" by fastforce
  let ?t = "timestep (unix_seconds mo)"
  have range: "0 \<le> ?t" "?t < 2 ^ 31" using Cons.prems x by (simp_all add: step_times_def)
  from otp_run_Cons [OF range, of lib u typed rest db] show ?case
  proof (elim disjE exE conjE)
    fix m and db' :: "'z auth_db_scheme"
    assume run: "otp_run lib u ((mo, typed) # rest) db = (?t, m) # otp_run lib u rest db'"
      and c': "consumed_of db' u = Some ?t"
    have "\<forall>(t, m) \<in> set (otp_run lib u rest db'). ?t < t \<and> ?t < m"
      by (rule otp_run_later [OF _ _ c']) (use Cons.prems x in \<open>simp_all add: step_times_def\<close>)
    then show ?case using run x Cons.IH [of db'] Cons.prems by (auto simp: step_times_def)
  next
    assume "otp_run lib u ((mo, typed) # rest) db = otp_run lib u rest db"
    then show ?case using x Cons.IH [of db] Cons.prems by (simp add: step_times_def)
  qed
qed simp

text \<open>An authenticator whose every code is six zeros.\<close>

definition zeros_lib :: two_factor_lib where
  "zeros_lib = sample_two_factor\<lparr>tl_encryptor := Some (Some, Some)\<rparr>"

definition zeros_db :: auth_db where
  "zeros_db = \<lparr>ad_users = [sample_tf_user\<lparr>tu_otp_secret := Some ''A''\<rparr>], ad_accounts = [(2, False)], ad_roles = [],
     ad_keys = [], ad_logins = [], ad_mails = [], ad_counters = \<lambda>_. None, ad_notified = \<lambda>_. None\<rparr>"

lemma fold_or_zero: "fold (\<lambda>(x, y) acc. acc OR (x XOR y)) xs acc = (0 :: byte) \<longleftrightarrow>
    acc = 0 \<and> (\<forall>(x, y) \<in> set xs. x = y)"
proof (induction xs arbitrary: acc)
  case (Cons p xs)
  obtain x y where p: "p = (x, y)" by fastforce
  have "acc OR (x XOR y) = 0 \<longleftrightarrow> acc = 0 \<and> x = y"
    by (auto simp: bit_eq_iff bit_simps)
  then show ?case using Cons p by auto
qed simp

lemma constant_time_eq_iff: "constant_time_eq a b \<longleftrightarrow> a = b"
proof -
  have "length a = length b \<Longrightarrow> (\<forall>(x, y) \<in> set (zip a b). x = y) \<longleftrightarrow> a = b"
    by (auto simp: list_eq_iff_zip_eq)
  then show ?thesis by (auto simp: constant_time_eq_def fold_or_zero)
qed

lemma zero_padded_digits: "list_all is_digit (zero_padded w n) \<and> zero_padded w n \<noteq> []"
  using dec_nat_digits [of n] by (auto simp: zero_padded_def list_all_iff is_digit_def code_def)

lemma hotp_digits: "list_all is_digit (hotp lib key counter) \<and> hotp lib key counter \<noteq> []"
  unfolding hotp_def Let_def by (rule zero_padded_digits)

lemma filter_hotp: "filter (\<lambda>c. \<not> is_space c) (hotp lib key counter) = hotp lib key counter"
  using hotp_digits [of lib key counter]
  by (auto simp: filter_id_conv list_all_iff is_digit_def is_space_def)

text \<open>The code of a step is good in the steps around it that come after the one consumed.\<close>

lemma verify_totp_code:
  assumes "decode_secret s = Some key" "timestep (now - OTP_ALLOWED_DRIFT) \<le> k" "k \<le> timestep (now + OTP_ALLOWED_DRIFT)"
    and "case after of None \<Rightarrow> True | Some c \<Rightarrow> c < k"
  shows "verify_totp lib s (hotp lib key (word_of_int k)) now after \<noteq> None"
proof -
  have "k \<in> set (filter (\<lambda>step. case after of None \<Rightarrow> True | Some after \<Rightarrow> step > after)
        [timestep (now - OTP_ALLOWED_DRIFT)..timestep (now + OTP_ALLOWED_DRIFT)])"
    using assms by (auto split: option.splits)
  then have "find (\<lambda>step. constant_time_eq (as_bytes_of (hotp lib key (word_of_int step)))
        (as_bytes_of (hotp lib key (word_of_int k))))
      (filter (\<lambda>step. case after of None \<Rightarrow> True | Some after \<Rightarrow> step > after)
        [timestep (now - OTP_ALLOWED_DRIFT)..timestep (now + OTP_ALLOWED_DRIFT)]) \<noteq> None"
    by (auto simp: find_None_iff constant_time_eq_iff simp del: set_filter)
  then show ?thesis using assms(1) hotp_digits by (simp add: verify_totp_def filter_hotp)
qed

lemma timestep_drift: "timestep (n - OTP_ALLOWED_DRIFT) = timestep n - 1" "timestep (n + OTP_ALLOWED_DRIFT) = timestep n + 1"
  by (simp_all add: timestep_def OTP_ALLOWED_DRIFT_def OTP_INTERVAL_def)

lemma validate_succeeds:
  assumes "Option.bind (tf_otp_secret user) (open_secret lib) = Some s" "s \<noteq> []"
    and "verify_totp lib s typed (unix_seconds mo) (tf_consumed user) \<noteq> None"
    and "0 \<le> timestep (unix_seconds mo)" "timestep (unix_seconds mo) < 2 ^ 31"
    and "tf_consumed user \<noteq> Some (timestep (unix_seconds mo))" "\<not> mo_down mo DbConsume"
  shows "validate_and_consume_otp lib mo user typed None db =
     (True, update_users (mo_now mo) (tf_user_id user) (\<lambda>r. r\<lparr>tu_consumed := Some (timestep (unix_seconds mo))\<rparr>) db)"
  using assms by (auto simp: validate_and_consume_otp_def Let_def as_i32_small split: if_splits)

lemma tf_load_update:
  assumes "tf_load mo db u = Inr (Some user)" "\<not> mo_down mo' DbLoad"
  shows "\<exists>user'. tf_load mo' (update_users now u (\<lambda>r. r\<lparr>tu_consumed := Some n\<rparr>) db) u = Inr (Some user') \<and>
    tf_otp_secret user' = tf_otp_secret user \<and> tf_consumed user' = Some n \<and> tf_user_id user' = u"
proof -
  obtain r m where r: "find (\<lambda>r. tu_id r = u) (ad_users db) = Some r" "map_of (ad_accounts db) (tu_account r) = Some m"
      "user = two_factor_of db r m"
    using assms(1) by (auto simp: tf_load_def split: if_splits option.splits)
  then have "tu_id r = u" by (auto simp: find_Some_iff)
  then show ?thesis using r assms(2)
    by (simp add: tf_load_def update_users_def find_map_keep two_factor_of_def)
qed

text \<open>
  C23: A code is taken twice when it is used early. A code of the step to come is taken in this step
  and, as only this step is recorded, again in its own: \<^verbatim>\<open>validate_and_consume_otp\<close> does not
  keep its promise that a good code cannot be used twice.
\<close>

theorem early_code_is_taken_twice:
  assumes "tf_load mo1 db u = Inr (Some user)" "Option.bind (tf_otp_secret user) (open_secret lib) = Some s" "s \<noteq> []"
    and "decode_secret s = Some key"
    and "timestep (unix_seconds mo1) = k" "timestep (unix_seconds mo2) = k + 1" "0 \<le> k" "k + 1 < 2 ^ 31"
    and "case tf_consumed user of None \<Rightarrow> True | Some c \<Rightarrow> c < k"
    and "\<not> mo_down mo1 DbConsume" "\<not> mo_down mo2 DbLoad" "\<not> mo_down mo2 DbConsume"
  shows "map fst (otp_run lib u [(mo1, hotp lib key (word_of_int (k + 1))), (mo2, hotp lib key (word_of_int (k + 1)))] db) = [k, k + 1]"
proof -
  let ?typed = "hotp lib key (word_of_int (k + 1))"
  have user: "tf_user_id user = u" using tf_load_id [OF assms(1)] .
  have "verify_totp lib s ?typed (unix_seconds mo1) (tf_consumed user) \<noteq> None"
    by (rule verify_totp_code [OF assms(4)]) (use assms in \<open>auto simp: timestep_drift split: option.splits\<close>)
  moreover have "tf_consumed user \<noteq> Some k" using assms(9) by (auto split: option.splits)
  ultimately have first: "validate_and_consume_otp lib mo1 user ?typed None db =
     (True, update_users (mo_now mo1) u (\<lambda>r. r\<lparr>tu_consumed := Some k\<rparr>) db)"
    using validate_succeeds [OF assms(2,3), of ?typed mo1 db] assms user by auto
  obtain user' where u': "tf_load mo2 (update_users (mo_now mo1) u (\<lambda>r. r\<lparr>tu_consumed := Some k\<rparr>) db) u = Inr (Some user')"
      "tf_otp_secret user' = tf_otp_secret user" "tf_consumed user' = Some k" "tf_user_id user' = u"
    using tf_load_update [OF assms(1,11), of "mo_now mo1" k] by blast
  have "verify_totp lib s ?typed (unix_seconds mo2) (tf_consumed user') \<noteq> None"
    by (rule verify_totp_code [OF assms(4)]) (use assms u' in \<open>auto simp: timestep_drift\<close>)
  then have "\<exists>db'. validate_and_consume_otp lib mo2 user' ?typed None
      (update_users (mo_now mo1) u (\<lambda>r. r\<lparr>tu_consumed := Some k\<rparr>) db) = (True, db')"
    using validate_succeeds [of user' lib s ?typed mo2] assms u' by auto
  then show ?thesis using assms(1,5,6) first u'(1) by auto
qed

lemma codes_are_taken_in_order_witness:
  "sorted_wrt (\<lambda>(t, m) (t', m'). t < t' \<and> t < m')
     (otp_run zeros_lib 1 [(sample_moment, hotp zeros_lib [] 1), (sample_moment\<lparr>mo_now := 40000000\<rparr>, hotp zeros_lib [] 1)] zeros_db)"
  by (rule codes_are_taken_in_order)
    (simp_all add: step_times_def sample_moment_def unix_seconds_def timestep_def OTP_INTERVAL_def)

lemma early_code_is_taken_twice_witness:
  "map fst (otp_run zeros_lib 1
     [(sample_moment, hotp zeros_lib [] (word_of_int (0 + 1))), (sample_moment\<lparr>mo_now := 40000000\<rparr>, hotp zeros_lib [] (word_of_int (0 + 1)))]
     zeros_db) = [0, 0 + 1]"
proof (rule early_code_is_taken_twice)
  show "tf_load sample_moment zeros_db 1 = Inr (Some (two_factor_of zeros_db (sample_tf_user\<lparr>tu_otp_secret := Some ''A''\<rparr>) False))"
    by (simp add: tf_load_def zeros_db_def sample_moment_def sample_tf_user_def)
  show "decode_secret ''A'' = Some []" by code_simp
qed (simp_all add: two_factor_of_def sample_tf_user_def open_secret_def zeros_lib_def sample_two_factor_def
  sample_moment_def unix_seconds_def timestep_def OTP_INTERVAL_def)

section \<open>Recovery codes\<close>

lemma remove_at_keeps: "i < length xs \<Longrightarrow> i \<noteq> j \<Longrightarrow> xs ! i \<in> set (remove_at j xs)"
proof (cases "i < j")
  case True
  assume "i < length xs"
  with True have "take j xs ! i = xs ! i" "i < length (take j xs)" by simp_all
  then show ?thesis unfolding remove_at_def by (metis Un_iff nth_mem set_append)
next
  case False
  assume "i < length xs" "i \<noteq> j"
  with False have "drop (j + 1) xs ! (i - (j + 1)) = xs ! i" "i - (j + 1) < length (drop (j + 1) xs)" by simp_all
  then show ?thesis unfolding remove_at_def by (metis Un_iff nth_mem set_append)
qed

lemma set_remove_at: "j < length xs \<Longrightarrow> set xs = insert (xs ! j) (set (remove_at j xs))"
  by (metis Un_insert_right add.commute id_take_nth_drop list.simps(15) plus_1_eq_Suc remove_at_def set_append)

lemma remove_at_index:
  assumes "d \<in> set (remove_at i xs)"
  shows "\<exists>j. j < length xs \<and> j \<noteq> i \<and> xs ! j = d"
proof -
  consider "d \<in> set (take i xs)" | "d \<in> set (drop (i + 1) xs)" using assms by (auto simp: remove_at_def)
  then show ?thesis
  proof cases
    case 1
    then obtain j where "j < length (take i xs)" "take i xs ! j = d" by (auto simp: in_set_conv_nth)
    then show ?thesis by (intro exI [of _ j]) simp
  next
    case 2
    then obtain j where "j < length (drop (i + 1) xs)" "drop (i + 1) xs ! j = d" unfolding in_set_conv_nth by blast
    then show ?thesis by (intro exI [of _ "i + 1 + j"]) simp
  qed
qed

lemma position_None: "position p xs = None \<longleftrightarrow> (\<forall>x \<in> set xs. \<not> p x)"
  by (induction xs) auto

lemma invalidate_TrueD:
  assumes "invalidate_backup_code lib mo user given db = (True, db')"
  shows "\<exists>i. position (tl_bcrypt_verify lib given) (tf_backup_codes user) = Some i \<and>
    db' = update_users (mo_now mo) (tf_user_id user) (\<lambda>r. r\<lparr>tu_backup_codes := Some (remove_at i (tf_backup_codes user))\<rparr>) db"
  using assms by (auto simp: invalidate_backup_code_def split: if_splits option.splits)

text \<open>The recovery codes an account has after one was used, when it is read again.\<close>

lemma codes_left:
  assumes "tf_load mo db u = Inr (Some user)"
    and "tf_load mo' (update_users now u (\<lambda>r. r\<lparr>tu_backup_codes := Some codes\<rparr>) db) u = Inr (Some user')"
  shows "tf_backup_codes user' = codes"
proof -
  obtain r where r: "find (\<lambda>r. tu_id r = u) (ad_users db) = Some r"
    using assms(1) by (auto simp: tf_load_def split: if_splits option.splits)
  then have "tu_id r = u" by (auto simp: find_Some_iff)
  then show ?thesis using r assms(2)
    by (auto simp: tf_load_def update_users_def find_map_keep two_factor_of_def split: if_splits option.splits)
qed

lemma recovery_code_is_spent:
  assumes "tf_load mo db u = Inr (Some user)" "invalidate_backup_code lib mo user given db = (True, db')"
    and "\<And>i j. i < length (tf_backup_codes user) \<Longrightarrow> j < length (tf_backup_codes user) \<Longrightarrow>
      tl_bcrypt_verify lib given (tf_backup_codes user ! i) \<Longrightarrow> tl_bcrypt_verify lib given (tf_backup_codes user ! j) \<Longrightarrow> i = j"
    and "tf_load mo' db' u = Inr (Some user')"
  shows "fst (invalidate_backup_code lib mo' user' given db') = False \<and>
    set (tf_backup_codes user') \<subseteq> set (tf_backup_codes user) \<and>
    length (tf_backup_codes user') + 1 = length (tf_backup_codes user)"
proof -
  obtain i where i: "position (tl_bcrypt_verify lib given) (tf_backup_codes user) = Some i"
    "db' = update_users (mo_now mo) u (\<lambda>r. r\<lparr>tu_backup_codes := Some (remove_at i (tf_backup_codes user))\<rparr>) db"
    using invalidate_TrueD [OF assms(2)] tf_load_id [OF assms(1)] by auto
  note p = position_Some [OF i(1)]
  have codes: "tf_backup_codes user' = remove_at i (tf_backup_codes user)"
    using codes_left [OF assms(1)] assms(4) i(2) by blast
  have "\<not> tl_bcrypt_verify lib given d" if d: "d \<in> set (remove_at i (tf_backup_codes user))" for d
  proof
    assume v: "tl_bcrypt_verify lib given d"
    obtain j where j: "j < length (tf_backup_codes user)" "j \<noteq> i" "tf_backup_codes user ! j = d"
      using remove_at_index [OF d] by blast
    have "i = j" by (rule assms(3)) (use p j v in auto)
    then show False using j by simp
  qed
  then have "position (tl_bcrypt_verify lib given) (tf_backup_codes user') = None"
    unfolding codes position_None by blast
  moreover have "set (remove_at i (tf_backup_codes user)) \<subseteq> set (tf_backup_codes user)"
    using set_remove_at [of i "tf_backup_codes user"] p by auto
  moreover have "length (remove_at i (tf_backup_codes user)) + 1 = length (tf_backup_codes user)"
    using p by (auto simp: remove_at_def)
  ultimately show ?thesis by (simp add: invalidate_backup_code_def codes)
qed

text \<open>
  C24: A recovery code is good once when the account is read again after it was used. But two
  requests that read the account before either of them wrote bring a used code back: each writes
  the list it read without its own code, so after both the code of the first is good again.
\<close>

theorem recovery_codes_single_use:
  assumes "tf_load mo db u = Inr (Some user)"
    and "\<And>given i j. i < length (tf_backup_codes user) \<Longrightarrow> j < length (tf_backup_codes user) \<Longrightarrow>
      tl_bcrypt_verify lib given (tf_backup_codes user ! i) \<Longrightarrow> tl_bcrypt_verify lib given (tf_backup_codes user ! j) \<Longrightarrow> i = j"
    and "invalidate_backup_code lib mo user first db = (True, db1)"
  shows "(\<forall>mo' user'. tf_load mo' db1 u = Inr (Some user') \<longrightarrow> \<not> fst (invalidate_backup_code lib mo' user' first db1)) \<and>
    (\<forall>second mo2 db2 mo3 user3. invalidate_backup_code lib mo2 user second db1 = (True, db2) \<longrightarrow>
      position (tl_bcrypt_verify lib first) (tf_backup_codes user) \<noteq> position (tl_bcrypt_verify lib second) (tf_backup_codes user) \<longrightarrow>
      tf_load mo3 db2 u = Inr (Some user3) \<longrightarrow> \<not> mo_down mo3 BcryptCheck \<longrightarrow> \<not> mo_down mo3 DbBackup \<longrightarrow>
      fst (invalidate_backup_code lib mo3 user3 first db2))"
proof (intro conjI allI impI)
  fix mo' user' assume "tf_load mo' db1 u = Inr (Some user')"
  then show "\<not> fst (invalidate_backup_code lib mo' user' first db1)"
    using recovery_code_is_spent [OF assms(1,3) assms(2) [of _ _ first]] by blast
next
  fix second mo2 db2 mo3 user3
  assume two: "invalidate_backup_code lib mo2 user second db1 = (True, db2)"
    and ne: "position (tl_bcrypt_verify lib first) (tf_backup_codes user) \<noteq> position (tl_bcrypt_verify lib second) (tf_backup_codes user)"
    and three: "tf_load mo3 db2 u = Inr (Some user3)" "\<not> mo_down mo3 BcryptCheck" "\<not> mo_down mo3 DbBackup"
  note id = tf_load_id [OF assms(1)]
  obtain i where i: "position (tl_bcrypt_verify lib first) (tf_backup_codes user) = Some i"
    "db1 = update_users (mo_now mo) u (\<lambda>r. r\<lparr>tu_backup_codes := Some (remove_at i (tf_backup_codes user))\<rparr>) db"
    using invalidate_TrueD [OF assms(3)] id by auto
  obtain j where j: "position (tl_bcrypt_verify lib second) (tf_backup_codes user) = Some j"
    "db2 = update_users (mo_now mo2) u (\<lambda>r. r\<lparr>tu_backup_codes := Some (remove_at j (tf_backup_codes user))\<rparr>) db1"
    using invalidate_TrueD [OF two] id by auto
  obtain r where "find (\<lambda>r. tu_id r = u) (ad_users db) = Some r"
    using assms(1) by (auto simp: tf_load_def split: if_splits option.splits)
  moreover then have "tu_id r = u" by (auto simp: find_Some_iff)
  ultimately have codes: "tf_backup_codes user3 = remove_at j (tf_backup_codes user)"
    using three(1) i(2) j(2)
    by (auto simp: tf_load_def update_users_def find_map_keep two_factor_of_def split: if_splits option.splits)
  have "tf_backup_codes user ! i \<in> set (tf_backup_codes user3)"
    using remove_at_keeps [of i "tf_backup_codes user" j] position_Some [OF i(1)] i(1) j(1) ne codes by auto
  then have "position (tl_bcrypt_verify lib first) (tf_backup_codes user3) \<noteq> None"
    using position_Some [OF i(1)] by (auto simp: position_None)
  moreover have "first \<noteq> []" using assms(3) by (auto simp: invalidate_backup_code_def split: if_splits)
  ultimately show "fst (invalidate_backup_code lib mo3 user3 first db2)"
    using three by (auto simp: invalidate_backup_code_def split: option.split)
qed

lemma sample_recovery:
  "tf_load sample_moment zeros_db 1 = Inr (Some (two_factor_of zeros_db (sample_tf_user\<lparr>tu_otp_secret := Some ''A''\<rparr>) False))"
  by (simp add: tf_load_def zeros_db_def sample_moment_def sample_tf_user_def)

theorem recovery_codes_single_use_witness:
  "\<not> fst (invalidate_backup_code sample_two_factor sample_moment
     (two_factor_of zeros_db (sample_tf_user\<lparr>tu_otp_secret := Some ''A'', tu_backup_codes := Some [''beef''], tu_updated_at := 5\<rparr>) False) ''c0de''
     (update_users 5 1 (\<lambda>r. r\<lparr>tu_backup_codes := Some [''beef'']\<rparr>) zeros_db))"
proof -
  have db: "invalidate_backup_code sample_two_factor sample_moment
      (two_factor_of zeros_db (sample_tf_user\<lparr>tu_otp_secret := Some ''A''\<rparr>) False) ''c0de'' zeros_db =
    (True, update_users 5 1 (\<lambda>r. r\<lparr>tu_backup_codes := Some [''beef'']\<rparr>) zeros_db)"
    by (simp add: invalidate_backup_code_def two_factor_of_def sample_tf_user_def sample_moment_def sample_two_factor_def remove_at_def)
  have read: "tf_load sample_moment (update_users 5 1 (\<lambda>r. r\<lparr>tu_backup_codes := Some [''beef'']\<rparr>) zeros_db) 1 =
      Inr (Some (two_factor_of zeros_db (sample_tf_user\<lparr>tu_otp_secret := Some ''A'', tu_backup_codes := Some [''beef''], tu_updated_at := 5\<rparr>) False))"
    by (simp add: tf_load_def update_users_def zeros_db_def sample_moment_def sample_tf_user_def two_factor_of_def)
  show ?thesis
    by (rule recovery_codes_single_use [OF sample_recovery _ db, THEN conjunct1, rule_format, OF _ read])
      (auto simp: two_factor_of_def sample_tf_user_def sample_two_factor_def less_Suc_eq)
qed

end
