(* ===== verification/RateLimit.thy ===== *)
theory RateLimit
  imports SignInTheorems
begin

text \<open>
  How many second factors may be tried: the counter of \<^verbatim>\<open>second_factor_rate_limited\<close>, which is
  named after the user and the hour of the day.
\<close>

text \<open>What touches the counters: a code is typed, or a sign-in succeeded.\<close>

datatype guess_event = Guess moment int | SignInDone moment int

fun guess_moment :: "guess_event \<Rightarrow> moment" where
  "guess_moment (Guess mo v) = mo"
| "guess_moment (SignInDone mo v) = mo"

text \<open>Whether each code of the user was refused unseen, in the order they were typed.\<close>

fun guess_run :: "keyspace \<Rightarrow> int \<Rightarrow> guess_event list \<Rightarrow> 'z auth_db_scheme \<Rightarrow> bool list" where
  "guess_run keys u [] db = []"
| "guess_run keys u (Guess mo v # es) db = (case second_factor_rate_limited mo keys v db of
     (limited, db') \<Rightarrow> (if v = u then limited # guess_run keys u es db' else guess_run keys u es db'))"
| "guess_run keys u (SignInDone mo v # es) db = guess_run keys u es (clear_second_factor_attempts mo keys v db)"

fun is_guess_of :: "int \<Rightarrow> guess_event \<Rightarrow> bool" where
  "is_guess_of u (Guess mo v) = (v = u)"
| "is_guess_of u (SignInDone mo v) = False"

fun in_hour :: "int \<Rightarrow> int \<Rightarrow> guess_event \<Rightarrow> bool" where
  "in_hour h u (Guess mo v) \<longleftrightarrow> unix_seconds mo div 3600 = h \<and> (v = u \<longrightarrow> \<not> mo_down mo RedisIncr)"
| "in_hour h u (SignInDone mo v) \<longleftrightarrow> unix_seconds mo div 3600 = h \<and> v \<noteq> u"

definition hour_key :: "int \<Rightarrow> keyspace \<Rightarrow> int \<Rightarrow> string" where
  "hour_key h keys u = ks_key keys (''2fa_auth_attempts:'' @ dec u @ '':'' @ dec (h mod 24))"

lemma attempts_key_hour: "unix_seconds mo div 3600 = h \<Longrightarrow> attempts_key mo keys u = hour_key h keys u"
  by (simp add: attempts_key_def hour_key_def)

lemma hour_key_inj: "hour_key h keys u = hour_key h keys v \<Longrightarrow> u = v"
  unfolding hour_key_def by simp

definition hour_start :: "int \<Rightarrow> int" where "hour_start h = h * 3600000000"

lemma hour_bounds:
  assumes "unix_seconds mo div 3600 = h"
  shows "hour_start h \<le> mo_now mo" "mo_now mo < hour_start h + seconds 3600"
proof -
  have "mo_now mo div 3600000000 = h" using assms by (simp add: unix_seconds_def zdiv_zmult2_eq [symmetric])
  then show "hour_start h \<le> mo_now mo" "mo_now mo < hour_start h + seconds 3600"
    unfolding hour_start_def seconds_def by presburger+
qed

abbreviation hour_stands :: "int \<Rightarrow> string \<Rightarrow> int ttl_store \<Rightarrow> int \<Rightarrow> bool" where
  "hour_stands h \<equiv> stands_at (hour_start h) (hour_start h + seconds 3600)"

lemma limited_is_counted:
  assumes "hour_stands h (hour_key h keys u) (ad_counters db) n" "0 \<le> n"
    and "unix_seconds mo div 3600 = h" "\<not> mo_down mo RedisIncr"
  shows "fst (second_factor_rate_limited mo keys u db) = (n + 1 \<ge> MAX_2FA_ATTEMPTS_PER_HOUR)"
    and "hour_stands h (hour_key h keys u) (ad_counters (snd (second_factor_rate_limited mo keys u db))) (n + 1)"
  using counted [OF assms(1) hour_bounds [OF assms(3)] assms(2) order.refl] assms(3,4)
  by (auto simp: second_factor_rate_limited_def attempts_key_hour split: prod.split)

lemma others_do_not_count:
  assumes "v \<noteq> u" "unix_seconds mo div 3600 = h"
  shows "hour_stands h (hour_key h keys u) (ad_counters (snd (second_factor_rate_limited mo keys v db))) n =
      hour_stands h (hour_key h keys u) (ad_counters db) n"
    and "hour_stands h (hour_key h keys u) (ad_counters (clear_second_factor_attempts mo keys v db)) n =
      hour_stands h (hour_key h keys u) (ad_counters db) n"
proof -
  have "hour_key h keys v \<noteq> hour_key h keys u" using hour_key_inj assms(1) by blast
  then have "live t (ad_counters (snd (second_factor_rate_limited mo keys v db))) (hour_key h keys u) =
      live t (ad_counters db) (hour_key h keys u)"
    and "live t (ad_counters (clear_second_factor_attempts mo keys v db)) (hour_key h keys u) =
      live t (ad_counters db) (hour_key h keys u)" for t
    by (auto simp: second_factor_rate_limited_def clear_second_factor_attempts_def attempts_key_hour [OF assms(2)]
      ttl_incr_def ttl_expire_def ttl_del_def live_def split: option.split)
  then show "hour_stands h (hour_key h keys u) (ad_counters (snd (second_factor_rate_limited mo keys v db))) n =
      hour_stands h (hour_key h keys u) (ad_counters db) n"
    and "hour_stands h (hour_key h keys u) (ad_counters (clear_second_factor_attempts mo keys v db)) n =
      hour_stands h (hour_key h keys u) (ad_counters db) n"
    by (simp_all add: stands_at_def)
qed

lemma guesses_from:
  assumes "hour_stands h (hour_key h keys u) (ad_counters db) n" "0 \<le> n" "\<forall>e \<in> set es. in_hour h u e"
  shows "guess_run keys u es db =
    map (\<lambda>i. n + int i + 1 \<ge> MAX_2FA_ATTEMPTS_PER_HOUR) [0..<length (filter (is_guess_of u) es)]"
  using assms
proof (induction es arbitrary: db n)
  case (Cons e es)
  show ?case
  proof (cases e)
    case (SignInDone mo v)
    then show ?thesis using Cons by (simp add: others_do_not_count(2))
  next
    case (Guess mo v)
    show ?thesis
    proof (cases "v = u")
      case False
      have "guess_run keys u (e # es) db = guess_run keys u es (snd (second_factor_rate_limited mo keys v db))"
        using Guess False by (simp split: prod.split)
      then show ?thesis using Guess False Cons by (simp add: others_do_not_count(1))
    next
      case True
      have here: "unix_seconds mo div 3600 = h" "\<not> mo_down mo RedisIncr" using Cons.prems(3) Guess True by auto
      note c = limited_is_counted [OF Cons.prems(1,2) here]
      have "guess_run keys u (e # es) db = (n + 1 \<ge> MAX_2FA_ATTEMPTS_PER_HOUR) #
          guess_run keys u es (snd (second_factor_rate_limited mo keys u db))"
        using Guess True c(1) by (cases "second_factor_rate_limited mo keys u db") simp
      also have "\<dots> = (n + 1 \<ge> MAX_2FA_ATTEMPTS_PER_HOUR) #
          map (\<lambda>i. n + 1 + int i + 1 \<ge> MAX_2FA_ATTEMPTS_PER_HOUR) [0..<length (filter (is_guess_of u) es)]"
        using Cons.IH [OF c(2)] Cons.prems(2,3) by simp
      finally show ?thesis using Guess True
        by (simp add: upt_conv_Cons map_Suc_upt [symmetric] del: upt_Suc)
    qed
  qed
qed simp

text \<open>
  Of the codes typed for a user within an hour of the clock, with no sign-in in between, the
  first nine are looked at and every later one is refused unseen, whatever others do meanwhile and
  whether or not the counter's expiry could be set, as long as Redis counts.
\<close>

theorem nine_codes_an_hour:
  assumes "\<forall>e \<in> set es. in_hour h u e"
    and "\<forall>t. hour_start h \<le> t \<longrightarrow> t < hour_start h + seconds 3600 \<longrightarrow> live t (ad_counters db) (hour_key h keys u) = None"
  shows "guess_run keys u es db = map (\<lambda>i. i \<ge> 9) [0..<length (filter (is_guess_of u) es)]"
proof -
  have "hour_stands h (hour_key h keys u) (ad_counters db) 0" using assms(2) by (simp add: stands_at_def)
  from guesses_from [OF this _ assms(1)] show ?thesis by (auto simp: MAX_2FA_ATTEMPTS_PER_HOUR_def)
qed

theorem nine_codes_an_hour_witness:
  "guess_run \<lparr>ks_prefix = []\<rparr> 1 (SignInDone sample_moment 2 # replicate 11 (Guess sample_moment 1)) sample_auth_db =
     replicate 9 False @ [True, True]"
proof -
  have "guess_run \<lparr>ks_prefix = []\<rparr> 1 (SignInDone sample_moment 2 # replicate 11 (Guess sample_moment 1)) sample_auth_db =
      map (\<lambda>i. i \<ge> 9) [0..<length (filter (is_guess_of 1) (SignInDone sample_moment 2 # replicate 11 (Guess sample_moment 1)))]"
    by (rule nine_codes_an_hour [of _ 0])
      (simp_all add: sample_moment_def sample_auth_db_def unix_seconds_def live_def)
  also have "\<dots> = map (\<lambda>i. i \<ge> 9) [0..<11]" by simp
  also have "\<dots> = replicate 9 False @ [True, True]" by (simp add: upt_rec eval_nat_numeral)
  finally show ?thesis .
qed

end
