(* ===== verification/Sessions.thy ===== *)
theory Sessions
  imports SignIn
begin

text \<open>
  \<^verbatim>\<open>src/sessions.rs\<close>: the sessions of browsers, each with an access token of its own, and the
  tables they share with \<^verbatim>\<open>src/api/mastodon/oauth.rs\<close> (\<open>OAuth\<close>). A request meets a \<open>moment\<close>, the queries
  that fail for it, the random bytes it draws (\<open>rq_drawn\<close> first, then \<open>rq_secret\<close>) and its user agent.
  A transaction is one step: when one of its statements fails nothing has happened. Deleting tokens
  deletes the sessions and the push subscriptions that refer to them (\<^verbatim>\<open>ON DELETE CASCADE\<close>). Closing
  the streams of tokens is left out.
\<close>

section \<open>The tables\<close>

record app_row =
  ap_id :: int
  ap_name :: string
  ap_uid :: string
  ap_secret :: string
  ap_redirect_uri :: string
  ap_scopes :: "string option"
  ap_website :: "string option"
  ap_superapp :: bool

record grant_row =
  gr_app :: int
  gr_owner :: int
  gr_token :: string
  gr_redirect_uri :: string
  gr_scopes :: "string option"
  gr_expires_in :: int
  gr_created :: int
  gr_revoked :: "int option"

record token_row =
  to_id :: int
  to_app :: "int option"
  to_owner :: "int option"
  to_token :: string
  to_scopes :: string
  to_created :: int
  to_expires_in :: "int option"
  to_revoked :: "int option"

text \<open>The rows of \<^verbatim>\<open>session_activations\<close>; times of creation and of the last use are left out.\<close>

record session_row =
  se_id :: int
  se_session_id :: string
  se_user :: int
  se_token :: "int option"
  se_push :: "int option"
  se_ip :: "string option"
  se_user_agent :: string

text \<open>Of a push subscription its id and the token it belongs to.\<close>

record oauth_db =
  oa_sign_in :: sign_in_db
  oa_apps :: "app_row list"
  oa_grants :: "grant_row list"
  oa_tokens :: "token_row list"
  oa_push :: "(int \<times> int) list"
  oa_sessions :: "session_row list"
  oa_next_app :: int
  oa_next_token :: int
  oa_next_session :: int

datatype oauth_call =
    OaApp | OaAppInsert | OaAppUpdate | OaIssuedFor | OaTakeCode | OaOwner | OaTokenInsert | OaRevoke | OaPush
  | OaPassword | OaConfirmed | OaGrantInsert
  | SeToken | SeInsert | SeList | SeDestroy | SeFetch | SeUpdate | SeRevoke

record oauth_request =
  rq_moment :: moment
  rq_down :: "oauth_call \<Rightarrow> bool"
  rq_drawn :: "byte list"
  rq_secret :: "byte list"
  rq_user_agent :: "string option"

definition rq_now :: "oauth_request \<Rightarrow> int" where
  "rq_now rq = mo_now (rq_moment rq)"

section \<open>Activating a session\<close>

definition DEFAULT_SCOPES :: string where "DEFAULT_SCOPES = ''read write follow''"

definition MAX_SESSION_ACTIVATIONS :: nat where "MAX_SESSION_ACTIVATIONS = 10"

definition insert_token :: "oauth_request \<Rightarrow> int option \<Rightarrow> int option \<Rightarrow> string \<Rightarrow> oauth_db \<Rightarrow> token_row \<times> oauth_db" where
  "insert_token rq app_id owner scopes db =
     (let token = \<lparr>to_id = oa_next_token db, to_app = app_id, to_owner = owner, to_token = generate_token (rq_drawn rq),
            to_scopes = scopes, to_created = rq_now rq, to_expires_in = None, to_revoked = None\<rparr>
      in (token, db\<lparr>oa_tokens := oa_tokens db @ [token], oa_next_token := oa_next_token db + 1\<rparr>))"

text \<open>\<^verbatim>\<open>SELECT id FROM oauth_applications WHERE superapp ORDER BY id LIMIT 1\<close>\<close>

definition superapp_id :: "oauth_db \<Rightarrow> int option" where
  "superapp_id db = (case sort (map ap_id (filter ap_superapp (oa_apps db))) of [] \<Rightarrow> None | i # _ \<Rightarrow> Some i)"

text \<open>The tokens that go, and what refers to them.\<close>

definition delete_tokens :: "int list \<Rightarrow> oauth_db \<Rightarrow> oauth_db" where
  "delete_tokens tokens db = db\<lparr>
     oa_push := filter (\<lambda>(i, t). t \<notin> set tokens) (oa_push db),
     oa_sessions := filter (\<lambda>s. \<not> (\<exists>t \<in> set tokens. se_token s = Some t)) (oa_sessions db),
     oa_tokens := filter (\<lambda>t. to_id t \<notin> set tokens) (oa_tokens db)\<rparr>"

text \<open>The tokens it deleted.\<close>

definition destroy_where_ids :: "oauth_request \<Rightarrow> int list \<Rightarrow> oauth_db \<Rightarrow> (sqlx_error + int list) \<times> oauth_db" where
  "destroy_where_ids rq ids db =
     (if ids = [] then (Inr [], db)
      else if rq_down rq SeDestroy then (Inl SqlxError, db)
      else let gone = filter (\<lambda>s. se_id s \<in> set ids) (oa_sessions db);
               tokens = List.map_filter se_token gone;
               subscriptions = List.map_filter se_push gone;
               db1 = db\<lparr>oa_sessions := filter (\<lambda>s. se_id s \<notin> set ids) (oa_sessions db),
                 oa_push := filter (\<lambda>(i, t). i \<notin> set subscriptions) (oa_push db)\<rparr>
        in (Inr tokens, delete_tokens tokens db1))"

definition sessions_of :: "int \<Rightarrow> oauth_db \<Rightarrow> int list" where
  "sessions_of user_id db = sort (map se_id (filter (\<lambda>s. se_user s = user_id) (oa_sessions db)))"

definition purge_old :: "oauth_request \<Rightarrow> int \<Rightarrow> oauth_db \<Rightarrow> (sqlx_error + unit) \<times> oauth_db" where
  "purge_old rq user_id db =
     (if rq_down rq SeList then (Inl SqlxError, db)
      else case destroy_where_ids rq (drop MAX_SESSION_ACTIVATIONS (rev (sessions_of user_id db))) db of
        (Inl e, db1) \<Rightarrow> (Inl e, db1) | (Inr _, db1) \<Rightarrow> (Inr (), db1))"

text \<open>No two sessions have the same \<^verbatim>\<open>session_id\<close> (a unique index).\<close>

definition activate_with_token ::
  "oauth_request \<Rightarrow> int \<Rightarrow> int \<Rightarrow> string option \<Rightarrow> oauth_db \<Rightarrow> (sqlx_error + string) \<times> oauth_db" where
  "activate_with_token rq user_id access_token_id ip db =
     (let session_id = generate_token (rq_secret rq)
      in if rq_down rq SeInsert \<or> list_ex (\<lambda>s. se_session_id s = session_id) (oa_sessions db) then (Inl SqlxError, db)
         else let row = \<lparr>se_id = oa_next_session db, se_session_id = session_id, se_user = user_id,
                  se_token = Some access_token_id, se_push = None, se_ip = ip, se_user_agent = or_empty (rq_user_agent rq)\<rparr>
           in case purge_old rq user_id (db\<lparr>oa_sessions := oa_sessions db @ [row], oa_next_session := oa_next_session db + 1\<rparr>) of
             (Inl e, db1) \<Rightarrow> (Inl e, db1) | (Inr _, db1) \<Rightarrow> (Inr session_id, db1))"

definition activate :: "oauth_request \<Rightarrow> int \<Rightarrow> string option \<Rightarrow> oauth_db \<Rightarrow> (sqlx_error + string) \<times> oauth_db" where
  "activate rq user_id ip db =
     (if rq_down rq SeToken then (Inl SqlxError, db)
      else case insert_token rq (superapp_id db) (Some user_id) DEFAULT_SCOPES db of
        (token, db1) \<Rightarrow> activate_with_token rq user_id (to_id token) ip db1)"

text \<open>The session behind a cookie; its address is brought up to date, or not.\<close>

definition fetch_session :: "oauth_request \<Rightarrow> string \<Rightarrow> string option \<Rightarrow> oauth_db \<Rightarrow> session_row option \<times> oauth_db" where
  "fetch_session rq session_id ip db =
     (case (if rq_down rq SeFetch then None else find (\<lambda>s. se_session_id s = session_id) (oa_sessions db)) of
        None \<Rightarrow> (None, db)
      | Some row \<Rightarrow> (Some row,
          if ip \<noteq> None \<and> se_ip row \<noteq> ip \<and> \<not> rq_down rq SeUpdate
          then db\<lparr>oa_sessions := map (\<lambda>s. if se_id s = se_id row then s\<lparr>se_ip := ip\<rparr> else s) (oa_sessions db)\<rparr>
          else db))"

section \<open>Ending sessions\<close>

definition deactivate :: "oauth_request \<Rightarrow> string \<Rightarrow> oauth_db \<Rightarrow> (sqlx_error + int list) \<times> oauth_db" where
  "deactivate rq session_id db =
     (if rq_down rq SeList then (Inl SqlxError, db)
      else destroy_where_ids rq (map se_id (filter (\<lambda>s. se_session_id s = session_id) (oa_sessions db))) db)"

definition destroy_all :: "oauth_request \<Rightarrow> int \<Rightarrow> oauth_db \<Rightarrow> (sqlx_error + int list) \<times> oauth_db" where
  "destroy_all rq user_id db =
     (if rq_down rq SeList then (Inl SqlxError, db)
      else destroy_where_ids rq (map se_id (filter (\<lambda>s. se_user s = user_id) (oa_sessions db))) db)"

definition destroy_others :: "oauth_request \<Rightarrow> int \<Rightarrow> int option \<Rightarrow> oauth_db \<Rightarrow> (sqlx_error + int list) \<times> oauth_db" where
  "destroy_others rq user_id keep db =
     (if rq_down rq SeList then (Inl SqlxError, db)
      else destroy_where_ids rq (map se_id (filter (\<lambda>s. se_user s = user_id \<and> Some (se_id s) \<noteq> keep) (oa_sessions db))) db)"

text \<open>Tokens and grants are revoked, not deleted; the push subscriptions of the tokens go.\<close>

definition revoke_where :: "int \<Rightarrow> (token_row \<Rightarrow> bool) \<Rightarrow> (grant_row \<Rightarrow> bool) \<Rightarrow> oauth_db \<Rightarrow> oauth_db" where
  "revoke_where now tokens grants db =
     (let hit = (\<lambda>t. tokens t \<and> to_revoked t = None); revoked = map to_id (filter hit (oa_tokens db))
      in db\<lparr>oa_tokens := map (\<lambda>t. if hit t then t\<lparr>to_revoked := Some now\<rparr> else t) (oa_tokens db),
            oa_push := filter (\<lambda>(i, t). t \<notin> set revoked) (oa_push db),
            oa_grants := map (\<lambda>g. if grants g \<and> gr_revoked g = None then g\<lparr>gr_revoked := Some now\<rparr> else g) (oa_grants db)\<rparr>)"

definition revoke_application :: "oauth_request \<Rightarrow> int \<Rightarrow> int \<Rightarrow> oauth_db \<Rightarrow> (sqlx_error + unit) \<times> oauth_db" where
  "revoke_application rq application_id user_id db =
     (if rq_down rq SeRevoke then (Inl SqlxError, db)
      else (Inr (), revoke_where (rq_now rq) (\<lambda>t. to_app t = Some application_id \<and> to_owner t = Some user_id)
             (\<lambda>g. gr_app g = application_id \<and> gr_owner g = user_id) db))"

definition revoke_access :: "oauth_request \<Rightarrow> int \<Rightarrow> oauth_db \<Rightarrow> (sqlx_error + unit) \<times> oauth_db" where
  "revoke_access rq user_id db =
     (if rq_down rq SeRevoke then (Inl SqlxError, db)
      else (Inr (), revoke_where (rq_now rq) (\<lambda>t. to_owner t = Some user_id) (\<lambda>g. gr_owner g = user_id) db))"

end
