(* ===== verification/OAuth.thy ===== *)
theory OAuth
  imports Sessions
begin

text \<open>
  \<^verbatim>\<open>src/api/mastodon/oauth.rs\<close>: applications, authorization codes and access tokens. Parsing
  and escaping URLs (crates) and checking a password are arguments; the authorization page is what
  it is made from. The tables and what a request meets are those of \<open>Sessions\<close>.
\<close>

text \<open>A parsed URL: its scheme, its text without the query, the query and its pairs.\<close>

record oauth_url =
  ou_scheme :: string
  ou_rest :: string
  ou_query :: "string option"
  ou_pairs :: "(string \<times> string) list"

record 'k oauth_lib =
  ol_sign_in :: "'k sign_in_lib"
  ol_parse :: "string \<Rightarrow> oauth_url option"
  ol_encode :: "string \<Rightarrow> string"
  ol_decode :: "string \<Rightarrow> string option"
  ol_password :: "string \<Rightarrow> string \<Rightarrow> bool"

section \<open>Scopes\<close>

definition normalize_scopes :: "string \<Rightarrow> string" where
  "normalize_scopes s = join_with '' '' (filter (\<lambda>t. t \<noteq> []) (split_by (\<lambda>c. is_space c \<or> c = CHR '','') s))"

definition VALID_OAUTH_SCOPES :: "string list" where
  "VALID_OAUTH_SCOPES =
     [''read'', ''write'', ''follow'', ''push'', ''profile'', ''read:accounts'', ''read:blocks'', ''read:bookmarks'',
      ''read:collections'', ''read:favourites'', ''read:filters'', ''read:follows'', ''read:lists'', ''read:mutes'',
      ''read:notifications'', ''read:search'', ''read:statuses'', ''write:accounts'', ''write:blocks'', ''write:bookmarks'',
      ''write:collections'', ''write:conversations'', ''write:favourites'', ''write:filters'', ''write:follows'',
      ''write:lists'', ''write:media'', ''write:mutes'', ''write:notifications'', ''write:reports'', ''write:statuses'',
      ''admin:read'', ''admin:read:accounts'', ''admin:read:reports'', ''admin:read:domain_allows'',
      ''admin:read:domain_blocks'', ''admin:read:ip_blocks'', ''admin:read:email_domain_blocks'',
      ''admin:read:canonical_email_blocks'', ''admin:write'', ''admin:write:accounts'', ''admin:write:reports'',
      ''admin:write:domain_allows'', ''admin:write:domain_blocks'', ''admin:write:ip_blocks'',
      ''admin:write:email_domain_blocks'', ''admin:write:canonical_email_blocks'']"

definition scope_words :: "string \<Rightarrow> string list" where
  "scope_words s = filter (\<lambda>t. t \<noteq> []) (split_by (\<lambda>c. c = CHR '' '') s)"

definition validate_oauth_scopes :: "string \<Rightarrow> app_error + unit" where
  "validate_oauth_scopes scopes =
     (if list_all (\<lambda>s. s \<in> set VALID_OAUTH_SCOPES) (scope_words scopes) then Inr ()
      else Inl (Unprocessable ''The requested scope is invalid, unknown, or malformed.''))"

definition scope_is_subset :: "string \<Rightarrow> string \<Rightarrow> bool" where
  "scope_is_subset requested granted \<longleftrightarrow> list_all (\<lambda>s. s \<in> set (scope_words granted)) (scope_words requested)"

definition read_or :: "string option \<Rightarrow> string" where
  "read_or s = (case s of None \<Rightarrow> ''read'' | Some t \<Rightarrow> t)"

section \<open>Redirect URIs\<close>

definition redirect_uri_matches :: "'k oauth_lib \<Rightarrow> string \<Rightarrow> string \<Rightarrow> bool" where
  "redirect_uri_matches lib url registered =
     (if url = registered then True
      else case (ol_parse lib url, ol_parse lib registered) of
        (Some u, Some r) \<Rightarrow>
          if ou_query r \<noteq> None \<and> sort (ou_pairs u) \<noteq> sort (ou_pairs r) then False
          else ou_rest u = ou_rest r
      | _ \<Rightarrow> False)"

definition redirect_uri_allowed :: "'k oauth_lib \<Rightarrow> string \<Rightarrow> string \<Rightarrow> bool" where
  "redirect_uri_allowed lib url registered =
     (let forbidden = (case ol_parse lib url of None \<Rightarrow> True
          | Some u \<Rightarrow> to_ascii_lowercase (ou_scheme u) \<in> {''data'', ''javascript'', ''vbscript''})
      in \<not> forbidden \<and> list_ex (redirect_uri_matches lib url) (filter (\<lambda>t. t \<noteq> []) (split_by is_space registered)))"

section \<open>Applications\<close>

record register_app_form =
  rf_client_name :: string
  rf_redirect_uris :: "string option"
  rf_scopes :: "string option"
  rf_website :: "string option"

definition insert_app :: "oauth_request \<Rightarrow> string \<Rightarrow> string \<Rightarrow> string \<Rightarrow> string option \<Rightarrow> oauth_db \<Rightarrow> (app_error + app_row) \<times> oauth_db" where
  "insert_app rq name redirect_uri scopes website db =
     (if rq_down rq OaAppInsert then (Inl (Database SqlxError), db)
      else let app = \<lparr>ap_id = oa_next_app db, ap_name = name, ap_uid = generate_token (rq_drawn rq),
             ap_secret = generate_token (rq_secret rq), ap_redirect_uri = redirect_uri, ap_scopes = Some scopes,
             ap_website = website, ap_superapp = False\<rparr>
        in (Inr app, db\<lparr>oa_apps := oa_apps db @ [app], oa_next_app := oa_next_app db + 1\<rparr>))"

definition register_app :: "oauth_request \<Rightarrow> register_app_form \<Rightarrow> oauth_db \<Rightarrow> (app_error + app_row) \<times> oauth_db" where
  "register_app rq form db =
     (let redirect_uris = (case rf_redirect_uris form of None \<Rightarrow> ''urn:ietf:wg:oauth:2.0:oob'' | Some u \<Rightarrow> u);
          scopes = normalize_scopes (read_or (rf_scopes form))
      in case validate_oauth_scopes scopes of
        Inl e \<Rightarrow> (Inl e, db)
      | Inr _ \<Rightarrow> insert_app rq (rf_client_name form) redirect_uris scopes (rf_website form) db)"

definition find_app :: "oauth_request \<Rightarrow> string \<Rightarrow> oauth_db \<Rightarrow> app_error + app_row option" where
  "find_app rq client_id db =
     (if rq_down rq OaApp then Inl (Database SqlxError)
      else Inr (find (\<lambda>a. ap_uid a = client_id) (oa_apps db)))"

section \<open>Codes and tokens\<close>

definition grant_live :: "int \<Rightarrow> grant_row \<Rightarrow> bool" where
  "grant_live now g \<longleftrightarrow> gr_created g + seconds (gr_expires_in g) > now"

definition same_code :: "string \<Rightarrow> int \<Rightarrow> grant_row \<Rightarrow> bool" where
  "same_code token app_id g \<longleftrightarrow> gr_token g = token \<and> gr_app g = app_id"

text \<open>\<^verbatim>\<open>DELETE FROM oauth_access_grants ... RETURNING\<close>: the first of the rows that went.\<close>

definition take_code :: "int \<Rightarrow> string \<Rightarrow> int \<Rightarrow> oauth_db \<Rightarrow> grant_row option \<times> oauth_db" where
  "take_code now token app_id db =
     (let taken = (\<lambda>g. same_code token app_id g \<and> grant_live now g)
      in (find taken (oa_grants db), db\<lparr>oa_grants := filter (\<lambda>g. \<not> taken g) (oa_grants db)\<rparr>))"

definition owner_row :: "oauth_db \<Rightarrow> int \<Rightarrow> tf_user_row option" where
  "owner_row db i = find (\<lambda>u. tu_id u = i) (ad_users (oa_sign_in db))"

record token_request =
  tr_grant_type :: string
  tr_client_id :: string
  tr_client_secret :: string
  tr_redirect_uri :: "string option"
  tr_code :: "string option"

datatype token_answer = UnsupportedGrantType | TokenAnswer token_row

text \<open>The user of a code and its scopes; the code is gone when it was good.\<close>

definition exchange_code ::
  "'k oauth_lib \<Rightarrow> oauth_request \<Rightarrow> app_row \<Rightarrow> token_request \<Rightarrow> oauth_db \<Rightarrow> (app_error + int \<times> string) \<times> oauth_db" where
  "exchange_code lib rq app form db =
     (case tr_code form of
        None \<Rightarrow> (Inl (Unprocessable ''missing code''), db)
      | Some token \<Rightarrow>
          if rq_down rq OaIssuedFor then (Inl (Database SqlxError), db)
          else case find (\<lambda>g. same_code token (ap_id app) g \<and> gr_revoked g = None \<and> grant_live (rq_now rq) g) (oa_grants db) of
            None \<Rightarrow> (Inl Unauthorized, db)
          | Some issued \<Rightarrow>
              if \<not> (case tr_redirect_uri form of None \<Rightarrow> False
                    | Some uri \<Rightarrow> redirect_uri_matches lib uri (gr_redirect_uri issued)) then (Inl Unauthorized, db)
              else if rq_down rq OaTakeCode then (Inl (Database SqlxError), db)
              else case take_code (rq_now rq) token (ap_id app) db of
                (None, db1) \<Rightarrow> (Inl Unauthorized, db1)
              | (Some g, db1) \<Rightarrow>
                  if rq_down rq OaOwner then (Inl (Database SqlxError), db1)
                  else (case owner_row db1 (gr_owner g) of
                      None \<Rightarrow> (Inl Unauthorized, db1)
                    | Some u \<Rightarrow> if tu_disabled u then (Inl Unauthorized, db1)
                        else (Inr (gr_owner g, read_or (gr_scopes g)), db1)))"

definition issue_token ::
  "'k oauth_lib \<Rightarrow> oauth_request \<Rightarrow> token_request \<Rightarrow> oauth_db \<Rightarrow> (app_error + token_answer) \<times> oauth_db" where
  "issue_token lib rq form db =
     (if tr_grant_type form \<notin> {''authorization_code'', ''client_credentials''} then (Inr UnsupportedGrantType, db)
      else case find_app rq (tr_client_id form) db of
        Inl e \<Rightarrow> (Inl e, db)
      | Inr None \<Rightarrow> (Inl Unauthorized, db)
      | Inr (Some app) \<Rightarrow>
          if ap_secret app \<noteq> tr_client_secret form then (Inl Unauthorized, db)
          else case (if tr_grant_type form = ''client_credentials'' then (Inr (None, read_or (ap_scopes app)), db)
              else case exchange_code lib rq app form db of
                (Inl e, db1) \<Rightarrow> (Inl e, db1) | (Inr (u, scopes), db1) \<Rightarrow> (Inr (Some u, scopes), db1)) of
            (Inl e, db1) \<Rightarrow> (Inl e, db1)
          | (Inr (owner, scopes), db1) \<Rightarrow>
              if rq_down rq OaTokenInsert then (Inl (Database SqlxError), db1)
              else (case insert_token rq (Some (ap_id app)) owner scopes db1 of (token, db2) \<Rightarrow> (Inr (TokenAnswer token), db2)))"

text \<open>Closing the streams of a token is left out.\<close>

definition revoke_token :: "oauth_request \<Rightarrow> string \<Rightarrow> oauth_db \<Rightarrow> (app_error + unit) \<times> oauth_db" where
  "revoke_token rq token db =
     (if rq_down rq OaRevoke then (Inl (Database SqlxError), db)
      else let hit = (\<lambda>t. to_token t = token \<and> to_revoked t = None);
               revoked = map to_id (filter hit (oa_tokens db));
               db1 = db\<lparr>oa_tokens := map (\<lambda>t. if hit t then t\<lparr>to_revoked := Some (rq_now rq)\<rparr> else t) (oa_tokens db)\<rparr>
        in if rq_down rq OaPush then (Inl (Database SqlxError), db1)
           else (Inr (), db1\<lparr>oa_push := filter (\<lambda>(i, t). t \<notin> set revoked) (oa_push db1)\<rparr>))"

text \<open>The application a token is for, when the token is good.\<close>

definition verify_app_credentials :: "oauth_request \<Rightarrow> string option \<Rightarrow> oauth_db \<Rightarrow> app_error + app_row" where
  "verify_app_credentials rq bearer db =
     (case bearer of None \<Rightarrow> Inl Unauthorized | Some token \<Rightarrow>
      if rq_down rq OaApp then Inl (Database SqlxError)
      else case find (\<lambda>t. to_token t = token \<and> to_revoked t = None \<and>
          (case to_expires_in t of None \<Rightarrow> True | Some s \<Rightarrow> to_created t + seconds s > rq_now rq) \<and>
          (\<exists>a \<in> set (oa_apps db). to_app t = Some (ap_id a))) (oa_tokens db) of
        None \<Rightarrow> Inl Unauthorized
      | Some t \<Rightarrow> (case find (\<lambda>a. to_app t = Some (ap_id a)) (oa_apps db) of None \<Rightarrow> Inl Unauthorized | Some a \<Rightarrow> Inr a))"

section \<open>The authorization page\<close>

definition user_confirmed :: "oauth_request \<Rightarrow> int \<Rightarrow> oauth_db \<Rightarrow> bool" where
  "user_confirmed rq i db = (\<not> rq_down rq OaConfirmed \<and> (case owner_row db i of None \<Rightarrow> False | Some u \<Rightarrow> tu_confirmed u))"

definition check_password ::
  "'k oauth_lib \<Rightarrow> oauth_request \<Rightarrow> string \<Rightarrow> string \<Rightarrow> oauth_db \<Rightarrow> int option \<times> oauth_db" where
  "check_password lib rq email password db =
     (if rq_down rq OaPassword then (None, db)
      else case find (\<lambda>u. to_lowercase (tu_email u) = to_lowercase (trimmed email) \<and> \<not> tu_disabled u \<and>
          map_of (ad_accounts (oa_sign_in db)) (tu_account u) \<noteq> None) (ad_users (oa_sign_in db)) of
        None \<Rightarrow> (None, db)
      | Some user \<Rightarrow>
          if tu_password user = [] then (None, db)
          else if \<not> ol_password lib password (tu_password user) then
            (None, db\<lparr>oa_sign_in := record_login (rq_moment rq) (tu_id user) ''password'' False (Some ''invalid'') (oa_sign_in db)\<rparr>)
          else (Some (tu_id user), db))"

definition INVALID_REDIRECT_URI :: string where
  "INVALID_REDIRECT_URI = ''The redirect uri included is not valid.''"

definition issue_grant ::
  "'k oauth_lib \<Rightarrow> oauth_request \<Rightarrow> string \<Rightarrow> string \<Rightarrow> string option \<Rightarrow> int \<Rightarrow> oauth_db \<Rightarrow> (string + string) \<times> oauth_db" where
  "issue_grant lib rq client_id redirect_uri scope user_id db =
     (case find_app rq client_id db of
        Inl _ \<Rightarrow> (Inl ''Database error'', db)
      | Inr None \<Rightarrow> (Inl ''Unknown application'', db)
      | Inr (Some app) \<Rightarrow>
          if \<not> redirect_uri_allowed lib redirect_uri (ap_redirect_uri app) then (Inl INVALID_REDIRECT_URI, db)
          else let scopes = (case scope of None \<Rightarrow> read_or (ap_scopes app) | Some s \<Rightarrow> s)
            in if \<not> scope_is_subset scopes (read_or (ap_scopes app)) then (Inl ''invalid_scope'', db)
               else if rq_down rq OaGrantInsert then (Inl ''Database error'', db)
               else let code = generate_token (rq_drawn rq);
                      grant = \<lparr>gr_app = ap_id app, gr_owner = user_id, gr_token = code, gr_redirect_uri = redirect_uri,
                        gr_scopes = Some scopes, gr_expires_in = 600, gr_created = rq_now rq, gr_revoked = None\<rparr>
                 in (Inr (redirect_uri @ (if CHR ''?'' \<in> set redirect_uri then ''&'' else ''?'') @ ''code='' @ code),
                     db\<lparr>oa_grants := oa_grants db @ [grant]\<rparr>))"

text \<open>
  What the browser is answered; \<open>SetUp\<close> carries the cookie of a session, leads to the page that confirms
  the address, and keeps the page to come back to.
\<close>

datatype authorize_answer =
    BadClient string | AuthorizePage string string string | FormError string | RedirectTo string
  | SetUp string string | ServerError | StepPage sign_in_page

definition authorize_form :: "'k oauth_lib \<Rightarrow> oauth_request \<Rightarrow> string \<Rightarrow> string \<Rightarrow> string option \<Rightarrow> oauth_db \<Rightarrow> authorize_answer" where
  "authorize_form lib rq client_id redirect_uri scope db =
     (case find_app rq client_id db of
        Inr (Some app) \<Rightarrow>
          if \<not> redirect_uri_allowed lib redirect_uri (ap_redirect_uri app) then BadClient INVALID_REDIRECT_URI
          else if \<not> scope_is_subset (read_or scope) (read_or (ap_scopes app)) then
            BadClient ''The requested scope is invalid, unknown, or malformed.''
          else AuthorizePage client_id redirect_uri (read_or scope)
      | _ \<Rightarrow> BadClient ''Unknown client_id'')"

definition sign_in_and_redirect ::
  "oauth_request \<Rightarrow> int \<Rightarrow> string option \<Rightarrow> string \<Rightarrow> oauth_db \<Rightarrow> authorize_answer \<times> oauth_db" where
  "sign_in_and_redirect rq user_id ip return_to db =
     (case activate rq user_id ip db of
        (Inl e, db1) \<Rightarrow> (ServerError, db1)
      | (Inr session_id, db1) \<Rightarrow> (SetUp session_id return_to, db1))"

record authorize_form_data =
  af_client_id :: string
  af_redirect_uri :: string
  af_scope :: "string option"
  af_email :: "string option"
  af_password :: "string option"
  af_lang :: string
  af_step :: submitted

definition authorize_submit ::
  "'k oauth_lib \<Rightarrow> oauth_request \<Rightarrow> authorize_form_data \<Rightarrow> string option \<Rightarrow> oauth_db \<Rightarrow> authorize_answer \<times> oauth_db" where
  "authorize_submit lib rq form ip db =
     (let c = Oauth (af_client_id form) (af_redirect_uri form) (or_empty (af_scope form)) (af_lang form);
          take_step = (if is_attempt (af_step form) then
              (case continue_attempt (ol_sign_in lib) (rq_moment rq) (af_step form) c ip (oa_sign_in db) of
                 (st, sdb) \<Rightarrow> (Some st, db\<lparr>oa_sign_in := sdb\<rparr>))
            else (case check_password lib rq (or_empty (af_email form)) (or_empty (af_password form)) db of
                (None, db1) \<Rightarrow> (None, db1)
              | (Some u, db1) \<Rightarrow> (case after_password (ol_sign_in lib) (rq_moment rq) u c ip (oa_sign_in db1) of
                    (st, sdb) \<Rightarrow> (Some st, db1\<lparr>oa_sign_in := sdb\<rparr>))))
      in case take_step of
        (None, db1) \<Rightarrow> (FormError ''invalid_credentials'', db1)
      | (Some (SignedIn u (Oauth client_id redirect_uri scope lang)), db1) \<Rightarrow>
          if \<not> user_confirmed rq u db1 then
            sign_in_and_redirect rq u ip (''/oauth/authorize?response_type=code&client_id='' @ ol_encode lib client_id @ ''&redirect_uri='' @
              ol_encode lib redirect_uri @ ''&scope='' @ ol_encode lib scope) db1
          else (case issue_grant lib rq client_id redirect_uri (if scope = [] then None else Some scope) u db1 of
              (Inr url, db2) \<Rightarrow> (RedirectTo url, db2)
            | (Inl _, db2) \<Rightarrow> (FormError ''invalid_credentials'', db2))
      | (Some (SignedIn u AccountPages), db1) \<Rightarrow> (FormError ''session_timeout'', db1)
      | (Some (Restart _), db1) \<Rightarrow> (FormError ''session_timeout'', db1)
      | (Some (Render page), db1) \<Rightarrow> (StepPage page, db1)
      | (Some (Failed _), db1) \<Rightarrow> (FormError ''err_server'', db1))"

section \<open>Elk\<close>

definition elk_redirect_uri :: "'k oauth_lib \<Rightarrow> string \<Rightarrow> string \<Rightarrow> string" where
  "elk_redirect_uri lib origin server =
     (let origin = rev (dropWhile (\<lambda>c. c = CHR ''/'') (rev origin))
      in origin @ ''/api/'' @ server @ ''/oauth/'' @ ol_encode lib origin)"

definition elk_app :: "oauth_db \<Rightarrow> app_row option" where
  "elk_app db = find (\<lambda>a. ap_name a = ''Elk'') (oa_apps db)"

definition elk_login ::
  "'k oauth_lib \<Rightarrow> oauth_request \<Rightarrow> string \<Rightarrow> string \<Rightarrow> oauth_db \<Rightarrow> (app_error + app_row) \<times> oauth_db" where
  "elk_login lib rq domain origin db =
     (let redirect_uri = elk_redirect_uri lib origin domain
      in if rq_down rq OaApp then (Inl (Database SqlxError), db)
         else case elk_app db of
           Some a \<Rightarrow>
             if ap_redirect_uri a = redirect_uri then (Inr a, db)
             else if rq_down rq OaAppUpdate then (Inl (Database SqlxError), db)
             else (Inr (a\<lparr>ap_redirect_uri := redirect_uri\<rparr>),
               db\<lparr>oa_apps := map (\<lambda>b. if ap_id b = ap_id a then b\<lparr>ap_redirect_uri := redirect_uri\<rparr> else b) (oa_apps db)\<rparr>)
         | None \<Rightarrow> insert_app rq ''Elk'' redirect_uri ''read write follow push'' None db)"

definition elk_oauth_callback ::
  "'k oauth_lib \<Rightarrow> oauth_request \<Rightarrow> string \<Rightarrow> string \<Rightarrow> string option \<Rightarrow> oauth_db \<Rightarrow> string \<times> oauth_db" where
  "elk_oauth_callback lib rq domain encoded_origin given db =
     (let origin = or_empty (ol_decode lib encoded_origin);
          fail = (\<lambda>err. origin @ ''/signin/callback?error='' @ err)
      in case given of
        None \<Rightarrow> (fail ''missing_code'', db)
      | Some token \<Rightarrow>
          (case (if rq_down rq OaApp then None else elk_app db) of
             None \<Rightarrow> (fail ''no_app'', db)
           | Some app \<Rightarrow>
               (case (if rq_down rq OaTakeCode then (None, db) else take_code (rq_now rq) token (ap_id app) db) of
                  (None, db1) \<Rightarrow> (fail ''invalid_code'', db1)
                | (Some g, db1) \<Rightarrow>
                    if rq_down rq OaOwner \<or> owner_row db1 (gr_owner g) = None then (fail ''no_account'', db1)
                    else if rq_down rq OaTokenInsert then (fail ''db_error'', db1)
                    else (case insert_token rq (Some (ap_id app)) (Some (gr_owner g)) (read_or (gr_scopes g)) db1 of
                        (t, db2) \<Rightarrow> (rev (dropWhile (\<lambda>c. c = CHR ''/'') (rev origin)) @ ''/signin/callback?server='' @ domain @
                          ''&token='' @ to_token t, db2)))))"

end
