(* ===== verification/OAuthTheorems.thy ===== *)
theory OAuthTheorems
  imports OAuth SignInTheorems
begin

text \<open>
  Where access tokens come from: a token of a user that the requests of \<open>OAuth\<close> make is bought with a
  code of its own, which the user was given when they signed in on the authorization page of the
  application, or is that of the session the page opened for them. And what a session leaves behind
  when it ends.
\<close>

section \<open>What the requests do\<close>

definition code_of :: "grant_row \<Rightarrow> string \<times> int \<times> int \<times> string" where
  "code_of g = (gr_token g, gr_owner g, gr_app g, read_or (gr_scopes g))"

text \<open>Whom a form of the authorization page signs in.\<close>

definition signed_in_by :: "'k oauth_lib \<Rightarrow> oauth_request \<Rightarrow> authorize_form_data \<Rightarrow> string option \<Rightarrow> oauth_db \<Rightarrow> int option" where
  "signed_in_by lib rq form ip db =
     (let c = Oauth (af_client_id form) (af_redirect_uri form) (or_empty (af_scope form)) (af_lang form);
          taken = (if is_attempt (af_step form) then
              Some (fst (continue_attempt (ol_sign_in lib) (rq_moment rq) (af_step form) c ip (oa_sign_in db)))
            else case check_password lib rq (or_empty (af_email form)) (or_empty (af_password form)) db of
                (None, db1) \<Rightarrow> None
              | (Some u, db1) \<Rightarrow> Some (fst (after_password (ol_sign_in lib) (rq_moment rq) u c ip (oa_sign_in db1))))
      in case taken of Some (SignedIn u c) \<Rightarrow> Some u | _ \<Rightarrow> None)"











text \<open>What ends: grants and tokens are only revoked, tokens only deleted.\<close>

definition ended :: "oauth_db \<Rightarrow> oauth_db \<Rightarrow> bool" where
  "ended db db' \<longleftrightarrow> oa_apps db' = oa_apps db \<and> oa_next_token db' = oa_next_token db \<and>
     map code_of (oa_grants db') = map code_of (oa_grants db) \<and>
     (\<forall>t \<in> set (oa_tokens db'). \<exists>t0 \<in> set (oa_tokens db). to_id t = to_id t0 \<and> to_owner t = to_owner t0 \<and>
        to_app t = to_app t0 \<and> to_scopes t = to_scopes t0)"


lemma ended_refl [simp]: "ended db db"
  by (auto simp: ended_def)
























text \<open>A sign-in on the authorization page grants at most one code, drawn for it, to the one who signed in.\<close>

lemma issue_grant_shape:
  assumes "issue_grant lib rq client_id redirect_uri scope u db = (r, db1)"
  obtains e where "db1 = db" "r = Inl e"
    | a g where "a \<in> set (oa_apps db)" "ap_uid a = client_id" "redirect_uri_allowed lib redirect_uri (ap_redirect_uri a)"
      "db1 = db\<lparr>oa_grants := oa_grants db @ [g]\<rparr>" "gr_app g = ap_id a" "gr_owner g = u" "gr_token g = generate_token (rq_drawn rq)"
      "scope_is_subset (read_or (gr_scopes g)) (read_or (ap_scopes a))"
      "r = Inr (redirect_uri @ (if CHR ''?'' \<in> set redirect_uri then ''&'' else ''?'') @ ''code='' @ gr_token g)"
proof (cases "find_app rq client_id db")
  case (Inl e)
  then show ?thesis using assms that(1) by (auto simp: issue_grant_def)
next
  case (Inr found)
  show ?thesis
  proof (cases found)
    case None
    then show ?thesis using Inr assms that(1) by (auto simp: issue_grant_def)
  next
    case (Some a)
    define scopes where "scopes = (case scope of None \<Rightarrow> read_or (ap_scopes a) | Some s \<Rightarrow> s)"
    define g where "g = \<lparr>gr_app = ap_id a, gr_owner = u, gr_token = generate_token (rq_drawn rq), gr_redirect_uri = redirect_uri,
                        gr_scopes = Some scopes, gr_expires_in = 600, gr_created = rq_now rq, gr_revoked = None\<rparr>"
    have a: "a \<in> set (oa_apps db)" "ap_uid a = client_id"
      using Inr Some by (auto simp: find_app_def find_Some_iff split: if_splits)
    consider "\<exists>e. r = Inl e \<and> db1 = db"
      | "redirect_uri_allowed lib redirect_uri (ap_redirect_uri a)" "scope_is_subset scopes (read_or (ap_scopes a))"
        "r = Inr (redirect_uri @ (if CHR ''?'' \<in> set redirect_uri then ''&'' else ''?'') @ ''code='' @ gr_token g)"
        "db1 = db\<lparr>oa_grants := oa_grants db @ [g]\<rparr>"
      using assms Inr Some unfolding issue_grant_def scopes_def g_def by (auto simp: Let_def split: if_splits)
    then show ?thesis
    proof cases
      case 1
      then show ?thesis using that(1) by blast
    next
      case 2
      then show ?thesis by (intro that(2) [OF a, of g]) (simp_all add: g_def read_or_def)
    qed
  qed
qed

lemma check_password_keeps:
  assumes "check_password lib rq email password db = (r, db1)"
  obtains sdb where "db1 = db\<lparr>oa_sign_in := sdb\<rparr>"
proof -
  have "db1 = db \<or> (\<exists>sdb. db1 = db\<lparr>oa_sign_in := sdb\<rparr>)"
    using assms by (auto simp: check_password_def split: if_splits option.splits)
  then show ?thesis using that [of "oa_sign_in db"] that by auto
qed

lemma authorize_submit_steps:
  assumes "authorize_submit lib rq form ip db = (answer, db')"
  obtains sdb where "db' = db\<lparr>oa_sign_in := sdb\<rparr>" "\<And>url. answer \<noteq> RedirectTo url"
    | sdb u where "signed_in_by lib rq form ip db = Some u" "db' = snd (activate rq u ip (db\<lparr>oa_sign_in := sdb\<rparr>))"
      "\<And>url. answer \<noteq> RedirectTo url"
    | sdb u client_id redirect_uri scope r where "signed_in_by lib rq form ip db = Some u"
      "issue_grant lib rq client_id redirect_uri scope u (db\<lparr>oa_sign_in := sdb\<rparr>) = (r, db')"
      "answer = (case r of Inl _ \<Rightarrow> FormError ''invalid_credentials'' | Inr url \<Rightarrow> RedirectTo url)"
proof -
  define c where "c = Oauth (af_client_id form) (af_redirect_uri form) (or_empty (af_scope form)) (af_lang form)"
  define taken where "taken = (if is_attempt (af_step form) then
              (case continue_attempt (ol_sign_in lib) (rq_moment rq) (af_step form) c ip (oa_sign_in db) of
                 (st, sdb) \<Rightarrow> (Some st, db\<lparr>oa_sign_in := sdb\<rparr>))
            else (case check_password lib rq (or_empty (af_email form)) (or_empty (af_password form)) db of
                (None, db1) \<Rightarrow> (None, db1)
              | (Some u, db1) \<Rightarrow> (case after_password (ol_sign_in lib) (rq_moment rq) u c ip (oa_sign_in db1) of
                    (st, sdb) \<Rightarrow> (Some st, db1\<lparr>oa_sign_in := sdb\<rparr>))))"
  obtain st sdb where t: "taken = (st, db\<lparr>oa_sign_in := sdb\<rparr>)"
    and s: "signed_in_by lib rq form ip db = (case st of Some (SignedIn u c) \<Rightarrow> Some u | _ \<Rightarrow> None)"
  proof (cases "is_attempt (af_step form)")
    case True
    then show ?thesis
      by (intro that [of "fst taken" "oa_sign_in (snd taken)"])
        (simp_all add: taken_def signed_in_by_def c_def Let_def split: prod.split)
  next
    case False
    obtain r db1 where p: "check_password lib rq (or_empty (af_email form)) (or_empty (af_password form)) db = (r, db1)"
      by fastforce
    obtain sdb where db1: "db1 = db\<lparr>oa_sign_in := sdb\<rparr>" by (rule check_password_keeps [OF p])
    show ?thesis
      by (intro that [of "fst taken" "oa_sign_in (snd taken)"]; cases r)
        (simp_all add: taken_def signed_in_by_def c_def Let_def False p db1 split: prod.split)
  qed
  have sub: "authorize_submit lib rq form ip db = (case taken of
        (None, db1) \<Rightarrow> (FormError ''invalid_credentials'', db1)
      | (Some (SignedIn u (Oauth client_id redirect_uri scope lang)), db1) \<Rightarrow>
          if \<not> user_confirmed rq u db1 then
            sign_in_and_redirect rq u ip (''/oauth/authorize?response_type=code&client_id='' @ ol_encode lib client_id @ ''&redirect_uri='' @
              ol_encode lib redirect_uri @ ''&scope='' @ ol_encode lib scope) db1
          else (case issue_grant lib rq client_id redirect_uri (if scope = [] then None else Some scope) u db1 of
              (Inr url, db2) \<Rightarrow> (RedirectTo url, db2)
            | (Inl _, db2) \<Rightarrow> (FormError ''invalid_credentials'', db2))
      | (Some (SignedIn u AccountPages), db1) \<Rightarrow> (FormError ''session_timeout'', db1)
      | (Some (Restart _), db1) \<Rightarrow> (FormError ''session_timeout'', db1)
      | (Some (Render page), db1) \<Rightarrow> (StepPage page, db1)
      | (Some (Failed _), db1) \<Rightarrow> (FormError ''err_server'', db1))"
    unfolding authorize_submit_def taken_def c_def Let_def by (rule refl)
  show ?thesis
  proof (cases "\<exists>u client_id redirect_uri scope lang. st = Some (SignedIn u (Oauth client_id redirect_uri scope lang))")
    case True
    then obtain u client_id redirect_uri scope lang where st: "st = Some (SignedIn u (Oauth client_id redirect_uri scope lang))" by blast
    show ?thesis
    proof (cases "user_confirmed rq u (db\<lparr>oa_sign_in := sdb\<rparr>)")
      case True
      obtain r db2 where g: "issue_grant lib rq client_id redirect_uri (if scope = [] then None else Some scope) u (db\<lparr>oa_sign_in := sdb\<rparr>) = (r, db2)"
        by fastforce
      have "answer = (case r of Inl _ \<Rightarrow> FormError ''invalid_credentials'' | Inr url \<Rightarrow> RedirectTo url) \<and> db' = db2"
        using assms unfolding sub t st by (cases r) (simp_all add: True g)
      then show ?thesis using that(3) [of u client_id redirect_uri "if scope = [] then None else Some scope" sdb r] s st g by simp
    next
      case False
      then obtain target where target: "sign_in_and_redirect rq u ip target (db\<lparr>oa_sign_in := sdb\<rparr>) = (answer, db')"
        using assms unfolding sub t st by auto
      obtain r db2 where "activate rq u ip (db\<lparr>oa_sign_in := sdb\<rparr>) = (r, db2)" by fastforce
      with target have "db' = snd (activate rq u ip (db\<lparr>oa_sign_in := sdb\<rparr>)) \<and> (\<forall>url. answer \<noteq> RedirectTo url)"
        by (cases r) (auto simp: sign_in_and_redirect_def)
      then show ?thesis using that(2) [of u sdb] s st by simp
    qed
  next
    case False
    then have "db' = db\<lparr>oa_sign_in := sdb\<rparr> \<and> (\<forall>url. answer \<noteq> RedirectTo url)"
      using assms unfolding sub t by (auto split: option.splits sign_in_step.splits continuation.splits if_splits)
    then show ?thesis using that(1) by blast
  qed
qed









section \<open>Tokens and codes\<close>


definition sample_oauth_lib :: "unit oauth_lib" where
  "sample_oauth_lib = \<lparr>ol_sign_in = sample_lib, ol_parse = \<lambda>s. Some \<lparr>ou_scheme = ''https'', ou_rest = s, ou_query = None, ou_pairs = []\<rparr>,
     ol_encode = \<lambda>s. s, ol_decode = Some, ol_password = (=)\<rparr>"

definition sample_oauth_request :: oauth_request where
  "sample_oauth_request = \<lparr>rq_moment = sample_moment, rq_down = \<lambda>_. False, rq_drawn = [171], rq_secret = [205], rq_user_agent = None\<rparr>"

definition sample_oauth_db :: oauth_db where
  "sample_oauth_db = \<lparr>oa_sign_in = sample_auth_db\<lparr>ad_users := [sample_tf_user\<lparr>tu_otp_required := False, tu_otp_secret := None, tu_password := ''pw''\<rparr>]\<rparr>,
     oa_apps = [\<lparr>ap_id = 7, ap_name = ''n'', ap_uid = ''app'', ap_secret = ''s'', ap_redirect_uri = ''https://a/'', ap_scopes = Some ''read write'', ap_website = None, ap_superapp = False\<rparr>],
     oa_grants = [], oa_tokens = [], oa_push = [], oa_sessions = [], oa_next_app = 8, oa_next_token = 9, oa_next_session = 1\<rparr>"

definition sample_authorize :: authorize_form_data where
  "sample_authorize = \<lparr>af_client_id = ''app'', af_redirect_uri = ''https://a/'', af_scope = Some ''read'', af_email = Some ''a'',
     af_password = Some ''pw'', af_lang = ''en'', af_step = \<lparr>sb_attempt = None, sb_otp = None, sb_credential = None, sb_setup_otp = None, sb_resume = None\<rparr>\<rparr>"


definition sample_granted :: oauth_db where
  "sample_granted = snd (authorize_submit sample_oauth_lib sample_oauth_request sample_authorize None sample_oauth_db)"






text \<open>
  C17: The authorization page sends the browser away with a code only when somebody has signed in on
  it, to a redirect URI its application registered, with a code that is theirs, good for ten
  minutes and for no more than the scopes the application registered.
\<close>

theorem codes_go_where_registered:
  assumes "authorize_submit lib rq form ip db = (RedirectTo url, db')"
  shows "\<exists>a uri g. a \<in> set (oa_apps db) \<and> redirect_uri_allowed lib uri (ap_redirect_uri a) \<and>
    url = uri @ (if CHR ''?'' \<in> set uri then ''&'' else ''?'') @ ''code='' @ gr_token g \<and>
    oa_grants db' = oa_grants db @ [g] \<and> gr_app g = ap_id a \<and> signed_in_by lib rq form ip db = Some (gr_owner g) \<and>
    scope_is_subset (read_or (gr_scopes g)) (read_or (ap_scopes a))"
  using assms
proof (cases rule: authorize_submit_steps)
  case (1 sdb)
  then show ?thesis using 1(2) [of url] by blast
next
  case (2 sdb u)
  then show ?thesis using 2(3) [of url] by blast
next
  case (3 sdb u client_id redirect_uri scope r)
  note 2 = 3
  have "r = Inr url" using 2(3) by (simp split: sum.splits)
  note who = 2(1)
  from 2(2) show ?thesis
  proof (cases rule: issue_grant_shape)
    case (1 e)
    then show ?thesis using \<open>r = Inr url\<close> by simp
  next
    case (2 a g)
    then show ?thesis using who \<open>r = Inr url\<close> by (intro exI [of _ a] exI [of _ redirect_uri] exI [of _ g]) simp
  qed
qed

lemma codes_go_where_registered_witness:
  "\<exists>a uri (g :: grant_row). a \<in> set (oa_apps sample_oauth_db) \<and> redirect_uri_allowed sample_oauth_lib uri (ap_redirect_uri a) \<and>
    ''https://a/?code=ab'' = uri @ (if CHR ''?'' \<in> set uri then ''&'' else ''?'') @ ''code='' @ gr_token g"
proof -
  have "fst (authorize_submit sample_oauth_lib sample_oauth_request sample_authorize None sample_oauth_db) = RedirectTo ''https://a/?code=ab''"
    by code_simp
  then have "authorize_submit sample_oauth_lib sample_oauth_request sample_authorize None sample_oauth_db =
      (RedirectTo ''https://a/?code=ab'', sample_granted)"
    by (simp add: sample_granted_def prod_eq_iff)
  from codes_go_where_registered [OF this] show ?thesis by blast
qed

text \<open>
  Whoever asks for a sign-in with Elk chooses the origin, nobody being signed in: the
  application called Elk, when there is one, is from then on registered with the redirect URI of
  that origin, its secret and scopes as they were, and the page lets codes go there.
\<close>

theorem anyone_moves_the_elk_redirect:
  assumes "elk_app db = Some a" "\<not> rq_down rq OaApp" "\<not> rq_down rq OaAppUpdate"
    and "uri = elk_redirect_uri lib origin domain" "uri \<noteq> []" "list_all (\<lambda>c. \<not> is_space c) uri"
    and "ol_parse lib uri = Some parsed" "to_ascii_lowercase (ou_scheme parsed) \<notin> {''data'', ''javascript'', ''vbscript''}"
  shows "a\<lparr>ap_redirect_uri := uri\<rparr> \<in> set (oa_apps (snd (elk_login lib rq domain origin db))) \<and>
    redirect_uri_allowed lib uri (ap_redirect_uri (a\<lparr>ap_redirect_uri := uri\<rparr>))"
proof
  have a: "a \<in> set (oa_apps db)" using assms(1) by (auto simp: elk_app_def find_Some_iff)
  show "a\<lparr>ap_redirect_uri := uri\<rparr> \<in> set (oa_apps (snd (elk_login lib rq domain origin db)))"
  proof (cases "ap_redirect_uri a = uri")
    case True
    then have "a\<lparr>ap_redirect_uri := uri\<rparr> = a" by (cases a) simp
    moreover have "snd (elk_login lib rq domain origin db) = db"
      using True assms(1-4) by (simp add: elk_login_def Let_def)
    ultimately show ?thesis using a by simp
  next
    case False
    then have "oa_apps (snd (elk_login lib rq domain origin db)) =
        map (\<lambda>b. if ap_id b = ap_id a then b\<lparr>ap_redirect_uri := uri\<rparr> else b) (oa_apps db)"
      using assms(1-4) by (simp add: elk_login_def Let_def)
    then show ?thesis using a by force
  qed
  show "redirect_uri_allowed lib uri (ap_redirect_uri (a\<lparr>ap_redirect_uri := uri\<rparr>))"
    using assms(5-8) by (simp add: redirect_uri_allowed_def split_by_none redirect_uri_matches_def)
qed

lemma anyone_moves_the_elk_redirect_witness:
  "''https://evil/api/d/oauth/https://evil'' \<in> ap_redirect_uri ` set (oa_apps (snd (elk_login sample_oauth_lib sample_oauth_request ''d'' ''https://evil''
     (sample_oauth_db\<lparr>oa_apps := [(hd (oa_apps sample_oauth_db))\<lparr>ap_name := ''Elk''\<rparr>]\<rparr>))))"
proof -
  let ?a = "(hd (oa_apps sample_oauth_db))\<lparr>ap_name := ''Elk''\<rparr>" and ?uri = "''https://evil/api/d/oauth/https://evil''"
  have "elk_redirect_uri sample_oauth_lib ''https://evil'' ''d'' = ?uri" by code_simp
  moreover have "list_all (\<lambda>c. \<not> is_space c) ?uri" by code_simp
  moreover have "to_ascii_lowercase ''https'' \<notin> {''data'', ''javascript'', ''vbscript''}" by code_simp
  ultimately have "?a\<lparr>ap_redirect_uri := ?uri\<rparr> \<in> set (oa_apps (snd (elk_login sample_oauth_lib sample_oauth_request ''d'' ''https://evil''
     (sample_oauth_db\<lparr>oa_apps := [?a]\<rparr>))))"
    by (intro anyone_moves_the_elk_redirect [where
        parsed = "\<lparr>ou_scheme = ''https'', ou_rest = ?uri, ou_query = None, ou_pairs = []\<rparr>", THEN conjunct1])
      (simp_all add: elk_app_def sample_oauth_request_def sample_oauth_lib_def)
  then show ?thesis by (rule image_eqI [rotated]) simp
qed

end
