(* ===== verification/SessionFacts.thy ===== *)
theory SessionFacts
  imports Sessions
begin

text \<open>
  The sessions of \<^verbatim>\<open>src/sessions.rs\<close>: no user keeps more than ten, and what happens to a token that
  several of them share.
\<close>

section \<open>What is purged\<close>

text \<open>Ids of sessions are distinct and below the sequence; so are their cookies.\<close>

definition sessions_ok :: "oauth_db \<Rightarrow> bool" where
  "sessions_ok db \<longleftrightarrow> distinct (map se_id (oa_sessions db)) \<and> distinct (map se_session_id (oa_sessions db)) \<and>
     (\<forall>s \<in> set (oa_sessions db). se_id s < oa_next_session db)"

lemma delete_tokens_sessions:
  "set (oa_sessions (delete_tokens ts db)) = {s \<in> set (oa_sessions db). \<forall>t \<in> set ts. se_token s \<noteq> Some t}"
  by (auto simp: delete_tokens_def)

lemma destroy_sessions:
  assumes "\<not> rq_down rq SeDestroy"
  shows "set (oa_sessions (snd (destroy_where_ids rq ids db))) = {s \<in> set (oa_sessions db). se_id s \<notin> set ids \<and>
      (\<forall>r \<in> set (oa_sessions db). se_id r \<in> set ids \<longrightarrow> se_token r \<noteq> None \<longrightarrow> se_token s \<noteq> se_token r)}"
    and "r \<in> set (oa_sessions db) \<Longrightarrow> se_id r \<in> set ids \<Longrightarrow> se_token r = Some i \<Longrightarrow>
      i \<notin> to_id ` set (oa_tokens (snd (destroy_where_ids rq ids db)))"
proof -
  let ?gone = "filter (\<lambda>s. se_id s \<in> set ids) (oa_sessions db)"
  have tokens: "t \<in> set (List.map_filter se_token ?gone) \<longleftrightarrow> (\<exists>r \<in> set (oa_sessions db). se_id r \<in> set ids \<and> se_token r = Some t)" for t
    by (force simp: List.map_filter_def)
  show "set (oa_sessions (snd (destroy_where_ids rq ids db))) = {s \<in> set (oa_sessions db). se_id s \<notin> set ids \<and>
      (\<forall>r \<in> set (oa_sessions db). se_id r \<in> set ids \<longrightarrow> se_token r \<noteq> None \<longrightarrow> se_token s \<noteq> se_token r)}"
  proof (cases "ids = []")
    case False
    have "(\<forall>t \<in> set (List.map_filter se_token ?gone). se_token s \<noteq> Some t) \<longleftrightarrow>
        (\<forall>r \<in> set (oa_sessions db). se_id r \<in> set ids \<longrightarrow> se_token r \<noteq> None \<longrightarrow> se_token s \<noteq> se_token r)" for s
      unfolding Ball_def tokens by (metis not_None_eq)
    then show ?thesis using assms False by (auto simp: destroy_where_ids_def delete_tokens_sessions Let_def simp del: not_None_eq)
  qed (simp add: destroy_where_ids_def)
  assume "r \<in> set (oa_sessions db)" "se_id r \<in> set ids" "se_token r = Some i"
  then have "i \<in> set (List.map_filter se_token ?gone)" "ids \<noteq> []" unfolding tokens by auto
  then show "i \<notin> to_id ` set (oa_tokens (snd (destroy_where_ids rq ids db)))"
    using assms by (auto simp: destroy_where_ids_def delete_tokens_def Let_def)
qed

text \<open>The newest ten of a list of ids.\<close>

lemma newest_ten:
  assumes "distinct xs" "x \<in> set (take n (rev (sort xs)))"
  shows "card {y \<in> set xs. y > (x :: int)} < n"
proof -
  obtain j where j: "j < n" "j < length xs" "rev (sort xs) ! j = x"
    using assms(2) by (auto simp: in_set_conv_nth)
  have desc: "rev (sort xs) ! k \<le> x" if "j \<le> k" "k < length xs" for k
    using sorted_rev_nth_mono [of "rev (sort xs)" j k] that j(3) by simp
  have "{y \<in> set xs. y > x} \<subseteq> set (take j (rev (sort xs)))"
  proof
    fix y assume y: "y \<in> {y \<in> set xs. y > x}"
    then obtain k where "k < length xs" "rev (sort xs) ! k = y"
      by (metis (no_types, lifting) in_set_conv_nth length_rev length_sort mem_Collect_eq set_rev set_sort)
    moreover have "k < j" using desc [of k] calculation y by (cases "k < j") auto
    ultimately show "y \<in> set (take j (rev (sort xs)))" using j(2) by (force simp: in_set_conv_nth)
  qed
  then have "card {y \<in> set xs. y > x} \<le> card (set (take j (rev (sort xs))))" by (rule card_mono [OF finite_set])
  also have "\<dots> \<le> j" using card_length [of "take j (rev (sort xs))"] by simp
  finally show ?thesis using j(1) by simp
qed

lemma activated:
  assumes "\<forall>q. \<not> rq_down rq q" "generate_token (rq_secret rq) \<notin> se_session_id ` set (oa_sessions db)"
  obtains row where "se_user row = u" "se_id row = oa_next_session db" "se_token row = Some i"
    "se_session_id row = generate_token (rq_secret rq)"
    "activate_with_token rq u i ip db = (Inr (generate_token (rq_secret rq)),
       snd (destroy_where_ids rq (drop MAX_SESSION_ACTIVATIONS (rev (sessions_of u (db\<lparr>oa_sessions := oa_sessions db @ [row]\<rparr>))))
         (db\<lparr>oa_sessions := oa_sessions db @ [row], oa_next_session := oa_next_session db + 1\<rparr>)))"
proof
  let ?row = "\<lparr>se_id = oa_next_session db, se_session_id = generate_token (rq_secret rq), se_user = u,
      se_token = Some i, se_push = None, se_ip = ip, se_user_agent = or_empty (rq_user_agent rq)\<rparr>"
  have "\<not> list_ex (\<lambda>s. se_session_id s = generate_token (rq_secret rq)) (oa_sessions db)"
    using assms(2) unfolding list_ex_iff by (metis image_eqI)
  then show "activate_with_token rq u i ip db = (Inr (generate_token (rq_secret rq)),
       snd (destroy_where_ids rq (drop MAX_SESSION_ACTIVATIONS (rev (sessions_of u (db\<lparr>oa_sessions := oa_sessions db @ [?row]\<rparr>))))
         (db\<lparr>oa_sessions := oa_sessions db @ [?row], oa_next_session := oa_next_session db + 1\<rparr>)))"
    using assms(1) by (simp add: activate_with_token_def purge_old_def destroy_where_ids_def sessions_of_def Let_def)
qed simp_all

lemma new_session_ids:
  assumes "sessions_ok db" "se_id row = oa_next_session db"
  shows "distinct (map se_id (filter P (oa_sessions db @ [row])))"
proof -
  have "distinct (map se_id (oa_sessions db @ [row]))" using assms by (auto simp: sessions_ok_def)
  then show ?thesis by (rule distinct_map_filter)
qed

theorem ten_sessions_at_most:
  assumes "sessions_ok db" "\<forall>q. \<not> rq_down rq q" "generate_token (rq_secret rq) \<notin> se_session_id ` set (oa_sessions db)"
  shows "card {s \<in> set (oa_sessions (snd (activate_with_token rq u i ip db))). se_user s = u} \<le> MAX_SESSION_ACTIVATIONS"
proof -
  from activated [OF assms(2,3), of u i ip] obtain row where row: "se_id row = oa_next_session db"
    and run: "activate_with_token rq u i ip db = (Inr (generate_token (rq_secret rq)),
       snd (destroy_where_ids rq (drop MAX_SESSION_ACTIVATIONS (rev (sessions_of u (db\<lparr>oa_sessions := oa_sessions db @ [row]\<rparr>))))
         (db\<lparr>oa_sessions := oa_sessions db @ [row], oa_next_session := oa_next_session db + 1\<rparr>)))" by metis
  define S where "S = sessions_of u (db\<lparr>oa_sessions := oa_sessions db @ [row]\<rparr>)"
  let ?left = "{s \<in> set (oa_sessions (snd (activate_with_token rq u i ip db))). se_user s = u}"
  have left: "?left \<subseteq> {s \<in> set (oa_sessions db @ [row]). se_user s = u \<and> se_id s \<notin> set (drop MAX_SESSION_ACTIVATIONS (rev S))}"
    unfolding run snd_conv destroy_sessions(1) [OF assms(2) [rule_format]] S_def by auto
  have S: "set S = se_id ` {s \<in> set (oa_sessions db @ [row]). se_user s = u}" by (auto simp: S_def sessions_of_def)
  have "distinct (map se_id (oa_sessions db @ [row]))" using new_session_ids [OF assms(1) row, of "\<lambda>_. True"] by simp
  then have "inj_on se_id (set (oa_sessions db @ [row]))" unfolding distinct_map by (rule conjunct2)
  then have "inj_on se_id ?left" by (rule inj_on_subset) (use left in auto)
  moreover have "se_id ` ?left \<subseteq> set (take MAX_SESSION_ACTIVATIONS (rev S))"
  proof
    fix x assume "x \<in> se_id ` ?left"
    then have "x \<in> set S" "x \<notin> set (drop MAX_SESSION_ACTIVATIONS (rev S))" using left S by auto
    then show "x \<in> set (take MAX_SESSION_ACTIVATIONS (rev S))"
      by (metis UnE append_take_drop_id set_append set_rev)
  qed
  ultimately have "card ?left \<le> card (set (take MAX_SESSION_ACTIVATIONS (rev S)))"
    by (metis (no_types, lifting) card_image card_mono finite_set)
  also have "\<dots> \<le> MAX_SESSION_ACTIVATIONS" using card_length [of "take MAX_SESSION_ACTIVATIONS (rev S)"] by simp
  finally show ?thesis .
qed

section \<open>Sessions that share a token\<close>

text \<open>
  \<^verbatim>\<open>/account/sso\<close> makes a session of a token that already exists, so several sessions of a user can
  have the same one. When such a sign-in makes the oldest of them the eleventh, its token is deleted
  with it, and with the token every session that has it: the one that was just opened too, whose
  cookie is answered all the same, and the token the client signed in with is gone.
\<close>

theorem eleventh_session_of_a_token_ends_them_all:
  assumes "sessions_ok db" "\<forall>q. \<not> rq_down rq q" "generate_token (rq_secret rq) \<notin> se_session_id ` set (oa_sessions db)"
    and "old \<in> set (oa_sessions db)" "se_user old = u" "se_token old = Some i"
    and "9 \<le> card {s \<in> set (oa_sessions db). se_user s = u \<and> se_id s > se_id old}"
  shows "fst (activate_with_token rq u i ip db) = Inr (generate_token (rq_secret rq)) \<and>
    (\<forall>s \<in> set (oa_sessions (snd (activate_with_token rq u i ip db))).
       se_token s \<noteq> Some i \<and> se_session_id s \<noteq> generate_token (rq_secret rq)) \<and>
    i \<notin> to_id ` set (oa_tokens (snd (activate_with_token rq u i ip db)))"
proof -
  from activated [OF assms(2,3), of u i ip] obtain row where row: "se_user row = u" "se_id row = oa_next_session db"
      "se_token row = Some i" "se_session_id row = generate_token (rq_secret rq)"
    and run: "activate_with_token rq u i ip db = (Inr (generate_token (rq_secret rq)),
       snd (destroy_where_ids rq (drop MAX_SESSION_ACTIVATIONS (rev (sessions_of u (db\<lparr>oa_sessions := oa_sessions db @ [row]\<rparr>))))
         (db\<lparr>oa_sessions := oa_sessions db @ [row], oa_next_session := oa_next_session db + 1\<rparr>)))" by metis
  define ids where "ids = map se_id (filter (\<lambda>s. se_user s = u) (oa_sessions db @ [row]))"
  have ids: "sessions_of u (db\<lparr>oa_sessions := oa_sessions db @ [row]\<rparr>) = sort ids" by (simp add: sessions_of_def ids_def)
  have newer: "{y \<in> set ids. y > se_id old} =
      insert (se_id row) (se_id ` {s \<in> set (oa_sessions db). se_user s = u \<and> se_id s > se_id old})"
    using assms(1,4) row(1,2) by (auto simp: ids_def sessions_ok_def)
  have "inj_on se_id {s \<in> set (oa_sessions db). se_user s = u \<and> se_id s > se_id old}"
    using assms(1) by (auto simp: sessions_ok_def distinct_map intro: inj_on_subset)
  moreover have "se_id row \<notin> se_id ` {s \<in> set (oa_sessions db). se_user s = u \<and> se_id s > se_id old}"
    using assms(1) row(2) by (auto simp: sessions_ok_def)
  ultimately have "10 \<le> card {y \<in> set ids. y > se_id old}"
    using assms(7) unfolding newer by (simp add: card_image)
  then have "se_id old \<notin> set (take MAX_SESSION_ACTIVATIONS (rev (sort ids)))"
    using newest_ten [OF new_session_ids [OF assms(1) row(2), of "\<lambda>s. se_user s = u", folded ids_def],
        of "se_id old" MAX_SESSION_ACTIVATIONS] unfolding MAX_SESSION_ACTIVATIONS_def by linarith
  moreover have "se_id old \<in> set (rev (sort ids))" using assms(4,5) by (auto simp: ids_def)
  ultimately have stale: "se_id old \<in> set (drop MAX_SESSION_ACTIVATIONS (rev (sort ids)))"
    by (metis UnE append_take_drop_id set_append)
  let ?stale = "drop MAX_SESSION_ACTIVATIONS (rev (sort ids))"
  let ?db = "db\<lparr>oa_sessions := oa_sessions db @ [row], oa_next_session := oa_next_session db + 1\<rparr>"
  have up: "\<not> rq_down rq SeDestroy" using assms(2) by simp
  have run': "activate_with_token rq u i ip db = (Inr (generate_token (rq_secret rq)), snd (destroy_where_ids rq ?stale ?db))"
    unfolding run ids ..
  have old: "old \<in> set (oa_sessions ?db)" using assms(4) by simp
  have gone: "se_token s \<noteq> Some i" if "s \<in> set (oa_sessions (snd (destroy_where_ids rq ?stale ?db)))" for s
    using that old stale assms(6) unfolding destroy_sessions(1) [OF up] by auto
  have "se_session_id s \<noteq> generate_token (rq_secret rq)" if s: "s \<in> set (oa_sessions (snd (destroy_where_ids rq ?stale ?db)))" for s
  proof
    assume cookie: "se_session_id s = generate_token (rq_secret rq)"
    have "s \<in> set (oa_sessions ?db)" using s unfolding destroy_sessions(1) [OF up] by blast
    then have "s = row \<or> s \<in> set (oa_sessions db)" by auto
    then show False
    proof
      assume "s = row"
      then show False using gone [OF s] row(3) by simp
    next
      assume "s \<in> set (oa_sessions db)"
      then have "se_session_id s \<in> se_session_id ` set (oa_sessions db)" by (rule imageI)
      then show False using assms(3) unfolding cookie by (rule notE [rotated])
    qed
  qed
  moreover have "i \<notin> to_id ` set (oa_tokens (snd (destroy_where_ids rq ?stale ?db)))"
    by (rule destroy_sessions(2) [OF up old stale assms(6)])
  ultimately show ?thesis unfolding run' using gone by simp
qed

text \<open>Ten sessions of user 1 with the token 5: the eleventh sign-in with it leaves none, and no token.\<close>

definition ten_of_one_token :: oauth_db where
  "ten_of_one_token = \<lparr>oa_sign_in = undefined, oa_apps = [], oa_grants = [],
     oa_tokens = [\<lparr>to_id = 5, to_app = None, to_owner = Some 1, to_token = ''t'', to_scopes = ''read'', to_created = 0,
       to_expires_in = None, to_revoked = None\<rparr>],
     oa_push = [], oa_sessions = map (\<lambda>k. \<lparr>se_id = int k, se_session_id = replicate k CHR ''s'', se_user = 1, se_token = Some 5,
       se_push = None, se_ip = None, se_user_agent = []\<rparr>) [1..<11],
     oa_next_app = 1, oa_next_token = 6, oa_next_session = 11\<rparr>"

lemma eleventh_session_of_a_token_ends_them_all_witness:
  "(case activate_with_token \<lparr>rq_moment = undefined, rq_down = \<lambda>_. False, rq_drawn = [], rq_secret = [205], rq_user_agent = None\<rparr>
      1 5 None ten_of_one_token of (answer, db) \<Rightarrow> (answer, oa_sessions db, oa_tokens db)) = (Inr ''cd'', [], [])"
  by code_simp

end
