(* ===== verification/Breakers.thy ===== *)
theory Breakers
  imports Coordination
begin

text \<open>
  What \<^verbatim>\<open>src/federation/delivery.rs\<close> decides about a delivery that fails: which answers are
  final, when the next attempt is, and the circuit breaker of an inbox, kept in Redis. The types
  of ojak's deliverer the code fills in (\<open>circuit_breaker\<close>, \<open>admission\<close>) are taken with the parts
  it uses; what ojak does with them is not here. Time is in microseconds, the clock of a breaker
  in milliseconds. Which commands Redis answers is an argument.
\<close>

section \<open>Failures and retries\<close>

definition unsalvageable :: "nat \<Rightarrow> bool" where
  "unsalvageable status \<longleftrightarrow> status = 501 \<or> (400 \<le> status \<and> status < 500) \<and> status \<notin> {401, 408, 429}"

definition saturating_u64 :: "int \<Rightarrow> int" where
  "saturating_u64 n = min n (2 ^ 64 - 1)"

text \<open>
  The wait after a failure, in seconds: \<open>fraction\<close> is what a random number below one times half of
  its argument, or times one when that is more, truncates to, and \<open>draw\<close> a random number below its
  argument. The sum is of 64 bits; \<open>None\<close> is its overflow.
\<close>

definition retry_in :: "(int \<Rightarrow> int) \<Rightarrow> (int \<Rightarrow> int) \<Rightarrow> int \<Rightarrow> int option" where
  "retry_in fraction draw failed =
     (let count = max 0 (failed - 1);
          base = saturating_u64 (count ^ 4);
          wait = base + 15 + fraction base + draw (10 * (count + 1))
      in if wait < 2 ^ 64 then Some wait else None)"

section \<open>The breaker of an inbox\<close>

record circuit_breaker =
  cb_threshold :: int
  cb_cool_off :: int

definition BREAKER :: circuit_breaker where
  "BREAKER = \<lparr>cb_threshold = 10, cb_cool_off = 60000\<rparr>"

definition BREAKER_TTL_SECS :: int where
  "BREAKER_TTL_SECS = 7 * 24 * 60 * 60"

datatype admission = Pass | Held int | Probe redis_lock

datatype breaker_call =
  GetRecovery | TakeProbe | ClearFailures | Reopen | CloseBreaker | ForgetFailures | CountFailure | DropProbe

text \<open>The three kinds of keys: their names differ in their last part.\<close>

record breaker_store =
  bs_failures :: "int ttl_store"
  bs_recovery :: "int ttl_store"
  bs_probes :: "string ttl_store"

definition failures_key :: "keyspace \<Rightarrow> string \<Rightarrow> string" where
  "failures_key keys inbox = ks_key keys (''stoplight:'' @ inbox @ '':failures'')"

definition recovery_key :: "keyspace \<Rightarrow> string \<Rightarrow> string" where
  "recovery_key keys inbox = ks_key keys (''stoplight:'' @ inbox @ '':recovery_after'')"

definition probe_name :: "string \<Rightarrow> string" where
  "probe_name inbox = ''stoplight:'' @ inbox @ '':probe''"

definition now_millis :: "int \<Rightarrow> int" where
  "now_millis now = now div 1000"

definition admit ::
  "(breaker_call \<Rightarrow> bool) \<Rightarrow> int \<Rightarrow> keyspace \<Rightarrow> string \<Rightarrow> circuit_breaker \<Rightarrow> string \<Rightarrow> breaker_store \<Rightarrow> admission \<times> breaker_store"
where
  "admit up now keys token breaker inbox s =
     (if \<not> up GetRecovery then (Pass, s)
      else case ttl_get now (bs_recovery s) (recovery_key keys inbox) of
        None \<Rightarrow> (Pass, s)
      | Some recovery_after \<Rightarrow>
          if now_millis now < recovery_after then (Held (recovery_after - now_millis now), s)
          else case try_acquire_on (up TakeProbe) now keys (probe_name inbox) token (max (cb_cool_off breaker) 1) (bs_probes s) of
            (None, probes) \<Rightarrow> (Held (cb_cool_off breaker), s\<lparr>bs_probes := probes\<rparr>)
          | (Some lock, probes) \<Rightarrow>
              (Probe lock, s\<lparr>bs_probes := probes,
                 bs_failures := if up ClearFailures then ttl_del (failures_key keys inbox) (bs_failures s) else bs_failures s\<rparr>))"

definition reopen :: "int \<Rightarrow> keyspace \<Rightarrow> circuit_breaker \<Rightarrow> string \<Rightarrow> breaker_store \<Rightarrow> breaker_store" where
  "reopen now keys breaker inbox s =
     s\<lparr>bs_recovery := ttl_set_ex now (seconds BREAKER_TTL_SECS) (recovery_key keys inbox)
         (saturating_u64 (now_millis now + cb_cool_off breaker)) (bs_recovery s)\<rparr>"

definition record_counted ::
  "int \<Rightarrow> keyspace \<Rightarrow> string \<Rightarrow> breaker_store \<Rightarrow> int \<times> breaker_store" where
  "record_counted now keys inbox s =
     (case ttl_incr now (failures_key keys inbox) (bs_failures s) of (n, failures) \<Rightarrow>
        (n, s\<lparr>bs_failures := ttl_expire now (seconds BREAKER_TTL_SECS) (failures_key keys inbox) failures\<rparr>))"

definition drop_probe :: "bool \<Rightarrow> int \<Rightarrow> redis_lock option \<Rightarrow> breaker_store \<Rightarrow> breaker_store" where
  "drop_probe up now probe s =
     (case probe of None \<Rightarrow> s | Some lock \<Rightarrow> s\<lparr>bs_probes := lock_drop up now lock (bs_probes s)\<rparr>)"

definition breaker_record ::
  "(breaker_call \<Rightarrow> bool) \<Rightarrow> int \<Rightarrow> keyspace \<Rightarrow> circuit_breaker \<Rightarrow> string \<Rightarrow> bool \<Rightarrow> redis_lock option \<Rightarrow> breaker_store \<Rightarrow>
     bool \<times> breaker_store"
where
  "breaker_record up now keys breaker inbox failed probe s =
     (let (ok, s') = (case (probe \<noteq> None, failed) of
         (True, True) \<Rightarrow> if up Reopen then (True, reopen now keys breaker inbox s) else (False, s)
       | (True, False) \<Rightarrow>
           if up CloseBreaker then (True, s\<lparr>bs_recovery := ttl_del (recovery_key keys inbox) (bs_recovery s)\<rparr>) else (False, s)
       | (False, False) \<Rightarrow>
           if up ForgetFailures then
             (True, s\<lparr>bs_failures := ttl_del (failures_key keys inbox) (bs_failures s),
                bs_recovery := ttl_expire now (seconds BREAKER_TTL_SECS) (recovery_key keys inbox) (bs_recovery s)\<rparr>)
           else (False, s)
       | (False, True) \<Rightarrow>
           if up CountFailure then
             (case record_counted now keys inbox s of (n, s') \<Rightarrow>
                if n \<ge> max (cb_threshold breaker) 1 then
                  (if up Reopen then (True, reopen now keys breaker inbox s') else (False, s'))
                else (True, s'))
           else (False, s))
      in (ok, drop_probe (up DropProbe) now probe s'))"

end
