(* ===== verification/BreakerTheorems.thy ===== *)
theory BreakerTheorems
  imports Breakers
begin

text \<open>
  What the breaker of an inbox promises: ten failures hold it, and while it is being probed only
  the probe goes through.
\<close>

datatype breaker_event =
    Try "breaker_call \<Rightarrow> bool" int string string
  | Outcome "breaker_call \<Rightarrow> bool" int string bool "redis_lock option"

fun breaker_time :: "breaker_event \<Rightarrow> int" where
  "breaker_time (Try up now token inbox) = now"
| "breaker_time (Outcome up now inbox failed probe) = now"

fun breaker_inbox :: "breaker_event \<Rightarrow> string" where
  "breaker_inbox (Try up now token inbox) = inbox"
| "breaker_inbox (Outcome up now inbox failed probe) = inbox"

fun on_breaker_event :: "keyspace \<Rightarrow> circuit_breaker \<Rightarrow> breaker_event \<Rightarrow> breaker_store \<Rightarrow> breaker_store" where
  "on_breaker_event keys breaker (Try up now token inbox) s = snd (admit up now keys token breaker inbox s)"
| "on_breaker_event keys breaker (Outcome up now inbox failed probe) s =
     snd (breaker_record up now keys breaker inbox failed probe s)"

definition breaker_run :: "keyspace \<Rightarrow> circuit_breaker \<Rightarrow> breaker_event list \<Rightarrow> breaker_store \<Rightarrow> breaker_store" where
  "breaker_run keys breaker es s = fold (on_breaker_event keys breaker) es s"

lemma breaker_keys_inj [simp]:
  "failures_key keys a = failures_key keys b \<longleftrightarrow> a = b"
  "recovery_key keys a = recovery_key keys b \<longleftrightarrow> a = b"
  "probe_name a = probe_name b \<longleftrightarrow> a = b"
  by (simp_all add: failures_key_def recovery_key_def probe_name_def)

lemma failures_key_neq [simp]: "a \<noteq> b \<Longrightarrow> failures_key keys a \<noteq> failures_key keys b"
  by simp

section \<open>What other inboxes do\<close>

lemma admit_other:
  assumes "i \<noteq> inbox"
  shows "bs_failures (snd (admit up now keys token br i s)) (failures_key keys inbox) = bs_failures s (failures_key keys inbox)"
    and "bs_recovery (snd (admit up now keys token br i s)) = bs_recovery s"
  using assms by (simp_all add: admit_def ttl_other split: option.split prod.split)

lemma drop_probe_keys [simp]:
  "bs_failures (drop_probe up now probe s) = bs_failures s"
  "bs_recovery (drop_probe up now probe s) = bs_recovery s"
  by (simp_all add: drop_probe_def split: option.split)

text \<open>What recording an outcome does to the counts and the recovery times.\<close>

definition outcome_store ::
  "(breaker_call \<Rightarrow> bool) \<Rightarrow> int \<Rightarrow> keyspace \<Rightarrow> circuit_breaker \<Rightarrow> string \<Rightarrow> bool \<Rightarrow> bool \<Rightarrow> breaker_store \<Rightarrow> breaker_store"
where
  "outcome_store up now keys br i failed probing s =
     (if probing then
        (if failed then (if up Reopen then reopen now keys br i s else s)
         else if up CloseBreaker then s\<lparr>bs_recovery := ttl_del (recovery_key keys i) (bs_recovery s)\<rparr> else s)
      else if failed then
        (if up CountFailure then
           (if fst (record_counted now keys i s) \<ge> max (cb_threshold br) 1 \<and> up Reopen
            then reopen now keys br i (snd (record_counted now keys i s)) else snd (record_counted now keys i s))
         else s)
      else if up ForgetFailures then
        s\<lparr>bs_failures := ttl_del (failures_key keys i) (bs_failures s),
          bs_recovery := ttl_expire now (seconds BREAKER_TTL_SECS) (recovery_key keys i) (bs_recovery s)\<rparr>
      else s)"

lemma record_cases:
  "snd (breaker_record up now keys br i True (Some lock) s) = drop_probe (up DropProbe) now (Some lock) (outcome_store up now keys br i True True s)"
  "snd (breaker_record up now keys br i False (Some lock) s) = drop_probe (up DropProbe) now (Some lock) (outcome_store up now keys br i False True s)"
  "snd (breaker_record up now keys br i False None s) = drop_probe (up DropProbe) now None (outcome_store up now keys br i False False s)"
  "snd (breaker_record up now keys br i True None s) = drop_probe (up DropProbe) now None (outcome_store up now keys br i True False s)"
  unfolding breaker_record_def outcome_store_def
  by (simp_all add: case_prod_beta)

lemma record_keys:
  "bs_failures (snd (breaker_record up now keys br i failed probe s)) = bs_failures (outcome_store up now keys br i failed (probe \<noteq> None) s)"
  "bs_recovery (snd (breaker_record up now keys br i failed probe s)) = bs_recovery (outcome_store up now keys br i failed (probe \<noteq> None) s)"
  by (cases failed; cases probe; simp only: record_cases drop_probe_keys option.distinct not_True_eq_False simp_thms)+

lemma counted_other:
  assumes "i \<noteq> inbox"
  shows "bs_failures (snd (record_counted now keys i s)) (failures_key keys inbox) = bs_failures s (failures_key keys inbox)"
  using assms ttl_other(4) [of "failures_key keys i" "failures_key keys inbox" now "bs_failures s"]
  by (cases "ttl_incr now (failures_key keys i) (bs_failures s)") (simp add: record_counted_def ttl_other(3))

lemma counted_recovery [simp]: "bs_recovery (snd (record_counted now keys i s)) = bs_recovery s"
  by (simp add: record_counted_def split: prod.split)

lemma reopen_keys [simp]: "bs_failures (reopen now keys br i s) = bs_failures s"
  by (simp add: reopen_def)

lemma reopen_other: "i \<noteq> inbox \<Longrightarrow> bs_recovery (reopen now keys br i s) (recovery_key keys inbox) = bs_recovery s (recovery_key keys inbox)"
  by (simp add: reopen_def ttl_other)

lemma outcome_other:
  assumes "i \<noteq> inbox"
  shows "bs_failures (outcome_store up now keys br i failed probing s) (failures_key keys inbox) = bs_failures s (failures_key keys inbox)"
    and "bs_recovery (outcome_store up now keys br i failed probing s) (recovery_key keys inbox) = bs_recovery s (recovery_key keys inbox)"
  using assms by (simp_all add: outcome_store_def reopen_other counted_other ttl_other)

lemma other_inbox:
  assumes "breaker_inbox e \<noteq> inbox"
  shows "bs_failures (on_breaker_event keys br e s) (failures_key keys inbox) = bs_failures s (failures_key keys inbox)"
    and "bs_recovery (on_breaker_event keys br e s) (recovery_key keys inbox) = bs_recovery s (recovery_key keys inbox)"
  using assms by (cases e; simp add: admit_other record_keys outcome_other)+

section \<open>Ten failures\<close>

text \<open>From \<open>t0\<close> for as long as the cool-off is, on the clock of milliseconds.\<close>

definition window_end :: "int \<Rightarrow> int" where
  "window_end t0 = (now_millis t0 + 60000) * 1000"

fun only_fails :: "string \<Rightarrow> breaker_event \<Rightarrow> bool" where
  "only_fails inbox (Try up now token i) = True"
| "only_fails inbox (Outcome up now i failed probe) \<longleftrightarrow>
     i \<noteq> inbox \<or> failed \<and> probe = None \<and> up CountFailure \<and> up Reopen"

fun is_failure :: "string \<Rightarrow> breaker_event \<Rightarrow> bool" where
  "is_failure inbox (Try up now token i) = False"
| "is_failure inbox (Outcome up now i failed probe) = (i = inbox)"

definition failing :: "keyspace \<Rightarrow> string \<Rightarrow> int \<Rightarrow> int \<Rightarrow> breaker_store \<Rightarrow> bool" where
  "failing keys inbox t0 k s \<longleftrightarrow>
     stands_at t0 (window_end t0) (failures_key keys inbox) (bs_failures s) k \<and>
     (\<forall>t. t0 \<le> t \<longrightarrow> t < window_end t0 \<longrightarrow>
        (if k < 10 then ttl_get t (bs_recovery s) (recovery_key keys inbox) = None
         else \<exists>r. ttl_get t (bs_recovery s) (recovery_key keys inbox) = Some r \<and> now_millis t0 + 60000 \<le> r))"

lemma millis_le: "now_millis t * 1000 \<le> t"
  using minus_mod_eq_div_mult [of t 1000] pos_mod_sign [of 1000 t] by (simp add: now_millis_def)

lemma window_millis: "t < window_end t0 \<Longrightarrow> now_millis t < now_millis t0 + 60000"
  using millis_le [of t] by (simp add: window_end_def)

lemma window_end_le: "window_end t0 \<le> t0 + seconds BREAKER_TTL_SECS"
  using millis_le [of t0] by (simp add: window_end_def seconds_def BREAKER_TTL_SECS_def)

lemma failing_ask:
  assumes "failing keys inbox t0 k s" "t0 \<le> now" "now < window_end t0"
  shows "admit up now keys token BREAKER inbox s =
      ((if up GetRecovery \<and> k \<ge> 10
        then Held (the (ttl_get now (bs_recovery s) (recovery_key keys inbox)) - now_millis now) else Pass), s)"
    and "k \<ge> 10 \<Longrightarrow> the (ttl_get now (bs_recovery s) (recovery_key keys inbox)) > now_millis now"
proof -
  have r: "if k < 10 then ttl_get now (bs_recovery s) (recovery_key keys inbox) = None
      else \<exists>r. ttl_get now (bs_recovery s) (recovery_key keys inbox) = Some r \<and> now_millis t0 + 60000 \<le> r"
    using assms by (simp add: failing_def)
  note w = window_millis [OF assms(3)]
  show "admit up now keys token BREAKER inbox s =
      ((if up GetRecovery \<and> k \<ge> 10
        then Held (the (ttl_get now (bs_recovery s) (recovery_key keys inbox)) - now_millis now) else Pass), s)"
    using r w by (cases "k < 10") (auto simp: admit_def)
  show "k \<ge> 10 \<Longrightarrow> the (ttl_get now (bs_recovery s) (recovery_key keys inbox)) > now_millis now"
    using r w by auto
qed

lemma failing_failure:
  assumes "failing keys inbox t0 k s" "t0 \<le> now" "now < window_end t0" "0 \<le> k" "up CountFailure" "up Reopen"
    and "now_millis t0 + 60000 < 2 ^ 64"
  shows "failing keys inbox t0 (k + 1) (outcome_store up now keys BREAKER inbox True False s)"
proof -
  have stands: "stands_at t0 (window_end t0) (failures_key keys inbox) (bs_failures s) k"
    using assms(1) by (simp add: failing_def)
  note c = counted [OF stands assms(2,3,4) window_end_le]
  have n: "fst (record_counted now keys inbox s) = k + 1"
    and f: "stands_at t0 (window_end t0) (failures_key keys inbox) (bs_failures (snd (record_counted now keys inbox s))) (k + 1)"
    using c by (auto simp: record_counted_def split: prod.split)
  have later: "now_millis t0 \<le> now_millis now" using assms(2) by (simp add: now_millis_def zdiv_mono1)
  have set: "ttl_get t (bs_recovery (reopen now keys BREAKER inbox st)) (recovery_key keys inbox) =
      Some (saturating_u64 (now_millis now + 60000))" if "t < window_end t0" for t st
  proof -
    have "t \<le> now + seconds BREAKER_TTL_SECS" using that window_end_le [of t0] assms(2) by simp
    then show ?thesis by (simp add: reopen_def ttl_get_def live_def ttl_set_ex_def BREAKER_def)
  qed
  have "now_millis t0 + 60000 \<le> saturating_u64 (now_millis now + 60000)"
    using later assms(7) by (simp add: saturating_u64_def)
  then show ?thesis
    using assms n f set unfolding failing_def outcome_store_def by (auto simp: BREAKER_def)
qed

lemma failing_run:
  assumes "failing keys inbox t0 k s" "0 \<le> k" "now_millis t0 + 60000 < 2 ^ 64"
    and "\<forall>e \<in> set es. t0 \<le> breaker_time e \<and> breaker_time e < window_end t0 \<and> only_fails inbox e"
  shows "failing keys inbox t0 (k + int (length (filter (is_failure inbox) es))) (breaker_run keys BREAKER es s)"
  using assms
proof (induction es arbitrary: k s)
  case Nil
  then show ?case by (simp add: breaker_run_def)
next
  case (Cons e es)
  let ?s = "on_breaker_event keys BREAKER e s"
  have e: "t0 \<le> breaker_time e" "breaker_time e < window_end t0" "only_fails inbox e" using Cons.prems(4) by simp_all
  have "failing keys inbox t0 (if is_failure inbox e then k + 1 else k) ?s"
  proof (cases "breaker_inbox e = inbox")
    case False
    have "ttl_get t (bs_recovery ?s) (recovery_key keys inbox) = ttl_get t (bs_recovery s) (recovery_key keys inbox)" for t
      by (simp add: ttl_get_def live_def other_inbox(2) [OF False])
    then have "failing keys inbox t0 k ?s"
      using Cons.prems(1) stands_at_cong [where s = "bs_failures ?s" and s' = "bs_failures s" and k = "failures_key keys inbox", OF other_inbox(1) [OF False]]
      by (simp add: failing_def)
    then show ?thesis using False by (cases e) simp_all
  next
    case True
    show ?thesis
    proof (cases e)
      case (Try up now token i)
      then show ?thesis using failing_ask(1) [OF Cons.prems(1)] e True Cons.prems(1) by simp
    next
      case (Outcome up now i failed probe)
      then have "failing keys inbox t0 (k + 1) (outcome_store up now keys BREAKER inbox True False s)"
        using failing_failure [OF Cons.prems(1) _ _ Cons.prems(2) _ _ Cons.prems(3)] e True by simp
      moreover have "?s = drop_probe (up DropProbe) now None (outcome_store up now keys BREAKER inbox True False s)"
        using Outcome True e(3) record_cases(4) [of up now keys BREAKER inbox s] by simp
      ultimately show ?thesis using Outcome True by (simp add: drop_probe_def)
    qed
  qed
  moreover have "(if is_failure inbox e then k + 1 else k) + int (length (filter (is_failure inbox) es)) =
      k + int (length (filter (is_failure inbox) (e # es)))" by simp
  ultimately show ?case
    using Cons.IH [of "if is_failure inbox e then k + 1 else k" ?s] Cons.prems by (simp add: breaker_run_def split: if_splits)
qed

text \<open>
  C20: While the cool-off of sixty seconds runs from a time at which nothing was counted against an
  inbox and no delivery to it has succeeded since, deliveries pass until ten have failed and are
  held from the tenth on, whatever happens to other inboxes and wherever Redis fails for them.
\<close>

theorem ten_failures_hold_an_inbox:
  assumes "\<forall>t. t0 \<le> t \<longrightarrow> live t (bs_failures s) (failures_key keys inbox) = None \<and>
      live t (bs_recovery s) (recovery_key keys inbox) = None"
    and "\<forall>e \<in> set es. t0 \<le> breaker_time e \<and> breaker_time e < window_end t0 \<and> only_fails inbox e"
    and "t0 \<le> t" "t < window_end t0" "up GetRecovery" "now_millis t0 + 60000 < 2 ^ 64"
  shows "if length (filter (is_failure inbox) es) < 10
    then fst (admit up t keys token BREAKER inbox (breaker_run keys BREAKER es s)) = Pass
    else \<exists>ms > 0. fst (admit up t keys token BREAKER inbox (breaker_run keys BREAKER es s)) = Held ms"
proof -
  have "failing keys inbox t0 0 s" using assms(1) by (simp add: failing_def stands_at_def ttl_get_def)
  from failing_run [OF this _ assms(6,2)]
  have f: "failing keys inbox t0 (int (length (filter (is_failure inbox) es))) (breaker_run keys BREAKER es s)" by simp
  show ?thesis
    using failing_ask(1) [OF f assms(3,4), of up token] failing_ask(2) [OF f assms(3,4)] assms(5) by auto
qed

lemma ten_failures_hold_an_inbox_witness:
  "\<exists>ms > 0. fst (admit (\<lambda>_. True) 11 \<lparr>ks_prefix = []\<rparr> ''1'' BREAKER ''i''
     (breaker_run \<lparr>ks_prefix = []\<rparr> BREAKER (Try (\<lambda>_. True) 2 ''1'' ''i'' # Outcome (\<lambda>_. False) 3 ''j'' True None #
        replicate 10 (Outcome (\<lambda>_. True) 9 ''i'' True None))
       \<lparr>bs_failures = \<lambda>_. None, bs_recovery = \<lambda>_. None, bs_probes = \<lambda>_. None\<rparr>)) = Held ms"
  using ten_failures_hold_an_inbox [of 1 "\<lparr>bs_failures = \<lambda>_. None, bs_recovery = \<lambda>_. None, bs_probes = \<lambda>_. None\<rparr>"
      "\<lparr>ks_prefix = []\<rparr>" "''i''" "Try (\<lambda>_. True) 2 ''1'' ''i'' # Outcome (\<lambda>_. False) 3 ''j'' True None #
        replicate 10 (Outcome (\<lambda>_. True) 9 ''i'' True None)" 11 "\<lambda>_. True" "''1''"]
  by (simp add: live_def window_end_def now_millis_def)

section \<open>One probe\<close>

text \<open>What an event does to the locks is what one event of theirs does, or nothing.\<close>

lemma probes_event:
  "bs_probes (on_breaker_event keys br e s) = bs_probes s \<or>
   (\<exists>le. bs_probes (on_breaker_event keys br e s) = snd (on_lock_event keys le (bs_probes s)) \<and>
      lock_event_time le = breaker_time e \<and>
      (\<forall>lock. le = Drop True (breaker_time e) lock \<longrightarrow>
         (\<exists>up i failed. e = Outcome up (breaker_time e) i failed (Some lock))))"
proof (cases e)
  case (Try up now token i)
  show ?thesis
  proof (cases "up GetRecovery \<and> (\<exists>r. ttl_get now (bs_recovery s) (recovery_key keys i) = Some r \<and> r \<le> now_millis now)")
    case True
    then have "bs_probes (on_breaker_event keys br e s) =
        snd (on_lock_event keys (Ask (up TakeProbe) now (probe_name i) token (max (cb_cool_off br) 1)) (bs_probes s))"
      using Try by (auto simp: admit_def split: option.split prod.split)
    then show ?thesis using Try by (intro disjI2 exI) auto
  next
    case False
    then have "bs_probes (on_breaker_event keys br e s) = bs_probes s"
      using Try by (auto simp: admit_def split: option.split)
    then show ?thesis ..
  qed
next
  case (Outcome up now i failed probe)
  have same: "bs_probes (outcome_store up now keys br i failed p s) = bs_probes s" for p
    by (simp add: outcome_store_def reopen_def record_counted_def split: prod.split)
  have "bs_probes (on_breaker_event keys br e s) =
      (case probe of None \<Rightarrow> bs_probes s | Some lock \<Rightarrow> snd (on_lock_event keys (Drop (up DropProbe) now lock) (bs_probes s)))"
    using Outcome same by (cases failed; cases probe) (simp_all add: record_cases drop_probe_def)
  then show ?thesis using Outcome by (cases probe) (auto intro!: exI [of _ "Drop (up DropProbe) now _"])
qed

text \<open>While the lock of the probe is there and the breaker is not closed.\<close>

definition probing :: "keyspace \<Rightarrow> string \<Rightarrow> redis_lock \<Rightarrow> int \<Rightarrow> int \<Rightarrow> breaker_store \<Rightarrow> bool" where
  "probing keys inbox lock a b s \<longleftrightarrow> lk_key lock = ks_key keys (probe_name inbox) \<and>
     (\<forall>t. a \<le> t \<longrightarrow> t \<le> b \<longrightarrow> ttl_get t (bs_probes s) (lk_key lock) = Some (lk_token lock) \<and>
        ttl_get t (bs_recovery s) (recovery_key keys inbox) \<noteq> None)"

fun leaves_probe :: "string \<Rightarrow> redis_lock \<Rightarrow> breaker_event \<Rightarrow> bool" where
  "leaves_probe inbox lock (Try up now token i) = True"
| "leaves_probe inbox lock (Outcome up now i failed probe) \<longleftrightarrow>
     probe \<noteq> Some lock \<and> (i = inbox \<and> probe \<noteq> None \<longrightarrow> failed)"

lemma recovery_kept:
  assumes "\<forall>t. a \<le> t \<longrightarrow> t \<le> b \<longrightarrow> ttl_get t (bs_recovery s) (recovery_key keys inbox) \<noteq> None"
    and "leaves_probe inbox lock e" "a \<le> breaker_time e" "breaker_time e \<le> b" "b \<le> a + seconds BREAKER_TTL_SECS"
    and "a \<le> t" "t \<le> b"
  shows "ttl_get t (bs_recovery (on_breaker_event keys br e s)) (recovery_key keys inbox) \<noteq> None"
proof (cases "breaker_inbox e = inbox")
  case False
  then show ?thesis using other_inbox(2) [OF False] assms(1,6,7) by (simp add: ttl_get_def live_def)
next
  case True
  show ?thesis
  proof (cases e)
    case (Try up now token i)
    then show ?thesis using assms(1,6,7) by (simp add: admit_def split: option.split prod.split)
  next
    case (Outcome up now i failed probe)
    have reopened: "ttl_get t (bs_recovery (reopen now keys br i st)) (recovery_key keys inbox) \<noteq> None" for st
      using Outcome True assms(3,5,7) by (simp add: reopen_def ttl_get_def live_def ttl_set_ex_def)
    have "ttl_get now (bs_recovery s) (recovery_key keys inbox) \<noteq> None" using Outcome assms(1,3,4) by simp
    then have kept: "ttl_get t (ttl_expire now (seconds BREAKER_TTL_SECS) (recovery_key keys inbox) (bs_recovery s)) (recovery_key keys inbox) \<noteq> None"
      using Outcome assms(3,5,7) by (auto simp: ttl_expire_def ttl_get_def live_def split: option.splits if_splits)
    have "ttl_get t (bs_recovery (outcome_store up now keys br i failed (probe \<noteq> None) s)) (recovery_key keys inbox) \<noteq> None"
      using Outcome True assms(1,2,6,7) reopened kept by (simp add: outcome_store_def)
    then show ?thesis using Outcome by (simp add: record_keys)
  qed
qed

lemma probing_event:
  assumes "probing keys inbox lock a b s" "leaves_probe inbox lock e"
    and "a \<le> breaker_time e" "breaker_time e \<le> b" "b \<le> a + seconds BREAKER_TTL_SECS"
  shows "probing keys inbox lock a b (on_breaker_event keys br e s)"
proof -
  have lock: "ttl_get t (bs_probes (on_breaker_event keys br e s)) (lk_key lock) = Some (lk_token lock)"
    if t: "a \<le> t" "t \<le> b" for t
    using probes_event [of keys br e s]
  proof (elim disjE exE conjE)
    assume "bs_probes (on_breaker_event keys br e s) = bs_probes s"
    then show ?thesis using assms(1) t unfolding probing_def by metis
  next
    fix le
    assume le: "bs_probes (on_breaker_event keys br e s) = snd (on_lock_event keys le (bs_probes s))"
      "lock_event_time le = breaker_time e"
      "\<forall>lock. le = Drop True (breaker_time e) lock \<longrightarrow> (\<exists>up i failed. e = Outcome up (breaker_time e) i failed (Some lock))"
    have "\<lparr>lk_key = lk_key lock, lk_token = lk_token lock\<rparr> = lock" by (cases lock) simp
    then have "le \<noteq> Drop True (lock_event_time le) \<lparr>lk_key = lk_key lock, lk_token = lk_token lock\<rparr>"
      using le(2,3) assms(2) by (metis leaves_probe.simps(2))
    from lock_event_keeps [OF this] show ?thesis using assms(1,3,4) le t unfolding probing_def by metis
  qed
  then show ?thesis using recovery_kept [OF _ assms(2-5)] assms(1) unfolding probing_def by blast
qed

text \<open>
  Once an inbox is probed, no other delivery to it goes through for as long as the cool-off
  is: whatever is asked and recorded meanwhile for any inbox, until the probe itself is recorded
  or another probe of the inbox succeeds, asking is answered with a wait.
\<close>

theorem one_probe_at_a_time:
  assumes "admit up0 t0 keys token breaker inbox s = (Probe lock, s')"
    and "0 < cb_cool_off breaker" "cb_cool_off breaker \<le> 1000 * BREAKER_TTL_SECS"
    and "t0 + millis (cb_cool_off breaker) = b"
    and "ttl_get b (bs_recovery s) (recovery_key keys inbox) \<noteq> None"
    and "\<forall>e \<in> set es. t0 \<le> breaker_time e \<and> breaker_time e \<le> b \<and> leaves_probe inbox lock e"
    and "t0 \<le> t" "t \<le> b" "up GetRecovery"
  shows "\<exists>ms. fst (admit up t keys token' breaker inbox (breaker_run keys breaker es s')) = Held ms"
proof -
  obtain probes where p: "try_acquire_on (up0 TakeProbe) t0 keys (probe_name inbox) token (max (cb_cool_off breaker) 1) (bs_probes s) = (Some lock, probes)"
      "bs_probes s' = probes" "bs_recovery s' = bs_recovery s"
    using assms(1) by (auto simp: admit_def split: if_splits option.splits prod.splits)
  moreover have "max (cb_cool_off breaker) 1 = cb_cool_off breaker" using assms(2) by simp
  ultimately have lock: "lock = \<lparr>lk_key = ks_key keys (probe_name inbox), lk_token = token\<rparr>"
    and nx: "ttl_set_nx t0 (millis (cb_cool_off breaker)) (ks_key keys (probe_name inbox)) token (bs_probes s) = (True, probes)"
    by (auto simp: try_acquire_on_def split: prod.splits if_splits)
  have "ttl_get t' (bs_recovery s) (recovery_key keys inbox) \<noteq> None" if "t' \<le> b" for t'
    using assms(5) that by (auto simp: ttl_get_def live_def split: option.splits if_splits)
  then have start: "probing keys inbox lock t0 b s'"
    using lock redis.get_nx [OF nx] assms(4) p by (simp add: probing_def)
  have "probing keys inbox lock t0 b (breaker_run keys breaker es s')"
    using assms(6) start
  proof (induction es arbitrary: s')
    case (Cons e es)
    have "b \<le> t0 + seconds BREAKER_TTL_SECS" using assms(3,4) by (simp add: millis_def seconds_def)
    from probing_event [OF Cons.prems(2) _ _ _ this] have "probing keys inbox lock t0 b (on_breaker_event keys breaker e s')"
      using Cons.prems(1) by simp
    then show ?case using Cons.IH Cons.prems(1) by (simp add: breaker_run_def)
  qed (simp add: breaker_run_def)
  then have "ttl_get t (bs_probes (breaker_run keys breaker es s')) (ks_key keys (probe_name inbox)) = Some token"
    "ttl_get t (bs_recovery (breaker_run keys breaker es s')) (recovery_key keys inbox) \<noteq> None"
    using assms(7,8) lock by (simp_all add: probing_def)
  moreover from this(1) have "fst (try_acquire_on (up TakeProbe) t keys (probe_name inbox) token' (max (cb_cool_off breaker) 1)
      (bs_probes (breaker_run keys breaker es s'))) = None"
    by (simp add: try_acquire_on_def redis.nx_held)
  ultimately show ?thesis using assms(9) by (auto simp: admit_def split: prod.split)
qed

text \<open>An inbox whose cool-off is over.\<close>

definition sample_breakers :: breaker_store where
  "sample_breakers = \<lparr>bs_failures = \<lambda>_. None, bs_recovery = \<lambda>_. Some (5, None), bs_probes = \<lambda>_. None\<rparr>"

lemma one_probe_at_a_time_witness:
  "\<exists>ms. fst (admit (\<lambda>_. True) 40000 \<lparr>ks_prefix = []\<rparr> ''3'' BREAKER ''i''
     (breaker_run \<lparr>ks_prefix = []\<rparr> BREAKER [Try (\<lambda>_. True) 20000 ''2'' ''i'', Outcome (\<lambda>_. True) 30000 ''j'' False None]
       (snd (admit (\<lambda>_. True) 10000 \<lparr>ks_prefix = []\<rparr> ''1'' BREAKER ''i'' sample_breakers)))) = Held ms"
proof (rule one_probe_at_a_time [where b = 60010000])
  show "admit (\<lambda>_. True) 10000 \<lparr>ks_prefix = []\<rparr> ''1'' BREAKER ''i'' sample_breakers =
     (Probe \<lparr>lk_key = ks_key \<lparr>ks_prefix = []\<rparr> (probe_name ''i''), lk_token = ''1''\<rparr>,
      snd (admit (\<lambda>_. True) 10000 \<lparr>ks_prefix = []\<rparr> ''1'' BREAKER ''i'' sample_breakers))"
    by (simp add: admit_def sample_breakers_def ttl_get_def live_def now_millis_def try_acquire_on_def ttl_set_nx_def)
qed (simp_all add: BREAKER_def BREAKER_TTL_SECS_def millis_def sample_breakers_def ttl_get_def live_def)

end
