(* ===== verification/FederationPolicy.thy ===== *)
theory FederationPolicy
  imports RustText
begin

text \<open>
  \<^verbatim>\<open>src/federation/addressing.rs\<close>: visibilities and audiences; and
  \<^verbatim>\<open>src/federation/moderation.rs\<close>: the domain blocks, on arrival and on delivery. What
  \<^verbatim>\<open>url\<close> answers for the host of a URL and the address of the public collection (from
  \<^verbatim>\<open>ojak_vocab\<close>) are arguments; a query that fails is an argument of its own.
\<close>

definition ends_with :: "string \<Rightarrow> string \<Rightarrow> bool" where
  "ends_with s suffix \<longleftrightarrow> length suffix \<le> length s \<and> drop (length s - length suffix) s = suffix"

lemma ends_with_append [simp]: "ends_with (s @ suffix) suffix"
  by (simp add: ends_with_def)

lemma ends_with_iff: "ends_with s suffix \<longleftrightarrow> (\<exists>p. s = p @ suffix)"
  unfolding ends_with_def by (metis append_take_drop_id diff_diff_cancel append_eq_conv_conj diff_le_self
    length_append le_add2 length_drop add_diff_cancel_right')

section \<open>Visibility and audience\<close>

definition FOLLOWERS_SUFFIX :: string where "FOLLOWERS_SUFFIX = ''/followers''"

datatype visibility = Public | Unlisted | Private | Direct

definition public_collection :: "string \<Rightarrow> string \<Rightarrow> bool" where
  "public_collection public uri \<longleftrightarrow> uri = public \<or> uri = ''as:Public'' \<or> uri = ''Public''"

definition visibility_from_audience :: "string \<Rightarrow> string list \<Rightarrow> string list \<Rightarrow> visibility" where
  "visibility_from_audience public to cc =
     (let is_public = public_collection public; is_followers = (\<lambda>u. ends_with u FOLLOWERS_SUFFIX)
      in if list_ex is_public to then Public
         else if list_ex is_public cc then Unlisted
         else if list_ex is_followers to \<or> list_ex is_followers cc then Private
         else Direct)"

definition audience_for :: "string \<Rightarrow> visibility \<Rightarrow> string \<Rightarrow> string list \<Rightarrow> string list \<times> string list" where
  "audience_for public v followers mentioned =
     (case v of
        Public \<Rightarrow> ([public], followers # mentioned)
      | Unlisted \<Rightarrow> ([followers], public # mentioned)
      | Private \<Rightarrow> ([followers], mentioned)
      | Direct \<Rightarrow> (mentioned, []))"

text \<open>What another server running this code reads is what was meant.\<close>

lemma audience_round_trip:
  assumes "ends_with followers FOLLOWERS_SUFFIX" "\<not> public_collection public followers"
    and "\<forall>m \<in> set mentioned. \<not> public_collection public m"
    and "v = Direct \<Longrightarrow> \<forall>m \<in> set mentioned. \<not> ends_with m FOLLOWERS_SUFFIX"
  shows "visibility_from_audience public (fst (audience_for public v followers mentioned)) (snd (audience_for public v followers mentioned)) = v"
  using assms by (cases v) (auto simp: audience_for_def visibility_from_audience_def Let_def list_ex_iff public_collection_def)

section \<open>Domain blocks\<close>

definition SILENCE :: int where "SILENCE = 0"
definition SUSPEND :: int where "SUSPEND = 1"

record block_row =
  bl_domain :: string
  bl_severity :: "int option"
  bl_reject_media :: bool
  bl_reject_reports :: bool

record domain_block =
  block_severity :: int
  reject_media :: bool
  reject_reports :: bool

record policy_db =
  po_blocks :: "block_row list"
  po_allows :: "string list"
  po_limited :: bool

text \<open>What \<^verbatim>\<open>url\<close> answers: the host of a URL, when it is one and has a host.\<close>

type_synonym url_host = "string \<Rightarrow> string option"

definition domain_of :: "url_host \<Rightarrow> string \<Rightarrow> string option" where
  "domain_of url uri = map_option to_lowercase (url uri)"

definition is_suspend :: "domain_block \<Rightarrow> bool" where
  "is_suspend self \<longleftrightarrow> block_severity self = SUSPEND"

text \<open>\<^verbatim>\<open>LIKE\<close>\<close>

fun like :: "string \<Rightarrow> string \<Rightarrow> bool" where
  "like [] s = (s = [])"
| "like (p # ps) s =
     (if p = CHR ''%'' then like ps s \<or> (case s of [] \<Rightarrow> False | c # cs \<Rightarrow> like (p # ps) cs)
      else if p = CHR ''_'' then (case s of [] \<Rightarrow> False | c # cs \<Rightarrow> like ps cs)
      else if p = CHR 0x5C then
        (case ps of [] \<Rightarrow> False | q # qs \<Rightarrow> (case s of [] \<Rightarrow> False | c # cs \<Rightarrow> q = c \<and> like qs cs))
      else (case s of [] \<Rightarrow> False | c # cs \<Rightarrow> p = c \<and> like ps cs))"

text \<open>The block of the longest domain; of two as long the first, for the query leaves it open.\<close>

definition lookup :: "bool \<Rightarrow> policy_db \<Rightarrow> string \<Rightarrow> domain_block option" where
  "lookup up db domain =
     (let host = to_lowercase domain in
      if \<not> up then None
      else case sort_key (\<lambda>b. - int (length (bl_domain b)))
          (filter (\<lambda>b. bl_domain b \<noteq> [] \<and> (host = bl_domain b \<or> like (''%.'' @ bl_domain b) host)) (po_blocks db)) of
        [] \<Rightarrow> None
      | b # _ \<Rightarrow> Some \<lparr>block_severity = (case bl_severity b of None \<Rightarrow> SILENCE | Some v \<Rightarrow> v),
           reject_media = bl_reject_media b, reject_reports = bl_reject_reports b\<rparr>)"

definition domain_allowed :: "bool \<Rightarrow> policy_db \<Rightarrow> string \<Rightarrow> bool" where
  "domain_allowed up db domain \<longleftrightarrow> up \<and> domain \<in> set (po_allows db)"

fun contains_text :: "string \<Rightarrow> string \<Rightarrow> bool" where
  "contains_text [] part = (part = [])"
| "contains_text (c # cs) part \<longleftrightarrow> take (length part) (c # cs) = part \<or> contains_text cs part"

definition domain_not_allowed :: "bool \<Rightarrow> url_host \<Rightarrow> policy_db \<Rightarrow> string \<Rightarrow> bool" where
  "domain_not_allowed up url db uri_or_domain =
     (if trimmed uri_or_domain = [] then False
      else let uri = (if contains_text uri_or_domain ''://'' then uri_or_domain
             else ''https://'' @ filter (\<lambda>c. c \<noteq> CHR ''/'') (trimmed uri_or_domain) @ ''/'')
        in case domain_of url uri of
             None \<Rightarrow> po_limited db
           | Some domain \<Rightarrow>
               if po_limited db then \<not> domain_allowed up db domain
               else (case lookup up db domain of None \<Rightarrow> False | Some b \<Rightarrow> is_suspend b))"

text \<open>Only the tests of the code ask this one; what is asked on arrival is \<open>domain_not_allowed\<close>.\<close>

definition actor_is_suspended :: "bool \<Rightarrow> url_host \<Rightarrow> policy_db \<Rightarrow> string \<Rightarrow> bool" where
  "actor_is_suspended up url db actor_uri =
     (case domain_of url actor_uri of None \<Rightarrow> False
      | Some domain \<Rightarrow> (case lookup up db domain of None \<Rightarrow> False | Some b \<Rightarrow> is_suspend b))"

definition actor_media_rejected :: "bool \<Rightarrow> url_host \<Rightarrow> policy_db \<Rightarrow> string \<Rightarrow> bool" where
  "actor_media_rejected up url db actor_uri =
     (case domain_of url actor_uri of None \<Rightarrow> False
      | Some domain \<Rightarrow> (case lookup up db domain of None \<Rightarrow> False | Some b \<Rightarrow> reject_media b \<or> is_suspend b))"

definition suspended_domains :: "bool \<Rightarrow> policy_db \<Rightarrow> string list" where
  "suspended_domains up db =
     (if up then map bl_domain (filter (\<lambda>b. bl_domain b \<noteq> [] \<and> bl_severity b = Some SUSPEND) (po_blocks db)) else [])"

definition host_matches :: "string \<Rightarrow> string list \<Rightarrow> bool" where
  "host_matches host blocked =
     (let host = to_lowercase host in
      list_ex (\<lambda>b. host = to_lowercase b \<or> ends_with host (CHR ''.'' # to_lowercase b)) blocked)"

definition inbox_suspended :: "url_host \<Rightarrow> string \<Rightarrow> string list \<Rightarrow> bool" where
  "inbox_suspended url inbox_url blocked =
     (case url inbox_url of None \<Rightarrow> False | Some h \<Rightarrow> host_matches h blocked)"

section \<open>Both ways\<close>

definition plain_domain :: "string \<Rightarrow> bool" where
  "plain_domain d \<longleftrightarrow> CHR ''%'' \<notin> set d \<and> CHR ''_'' \<notin> set d \<and> CHR 0x5C \<notin> set d \<and> to_lowercase d = d"

declare like.simps(2) [simp del]

lemma like_char:
  "p \<noteq> CHR ''%'' \<Longrightarrow> p \<noteq> CHR ''_'' \<Longrightarrow> p \<noteq> CHR 0x5C \<Longrightarrow>
   like (p # ps) s = (case s of [] \<Rightarrow> False | c # cs \<Rightarrow> p = c \<and> like ps cs)"
  by (simp add: like.simps(2) [of p])

lemma like_plain: "CHR ''%'' \<notin> set d \<Longrightarrow> CHR ''_'' \<notin> set d \<Longrightarrow> CHR 0x5C \<notin> set d \<Longrightarrow> like d s \<longleftrightarrow> s = d"
proof (induction d arbitrary: s)
  case (Cons p ps)
  then have "like (p # ps) s = (case s of [] \<Rightarrow> False | c # cs \<Rightarrow> p = c \<and> like ps cs)" by (intro like_char) auto
  then show ?case using Cons by (cases s) auto
qed simp

lemma like_percent: "like (CHR ''%'' # ps) s \<longleftrightarrow> (\<exists>p q. s = p @ q \<and> like ps q)"
proof (induction s)
  case (Cons c cs)
  have "like (CHR ''%'' # ps) (c # cs) \<longleftrightarrow> like ps (c # cs) \<or> (\<exists>p q. cs = p @ q \<and> like ps q)"
    using Cons.IH by (simp add: like.simps(2) [of "CHR ''%''" ps "c # cs"])
  then show ?case by (auto simp: Cons_eq_append_conv)
qed (simp add: like.simps(2) [of "CHR ''%''" ps "[]"])

lemma like_subdomain: "plain_domain d \<Longrightarrow> like (''%.'' @ d) s \<longleftrightarrow> ends_with s (CHR ''.'' # d)"
  using like_percent [of "CHR ''.'' # d" s] like_plain [of "CHR ''.'' # d"]
  by (auto simp: plain_domain_def ends_with_iff)

definition covers :: "string \<Rightarrow> block_row \<Rightarrow> bool" where
  "covers host b \<longleftrightarrow> bl_domain b \<noteq> [] \<and> (host = bl_domain b \<or> ends_with host (CHR ''.'' # bl_domain b))"

lemma to_lowercase_idem [simp]: "to_lowercase (to_lowercase s) = to_lowercase s"
proof -
  have "lower_char (lower_char c) = lower_char c" for c
    by (auto simp: lower_char_def code_def)
  then show ?thesis by (simp add: to_lowercase_def)
qed

lemma lookup_covers:
  assumes "list_all (\<lambda>b. plain_domain (bl_domain b)) (po_blocks db)"
  shows "lookup up db domain = (if \<not> up then None
    else case sort_key (\<lambda>b. - int (length (bl_domain b))) (filter (covers (to_lowercase domain)) (po_blocks db)) of
      [] \<Rightarrow> None
    | b # _ \<Rightarrow> Some \<lparr>block_severity = (case bl_severity b of None \<Rightarrow> SILENCE | Some v \<Rightarrow> v),
         reject_media = bl_reject_media b, reject_reports = bl_reject_reports b\<rparr>)"
proof -
  have "filter (\<lambda>b. bl_domain b \<noteq> [] \<and> (to_lowercase domain = bl_domain b \<or> like (''%.'' @ bl_domain b) (to_lowercase domain))) (po_blocks db) =
      filter (covers (to_lowercase domain)) (po_blocks db)"
    using assms like_subdomain by (intro filter_cong refl) (auto simp: covers_def list_all_iff)
  then show ?thesis unfolding lookup_def Let_def by simp
qed

lemma lookup_None:
  assumes "list_all (\<lambda>b. plain_domain (bl_domain b)) (po_blocks db)"
  shows "lookup True db domain = None \<longleftrightarrow> (\<forall>b \<in> set (po_blocks db). \<not> covers (to_lowercase domain) b)"
proof -
  have "lookup True db domain = None \<longleftrightarrow>
      sort_key (\<lambda>b. - int (length (bl_domain b))) (filter (covers (to_lowercase domain)) (po_blocks db)) = []"
    by (simp add: lookup_covers [OF assms] split: list.split)
  also have "\<dots> \<longleftrightarrow> filter (covers (to_lowercase domain)) (po_blocks db) = []"
    by (metis length_0_conv length_sort)
  finally show ?thesis by (simp add: filter_empty_conv)
qed

lemma lookup_Some:
  assumes "list_all (\<lambda>b. plain_domain (bl_domain b)) (po_blocks db)" "lookup True db domain = Some r"
  shows "\<exists>b \<in> set (po_blocks db). covers (to_lowercase domain) b \<and>
    block_severity r = (case bl_severity b of None \<Rightarrow> SILENCE | Some v \<Rightarrow> v)"
proof -
  obtain b bs where "sort_key (\<lambda>b. - int (length (bl_domain b))) (filter (covers (to_lowercase domain)) (po_blocks db)) = b # bs"
    and r: "block_severity r = (case bl_severity b of None \<Rightarrow> SILENCE | Some v \<Rightarrow> v)"
    using assms(2) lookup_covers [OF assms(1)] by (auto split: list.splits)
  then have "b \<in> set (filter (covers (to_lowercase domain)) (po_blocks db))" by (metis list.set_intros(1) set_sort)
  then show ?thesis using r by auto
qed

lemma inbox_suspended_iff:
  assumes "list_all (\<lambda>b. plain_domain (bl_domain b)) (po_blocks db)" "url uri = Some h"
  shows "inbox_suspended url uri (suspended_domains True db) \<longleftrightarrow>
    (\<exists>b \<in> set (po_blocks db). covers (to_lowercase h) b \<and> bl_severity b = Some SUSPEND)"
  using assms
  by (auto simp: inbox_suspended_def host_matches_def suspended_domains_def list_ex_iff covers_def plain_domain_def list_all_iff Let_def)

lemma contains_text_first: "hd part \<notin> set s \<Longrightarrow> part \<noteq> [] \<Longrightarrow> \<not> contains_text s part"
  by (induction s) (auto simp: neq_Nil_conv)

text \<open>A host as \<open>url\<close> gives it, not an IPv6 address: the host of the URL made of it.\<close>

definition bare_host :: "url_host \<Rightarrow> string \<Rightarrow> bool" where
  "bare_host url host \<longleftrightarrow> host \<noteq> [] \<and> trimmed host = host \<and> CHR ''/'' \<notin> set host \<and> CHR '':'' \<notin> set host \<and>
     url (''https://'' @ host @ ''/'') = Some host"

lemma arrival_of_host:
  assumes "bare_host url host"
  shows "domain_not_allowed up url db host =
    (if po_limited db then \<not> domain_allowed up db (to_lowercase host)
     else case lookup up db (to_lowercase host) of None \<Rightarrow> False | Some b \<Rightarrow> is_suspend b)"
proof -
  have "\<not> contains_text host ''://''" using assms contains_text_first [of "''://''" host] by (simp add: bare_host_def)
  moreover have "filter (\<lambda>c. c \<noteq> CHR ''/'') host = host" using assms by (auto simp: bare_host_def filter_id_conv)
  ultimately show ?thesis using assms by (simp add: domain_not_allowed_def bare_host_def domain_of_def)
qed

text \<open>
  C21: With the database up and every block saved as a domain in lower case without \<^verbatim>\<open>%\<close>, \<^verbatim>\<open>_\<close> or
  backslash (which \<^verbatim>\<open>LIKE\<close> reads as its own), a server of an instance that federates with everyone,
  whose signed requests are refused and whose activities are dropped on arrival, is not delivered to
  either; and the two agree about a server when every block that covers it suspends, but not always:
  a milder block of a subdomain lets its activities in while nothing is delivered to it. In limited
  federation mode they are not tied: arrival asks the list of allowed domains only, delivery the
  blocks only, so a server off the list is refused and still delivered to, unless it is suspended.
\<close>

theorem suspension_holds_both_ways:
  assumes "list_all (\<lambda>b. plain_domain (bl_domain b)) (po_blocks db)" "bare_host url host" "url inbox_url = Some host"
  shows "(\<not> po_limited db \<longrightarrow>
       (domain_not_allowed True url db host \<longrightarrow> inbox_suspended url inbox_url (suspended_domains True db)) \<and>
       ((\<forall>b \<in> set (po_blocks db). covers (to_lowercase host) b \<longrightarrow> bl_severity b = Some SUSPEND) \<longrightarrow>
          domain_not_allowed True url db host = inbox_suspended url inbox_url (suspended_domains True db))) \<and>
    (po_limited db \<longrightarrow> domain_not_allowed True url db host = (to_lowercase host \<notin> set (po_allows db))) \<and>
    inbox_suspended url inbox_url (suspended_domains True db) =
      (\<exists>b \<in> set (po_blocks db). covers (to_lowercase host) b \<and> bl_severity b = Some SUSPEND)"
proof -
  note out = inbox_suspended_iff [where url = url, OF assms(1,3)]
  note arrival = arrival_of_host [OF assms(2), of True db]
  show ?thesis
  proof (cases "lookup True db (to_lowercase host)")
    case None
    then show ?thesis using arrival out lookup_None [OF assms(1), of "to_lowercase host"] by (auto simp: domain_allowed_def)
  next
    case r: (Some r)
    from lookup_Some [OF assms(1) r] obtain b where b: "b \<in> set (po_blocks db)" "covers (to_lowercase host) b"
      "block_severity r = (case bl_severity b of None \<Rightarrow> SILENCE | Some v \<Rightarrow> v)" by auto
    have "block_severity r = SUSPEND \<longleftrightarrow> bl_severity b = Some SUSPEND"
      using b(3) by (auto simp: SILENCE_def SUSPEND_def split: option.splits)
    then show ?thesis using arrival out b(1,2) r by (auto simp: domain_allowed_def is_suspend_def)
  qed
qed

text \<open>A server that is suspended, and a part of it that is only silenced.\<close>

definition sample_policy :: policy_db where
  "sample_policy = \<lparr>po_blocks = [
      \<lparr>bl_domain = ''b.c'', bl_severity = Some SUSPEND, bl_reject_media = False, bl_reject_reports = False\<rparr>,
      \<lparr>bl_domain = ''a.b.c'', bl_severity = Some SILENCE, bl_reject_media = False, bl_reject_reports = False\<rparr>],
    po_allows = [], po_limited = False\<rparr>"

lemma sample_policy_plain: "list_all (\<lambda>b. plain_domain (bl_domain b)) (po_blocks sample_policy)"
  by (simp add: sample_policy_def plain_domain_def to_lowercase_def lower_char_def code_def)

text \<open>The host of a URL, for hosts alone.\<close>

definition sample_url :: url_host where
  "sample_url uri = (if take 8 uri = ''https://'' then Some (takeWhile (\<lambda>c. c \<noteq> CHR ''/'') (drop 8 uri)) else None)"

lemma suspension_holds_both_ways_witness:
  "inbox_suspended sample_url ''https://x.b.c/inbox'' (suspended_domains True sample_policy)"
proof -
  have "domain_not_allowed True sample_url sample_policy ''x.b.c''" by code_simp
  moreover have "bare_host sample_url ''x.b.c''" "sample_url ''https://x.b.c/inbox'' = Some ''x.b.c''" "\<not> po_limited sample_policy"
    by (simp_all add: bare_host_def sample_url_def trimmed_def trim_end_def is_space_def code_def sample_policy_def)
  ultimately show ?thesis
    using suspension_holds_both_ways [OF sample_policy_plain, of sample_url "''x.b.c''" "''https://x.b.c/inbox''"] by blast
qed

lemma silenced_part_is_heard:
  "\<not> domain_not_allowed True sample_url sample_policy ''a.b.c'' \<and>
   inbox_suspended sample_url ''https://a.b.c/inbox'' (suspended_domains True sample_policy)"
  by code_simp

end
