(* ===== verification/DeliveryFailures.thy ===== *)
theory DeliveryFailures
  imports Coordination RustText
begin

text \<open>
  \<^verbatim>\<open>src/federation/delivery_failures.rs\<close>: the servers that have stopped answering. The state
  is the sets of failure stamps in Redis, the table \<^verbatim>\<open>unavailable_domains\<close>, and what the process
  remembers of it. Every call that asks Redis and then writes the table is the composition of those two
  steps, and the background read of the table is two steps, for other calls can come in between.
  Calendars (\<^verbatim>\<open>chrono\<close>) and what \<^verbatim>\<open>url\<close> answers for a host are arguments, as
  is which calls are answered. Time is in microseconds.
\<close>

definition FAILURE_DAYS :: nat where "FAILURE_DAYS = 7"
definition FAILURE_MINUTES :: nat where "FAILURE_MINUTES = 5"
definition UNAVAILABLE_TTL :: int where "UNAVAILABLE_TTL = seconds 60"

datatype tracker_call = AddStamp | MarkHost | ForgetStamps | UnmarkHost | StopHost | ReadMarked | CountStamps | ReadStamps

record delivery_failures =
  df_stamps :: "string \<Rightarrow> string set"
  df_marked :: "string list"
  df_read :: "int option"
  df_hosts :: "string list"
  df_reading :: bool
  df_answer :: "string list option"

definition delivery_host :: "('u \<Rightarrow> string option) \<Rightarrow> 'u \<Rightarrow> string option" where
  "delivery_host host_str url = map_option to_ascii_lowercase (host_str url)"

definition failures_of :: "keyspace \<Rightarrow> string \<Rightarrow> string" where
  "failures_of keys host = ks_key keys (''exhausted_deliveries:'' @ host)"

definition forget :: "delivery_failures \<Rightarrow> delivery_failures" where
  "forget s = s\<lparr>df_read := None\<rparr>"

text \<open>
  Redis: a stamp is added; the answer says whether there are enough of them now. (\<^verbatim>\<open>SADD\<close> and \<^verbatim>\<open>SCARD\<close> go
  out together and are one step here.) Then the table.
\<close>

definition add_stamp ::
  "(tracker_call \<Rightarrow> bool) \<Rightarrow> keyspace \<Rightarrow> string \<Rightarrow> string \<Rightarrow> nat \<Rightarrow> delivery_failures \<Rightarrow> bool option \<times> delivery_failures" where
  "add_stamp up keys host stamp threshold s =
     (if \<not> up AddStamp then (None, s)
      else let k = failures_of keys host;
               s1 = s\<lparr>df_stamps := (df_stamps s)(k := insert stamp (df_stamps s k))\<rparr>
        in (Some (card (df_stamps s1 k) \<ge> threshold), s1))"

definition write_mark :: "(tracker_call \<Rightarrow> bool) \<Rightarrow> string \<Rightarrow> delivery_failures \<Rightarrow> bool \<times> delivery_failures" where
  "write_mark up host s =
     (if \<not> up MarkHost then (False, s)
      else if host \<in> set (df_marked s) then (True, s)
      else (True, forget (s\<lparr>df_marked := df_marked s @ [host]\<rparr>)))"

definition track_failure_at ::
  "(tracker_call \<Rightarrow> bool) \<Rightarrow> keyspace \<Rightarrow> string \<Rightarrow> string \<Rightarrow> nat \<Rightarrow> delivery_failures \<Rightarrow> bool \<times> delivery_failures" where
  "track_failure_at up keys host stamp threshold s =
     (case add_stamp up keys host stamp threshold s of
        (None, s1) \<Rightarrow> (False, s1)
      | (Some enough, s1) \<Rightarrow> if enough then write_mark up host s1 else (True, s1))"

definition track_failure ::
  "(tracker_call \<Rightarrow> bool) \<Rightarrow> keyspace \<Rightarrow> (int \<Rightarrow> string) \<Rightarrow> int \<Rightarrow> string \<Rightarrow> delivery_failures \<Rightarrow> bool \<times> delivery_failures" where
  "track_failure up keys day now host s = track_failure_at up keys host (day now) FAILURE_DAYS s"

definition track_failure_minutes ::
  "(tracker_call \<Rightarrow> bool) \<Rightarrow> keyspace \<Rightarrow> (int \<Rightarrow> string) \<Rightarrow> int \<Rightarrow> string \<Rightarrow> delivery_failures \<Rightarrow> bool \<times> delivery_failures" where
  "track_failure_minutes up keys minute now host s = track_failure_at up keys host (minute now) FAILURE_MINUTES s"

text \<open>From memory; whether a background read begins is part of the state.\<close>

definition is_unavailable :: "int \<Rightarrow> string \<Rightarrow> delivery_failures \<Rightarrow> bool \<times> delivery_failures" where
  "is_unavailable now host s =
     (let old = (case df_read s of None \<Rightarrow> True | Some at \<Rightarrow> now - at \<ge> UNAVAILABLE_TTL)
      in (host \<in> set (df_hosts s), if old \<and> \<not> df_reading s then s\<lparr>df_reading := True\<rparr> else s))"

definition table_answered :: "(tracker_call \<Rightarrow> bool) \<Rightarrow> delivery_failures \<Rightarrow> delivery_failures" where
  "table_answered up s =
     (if \<not> df_reading s \<or> df_answer s \<noteq> None then s
      else if up ReadMarked then s\<lparr>df_answer := Some (df_marked s)\<rparr> else s\<lparr>df_reading := False\<rparr>)"

definition answer_stored :: "int \<Rightarrow> delivery_failures \<Rightarrow> delivery_failures" where
  "answer_stored now s = (case df_answer s of None \<Rightarrow> s
     | Some hosts \<Rightarrow> s\<lparr>df_read := Some now, df_hosts := hosts, df_answer := None, df_reading := False\<rparr>)"

definition clear_failures :: "(tracker_call \<Rightarrow> bool) \<Rightarrow> keyspace \<Rightarrow> string \<Rightarrow> delivery_failures \<Rightarrow> bool \<times> delivery_failures" where
  "clear_failures up keys host s =
     (if up ForgetStamps then (True, s\<lparr>df_stamps := (df_stamps s)(failures_of keys host := {})\<rparr>) else (False, s))"

definition unmark :: "string \<Rightarrow> delivery_failures \<Rightarrow> delivery_failures" where
  "unmark host s = s\<lparr>df_marked := filter (\<lambda>d. d \<noteq> host) (df_marked s)\<rparr>"

text \<open>Redis, and whether the table has to be asked; then the table.\<close>

definition delete_stamps ::
  "(tracker_call \<Rightarrow> bool) \<Rightarrow> keyspace \<Rightarrow> int \<Rightarrow> string \<Rightarrow> delivery_failures \<Rightarrow> bool option \<times> delivery_failures" where
  "delete_stamps up keys now host s =
     (if \<not> up ForgetStamps then (None, s)
      else let cleared = df_stamps s (failures_of keys host) \<noteq> {};
               s1 = s\<lparr>df_stamps := (df_stamps s)(failures_of keys host := {})\<rparr>
        in if cleared then (Some True, s1) else apfst Some (is_unavailable now host s1))"

definition write_unmark :: "(tracker_call \<Rightarrow> bool) \<Rightarrow> string \<Rightarrow> delivery_failures \<Rightarrow> bool \<times> delivery_failures" where
  "write_unmark up host s =
     (if \<not> up UnmarkHost then (False, s)
      else (True, if host \<in> set (df_marked s) then forget (unmark host s) else s))"

definition track_success ::
  "(tracker_call \<Rightarrow> bool) \<Rightarrow> keyspace \<Rightarrow> int \<Rightarrow> string \<Rightarrow> delivery_failures \<Rightarrow> bool \<times> delivery_failures" where
  "track_success up keys now host s =
     (case delete_stamps up keys now host s of
        (None, s1) \<Rightarrow> (False, s1)
      | (Some ask, s1) \<Rightarrow> if ask then write_unmark up host s1 else (True, s1))"

definition write_restart :: "(tracker_call \<Rightarrow> bool) \<Rightarrow> string \<Rightarrow> delivery_failures \<Rightarrow> bool \<times> delivery_failures" where
  "write_restart up host s = (if up UnmarkHost then (True, forget (unmark host s)) else (False, s))"

definition restart :: "(tracker_call \<Rightarrow> bool) \<Rightarrow> keyspace \<Rightarrow> string \<Rightarrow> delivery_failures \<Rightarrow> bool \<times> delivery_failures" where
  "restart up keys host s =
     (case clear_failures up keys host s of
        (False, s1) \<Rightarrow> (False, s1)
      | (True, s1) \<Rightarrow> write_restart up host s1)"

definition stop :: "(tracker_call \<Rightarrow> bool) \<Rightarrow> string \<Rightarrow> delivery_failures \<Rightarrow> bool option \<times> delivery_failures" where
  "stop up host s =
     (if \<not> up StopHost then (None, s)
      else if host \<in> set (df_marked s) then (Some False, s)
      else (Some True, forget (s\<lparr>df_marked := df_marked s @ [host]\<rparr>)))"

definition exhausted_deliveries_days ::
  "(tracker_call \<Rightarrow> bool) \<Rightarrow> keyspace \<Rightarrow> (string \<Rightarrow> int option) \<Rightarrow> string \<Rightarrow> delivery_failures \<Rightarrow> int list option" where
  "exhausted_deliveries_days up keys parse_day host s =
     (if up ReadStamps then Some (sorted_list_of_set (Option.these (parse_day ` df_stamps s (failures_of keys host)))) else None)"

text \<open>\<open>scanned\<close> is what going through the keys with \<^verbatim>\<open>SCAN\<close> finds.\<close>

definition warning_domains_map ::
  "(tracker_call \<Rightarrow> bool) \<Rightarrow> keyspace \<Rightarrow> string list option \<Rightarrow> string list \<Rightarrow> delivery_failures \<Rightarrow> (string \<rightharpoonup> nat) option" where
  "warning_domains_map up keys domains scanned s =
     (let candidates = (case domains of Some ds \<Rightarrow> ds | None \<Rightarrow> scanned);
          open_to = filter (\<lambda>d. d \<notin> set (df_marked s)) candidates
      in if \<not> up ReadMarked \<or> (open_to \<noteq> [] \<and> \<not> up CountStamps) then None
         else Some (map_of (filter (\<lambda>(d, n). n > 0) (map (\<lambda>d. (d, card (df_stamps s (failures_of keys d)))) open_to))))"

datatype attempt_outcome = Delivered | AttemptFailed bool | AttemptHeld

definition record_attempt ::
  "(tracker_call \<Rightarrow> bool) \<Rightarrow> keyspace \<Rightarrow> (int \<Rightarrow> string) \<Rightarrow> int \<Rightarrow> string option \<Rightarrow> attempt_outcome \<Rightarrow>
     delivery_failures \<Rightarrow> delivery_failures" where
  "record_attempt up keys day now host outcome s =
     (case host of None \<Rightarrow> s | Some h \<Rightarrow>
        (case outcome of
           Delivered \<Rightarrow> snd (track_success up keys now h s)
         | AttemptFailed True \<Rightarrow> s
         | _ \<Rightarrow> snd (track_failure up keys day now h s)))"

section \<open>Runs\<close>

text \<open>
  What can happen to the tracker, in any order. A call about a host begins with its step in Redis;
  what it is to write to the table after that is kept until it is written. \<open>HeardFrom\<close> is an activity
  that arrived, or a provider that answered; \<open>ProviderFailed\<close> is a request to a provider that failed
  (\<^verbatim>\<open>src/fasp/request.rs\<close>); the administrator's are \<open>Restarted\<close>, \<open>Cleared\<close> and \<open>Halted\<close>.
\<close>

datatype table_write = MarkWrite string | UnmarkWrite string | RestartWrite string

datatype tracker_event =
    Attempted "tracker_call \<Rightarrow> bool" int string attempt_outcome
  | HeardFrom "tracker_call \<Rightarrow> bool" int string
  | ProviderFailed "tracker_call \<Rightarrow> bool" int string
  | Restarted "tracker_call \<Rightarrow> bool" string
  | Cleared "tracker_call \<Rightarrow> bool" string
  | Halted "tracker_call \<Rightarrow> bool" string
  | Written "tracker_call \<Rightarrow> bool" table_write
  | Asked int string
  | TableAnswered "tracker_call \<Rightarrow> bool"
  | AnswerStored int

type_synonym tracker = "delivery_failures \<times> table_write list"

text \<open>What is left of a call after its first step.\<close>

definition begun :: "table_write \<Rightarrow> bool option \<times> delivery_failures \<Rightarrow> table_write list \<Rightarrow> tracker" where
  "begun w r ws = (snd r, if fst r = Some True then ws @ [w] else ws)"

fun written :: "(tracker_call \<Rightarrow> bool) \<Rightarrow> table_write \<Rightarrow> delivery_failures \<Rightarrow> delivery_failures" where
  "written up (MarkWrite h) s = snd (write_mark up h s)"
| "written up (UnmarkWrite h) s = snd (write_unmark up h s)"
| "written up (RestartWrite h) s = snd (write_restart up h s)"

fun on_tracker_event :: "keyspace \<Rightarrow> (int \<Rightarrow> string) \<Rightarrow> (int \<Rightarrow> string) \<Rightarrow> tracker_event \<Rightarrow> tracker \<Rightarrow> tracker" where
  "on_tracker_event keys day minute (Attempted up now h outcome) (s, ws) =
     (case outcome of
        Delivered \<Rightarrow> begun (UnmarkWrite h) (delete_stamps up keys now h s) ws
      | AttemptFailed True \<Rightarrow> (s, ws)
      | _ \<Rightarrow> begun (MarkWrite h) (add_stamp up keys h (day now) FAILURE_DAYS s) ws)"
| "on_tracker_event keys day minute (HeardFrom up now h) (s, ws) = begun (UnmarkWrite h) (delete_stamps up keys now h s) ws"
| "on_tracker_event keys day minute (ProviderFailed up now h) (s, ws) =
     begun (MarkWrite h) (add_stamp up keys h (minute now) FAILURE_MINUTES s) ws"
| "on_tracker_event keys day minute (Restarted up h) (s, ws) = begun (RestartWrite h) (apfst Some (clear_failures up keys h s)) ws"
| "on_tracker_event keys day minute (Cleared up h) (s, ws) = (snd (clear_failures up keys h s), ws)"
| "on_tracker_event keys day minute (Halted up h) (s, ws) = (snd (stop up h s), ws)"
| "on_tracker_event keys day minute (Written up w) (s, ws) = (if w \<in> set ws then (written up w s, remove1 w ws) else (s, ws))"
| "on_tracker_event keys day minute (Asked now h) (s, ws) = (snd (is_unavailable now h s), ws)"
| "on_tracker_event keys day minute (TableAnswered up) (s, ws) = (table_answered up s, ws)"
| "on_tracker_event keys day minute (AnswerStored now) (s, ws) = (answer_stored now s, ws)"

definition tracker_run ::
  "keyspace \<Rightarrow> (int \<Rightarrow> string) \<Rightarrow> (int \<Rightarrow> string) \<Rightarrow> tracker_event list \<Rightarrow> delivery_failures \<Rightarrow> tracker" where
  "tracker_run keys day minute es s = fold (on_tracker_event keys day minute) es (s, [])"

text \<open>The two steps of a delivery's outcome, when nothing comes in between, are what \<open>record\<close> does.\<close>

lemma record_in_two_steps:
  "fst (fold (on_tracker_event keys day minute)
      [Attempted up now h outcome, Written up (if outcome = Delivered then UnmarkWrite h else MarkWrite h)] (s, [])) =
   record_attempt up keys day now (Some h) outcome s"
  by (cases outcome; cases "add_stamp up keys h (day now) FAILURE_DAYS s"; cases "delete_stamps up keys now h s")
    (auto simp: begun_def record_attempt_def track_success_def track_failure_def track_failure_at_def
      split: bool.splits option.splits)

section \<open>Seven failing days\<close>

text \<open>The days deliveries to a host have failed on since its failures were last forgotten.\<close>

fun day_after :: "(int \<Rightarrow> string) \<Rightarrow> string \<Rightarrow> tracker_event \<Rightarrow> string set \<Rightarrow> string set" where
  "day_after day host (Attempted up now h outcome) days =
     (if h \<noteq> host then days
      else case outcome of Delivered \<Rightarrow> {} | AttemptFailed True \<Rightarrow> days | _ \<Rightarrow> insert (day now) days)"
| "day_after day host (HeardFrom up now h) days = (if h \<noteq> host then days else {})"
| "day_after day host (Restarted up h) days = (if h \<noteq> host then days else {})"
| "day_after day host (Cleared up h) days = (if h \<noteq> host then days else {})"
| "day_after day host e days = days"

definition failing_days :: "(int \<Rightarrow> string) \<Rightarrow> string \<Rightarrow> tracker_event list \<Rightarrow> string set" where
  "failing_days day host es = fold (day_after day host) es {}"

text \<open>The calls about a host are answered; no administrator stops it, and it is not that of a provider.\<close>

fun plain_event :: "string \<Rightarrow> tracker_event \<Rightarrow> bool" where
  "plain_event host (Attempted up now h outcome) \<longleftrightarrow> h = host \<longrightarrow> up AddStamp \<and> up ForgetStamps"
| "plain_event host (HeardFrom up now h) \<longleftrightarrow> h = host \<longrightarrow> up ForgetStamps"
| "plain_event host (ProviderFailed up now h) \<longleftrightarrow> h \<noteq> host"
| "plain_event host (Restarted up h) \<longleftrightarrow> h = host \<longrightarrow> up ForgetStamps"
| "plain_event host (Cleared up h) \<longleftrightarrow> h = host \<longrightarrow> up ForgetStamps"
| "plain_event host (Halted up h) \<longleftrightarrow> h \<noteq> host"
| "plain_event host (Written up w) \<longleftrightarrow> w = MarkWrite host \<longrightarrow> up MarkHost"
| "plain_event host e \<longleftrightarrow> True"

text \<open>What begins to take the mark of a host away.\<close>

fun begins_unmarking :: "string \<Rightarrow> tracker_event \<Rightarrow> bool" where
  "begins_unmarking host (Attempted up now h outcome) \<longleftrightarrow> h = host \<and> outcome = Delivered"
| "begins_unmarking host (HeardFrom up now h) \<longleftrightarrow> h = host"
| "begins_unmarking host (Restarted up h) \<longleftrightarrow> h = host"
| "begins_unmarking host e \<longleftrightarrow> False"

lemma failures_of_inj [simp]: "failures_of keys a = failures_of keys b \<longleftrightarrow> a = b"
  by (simp add: failures_of_def)

lemma is_unavailable_keeps [simp]:
  "df_stamps (snd (is_unavailable now h s)) = df_stamps s" "df_marked (snd (is_unavailable now h s)) = df_marked s"
  by (simp_all add: is_unavailable_def Let_def)

lemma table_read_keeps [simp]:
  "df_stamps (table_answered up s) = df_stamps s" "df_marked (table_answered up s) = df_marked s"
  "df_stamps (answer_stored now s) = df_stamps s" "df_marked (answer_stored now s) = df_marked s"
  by (simp_all add: table_answered_def answer_stored_def split: option.split)

lemma redis_step_keeps_marks [simp]:
  "df_marked (snd (add_stamp up keys h stamp n s)) = df_marked s"
  "df_marked (snd (delete_stamps up keys now h s)) = df_marked s"
  "df_marked (snd (clear_failures up keys h s)) = df_marked s"
  by (simp_all add: add_stamp_def delete_stamps_def clear_failures_def Let_def)

lemma table_step_keeps_stamps [simp]:
  "df_stamps (written up w s) = df_stamps s" "df_stamps (snd (stop up h s)) = df_stamps s"
  by (cases w; simp add: write_mark_def write_unmark_def write_restart_def forget_def unmark_def)
    (simp add: stop_def forget_def)

lemma written_marks:
  "host \<in> set (df_marked (written up w s)) \<longleftrightarrow>
    (w = MarkWrite host \<and> up MarkHost) \<or>
    (host \<in> set (df_marked s) \<and> \<not> (w \<in> {UnmarkWrite host, RestartWrite host} \<and> up UnmarkHost))"
  by (cases w) (auto simp: write_mark_def write_unmark_def write_restart_def forget_def unmark_def)

lemma stop_marks: "h \<noteq> host \<Longrightarrow> host \<in> set (df_marked (snd (stop up h s))) \<longleftrightarrow> host \<in> set (df_marked s)"
  by (simp add: stop_def forget_def)

lemma redis_step_stamps:
  "df_stamps (snd (add_stamp up keys h stamp n s)) =
    (if up AddStamp then (df_stamps s)(failures_of keys h := insert stamp (df_stamps s (failures_of keys h))) else df_stamps s)"
  "df_stamps (snd (delete_stamps up keys now h s)) =
    (if up ForgetStamps then (df_stamps s)(failures_of keys h := {}) else df_stamps s)"
  "df_stamps (snd (clear_failures up keys h s)) =
    (if up ForgetStamps then (df_stamps s)(failures_of keys h := {}) else df_stamps s)"
  by (simp_all add: add_stamp_def delete_stamps_def clear_failures_def Let_def)

lemma enough_stamps:
  "fst (add_stamp up keys h stamp n s) = Some True \<longleftrightarrow>
    up AddStamp \<and> n \<le> card (insert stamp (df_stamps s (failures_of keys h)))"
  by (simp add: add_stamp_def Let_def)

lemma stamps_are_failing_days:
  assumes "df_stamps s (failures_of keys host) = days" "plain_event host e"
  shows "df_stamps (fst (on_tracker_event keys day minute e (s, ws))) (failures_of keys host) = day_after day host e days"
  using assms by (cases e) (auto simp: begun_def redis_step_stamps split: attempt_outcome.split bool.split)

text \<open>A host is marked, or about to be, only after seven failing days.\<close>

lemma marked_after_seven:
  assumes "df_stamps s (failures_of keys host) = days" "plain_event host e"
    and "on_tracker_event keys day minute e (s, ws) = (s', ws')"
    and "host \<in> set (df_marked s') \<or> MarkWrite host \<in> set ws'"
  shows "host \<in> set (df_marked s) \<or> MarkWrite host \<in> set ws \<or> FAILURE_DAYS \<le> card (day_after day host e days)"
  using assms
  by (cases e) (auto simp: begun_def enough_stamps written_marks stop_marks
      split: attempt_outcome.splits bool.splits if_splits dest: subsetD [OF set_remove1_subset])

text \<open>What is written, and what remains to be written, once the seventh day has failed.\<close>

definition marking :: "string \<Rightarrow> tracker \<Rightarrow> bool" where
  "marking host t \<longleftrightarrow> UnmarkWrite host \<notin> set (snd t) \<and> RestartWrite host \<notin> set (snd t) \<and>
     (MarkWrite host \<in> set (snd t) \<or> host \<in> set (df_marked (fst t)))"

lemma marking_stays:
  assumes "marking host (s, ws)" "plain_event host e" "\<not> begins_unmarking host e"
  shows "marking host (on_tracker_event keys day minute e (s, ws))"
proof (cases e)
  case (Written up w)
  then show ?thesis using assms
    by (cases "w = MarkWrite host") (auto simp: marking_def written_marks write_mark_def forget_def dest: notin_set_remove1)
qed (use assms in \<open>auto simp: marking_def begun_def stop_marks split: attempt_outcome.split bool.split\<close>)

lemma run_snoc: "tracker_run keys day minute (es @ [e]) s = on_tracker_event keys day minute e (tracker_run keys day minute es s)"
  by (simp add: tracker_run_def)

lemma failing_days_snoc: "failing_days day host (es @ [e]) = day_after day host e (failing_days day host es)"
  by (simp add: failing_days_def)

lemma run_stamps:
  assumes "df_stamps s (failures_of keys host) = {}"
  shows "\<forall>e \<in> set es. plain_event host e \<Longrightarrow>
    df_stamps (fst (tracker_run keys day minute es s)) (failures_of keys host) = failing_days day host es"
proof (induction es rule: rev_induct)
  case (snoc e es)
  then show ?case using stamps_are_failing_days [of "fst (tracker_run keys day minute es s)" keys host _ e day minute "snd (tracker_run keys day minute es s)"]
    by (simp add: run_snoc failing_days_snoc)
qed (use assms in \<open>simp add: tracker_run_def failing_days_def\<close>)

lemma run_marked:
  assumes "df_stamps s (failures_of keys host) = {}" "host \<notin> set (df_marked s)"
  shows "\<forall>e \<in> set es. plain_event host e \<Longrightarrow>
    host \<in> set (df_marked (fst (tracker_run keys day minute es s))) \<or> MarkWrite host \<in> set (snd (tracker_run keys day minute es s)) \<Longrightarrow>
    \<exists>es1 es2. es = es1 @ es2 \<and> FAILURE_DAYS \<le> card (failing_days day host es1)"
proof (induction es rule: rev_induct)
  case (snoc e es)
  let ?t = "tracker_run keys day minute es s"
  have "host \<in> set (df_marked (fst ?t)) \<or> MarkWrite host \<in> set (snd ?t) \<or> FAILURE_DAYS \<le> card (failing_days day host (es @ [e]))"
    unfolding failing_days_snoc
    using snoc.prems run_stamps [OF assms(1), of es day minute]
    by (intro marked_after_seven [where s = "fst ?t" and ws = "snd ?t" and keys = keys and e = e and minute = minute
          and s' = "fst (tracker_run keys day minute (es @ [e]) s)" and ws' = "snd (tracker_run keys day minute (es @ [e]) s)"])
      (auto simp: run_snoc)
  then consider "host \<in> set (df_marked (fst ?t)) \<or> MarkWrite host \<in> set (snd ?t)"
    | "FAILURE_DAYS \<le> card (failing_days day host (es @ [e]))" by blast
  then show ?case
  proof cases
    assume 1: "host \<in> set (df_marked (fst ?t)) \<or> MarkWrite host \<in> set (snd ?t)"
    then obtain es1 es2 where "es = es1 @ es2" "FAILURE_DAYS \<le> card (failing_days day host es1)"
      using snoc by auto
    then show ?thesis by (intro exI [of _ es1] exI [of _ "es2 @ [e]"]) simp
  next
    assume "FAILURE_DAYS \<le> card (failing_days day host (es @ [e]))"
    then show ?thesis by (intro exI [of _ "es @ [e]"] exI [of _ "[]"]) simp
  qed
qed (use assms in \<open>simp add: tracker_run_def\<close>)

lemma run_marking:
  "marking host t \<Longrightarrow> \<forall>e \<in> set es. plain_event host e \<and> \<not> begins_unmarking host e \<Longrightarrow>
   marking host (fold (on_tracker_event keys day minute) es t)"
proof (induction es arbitrary: t)
  case (Cons e es)
  then show ?case using marking_stays [of host "fst t" "snd t" e] by simp
qed simp

text \<open>
  C22: Take a host with no failures, no mark, and calls about it that are answered, which no
  administrator stops and which is not that of a provider (whose failures are counted in minutes,
  five of them enough). Whatever else happens, with this host and others, and however the two steps
  of the calls come in between each other: the host is marked unavailable only after deliveries to
  it failed on seven different days with its failures not forgotten in between (by a delivery that
  went through, an activity it sent, or an administrator); and from the seventh such day on, as long
  as nothing begins to take the mark away and nothing that began before is still to do so, it is
  marked once its mark is written.
\<close>

theorem seven_failing_days_mark_a_host:
  assumes "df_stamps s (failures_of keys host) = {}" "host \<notin> set (df_marked s)" "\<forall>e \<in> set es. plain_event host e"
  shows "(host \<in> set (df_marked (fst (tracker_run keys day minute es s))) \<longrightarrow>
      (\<exists>es1 es2. es = es1 @ es2 \<and> FAILURE_DAYS \<le> card (failing_days day host es1))) \<and>
    (\<forall>es1 up now outcome es2. es = es1 @ Attempted up now host outcome # es2 \<longrightarrow>
      outcome \<in> {AttemptFailed False, AttemptHeld} \<longrightarrow>
      FAILURE_DAYS \<le> card (insert (day now) (failing_days day host es1)) \<longrightarrow>
      {UnmarkWrite host, RestartWrite host} \<inter> set (snd (tracker_run keys day minute es1 s)) = {} \<longrightarrow>
      (\<forall>e \<in> set es2. \<not> begins_unmarking host e) \<longrightarrow>
      MarkWrite host \<notin> set (snd (tracker_run keys day minute es s)) \<longrightarrow>
      host \<in> set (df_marked (fst (tracker_run keys day minute es s))))"
proof (intro conjI allI impI)
  assume "host \<in> set (df_marked (fst (tracker_run keys day minute es s)))"
  then show "\<exists>es1 es2. es = es1 @ es2 \<and> FAILURE_DAYS \<le> card (failing_days day host es1)"
    by (intro run_marked [OF assms] disjI1)
next
  fix es1 up now outcome es2
  assume es: "es = es1 @ Attempted up now host outcome # es2" and failed: "outcome \<in> {AttemptFailed False, AttemptHeld}"
    and seven: "FAILURE_DAYS \<le> card (insert (day now) (failing_days day host es1))"
    and none: "{UnmarkWrite host, RestartWrite host} \<inter> set (snd (tracker_run keys day minute es1 s)) = {}"
    and after: "\<forall>e \<in> set es2. \<not> begins_unmarking host e"
    and wrote: "MarkWrite host \<notin> set (snd (tracker_run keys day minute es s))"
  obtain s1 ws1 where s1: "tracker_run keys day minute es1 s = (s1, ws1)" by fastforce
  have "df_stamps s1 (failures_of keys host) = failing_days day host es1"
    using run_stamps [OF assms(1), of es1 day minute] assms(3) es s1 by simp
  moreover have "up AddStamp" using assms(3) es by simp
  ultimately have enough: "fst (add_stamp up keys host (day now) FAILURE_DAYS s1) = Some True"
    using seven by (simp add: enough_stamps)
  have "marking host (on_tracker_event keys day minute (Attempted up now host outcome) (s1, ws1))"
    using failed none s1 enough by (auto simp: marking_def begun_def)
  then have "marking host (tracker_run keys day minute es s)"
    using run_marking [of host _ es2 keys day minute] after assms(3) es s1 by (simp add: tracker_run_def)
  then show "host \<in> set (df_marked (fst (tracker_run keys day minute es s)))" using wrote by (simp add: marking_def)
qed

definition sample_tracker :: delivery_failures where
  "sample_tracker = \<lparr>df_stamps = \<lambda>_. {}, df_marked = [], df_read = None, df_hosts = [], df_reading = False, df_answer = None\<rparr>"

text \<open>Six days, two steps of another host, the seventh day, and the writing of the mark.\<close>

definition six_days :: "tracker_event list" where
  "six_days = map (\<lambda>d. Attempted (\<lambda>_. True) d ''h'' (if d = 3 then AttemptHeld else AttemptFailed False)) [1, 2, 3, 4, 5, 6, 6] @
     [Asked 6 ''h'', HeardFrom (\<lambda>_. False) 7 ''i'']"

lemma seven_failing_days_mark_a_host_witness:
  "''h'' \<in> set (df_marked (fst (tracker_run \<lparr>ks_prefix = []\<rparr> dec dec
     (six_days @ Attempted (\<lambda>_. True) 7 ''h'' (AttemptFailed False) # [Written (\<lambda>_. True) (MarkWrite ''h'')]) sample_tracker)))"
  (is "_ \<in> set (df_marked (fst (tracker_run ?k _ _ (_ @ ?e # ?w) _)))")
proof -
  have "FAILURE_DAYS \<le> card (insert (dec 7) (failing_days dec ''h'' six_days))"
    by (simp add: failing_days_def FAILURE_DAYS_def six_days_def)
  moreover have "{UnmarkWrite ''h'', RestartWrite ''h''} \<inter> set (snd (tracker_run ?k dec dec six_days sample_tracker)) = {}"
    "MarkWrite ''h'' \<notin> set (snd (tracker_run ?k dec dec (six_days @ ?e # ?w) sample_tracker))" by code_simp+
  moreover have "\<forall>e \<in> set (six_days @ ?e # ?w). plain_event ''h'' e" by (simp add: six_days_def)
  ultimately show ?thesis
    by (intro seven_failing_days_mark_a_host [THEN conjunct2, rule_format, where outcome = "AttemptFailed False" and ?es1.0 = six_days])
      (auto simp: sample_tracker_def)
qed

text \<open>
  The two steps can come apart: an activity of the host that arrives between those of its seventh
  failure leaves it marked, with no failures. The next one takes the mark away, once the mark is
  remembered.
\<close>

lemma late_mark_outlives_a_success:
  defines "t \<equiv> tracker_run \<lparr>ks_prefix = []\<rparr> dec dec
     (six_days @ [Attempted (\<lambda>_. True) 7 ''h'' (AttemptFailed False), HeardFrom (\<lambda>_. True) 8 ''h'',
        Written (\<lambda>_. True) (UnmarkWrite ''h''), Written (\<lambda>_. True) (MarkWrite ''h'')]) sample_tracker"
  shows "''h'' \<in> set (df_marked (fst t)) \<and> df_stamps (fst t) (failures_of \<lparr>ks_prefix = []\<rparr> ''h'') = {} \<and> snd t = []"
  unfolding t_def by code_simp

end
