(* ===== verification/LocalUris.thy ===== *)
theory LocalUris
  imports Database RustText
begin

text \<open>
  \<^verbatim>\<open>src/federation/tag.rs\<close>, the URIs that local accounts and posts go by, and
  \<^verbatim>\<open>src/federation/local_uri.rs\<close>, which reads them. Parsing a URL (crate \<^verbatim>\<open>url\<close>) is an argument.
\<close>

record parsed_url =
  pu_host :: "string option"
  pu_segments :: "string list"

record url_lib =
  ul_parse :: "string \<Rightarrow> parsed_url option"

definition host_of :: "url_lib \<Rightarrow> string \<Rightarrow> string option" where
  "host_of lib s = Option.bind (ul_parse lib s) pu_host"

definition INSTANCE_ACTOR_ID :: int where "INSTANCE_ACTOR_ID = - 99"

definition NUMERIC_AP_ID :: int where "NUMERIC_AP_ID = 1"

definition account_uri :: "string \<Rightarrow> int \<Rightarrow> int option \<Rightarrow> string \<Rightarrow> string" where
  "account_uri domain i id_scheme username =
     (if i = INSTANCE_ACTOR_ID then ''https://'' @ domain @ ''/actor''
      else if id_scheme = Some NUMERIC_AP_ID then ''https://'' @ domain @ ''/ap/users/'' @ dec i
      else ''https://'' @ domain @ ''/users/'' @ username)"

definition key_uri :: "string \<Rightarrow> int \<Rightarrow> int option \<Rightarrow> string \<Rightarrow> string" where
  "key_uri domain i id_scheme username = account_uri domain i id_scheme username @ ''#main-key''"

definition status_uri :: "string \<Rightarrow> int \<Rightarrow> int option \<Rightarrow> string \<Rightarrow> int \<Rightarrow> string" where
  "status_uri domain i id_scheme username status_id = account_uri domain i id_scheme username @ ''/statuses/'' @ dec status_id"

section \<open>Reading them\<close>

record named_account =
  na_id :: int
  na_username :: string
  na_domain :: "string option"
  na_uri :: string
  na_id_scheme :: "int option"

record named_status =
  ns_id :: int
  ns_account :: int
  ns_uri :: "string option"

record uri_db =
  ud_accounts :: "named_account list"
  ud_statuses :: "named_status list"

datatype uri_call = UcAccount | UcStatus

record uri_request =
  uq_domain :: string
  uq_aliases :: "string list"
  uq_down :: "uri_call \<Rightarrow> bool"

definition local_path :: "url_lib \<Rightarrow> uri_request \<Rightarrow> string \<Rightarrow> string list option" where
  "local_path lib rq uri =
     (case ul_parse lib uri of None \<Rightarrow> None | Some u \<Rightarrow>
      case pu_host u of None \<Rightarrow> None | Some host \<Rightarrow>
      if to_ascii_lowercase host = to_ascii_lowercase (uq_domain rq) \<or>
         list_ex (\<lambda>a. to_ascii_lowercase host = to_ascii_lowercase a) (uq_aliases rq)
      then Some (pu_segments u) else None)"

definition is_local_uri :: "url_lib \<Rightarrow> uri_request \<Rightarrow> string \<Rightarrow> bool" where
  "is_local_uri lib rq uri = (local_path lib rq uri \<noteq> None)"

definition by_username :: "uri_request \<Rightarrow> string \<Rightarrow> uri_db \<Rightarrow> int option" where
  "by_username rq username db =
     (if uq_down rq UcAccount then None
      else map_option na_id (find (\<lambda>a. na_domain a = None \<and> to_lowercase (na_username a) = to_lowercase username) (ud_accounts db)))"

definition by_id :: "uri_request \<Rightarrow> string \<Rightarrow> uri_db \<Rightarrow> int option" where
  "by_id rq s db =
     (case parse_i64 s of None \<Rightarrow> None | Some i \<Rightarrow>
      if uq_down rq UcAccount then None
      else map_option na_id (find (\<lambda>a. na_domain a = None \<and> na_id a = i) (ud_accounts db)))"

definition is_handle :: "string \<Rightarrow> bool" where
  "is_handle s = (s \<noteq> [] \<and> hd s = CHR ''@'')"

definition account_of_uri :: "url_lib \<Rightarrow> uri_request \<Rightarrow> string \<Rightarrow> uri_db \<Rightarrow> int option" where
  "account_of_uri lib rq uri db =
     (case local_path lib rq uri of
        Some [a] \<Rightarrow> if a = ''actor'' then Some INSTANCE_ACTOR_ID
          else if is_handle a then by_username rq (drop 1 a) db else None
      | Some [a, b] \<Rightarrow> if a = ''users'' then by_username rq b db else None
      | Some [a, b, c] \<Rightarrow> if a = ''ap'' \<and> b = ''users'' then by_id rq c db else None
      | Some _ \<Rightarrow> None
      | None \<Rightarrow> if uq_down rq UcAccount then None
          else map_option na_id (find (\<lambda>a. na_uri a = uri) (ud_accounts db)))"

text \<open>The part of a path that names a post.\<close>

definition status_segment :: "string list \<Rightarrow> string option" where
  "status_segment path =
     (case path of
        [a, b, c, d] \<Rightarrow> if a = ''users'' \<and> c = ''statuses'' then Some d else None
      | [a, b, c, d, e] \<Rightarrow> if a = ''ap'' \<and> b = ''users'' \<and> d = ''statuses'' then Some e else None
      | [a, b] \<Rightarrow> if is_handle a then Some b else None
      | _ \<Rightarrow> None)"

definition status_of_uri :: "url_lib \<Rightarrow> uri_request \<Rightarrow> string \<Rightarrow> uri_db \<Rightarrow> int option" where
  "status_of_uri lib rq uri db =
     (case local_path lib rq uri of
        Some path \<Rightarrow>
          (case Option.bind (status_segment path) parse_i64 of None \<Rightarrow> None | Some i \<Rightarrow>
           if uq_down rq UcStatus then None
           else map_option ns_id (find (\<lambda>s. ns_id s = i \<and>
             (\<exists>a \<in> set (ud_accounts db). na_id a = ns_account s \<and> na_domain a = None)) (ud_statuses db)))
      | None \<Rightarrow> if uq_down rq UcStatus then None
          else map_option ns_id (find (\<lambda>s. ns_uri s = Some uri) (ud_statuses db)))"

section \<open>What they name\<close>

text \<open>
  A URL is read as its host and the parts of its path; documented of the crate for hosts in lower
  case and parts that hold no slash, query, fragment, escape or dot segment (\<open>plain\<close>).
\<close>

definition plain_char :: "char \<Rightarrow> bool" where
  "plain_char c \<longleftrightarrow> is_digit c \<or> c \<in> {CHR ''_'', CHR ''-'', CHR ''.'', CHR ''@''} \<or> 65 \<le> code c \<and> code c \<le> 90 \<or> 97 \<le> code c \<and> code c \<le> 122"

definition plain :: "string \<Rightarrow> bool" where
  "plain s \<longleftrightarrow> s \<notin> {[], ''.'', ''..''} \<and> list_all plain_char s"

definition reads_plain_paths :: "url_lib \<Rightarrow> string \<Rightarrow> bool" where
  "reads_plain_paths lib domain \<longleftrightarrow>
     (\<forall>path. path \<noteq> [] \<longrightarrow> (\<forall>s \<in> set path. plain s) \<longrightarrow>
        ul_parse lib (''https://'' @ domain @ ''/'' @ join_with ''/'' path) = Some \<lparr>pu_host = Some domain, pu_segments = path\<rparr>)"

lemma plain_dec: "plain (dec i)"
proof -
  have "dec_nat n \<noteq> []" for n by (subst dec_nat.simps) simp
  then obtain c s where n: "dec_nat (nat i) = c # s" "is_digit c"
    using dec_nat_digits [of "nat i"] by (cases "dec_nat (nat i)") auto
  have "dec i \<notin> {[], ''.'', ''..''}"
    using n by (auto simp: dec_def is_digit_def code_def)
  then show ?thesis
    using dec_nat_digits by (auto simp: plain_def plain_char_def dec_def list_all_iff)
qed

lemma plain_words: "plain ''actor''" "plain ''users''" "plain ''ap''" "plain ''statuses''"
  by code_simp+

lemma own_path:
  assumes "reads_plain_paths lib (uq_domain rq)" "path \<noteq> []" "\<forall>s \<in> set path. plain s"
  shows "local_path lib rq (''https://'' @ uq_domain rq @ ''/'' @ join_with ''/'' path) = Some path"
proof -
  have "ul_parse lib (''https://'' @ uq_domain rq @ ''/'' @ join_with ''/'' path) = Some \<lparr>pu_host = Some (uq_domain rq), pu_segments = path\<rparr>"
    using assms unfolding reads_plain_paths_def by blast
  then show ?thesis unfolding local_path_def by simp
qed

definition account_path :: "named_account \<Rightarrow> string list" where
  "account_path a =
     (if na_id a = INSTANCE_ACTOR_ID then [''actor'']
      else if na_id_scheme a = Some NUMERIC_AP_ID then [''ap'', ''users'', dec (na_id a)] else [''users'', na_username a])"

lemma account_path_plain: "plain (na_username a) \<Longrightarrow> \<forall>s \<in> set (account_path a). plain s"
  by (simp add: account_path_def plain_words plain_dec)

lemma account_uri_path:
  "account_uri d (na_id a) (na_id_scheme a) (na_username a) = ''https://'' @ d @ ''/'' @ join_with ''/'' (account_path a)"
  by (simp add: account_uri_def account_path_def)

lemma status_uri_path:
  "status_uri d (na_id a) (na_id_scheme a) (na_username a) i =
     ''https://'' @ d @ ''/'' @ join_with ''/'' (account_path a @ [''statuses'', dec i])"
  by (simp add: status_uri_def account_uri_def account_path_def)

text \<open>
  C37: With the database up, the URI eunha gives a local account names that account and the one it
  gives a local post (of any account but the instance's own) that post, when read back on the same
  domain: for every scheme of ids, and whatever other accounts and posts there are.
\<close>

theorem uris_name_what_they_were_made_for:
  assumes lib: "reads_plain_paths lib (uq_domain rq)" and up: "\<And>c. \<not> uq_down rq c"
    and a: "a \<in> set (ud_accounts db)" "na_domain a = None" "plain (na_username a)" "- (2 ^ 63) \<le> na_id a" "na_id a < 2 ^ 63"
    and ids: "distinct (map na_id (ud_accounts db))"
    and names: "\<And>b. b \<in> set (ud_accounts db) \<Longrightarrow> na_domain b = None \<Longrightarrow>
      to_lowercase (na_username b) = to_lowercase (na_username a) \<Longrightarrow> b = a"
  shows "account_of_uri lib rq (account_uri (uq_domain rq) (na_id a) (na_id_scheme a) (na_username a)) db = Some (na_id a) \<and>
    (\<forall>s \<in> set (ud_statuses db). ns_account s = na_id a \<longrightarrow> na_id a \<noteq> INSTANCE_ACTOR_ID \<longrightarrow> distinct (map ns_id (ud_statuses db)) \<longrightarrow>
       - (2 ^ 63) \<le> ns_id s \<longrightarrow> ns_id s < 2 ^ 63 \<longrightarrow>
       status_of_uri lib rq (status_uri (uq_domain rq) (na_id a) (na_id_scheme a) (na_username a) (ns_id s)) db = Some (ns_id s))"
proof (intro conjI ballI impI)
  have path: "local_path lib rq (account_uri (uq_domain rq) (na_id a) (na_id_scheme a) (na_username a)) = Some (account_path a)"
    unfolding account_uri_path by (rule own_path [OF lib]) (use account_path_plain [OF a(3)] in \<open>simp_all add: account_path_def\<close>)
  have "by_id rq (dec (na_id a)) db = Some (na_id a)"
  proof -
    have "find (\<lambda>b. na_domain b = None \<and> na_id b = na_id a) (ud_accounts db) = Some a"
      by (rule find_unique) (use a distinct_map_inj [OF ids] in auto)
    then show ?thesis using up parse_i64_dec [OF a(4,5)] by (simp add: by_id_def)
  qed
  moreover have "by_username rq (na_username a) db = Some (na_id a)"
  proof -
    have "find (\<lambda>b. na_domain b = None \<and> to_lowercase (na_username b) = to_lowercase (na_username a)) (ud_accounts db) = Some a"
      by (rule find_unique) (use a names in auto)
    then show ?thesis using up by (simp add: by_username_def)
  qed
  ultimately show "account_of_uri lib rq (account_uri (uq_domain rq) (na_id a) (na_id_scheme a) (na_username a)) db = Some (na_id a)"
    unfolding account_of_uri_def path by (simp add: account_path_def)
next
  fix s
  assume s: "s \<in> set (ud_statuses db)" "ns_account s = na_id a" "na_id a \<noteq> INSTANCE_ACTOR_ID" "distinct (map ns_id (ud_statuses db))"
    "- (2 ^ 63) \<le> ns_id s" "ns_id s < 2 ^ 63"
  have path: "local_path lib rq (status_uri (uq_domain rq) (na_id a) (na_id_scheme a) (na_username a) (ns_id s)) =
      Some (account_path a @ [''statuses'', dec (ns_id s)])"
    unfolding status_uri_path
    by (rule own_path [OF lib]) (use account_path_plain [OF a(3)] in \<open>auto simp: plain_words plain_dec\<close>)
  have seg: "status_segment (account_path a @ [''statuses'', dec (ns_id s)]) = Some (dec (ns_id s))"
    using s(3) by (simp add: account_path_def status_segment_def)
  have "find (\<lambda>t. ns_id t = ns_id s \<and> (\<exists>a \<in> set (ud_accounts db). na_id a = ns_account t \<and> na_domain a = None)) (ud_statuses db) = Some s"
    by (rule find_unique) (use s a distinct_map_inj [OF s(4)] in auto)
  then show "status_of_uri lib rq (status_uri (uq_domain rq) (na_id a) (na_id_scheme a) (na_username a) (ns_id s)) db = Some (ns_id s)"
    using up parse_i64_dec [OF s(5,6)] by (simp add: status_of_uri_def path seg)
qed

text \<open>A reader of such URLs: what follows the scheme, split at the slashes.\<close>

definition sample_paths :: "string \<Rightarrow> url_lib" where
  "sample_paths domain = \<lparr>ul_parse = \<lambda>s.
     if take 8 s = ''https://'' \<and> take (length domain + 1) (drop 8 s) = domain @ ''/'' then
       Some \<lparr>pu_host = Some domain, pu_segments = split_by (\<lambda>c. c = CHR ''/'') (drop (length domain + 1) (drop 8 s))\<rparr> else None\<rparr>"

lemma sample_paths_read: "reads_plain_paths (sample_paths domain) domain"
proof -
  have "\<not> plain_char (CHR ''/'')" by code_simp
  then have slash: "list_all (\<lambda>c. \<not> c = CHR ''/'') s" if "plain s" for s
    using that unfolding plain_def list_all_iff by metis
  have "split_by (\<lambda>c. c = CHR ''/'') (join_with ''/'' path) = path" if "path \<noteq> []" "\<forall>s \<in> set path. plain s" for path
    by (rule split_by_join [OF that(1)]) (use that(2) slash in blast)+
  then show ?thesis by (simp add: reads_plain_paths_def sample_paths_def)
qed

lemma uris_name_what_they_were_made_for_witness:
  "account_of_uri (sample_paths ''e.x'') \<lparr>uq_domain = ''e.x'', uq_aliases = [], uq_down = \<lambda>_. False\<rparr> ''https://e.x/users/ann''
     \<lparr>ud_accounts = [\<lparr>na_id = 4, na_username = ''ann'', na_domain = None, na_uri = [], na_id_scheme = None\<rparr>], ud_statuses = []\<rparr> = Some 4"
proof -
  let ?a = "\<lparr>na_id = 4, na_username = ''ann'', na_domain = None, na_uri = [], na_id_scheme = None\<rparr>"
  have "plain ''ann''" by code_simp
  then show ?thesis
    using uris_name_what_they_were_made_for [of "sample_paths ''e.x''" "\<lparr>uq_domain = ''e.x'', uq_aliases = [], uq_down = \<lambda>_. False\<rparr>" ?a
      "\<lparr>ud_accounts = [?a], ud_statuses = []\<rparr>"] sample_paths_read [of "''e.x''"]
    by (simp add: account_uri_def INSTANCE_ACTOR_ID_def)
qed

end
