(* ===== verification/Delivery.thy ===== *)
theory Delivery
  imports FederationPolicy Json DeliveryFailures LocalUris
begin

text \<open>
  \<^verbatim>\<open>src/federation/delivery.rs\<close>: who an activity goes to, and what is handed to ojak's
  deliverer. The recipients are queries, as functions of the tables; ojak's queue is the list of
  batches it was given. Parsing URLs, keys and signatures (other crates) are arguments. Times are
  in microseconds.
\<close>

section \<open>The tables\<close>

record actor_row =
  ar_id :: int
  ar_username :: string
  ar_domain :: "string option"
  ar_inbox :: string
  ar_shared_inbox :: string
  ar_suspended :: bool
  ar_requested_deletion :: bool

record post_row =
  po_id :: int
  po_account :: int
  po_in_reply_to :: "int option"
  po_in_reply_to_account :: "int option"
  po_reblog_of :: "int option"
  po_visibility :: int
  po_deleted :: "int option"
  po_created :: int

record quote_row =
  qu_status :: int
  qu_account :: int
  qu_quoted_status :: "int option"
  qu_quoted_account :: "int option"

datatype reach_query =
    ReachUnavailable | ReachFollowers | ReachAccount | ReachStatus | ReachStatusRow | ReachDeletedBoosters
  | ReachSigner | ReachSuspended | ReachGone | ReachQueue

record reach_db =
  re_actors :: "actor_row list"
  re_posts :: "post_row list"
  re_follows :: "(int \<times> int \<times> int) list"
  re_follow_requests :: "(int \<times> int \<times> int) list"
  re_reports :: "(int \<times> int) list"
  re_mentions :: "(int \<times> int) list"
  re_favourites :: "(int \<times> int) list"
  re_quotes :: "quote_row list"
  re_relays :: "(string \<times> int) list"
  re_domain_blocks :: "(int \<times> string) list"
  re_deletion_requests :: "int list"
  re_unavailable :: "string list"
  re_policy :: policy_db
  re_now :: int
  re_down :: "reach_query \<Rightarrow> bool"

datatype delivery_error = QueryFailed | BadKeyId | NoSigner | QueueFailed

section \<open>Recipients\<close>

definition unavailable_domains :: "reach_db \<Rightarrow> string list" where
  "unavailable_domains db = (if re_down db ReachUnavailable then [] else re_unavailable db)"

definition inbox_unavailable :: "url_lib \<Rightarrow> string \<Rightarrow> string list \<Rightarrow> bool" where
  "inbox_unavailable lib inbox_url unavailable =
     (case host_of lib inbox_url of None \<Rightarrow> False | Some h \<Rightarrow> h \<in> set unavailable)"

definition drop_unavailable :: "url_lib \<Rightarrow> reach_db \<Rightarrow> string list \<Rightarrow> string list" where
  "drop_unavailable lib db inboxes =
     filter (\<lambda>inbox. inbox \<noteq> [] \<and> \<not> inbox_unavailable lib inbox (unavailable_domains db)) inboxes"

text \<open>\<^verbatim>\<open>CASE WHEN a.shared_inbox_url <> '' THEN ...\<close>, and the conditions each branch repeats.\<close>

definition inbox_of :: "actor_row \<Rightarrow> string" where
  "inbox_of a = (if ar_shared_inbox a \<noteq> [] then ar_shared_inbox a else ar_inbox a)"

definition reachable_actor :: "actor_row \<Rightarrow> bool" where
  "reachable_actor a \<longleftrightarrow> ar_domain a \<noteq> None \<and> \<not> ar_suspended a \<and> \<not> ar_requested_deletion a \<and> ar_inbox a \<noteq> []"

definition inboxes_where :: "reach_db \<Rightarrow> (actor_row \<Rightarrow> bool) \<Rightarrow> string list" where
  "inboxes_where db p = map inbox_of (filter (\<lambda>a. reachable_actor a \<and> p a) (re_actors db))"

definition follows_target :: "reach_db \<Rightarrow> int \<Rightarrow> actor_row \<Rightarrow> bool" where
  "follows_target db target a = list_ex (\<lambda>(f, t, at). f = ar_id a \<and> t = target) (re_follows db)"

definition relay_inboxes :: "reach_db \<Rightarrow> string list" where
  "relay_inboxes db = map fst (filter (\<lambda>(inbox, state). state = 2 \<and> inbox \<noteq> []) (re_relays db))"

definition follower_inboxes :: "url_lib \<Rightarrow> reach_db \<Rightarrow> int \<Rightarrow> delivery_error + string list" where
  "follower_inboxes lib db actor_account_id =
     (if re_down db ReachFollowers then Inl QueryFailed
      else Inr (drop_unavailable lib db (remdups (inboxes_where db (follows_target db actor_account_id)))))"

definition two_days :: int where "two_days = seconds (2 * 86400)"

definition account_reach_inboxes :: "url_lib \<Rightarrow> reach_db \<Rightarrow> int \<Rightarrow> delivery_error + string list" where
  "account_reach_inboxes lib db account_id =
     (if re_down db ReachAccount then Inl QueryFailed
      else Inr (drop_unavailable lib db (remdups (
        inboxes_where db (follows_target db account_id) @
        inboxes_where db (\<lambda>a. (ar_id a, account_id) \<in> set (re_reports db)) @
        inboxes_where db (\<lambda>a. list_ex (\<lambda>s. po_account s = account_id \<and> po_deleted s = None \<and>
            po_created s \<ge> re_now db - two_days \<and> (po_id s, ar_id a) \<in> set (re_mentions db)) (re_posts db)) @
        inboxes_where db (\<lambda>a. list_ex (\<lambda>(f, t, at). f = account_id \<and> t = ar_id a \<and> at \<ge> re_now db - two_days) (re_follows db)) @
        inboxes_where db (\<lambda>a. list_ex (\<lambda>(f, t, at). f = account_id \<and> t = ar_id a \<and> at \<ge> re_now db - two_days) (re_follow_requests db)) @
        relay_inboxes db))))"

definition interacted :: "reach_db \<Rightarrow> int \<Rightarrow> actor_row \<Rightarrow> bool" where
  "interacted db status_id a \<longleftrightarrow>
     list_ex (\<lambda>s. po_account s = ar_id a \<and> po_deleted s = None \<and>
       (po_reblog_of s = Some status_id \<or> po_in_reply_to s = Some status_id)) (re_posts db) \<or>
     (ar_id a, status_id) \<in> set (re_favourites db) \<or>
     list_ex (\<lambda>q. qu_account q = ar_id a \<and> qu_quoted_status q = Some status_id) (re_quotes db)"

text \<open>The followers of the author, and of a local author that is answered.\<close>

definition follower_of_thread :: "reach_db \<Rightarrow> int \<Rightarrow> int option \<Rightarrow> bool \<Rightarrow> actor_row \<Rightarrow> bool" where
  "follower_of_thread db author in_reply_to_account distributable a \<longleftrightarrow>
     follows_target db author a \<or>
     distributable \<and> (case in_reply_to_account of None \<Rightarrow> False | Some t \<Rightarrow>
       list_ex (\<lambda>ta. ar_id ta = t \<and> ar_domain ta = None) (re_actors db) \<and> follows_target db t a \<and>
       (author, the (ar_domain a)) \<notin> set (re_domain_blocks db))"

definition status_reach_inboxes ::
  "url_lib \<Rightarrow> reach_db \<Rightarrow> int \<Rightarrow> int \<Rightarrow> int option \<Rightarrow> bool \<Rightarrow> bool \<Rightarrow> bool \<Rightarrow> bool \<Rightarrow> int option \<Rightarrow> int list \<Rightarrow>
     delivery_error + string list"
where
  "status_reach_inboxes lib db status_id author_id in_reply_to_account_id distributable unsafe_reach is_public
     followers_allowed reblog_of_account_id extra_account_ids =
     (if re_down db ReachStatus then Inl QueryFailed
      else let original = (reblog_of_account_id = None)
        in Inr (drop_unavailable lib db (remdups (
          inboxes_where db (\<lambda>a. original \<and> (status_id, ar_id a) \<in> set (re_mentions db)) @
          inboxes_where db (\<lambda>a. original \<and> distributable \<and> in_reply_to_account_id = Some (ar_id a)) @
          inboxes_where db (\<lambda>a. original \<and> list_ex (\<lambda>q. qu_status q = status_id \<and> qu_quoted_account q = Some (ar_id a)) (re_quotes db)) @
          inboxes_where db (\<lambda>a. original \<and> (distributable \<or> unsafe_reach) \<and> interacted db status_id a) @
          inboxes_where db (\<lambda>a. reblog_of_account_id = Some (ar_id a)) @
          inboxes_where db (\<lambda>a. followers_allowed \<and> follower_of_thread db author_id in_reply_to_account_id distributable a) @
          inboxes_where db (\<lambda>a. ar_id a \<in> set extra_account_ids) @
          (if is_public then relay_inboxes db else [])))))"

definition status_reach_of :: "url_lib \<Rightarrow> reach_db \<Rightarrow> int \<Rightarrow> bool \<Rightarrow> delivery_error + string list" where
  "status_reach_of lib db status_id unsafe_reach =
     (if re_down db ReachStatusRow then Inl QueryFailed
      else case find (\<lambda>s. po_id s = status_id) (re_posts db) of
        None \<Rightarrow> Inr []
      | Some status \<Rightarrow>
          let v = po_visibility status;
              reblog_of_account = Option.bind (po_reblog_of status)
                (\<lambda>o'. map_option po_account (find (\<lambda>s. po_id s = o') (re_posts db)));
              boosters = (case po_deleted status of
                  None \<Rightarrow> Inr []
                | Some at \<Rightarrow> if re_down db ReachDeletedBoosters then Inl QueryFailed
                    else Inr (map po_account (filter (\<lambda>s. po_reblog_of s = Some status_id \<and> po_deleted s = Some at) (re_posts db))))
          in case boosters of Inl e \<Rightarrow> Inl e | Inr deleted_boosters \<Rightarrow>
            status_reach_inboxes lib db status_id (po_account status) (po_in_reply_to_account status)
              (v \<in> {VIS_PUBLIC, VIS_UNLISTED}) unsafe_reach (v = VIS_PUBLIC) (v \<in> {VIS_PUBLIC, VIS_UNLISTED, VIS_PRIVATE})
              reblog_of_account deleted_boosters)"

section \<open>The signing account\<close>

definition signing_account_id :: "url_lib \<Rightarrow> reach_db \<Rightarrow> string \<Rightarrow> delivery_error + int" where
  "signing_account_id lib db key_id =
     (case ul_parse lib (takeWhile (\<lambda>c. c \<noteq> CHR ''#'') key_id) of
        None \<Rightarrow> Inl BadKeyId
      | Some url \<Rightarrow>
          let query = (\<lambda>p. if re_down db ReachSigner then Inl QueryFailed
                else case find p (re_actors db) of None \<Rightarrow> Inl NoSigner | Some a \<Rightarrow> Inr (ar_id a))
          in case pu_segments url of
            [s] \<Rightarrow> if s = ''actor'' then query (\<lambda>a. ar_id a = INSTANCE_ACTOR_ID) else Inl NoSigner
          | [s, name] \<Rightarrow>
              if s = ''users'' then query (\<lambda>a. ar_domain a = None \<and> to_lowercase (ar_username a) = to_lowercase name)
              else Inl NoSigner
          | [s, t, i] \<Rightarrow>
              if s = ''ap'' \<and> t = ''users'' then
                (case parse_i64 i of None \<Rightarrow> Inl BadKeyId | Some n \<Rightarrow> query (\<lambda>a. ar_domain a = None \<and> ar_id a = n))
              else Inl NoSigner
          | _ \<Rightarrow> Inl NoSigner)"

definition sender_gone :: "url_lib \<Rightarrow> reach_db \<Rightarrow> string \<Rightarrow> bool" where
  "sender_gone lib db key_id =
     (case signing_account_id lib db key_id of
        Inl _ \<Rightarrow> False
      | Inr i \<Rightarrow> \<not> re_down db ReachGone \<and>
          (case find (\<lambda>a. ar_id a = i) (re_actors db) of None \<Rightarrow> False
           | Some a \<Rightarrow> (ar_suspended a \<or> ar_requested_deletion a) \<and> i \<noteq> INSTANCE_ACTOR_ID \<and> i \<notin> set (re_deletion_requests db)))"

section \<open>Signing an activity\<close>

text \<open>
  Keys and signatures: the assertion key and the signing key of an account, the proof of an object
  under a verification method at a time, and the Linked Data Signature by a key at a time.
\<close>

record 'k signing_lib =
  sg_assertion_key :: "int \<Rightarrow> 'k option"
  sg_signing_key :: "int \<Rightarrow> 'k option"
  sg_proof :: "json \<Rightarrow> string \<Rightarrow> 'k \<Rightarrow> int \<Rightarrow> json option"
  sg_linked_data :: "json \<Rightarrow> string \<Rightarrow> 'k \<Rightarrow> int \<Rightarrow> json option"

record delivery_settings =
  ds_sign_proofs :: bool
  ds_has_encryptor :: bool
  ds_authorized_fetch :: bool
  ds_now :: int

datatype linked_data = Unsigned | UnlessAuthorizedFetch | Always

definition for_status :: "bool \<Rightarrow> linked_data \<Rightarrow> linked_data" where
  "for_status distributable signed = (if distributable then signed else Unsigned)"

definition DATA_INTEGRITY :: string where
  "DATA_INTEGRITY = ''https://w3id.org/security/data-integrity/v1''"

definition ED25519_FRAGMENT :: string where "ED25519_FRAGMENT = ''#ed25519-key''"

fun with_data_integrity_context :: "json \<Rightarrow> json option" where
  "with_data_integrity_context (JObject members) = Some (JObject (
     case map_of members ''@context'' of
       Some (JList entries) \<Rightarrow>
         if list_ex (\<lambda>e. jstr e = Some DATA_INTEGRITY) entries then members
         else jinsert ''@context'' (JList (entries @ [JString DATA_INTEGRITY])) members
     | Some existing \<Rightarrow> jinsert ''@context'' (JList [existing, JString DATA_INTEGRITY]) members
     | None \<Rightarrow> jinsert ''@context'' (JString DATA_INTEGRITY) members))"
| "with_data_integrity_context _ = None"

definition attach_integrity_proof :: "'k signing_lib \<Rightarrow> delivery_settings \<Rightarrow> json \<Rightarrow> int \<Rightarrow> string \<Rightarrow> json" where
  "attach_integrity_proof sg cfg activity account_id key_id =
     (if \<not> ds_sign_proofs cfg \<or> \<not> ds_has_encryptor cfg then activity
      else if \<not> is_object activity \<or> jget activity ''proof'' \<noteq> None then activity
      else case sg_assertion_key sg account_id of None \<Rightarrow> activity | Some key \<Rightarrow>
        let verification_method = takeWhile (\<lambda>c. c \<noteq> CHR ''#'') key_id @ ED25519_FRAGMENT
        in case with_data_integrity_context activity of None \<Rightarrow> activity | Some with_context \<Rightarrow>
           case sg_proof sg with_context verification_method key (ds_now cfg) of
             None \<Rightarrow> activity | Some signed \<Rightarrow> signed)"

definition attach_linked_data_signature ::
  "'k signing_lib \<Rightarrow> delivery_settings \<Rightarrow> json \<Rightarrow> int \<Rightarrow> string \<Rightarrow> linked_data \<Rightarrow> json" where
  "attach_linked_data_signature sg cfg activity account_id key_id kind =
     (if kind = Unsigned \<or> kind = UnlessAuthorizedFetch \<and> ds_authorized_fetch cfg then activity
      else case sg_signing_key sg account_id of None \<Rightarrow> activity | Some key \<Rightarrow>
        case sg_linked_data sg activity key_id key (ds_now cfg) of None \<Rightarrow> activity | Some signed \<Rightarrow> signed)"

section \<open>Queueing\<close>

record batch_options =
  bo_max_attempts :: "int option"
  bo_low_priority :: bool
  bo_tag :: "string option"

definition default_batch :: batch_options where
  "default_batch = \<lparr>bo_max_attempts = None, bo_low_priority = False, bo_tag = None\<rparr>"

definition LOW_PRIORITY_ATTEMPTS :: int where "LOW_PRIORITY_ATTEMPTS = 9"

definition low_priority :: batch_options where
  "low_priority = \<lparr>bo_max_attempts = Some LOW_PRIORITY_ATTEMPTS, bo_low_priority = True, bo_tag = None\<rparr>"

text \<open>What the deliverer is given: the key, the activity, the inboxes, the options.\<close>

type_synonym queued = "string \<times> json \<times> string list \<times> batch_options"

definition enqueue ::
  "url_lib \<Rightarrow> 'k signing_lib \<Rightarrow> delivery_settings \<Rightarrow> reach_db \<Rightarrow> json \<Rightarrow> string list \<Rightarrow> string \<Rightarrow> bool \<Rightarrow> linked_data \<Rightarrow>
     batch_options option \<Rightarrow> queued list \<Rightarrow> (delivery_error + nat) \<times> queued list"
where
  "enqueue lib sg cfg db activity inboxes key_id prove kind batch queue =
     (case signing_account_id lib db key_id of
        Inl e \<Rightarrow> (Inl e, queue)
      | Inr actor_account_id \<Rightarrow>
          let suspended = suspended_domains (\<not> re_down db ReachSuspended) (re_policy db);
              open_inboxes = remdups_adj (sort (filter (\<lambda>i. i \<noteq> [] \<and> \<not> inbox_suspended (host_of lib) i suspended) inboxes))
          in if open_inboxes = [] then (Inr 0, queue)
             else let proven = (if prove then attach_integrity_proof sg cfg activity actor_account_id key_id else activity);
                      signed = attach_linked_data_signature sg cfg proven actor_account_id key_id kind;
                      urls = filter (\<lambda>i. ul_parse lib i \<noteq> None) open_inboxes
               in if re_down db ReachQueue then (Inl QueueFailed, queue)
                  else (Inr (length urls),
                    queue @ [(key_id, signed, urls, (case batch of None \<Rightarrow> default_batch | Some b \<Rightarrow> b))]))"

definition fanout_to_followers_signed ::
  "url_lib \<Rightarrow> 'k signing_lib \<Rightarrow> delivery_settings \<Rightarrow> reach_db \<Rightarrow> json \<Rightarrow> int \<Rightarrow> string \<Rightarrow> linked_data \<Rightarrow> queued list \<Rightarrow>
     (delivery_error + nat) \<times> queued list"
where
  "fanout_to_followers_signed lib sg cfg db activity actor_account_id key_id kind queue =
     (case follower_inboxes lib db actor_account_id of
        Inl e \<Rightarrow> (Inl e, queue)
      | Inr inboxes \<Rightarrow> enqueue lib sg cfg db activity inboxes key_id True kind None queue)"

definition fanout_to_followers where
  "fanout_to_followers lib sg cfg db activity actor_account_id key_id queue =
     fanout_to_followers_signed lib sg cfg db activity actor_account_id key_id Unsigned queue"

text \<open>Another server's activity, as it arrived.\<close>

definition forward_to_followers ::
  "url_lib \<Rightarrow> 'k signing_lib \<Rightarrow> delivery_settings \<Rightarrow> reach_db \<Rightarrow> json \<Rightarrow> int \<Rightarrow> string \<Rightarrow> queued list \<Rightarrow>
     (delivery_error + nat) \<times> queued list"
where
  "forward_to_followers lib sg cfg db activity account_id key_id queue =
     (case follower_inboxes lib db account_id of
        Inl e \<Rightarrow> (Inl e, queue)
      | Inr inboxes \<Rightarrow> enqueue lib sg cfg db activity inboxes key_id False Unsigned None queue)"

definition forward_to_inboxes ::
  "url_lib \<Rightarrow> 'k signing_lib \<Rightarrow> delivery_settings \<Rightarrow> reach_db \<Rightarrow> json \<Rightarrow> string list \<Rightarrow> string \<Rightarrow> queued list \<Rightarrow>
     (delivery_error + nat) \<times> queued list"
where
  "forward_to_inboxes lib sg cfg db activity inboxes key_id queue =
     enqueue lib sg cfg db activity
       (filter (\<lambda>i. \<not> inbox_unavailable lib i (unavailable_domains db)) inboxes) key_id False Unsigned (Some low_priority) queue"

definition fanout_to_followers_unproven ::
  "url_lib \<Rightarrow> 'k signing_lib \<Rightarrow> delivery_settings \<Rightarrow> reach_db \<Rightarrow> json \<Rightarrow> int \<Rightarrow> string \<Rightarrow> batch_options option \<Rightarrow> queued list \<Rightarrow>
     (delivery_error + nat) \<times> queued list"
where
  "fanout_to_followers_unproven lib sg cfg db activity account_id key_id batch queue =
     (case follower_inboxes lib db account_id of
        Inl e \<Rightarrow> (Inl e, queue)
      | Inr inboxes \<Rightarrow> enqueue lib sg cfg db activity inboxes key_id False Unsigned batch queue)"

definition deliver_to_inboxes_in_batch ::
  "url_lib \<Rightarrow> 'k signing_lib \<Rightarrow> delivery_settings \<Rightarrow> reach_db \<Rightarrow> json \<Rightarrow> string list \<Rightarrow> string \<Rightarrow> linked_data \<Rightarrow>
     batch_options option \<Rightarrow> queued list \<Rightarrow> (delivery_error + nat) \<times> queued list"
where
  "deliver_to_inboxes_in_batch lib sg cfg db activity inboxes key_id kind batch queue =
     enqueue lib sg cfg db activity inboxes key_id True kind batch queue"

section \<open>When a delivery comes due\<close>

definition skip_if :: "url_lib \<Rightarrow> int \<Rightarrow> string \<Rightarrow> json \<Rightarrow> delivery_failures \<Rightarrow> bool \<times> delivery_failures" where
  "skip_if lib now inbox activity s =
     (if jget_str activity ''type'' = Some ''Follow'' then (False, s)
      else case delivery_host (host_of lib) inbox of
        None \<Rightarrow> (False, s) | Some host \<Rightarrow> is_unavailable now host s)"

section \<open>A migrated follow\<close>

definition migrated_follow_tag :: "int \<Rightarrow> int \<Rightarrow> string" where
  "migrated_follow_tag follower_id old_target_id = ''migrated-follow:'' @ dec follower_id @ '':'' @ dec old_target_id"

definition parse_migrated_follow_tag :: "string \<Rightarrow> (int \<times> int) option" where
  "parse_migrated_follow_tag tag =
     (if take 16 tag \<noteq> ''migrated-follow:'' then None
      else Option.bind (split_once (\<lambda>c. c = CHR '':'') (drop 16 tag)) (\<lambda>(follower, old_target).
        Option.bind (parse_i64 follower) (\<lambda>f. map_option (Pair f) (parse_i64 old_target))))"

lemma split_once_dec: "split_once (\<lambda>c. c = CHR '':'') (dec n @ CHR '':'' # s) = Some (dec n, s)"
proof -
  have "CHR '':'' \<notin> set xs \<Longrightarrow> split_once (\<lambda>c. c = CHR '':'') (xs @ CHR '':'' # s) = Some (xs, s)" for xs
    by (induction xs) auto
  then show ?thesis by (simp add: colon_not_in_dec)
qed

lemma migrated_follow_tag_round_trip:
  "- (2 ^ 63) \<le> f \<Longrightarrow> f < 2 ^ 63 \<Longrightarrow> - (2 ^ 63) \<le> t \<Longrightarrow> t < 2 ^ 63 \<Longrightarrow>
   parse_migrated_follow_tag (migrated_follow_tag f t) = Some (f, t)"
  by (simp add: parse_migrated_follow_tag_def migrated_follow_tag_def split_once_dec parse_i64_dec)

end
