(* ===== verification/DeliveryTheorems.thy ===== *)
theory DeliveryTheorems
  imports Delivery
begin

text \<open>Who the activities of a post are delivered to.\<close>

section \<open>The audience of a post\<close>

text \<open>Whom a post that boosts nothing is meant for, by what its row says.\<close>

definition in_audience :: "reach_db \<Rightarrow> post_row \<Rightarrow> bool \<Rightarrow> actor_row \<Rightarrow> bool" where
  "in_audience db s unsafe a \<longleftrightarrow>
     (po_id s, ar_id a) \<in> set (re_mentions db) \<or>
     (\<exists>q \<in> set (re_quotes db). qu_status q = po_id s \<and> qu_quoted_account q = Some (ar_id a)) \<or>
     po_visibility s \<in> {VIS_PUBLIC, VIS_UNLISTED, VIS_PRIVATE} \<and> follows_target db (po_account s) a \<or>
     po_visibility s \<in> {VIS_PUBLIC, VIS_UNLISTED} \<and>
       (po_in_reply_to_account s = Some (ar_id a) \<or>
        follower_of_thread db (po_account s) (po_in_reply_to_account s) True a) \<or>
     (po_visibility s \<in> {VIS_PUBLIC, VIS_UNLISTED} \<or> unsafe) \<and> interacted db (po_id s) a"

lemma set_inboxes_where: "set (inboxes_where db p) = {inbox_of a |a. a \<in> set (re_actors db) \<and> reachable_actor a \<and> p a}"
  by (auto simp: inboxes_where_def)

lemma set_drop_unavailable:
  "set (drop_unavailable lib db is) = {i \<in> set is. i \<noteq> [] \<and> \<not> inbox_unavailable lib i (unavailable_domains db)}"
  by (auto simp: drop_unavailable_def)

lemma inbox_of_nonempty: "reachable_actor a \<Longrightarrow> inbox_of a \<noteq> []"
  by (simp add: reachable_actor_def inbox_of_def)

lemma follower_of_thread_own: "follower_of_thread db author r False a = follows_target db author a"
  by (simp add: follower_of_thread_def)

lemma status_reach_of_set:
  assumes "find (\<lambda>s. po_id s = i) (re_posts db) = Some s" "po_reblog_of s = None" "po_deleted s = None"
    and "status_reach_of lib db i unsafe = Inr inboxes"
  shows "distinct inboxes \<and> set inboxes = {x. x \<noteq> [] \<and> \<not> inbox_unavailable lib x (unavailable_domains db) \<and>
    ((\<exists>a \<in> set (re_actors db). reachable_actor a \<and> x = inbox_of a \<and> in_audience db s unsafe a) \<or>
     (po_visibility s = VIS_PUBLIC \<and> x \<in> set (relay_inboxes db)))}"
proof -
  have i: "po_id s = i" using assms(1) by (auto simp: find_Some_iff)
  let ?v = "po_visibility s"
  have reach: "status_reach_inboxes lib db i (po_account s) (po_in_reply_to_account s) (?v \<in> {VIS_PUBLIC, VIS_UNLISTED}) unsafe
      (?v = VIS_PUBLIC) (?v \<in> {VIS_PUBLIC, VIS_UNLISTED, VIS_PRIVATE}) None [] = Inr inboxes"
    using assms by (simp add: status_reach_of_def Let_def split: if_splits)
  have quoted: "list_ex (\<lambda>q. qu_status q = i \<and> qu_quoted_account q = Some (ar_id a)) (re_quotes db) \<longleftrightarrow>
      (\<exists>q \<in> set (re_quotes db). qu_status q = i \<and> qu_quoted_account q = Some (ar_id a))" for a by (auto simp: list_ex_iff)
  have audience: "in_audience db s unsafe a \<longleftrightarrow>
      (i, ar_id a) \<in> set (re_mentions db) \<or>
      ?v \<in> {VIS_PUBLIC, VIS_UNLISTED} \<and> po_in_reply_to_account s = Some (ar_id a) \<or>
      list_ex (\<lambda>q. qu_status q = i \<and> qu_quoted_account q = Some (ar_id a)) (re_quotes db) \<or>
      (?v \<in> {VIS_PUBLIC, VIS_UNLISTED} \<or> unsafe) \<and> interacted db i a \<or>
      ?v \<in> {VIS_PUBLIC, VIS_UNLISTED, VIS_PRIVATE} \<and>
        follower_of_thread db (po_account s) (po_in_reply_to_account s) (?v \<in> {VIS_PUBLIC, VIS_UNLISTED}) a" for a
    unfolding in_audience_def quoted i
    by (cases "?v \<in> {VIS_PUBLIC, VIS_UNLISTED}") (auto simp: follower_of_thread_def)
  show ?thesis
    using reach by (auto simp: status_reach_inboxes_def set_drop_unavailable set_inboxes_where audience drop_unavailable_def
      dest: inbox_of_nonempty split: if_splits)
qed

section \<open>What is queued\<close>

lemma distinct_remdups_adj_sorted: "sorted (xs :: string list) \<Longrightarrow> distinct (remdups_adj xs)"
  by (induction xs rule: remdups_adj.induct) auto

lemma enqueue_urls:
  assumes "enqueue lib sg cfg db activity inboxes key_id prove kind batch queue = (Inr n, queue')"
  shows "\<exists>urls. sorted urls \<and> distinct urls \<and> n = length urls \<and>
    set urls = {x \<in> set inboxes. x \<noteq> [] \<and> ul_parse lib x \<noteq> None \<and>
      \<not> inbox_suspended (host_of lib) x (suspended_domains (\<not> re_down db ReachSuspended) (re_policy db))} \<and>
    (queue' = queue \<and> urls = [] \<or> (\<exists>act b. queue' = queue @ [(key_id, act, urls, b)]))"
proof -
  let ?keep = "\<lambda>i. i \<noteq> [] \<and> \<not> inbox_suspended (host_of lib) i (suspended_domains (\<not> re_down db ReachSuspended) (re_policy db))"
  let ?kept = "remdups_adj (sort (filter ?keep inboxes))"
  let ?urls = "filter (\<lambda>i. ul_parse lib i \<noteq> None) ?kept"
  have order: "sorted ?urls" "distinct ?urls"
    by (simp_all add: sorted_wrt_filter sorted_remdups_adj distinct_remdups_adj_sorted)
  have "set ?urls = {x \<in> set inboxes. x \<noteq> [] \<and> ul_parse lib x \<noteq> None \<and>
      \<not> inbox_suspended (host_of lib) x (suspended_domains (\<not> re_down db ReachSuspended) (re_policy db))}" by auto
  moreover have "n = length ?urls \<and> (queue' = queue \<and> ?urls = [] \<or> (\<exists>act b. queue' = queue @ [(key_id, act, ?urls, b)]))"
    using assms by (auto simp: enqueue_def Let_def split: sum.splits if_splits)
  ultimately show ?thesis using order by blast
qed

text \<open>Whom the activity of a post of limited reach is meant for, by its row and the tables.\<close>

definition meant_for :: "reach_db \<Rightarrow> int \<Rightarrow> int \<Rightarrow> int \<Rightarrow> bool \<Rightarrow> int option \<Rightarrow> int list \<Rightarrow> actor_row \<Rightarrow> bool" where
  "meant_for db i author v unsafe boosted extra a \<longleftrightarrow>
     (case boosted of
        None \<Rightarrow> (i, ar_id a) \<in> set (re_mentions db) \<or>
          (\<exists>q \<in> set (re_quotes db). qu_status q = i \<and> qu_quoted_account q = Some (ar_id a)) \<or>
          unsafe \<and> interacted db i a
      | Some original_author \<Rightarrow> ar_id a = original_author) \<or>
     v = VIS_PRIVATE \<and> follows_target db author a \<or> ar_id a \<in> set extra"

lemma status_reach_inboxes_set:
  assumes "status_reach_inboxes lib db i author reply distributable unsafe is_public followers boosted extra = Inr inboxes"
  shows "x \<in> set inboxes \<longleftrightarrow> x \<noteq> [] \<and> \<not> inbox_unavailable lib x (unavailable_domains db) \<and>
    ((\<exists>a \<in> set (re_actors db). reachable_actor a \<and> x = inbox_of a \<and>
       (boosted = None \<and> ((i, ar_id a) \<in> set (re_mentions db) \<or> distributable \<and> reply = Some (ar_id a) \<or>
          list_ex (\<lambda>q. qu_status q = i \<and> qu_quoted_account q = Some (ar_id a)) (re_quotes db) \<or>
          (distributable \<or> unsafe) \<and> interacted db i a) \<or>
        boosted = Some (ar_id a) \<or> followers \<and> follower_of_thread db author reply distributable a \<or> ar_id a \<in> set extra)) \<or>
     is_public \<and> x \<in> set (relay_inboxes db))"
proof -
  have "inboxes = drop_unavailable lib db (remdups (
      inboxes_where db (\<lambda>a. boosted = None \<and> (i, ar_id a) \<in> set (re_mentions db)) @
      inboxes_where db (\<lambda>a. boosted = None \<and> distributable \<and> reply = Some (ar_id a)) @
      inboxes_where db (\<lambda>a. boosted = None \<and> list_ex (\<lambda>q. qu_status q = i \<and> qu_quoted_account q = Some (ar_id a)) (re_quotes db)) @
      inboxes_where db (\<lambda>a. boosted = None \<and> (distributable \<or> unsafe) \<and> interacted db i a) @
      inboxes_where db (\<lambda>a. boosted = Some (ar_id a)) @
      inboxes_where db (\<lambda>a. followers \<and> follower_of_thread db author reply distributable a) @
      inboxes_where db (\<lambda>a. ar_id a \<in> set extra) @
      (if is_public then relay_inboxes db else [])))"
    using assms unfolding status_reach_inboxes_def Let_def by (cases "re_down db ReachStatus"; cases is_public; simp)
  then show ?thesis
    by (simp only: set_drop_unavailable set_remdups set_append set_inboxes_where mem_Collect_eq Un_iff) (auto split: if_splits)
qed

text \<open>
  C19: The activity of a post of limited reach (neither public nor unlisted), with the arguments every
  caller makes of its row, goes to the servers of the accounts it mentions, of the author it quotes,
  of the author it boosts, when it is for followers of the author's followers, and of the accounts
  named besides (the boosters of a post that is deleted with its boosts); a boost has no mentions or
  quotes of its own. Only when it is called unsafe, which the Delete of a post and the end of a
  quote's authorization are, do those who answered, boosted, favourited or quoted it get it too; no
  relay ever does. It goes exactly to those of them that can be reached, are not marked unavailable
  and not suspended, each once.
\<close>

theorem limited_posts_go_to_their_audience:
  assumes "v \<notin> {VIS_PUBLIC, VIS_UNLISTED}"
    and "status_reach_inboxes lib db i author reply (v \<in> {VIS_PUBLIC, VIS_UNLISTED}) unsafe (v = VIS_PUBLIC)
      (v \<in> {VIS_PUBLIC, VIS_UNLISTED, VIS_PRIVATE}) boosted extra = Inr inboxes"
    and "enqueue lib sg cfg db activity inboxes key_id prove kind batch queue = (Inr n, queue')"
  shows "\<exists>urls. distinct urls \<and> n = length urls \<and>
    (queue' = queue \<and> urls = [] \<or> (\<exists>act b. queue' = queue @ [(key_id, act, urls, b)])) \<and>
    (\<forall>x. x \<in> set urls \<longleftrightarrow> ul_parse lib x \<noteq> None \<and> \<not> inbox_unavailable lib x (unavailable_domains db) \<and>
      \<not> inbox_suspended (host_of lib) x (suspended_domains (\<not> re_down db ReachSuspended) (re_policy db)) \<and>
      (\<exists>a \<in> set (re_actors db). reachable_actor a \<and> x = inbox_of a \<and> meant_for db i author v unsafe boosted extra a))"
proof -
  define meant where "meant x \<longleftrightarrow>
    (\<exists>a \<in> set (re_actors db). reachable_actor a \<and> x = inbox_of a \<and> meant_for db i author v unsafe boosted extra a)" for x
  have who: "boosted = None \<and> ((i, ar_id a) \<in> set (re_mentions db) \<or> v \<in> {VIS_PUBLIC, VIS_UNLISTED} \<and> reply = Some (ar_id a) \<or>
        list_ex (\<lambda>q. qu_status q = i \<and> qu_quoted_account q = Some (ar_id a)) (re_quotes db) \<or>
        (v \<in> {VIS_PUBLIC, VIS_UNLISTED} \<or> unsafe) \<and> interacted db i a) \<or>
      boosted = Some (ar_id a) \<or> v \<in> {VIS_PUBLIC, VIS_UNLISTED, VIS_PRIVATE} \<and>
        follower_of_thread db author reply (v \<in> {VIS_PUBLIC, VIS_UNLISTED}) a \<or> ar_id a \<in> set extra \<longleftrightarrow>
      meant_for db i author v unsafe boosted extra a" for a
    using assms(1) by (auto simp: meant_for_def follower_of_thread_def list_ex_iff split: option.split)
  have "v \<noteq> VIS_PUBLIC" using assms(1) by simp
  then have mem: "x \<in> set inboxes \<longleftrightarrow> x \<noteq> [] \<and> \<not> inbox_unavailable lib x (unavailable_domains db) \<and> meant x" for x
    using status_reach_inboxes_set [OF assms(2), of x] unfolding who meant_def by simp
  from enqueue_urls [OF assms(3)] obtain urls where u: "distinct urls" "n = length urls"
    "queue' = queue \<and> urls = [] \<or> (\<exists>act b. queue' = queue @ [(key_id, act, urls, b)])"
    "set urls = {x \<in> set inboxes. x \<noteq> [] \<and> ul_parse lib x \<noteq> None \<and>
      \<not> inbox_suspended (host_of lib) x (suspended_domains (\<not> re_down db ReachSuspended) (re_policy db))}" by blast
  have ne: "meant x \<Longrightarrow> x \<noteq> []" for x by (auto simp: meant_def dest: inbox_of_nonempty)
  have "x \<in> set urls \<longleftrightarrow> ul_parse lib x \<noteq> None \<and> \<not> inbox_unavailable lib x (unavailable_domains db) \<and>
      \<not> inbox_suspended (host_of lib) x (suspended_domains (\<not> re_down db ReachSuspended) (re_policy db)) \<and> meant x" for x
    using mem [of x] ne [of x] unfolding u(4) mem_Collect_eq by argo
  note eq = this [unfolded meant_def]
  show ?thesis by (intro exI [of _ urls] conjI allI) (fact u(1) u(2) u(3) eq)+
qed

text \<open>A direct post of account 1 that mentions 2, on a server, and 3, on one that is suspended.\<close>

definition sample_urls :: url_lib where
  "sample_urls = \<lparr>ul_parse = \<lambda>s. Some \<lparr>pu_host = Some s, pu_segments = [''actor'']\<rparr>\<rparr>"

definition sample_signing :: "unit signing_lib" where
  "sample_signing = \<lparr>sg_assertion_key = \<lambda>_. None, sg_signing_key = \<lambda>_. None, sg_proof = \<lambda>_ _ _ _. None, sg_linked_data = \<lambda>_ _ _ _. None\<rparr>"

definition sample_settings :: delivery_settings where
  "sample_settings = \<lparr>ds_sign_proofs = False, ds_has_encryptor = False, ds_authorized_fetch = False, ds_now = 0\<rparr>"

definition sample_actor :: "int \<Rightarrow> string option \<Rightarrow> string \<Rightarrow> actor_row" where
  "sample_actor i domain inbox = \<lparr>ar_id = i, ar_username = ''u'', ar_domain = domain, ar_inbox = inbox, ar_shared_inbox = [],
     ar_suspended = False, ar_requested_deletion = False\<rparr>"

definition sample_post :: post_row where
  "sample_post = \<lparr>po_id = 9, po_account = 1, po_in_reply_to = None, po_in_reply_to_account = None, po_reblog_of = None,
     po_visibility = 3, po_deleted = None, po_created = 0\<rparr>"

definition sample_reach :: reach_db where
  "sample_reach = \<lparr>re_actors = [sample_actor (- 99) None [], sample_actor 1 None [], sample_actor 2 (Some ''d.e'') ''d.e'',
       sample_actor 3 (Some ''b.c'') ''b.c'', sample_actor 4 (Some ''f.g'') ''f.g''],
     re_posts = [sample_post], re_follows = [(4, 1, 0)], re_follow_requests = [], re_reports = [],
     re_mentions = [(9, 2), (9, 3)], re_favourites = [(4, 9)], re_quotes = [], re_relays = [(''r.s'', 2)], re_domain_blocks = [],
     re_deletion_requests = [], re_unavailable = [], re_policy = sample_policy, re_now = 5, re_down = \<lambda>_. False\<rparr>"

lemma limited_posts_go_to_their_audience_witness:
  "\<exists>a \<in> set (re_actors sample_reach). reachable_actor a \<and> ''d.e'' = inbox_of a \<and> (9, ar_id a) \<in> set (re_mentions sample_reach)"
proof -
  have reach: "status_reach_inboxes sample_urls sample_reach 9 1 None (3 \<in> {VIS_PUBLIC, VIS_UNLISTED}) False (3 = VIS_PUBLIC)
      (3 \<in> {VIS_PUBLIC, VIS_UNLISTED, VIS_PRIVATE}) None [] = Inr [''d.e'', ''b.c'']" by code_simp
  have queued: "enqueue sample_urls sample_signing sample_settings sample_reach JNull [''d.e'', ''b.c''] ''k'' True Unsigned None [] =
      (Inr 1, [(''k'', JNull, [''d.e''], default_batch)])" by code_simp
  have "3 \<notin> {VIS_PUBLIC, VIS_UNLISTED}" by (simp add: vis_defs)
  from limited_posts_go_to_their_audience [OF this reach queued] obtain urls
    where u: "[] = [(''k'', JNull, [''d.e''], default_batch)] \<and> urls = [] \<or>
      (\<exists>act b. [(''k'', JNull, [''d.e''], default_batch)] = [] @ [(''k'', act, urls, b)])"
    and "\<forall>x. x \<in> set urls \<longrightarrow>
      (\<exists>a \<in> set (re_actors sample_reach). reachable_actor a \<and> x = inbox_of a \<and> meant_for sample_reach 9 1 3 False None [] a)"
    by metis
  moreover have "urls = [''d.e'']" using u by simp
  ultimately obtain a where a: "a \<in> set (re_actors sample_reach)" "reachable_actor a" "''d.e'' = inbox_of a"
    "meant_for sample_reach 9 1 3 False None [] a" by auto
  then have "(9, ar_id a) \<in> set (re_mentions sample_reach)" by (simp add: meant_for_def sample_reach_def vis_defs)
  then show ?thesis using a by blast
qed

end
