(* ===== verification/Polls.thy ===== *)
theory Polls
  imports RolesAdmin Json LocalUris
begin

text \<open>
  \<^verbatim>\<open>src/api/mastodon/polls.rs\<close>: polls and votes, with what else writes the two tables: posts and edits
  (\<^verbatim>\<open>statuses/post.rs\<close>, \<^verbatim>\<open>statuses/edit.rs\<close>), votes and polls from other servers (\<^verbatim>\<open>api/ap/inbox.rs\<close>,
  \<^verbatim>\<open>inbox/create.rs\<close>), and the notifier of ended polls (\<^verbatim>\<open>background.rs\<close>). Arrays of PostgreSQL are
  shorter than \<open>2\<^sup>31\<close>, so the casts of positions to \<^verbatim>\<open>i32\<close> change nothing. The activity that tells a
  poll's new counts is not modelled, that it is sent is (\<open>pl_updates\<close>).
\<close>

section \<open>The tables\<close>

record poll_row =
  po_id :: int
  po_account :: int
  po_status :: int
  po_expires_at :: "int option"
  po_options :: "string list"
  po_tallies :: "int list"
  po_multiple :: bool
  po_hide_totals :: bool
  po_votes_count :: int
  po_voters_count :: "int option"

record poll_vote =
  vo_id :: int
  vo_account :: int
  vo_poll :: int
  vo_choice :: int
  vo_uri :: "string option"

record poll_person =
  pp_id :: int
  pp_username :: string
  pp_domain :: "string option"
  pp_uri :: string
  pp_id_scheme :: "int option"
  pp_inbox_url :: string
  pp_shared_inbox_url :: string

record polled_status =
  ps_id :: int
  ps_uri :: "string option"
  ps_poll :: "int option"

record poll_db =
  pl_polls :: "poll_row list"
  pl_votes :: "poll_vote list"
  pl_people :: "poll_person list"
  pl_statuses :: "polled_status list"
  pl_next_poll :: int
  pl_next_vote :: int
  pl_outbox :: "(string \<times> json) list"
  pl_updates :: "int list"

datatype poll_call =
    PoFetch | PoVoted | PoFirst | PoInsert nat | PoCount | PoVoters | PoVoter | PoOwner | PoVoteUri nat | PoDeliver nat
  | PoFetchAgain | PoOwnVotes | PoCounts | PoTotalVoters | PoTotalVotes | PoClear | PoEdit | PoCreate | PoLink | PoDelete
  | PoExpired | PoVotersOf nat

record poll_request =
  pq_now :: int
  pq_down :: "poll_call \<Rightarrow> bool"
  pq_domain :: string
  pq_signing_key :: "int \<Rightarrow> bool"

definition failed_query :: "app_error + 'a" where
  "failed_query = Inl (Database SqlxError)"

definition expired :: "int \<Rightarrow> poll_row \<Rightarrow> bool" where
  "expired now poll = (case po_expires_at poll of None \<Rightarrow> False | Some e \<Rightarrow> e < now)"

definition votes_on :: "int \<Rightarrow> poll_db \<Rightarrow> poll_vote list" where
  "votes_on poll_id db = filter (\<lambda>v. vo_poll v = poll_id) (pl_votes db)"

definition votes_of :: "int \<Rightarrow> int \<Rightarrow> poll_db \<Rightarrow> poll_vote list" where
  "votes_of poll_id account db = filter (\<lambda>v. vo_account v = account) (votes_on poll_id db)"

definition fetch_poll :: "poll_request \<Rightarrow> poll_call \<Rightarrow> int \<Rightarrow> poll_db \<Rightarrow> app_error + poll_row" where
  "fetch_poll rq call i db =
     (if pq_down rq call then failed_query
      else case find (\<lambda>p. po_id p = i) (pl_polls db) of None \<Rightarrow> Inl NotFound | Some p \<Rightarrow> Inr p)"

definition change_poll :: "int \<Rightarrow> (poll_row \<Rightarrow> poll_row) \<Rightarrow> poll_db \<Rightarrow> poll_db" where
  "change_poll i f db = db\<lparr>pl_polls := map (\<lambda>p. if po_id p = i then f p else p) (pl_polls db)\<rparr>"

text \<open>\<^verbatim>\<open>votes_count = (SELECT COUNT(*) ...)\<close> and \<^verbatim>\<open>COALESCE(voters_count, 0) + 1\<close>.\<close>

definition recount :: "int \<Rightarrow> poll_db \<Rightarrow> poll_db" where
  "recount i db = change_poll i (\<lambda>p. p\<lparr>po_votes_count := int (length (votes_on i db))\<rparr>) db"

definition one_more_voter :: "int \<Rightarrow> poll_db \<Rightarrow> poll_db" where
  "one_more_voter i = change_poll i (\<lambda>p. p\<lparr>po_voters_count := Some ((case po_voters_count p of None \<Rightarrow> 0 | Some n \<Rightarrow> n) + 1)\<rparr>)"

section \<open>What a client sees of a poll\<close>

record poll_view =
  pv_id :: string
  pv_expires_at :: "int option"
  pv_expired :: bool
  pv_multiple :: bool
  pv_votes_count :: int
  pv_voters_count :: "int option"
  pv_options :: "(string \<times> int option) list"
  pv_voted :: "bool option"
  pv_own_votes :: "int list option"

definition count_for :: "int \<Rightarrow> int \<Rightarrow> poll_db \<Rightarrow> int" where
  "count_for poll_id choice db = int (length (filter (\<lambda>v. vo_choice v = choice) (votes_on poll_id db)))"

definition voters_on :: "int \<Rightarrow> poll_db \<Rightarrow> int list" where
  "voters_on poll_id db = remdups (map vo_account (votes_on poll_id db))"

definition poll_from_db :: "poll_request \<Rightarrow> poll_row \<Rightarrow> int option \<Rightarrow> poll_db \<Rightarrow> app_error + poll_view" where
  "poll_from_db rq poll viewer db =
     (let i = po_id poll; over = expired (pq_now rq) poll; show_results = (over \<or> \<not> po_hide_totals poll);
          own = (case viewer of None \<Rightarrow> None | Some v \<Rightarrow> Some (sort (map vo_choice (votes_of i v db))))
      in if viewer \<noteq> None \<and> pq_down rq PoOwnVotes \<or> show_results \<and> pq_down rq PoCounts \<or>
            pq_down rq PoTotalVoters \<or> pq_down rq PoTotalVotes then failed_query
         else Inr
           \<lparr>pv_id = dec i, pv_expires_at = po_expires_at poll, pv_expired = over, pv_multiple = po_multiple poll,
            pv_votes_count = int (length (votes_on i db)),
            pv_voters_count = (if po_multiple poll then Some (int (length (voters_on i db))) else None),
            pv_options = map (\<lambda>(k, title). (title, if show_results then Some (count_for i (int k) db) else None))
              (enumerate 0 (po_options poll)),
            pv_voted = map_option (\<lambda>choices. viewer = Some (po_account poll) \<or> choices \<noteq> []) own,
            pv_own_votes = own\<rparr>)"

definition get_poll :: "poll_request \<Rightarrow> int \<Rightarrow> int option \<Rightarrow> poll_db \<Rightarrow> app_error + poll_view" where
  "get_poll rq i viewer db = res_bind (fetch_poll rq PoFetch i db) (\<lambda>poll. poll_from_db rq poll viewer db)"

section \<open>Sending votes to the poll's server\<close>

definition vote_activity :: "string \<Rightarrow> string \<Rightarrow> string \<Rightarrow> string \<Rightarrow> string \<Rightarrow> json" where
  "vote_activity actor owner in_reply_to vote_uri name =
     JObject [(''@context'', JString ''https://www.w3.org/ns/activitystreams''), (''id'', JString (vote_uri @ ''/activity'')),
       (''type'', JString ''Create''), (''actor'', JString actor), (''to'', JString owner),
       (''object'', JObject [(''id'', JString vote_uri), (''type'', JString ''Note''), (''name'', JString name),
          (''attributedTo'', JString actor), (''inReplyTo'', JString in_reply_to), (''to'', JString owner)])]"

fun send_votes ::
  "poll_request \<Rightarrow> poll_row \<Rightarrow> string \<Rightarrow> string \<Rightarrow> string \<Rightarrow> string \<Rightarrow> nat \<Rightarrow> (int \<times> int) list \<Rightarrow> poll_db \<Rightarrow> poll_db" where
  "send_votes rq poll actor owner in_reply_to inbox k [] db = db"
| "send_votes rq poll actor owner in_reply_to inbox k ((vote_id, choice) # votes) db =
     (if nat choice \<ge> length (po_options poll) then send_votes rq poll actor owner in_reply_to inbox (Suc k) votes db
      else if pq_down rq (PoVoteUri k) then db
      else let vote_uri = actor @ ''#votes/'' @ dec vote_id;
               db1 = db\<lparr>pl_votes := map (\<lambda>v. if vo_id v = vote_id then v\<lparr>vo_uri := Some vote_uri\<rparr> else v) (pl_votes db)\<rparr>
        in if pq_down rq (PoDeliver k) then db1
           else send_votes rq poll actor owner in_reply_to inbox (Suc k) votes
             (db1\<lparr>pl_outbox := pl_outbox db1 @ [(inbox, vote_activity actor owner in_reply_to vote_uri (po_options poll ! nat choice))]\<rparr>))"

definition federate_poll_votes :: "poll_request \<Rightarrow> poll_row \<Rightarrow> int \<Rightarrow> (int \<times> int) list \<Rightarrow> poll_db \<Rightarrow> poll_db" where
  "federate_poll_votes rq poll voter_id votes db =
     (if votes = [] \<or> pq_down rq PoVoter then db
      else case find (\<lambda>a. pp_id a = voter_id \<and> pp_domain a = None) (pl_people db) of None \<Rightarrow> db | Some voter \<Rightarrow>
        if \<not> pq_signing_key rq voter_id \<or> pq_down rq PoOwner then db
        else case (find (\<lambda>a. pp_id a = po_account poll \<and> pp_domain a \<noteq> None) (pl_people db),
            find (\<lambda>s. ps_id s = po_status poll) (pl_statuses db)) of
          (Some owner, Some s) \<Rightarrow>
            (case ps_uri s of None \<Rightarrow> db | Some in_reply_to \<Rightarrow>
             let inbox = (if pp_shared_inbox_url owner \<noteq> [] then pp_shared_inbox_url owner else pp_inbox_url owner) in
             if in_reply_to = [] \<or> inbox = [] then db
             else send_votes rq poll (account_uri (pq_domain rq) voter_id (pp_id_scheme voter) (pp_username voter))
               (pp_uri owner) in_reply_to inbox 0 votes db)
        | _ \<Rightarrow> db)"

section \<open>Voting\<close>

text \<open>The choices of a form, each a number or a string with one.\<close>

definition i32_of :: "int \<Rightarrow> int option" where
  "i32_of i = (if - (2 ^ 31) \<le> i \<and> i < 2 ^ 31 then Some i else None)"

fun choice_of :: "json \<Rightarrow> int option" where
  "choice_of (JInt i) = i32_of i"
| "choice_of (JString s) = Option.bind (parse_i64 s) i32_of"
| "choice_of _ = None"

fun deserialize_choices :: "json \<Rightarrow> int list option" where
  "deserialize_choices (JList values) = those (map choice_of values)"
| "deserialize_choices _ = None"

text \<open>
  \<^verbatim>\<open>ON CONFLICT DO NOTHING\<close> has nothing to conflict with: the table's one unique index is on the id,
  which a sequence draws.
\<close>

definition insert_vote :: "int \<Rightarrow> int \<Rightarrow> int \<Rightarrow> string option \<Rightarrow> poll_db \<Rightarrow> poll_db" where
  "insert_vote poll_id account choice uri db =
     db\<lparr>pl_votes := pl_votes db @ [\<lparr>vo_id = pl_next_vote db, vo_account = account, vo_poll = poll_id, vo_choice = choice, vo_uri = uri\<rparr>],
        pl_next_vote := pl_next_vote db + 1\<rparr>"

fun insert_votes ::
  "poll_request \<Rightarrow> poll_row \<Rightarrow> int \<Rightarrow> nat \<Rightarrow> int list \<Rightarrow> poll_db \<Rightarrow> (app_error + (int \<times> int) list) \<times> poll_db" where
  "insert_votes rq poll voter k [] db = (Inr [], db)"
| "insert_votes rq poll voter k (choice # choices) db =
     (if choice < 0 \<or> choice \<ge> int (length (po_options poll)) then (Inl (Unprocessable ''Invalid choice index''), db)
      else if pq_down rq (PoInsert k) then (failed_query, db)
      else case insert_votes rq poll voter (Suc k) choices (insert_vote (po_id poll) voter choice None db) of
        (Inl e, db1) \<Rightarrow> (Inl e, db1)
      | (Inr created, db1) \<Rightarrow> (Inr ((pl_next_vote db, choice) # created), db1))"

definition may_vote :: "poll_request \<Rightarrow> poll_row \<Rightarrow> int \<Rightarrow> int list \<Rightarrow> poll_db \<Rightarrow> app_error + unit" where
  "may_vote rq poll voter choices db =
     (if expired (pq_now rq) poll then Inl (Unprocessable ''Poll has expired'')
      else if po_account poll = voter then Inl (Unprocessable ''You cannot vote on your own poll'')
      else if \<not> po_multiple poll \<and> length choices > 1 then Inl (Unprocessable ''Multiple choices not allowed'')
      else if \<not> po_multiple poll \<and> pq_down rq PoVoted then failed_query
      else if \<not> po_multiple poll \<and> votes_of (po_id poll) voter db \<noteq> [] then Inl (Unprocessable ''Already voted'')
      else Inr ())"

definition vote_poll ::
  "poll_request \<Rightarrow> int \<Rightarrow> auth \<Rightarrow> int list \<Rightarrow> poll_db \<Rightarrow> (app_error + poll_view) \<times> poll_db" where
  "vote_poll rq i auth choices db =
     (let voter = au_account auth in
      case res_bind (require_scope auth ''write:statuses'') (\<lambda>_. res_bind (fetch_poll rq PoFetch i db) (\<lambda>poll.
          res_bind (may_vote rq poll voter choices db) (\<lambda>_. if pq_down rq PoFirst then failed_query else Inr poll))) of
        Inl e \<Rightarrow> (Inl e, db)
      | Inr poll \<Rightarrow>
          let was_first_vote = (votes_of i voter db = []) in
          (case insert_votes rq poll voter 0 choices db of
             (Inl e, db1) \<Rightarrow> (Inl e, db1)
           | (Inr created, db1) \<Rightarrow>
               if pq_down rq PoCount then (failed_query, db1)
               else let db2 = recount i db1 in
                 if po_multiple poll \<and> was_first_vote \<and> pq_down rq PoVoters then (failed_query, db2)
                 else let db3 = (if po_multiple poll \<and> was_first_vote then one_more_voter i db2 else db2);
                          db4 = federate_poll_votes rq poll voter created db3
                   in (case fetch_poll rq PoFetchAgain i db4 of
                         Inl e \<Rightarrow> (Inl e, db4)
                       | Inr poll' \<Rightarrow>
                           let db5 = (if po_hide_totals poll' then db4 else db4\<lparr>pl_updates := pl_updates db4 @ [po_status poll']\<rparr>)
                           in (poll_from_db rq poll' (Some voter) db5, db5))))"

text \<open>A vote from another server: a note that replies to the poll and is named as one of its options.\<close>

definition handle_poll_vote_note ::
  "poll_request \<Rightarrow> int \<Rightarrow> int \<Rightarrow> string \<Rightarrow> string \<Rightarrow> poll_db \<Rightarrow> (app_error + bool) \<times> poll_db" where
  "handle_poll_vote_note rq voter_id status_id choice_name vote_uri db =
     (if pq_down rq PoFetch then (failed_query, db)
      else case find (\<lambda>p. po_status p = status_id) (pl_polls db) of None \<Rightarrow> (Inr False, db) | Some poll \<Rightarrow>
        if expired (pq_now rq) poll then (Inr True, db)
        else if choice_name \<notin> set (po_options poll) then (Inr True, db)
        else let i = po_id poll; choice = int (length (takeWhile (\<lambda>opt. opt \<noteq> choice_name) (po_options poll)));
                 already_voted = (votes_of i voter_id db \<noteq> [])
          in if pq_down rq PoVoted then (failed_query, db)
             else if \<not> po_multiple poll \<and> already_voted then (Inr True, db)
             else if pq_down rq (PoInsert 0) then (failed_query, db)
             else let db1 = insert_vote i voter_id choice (Some vote_uri) db in
               if pq_down rq PoCount then (failed_query, db1)
               else let db2 = recount i db1 in
                 if po_multiple poll \<and> \<not> already_voted then
                   (if pq_down rq PoVoters then (failed_query, db2) else (Inr True, one_more_voter i db2))
                 else (Inr True, db2))"

section \<open>Polls of local posts\<close>

record poll_form =
  pf_options :: "string list"
  pf_expires_in :: "int option"
  pf_multiple :: "bool option"
  pf_hide_totals :: "bool option"

definition POLL_MAX_OPTIONS :: nat where "POLL_MAX_OPTIONS = 4"
definition POLL_MAX_OPTION_CHARS :: nat where "POLL_MAX_OPTION_CHARS = 50"
definition POLL_MIN_EXPIRATION :: int where "POLL_MIN_EXPIRATION = 5 * 60"
definition POLL_MAX_EXPIRATION :: int where "POLL_MAX_EXPIRATION = 2629746"

definition invalid :: "string \<Rightarrow> app_error + unit" where
  "invalid what = Inl (Unprocessable (''Validation failed: Poll '' @ what))"

text \<open>\<open>graphemes\<close> counts what a reader sees as characters (crate \<^verbatim>\<open>unicode_segmentation\<close>).\<close>

definition validate_poll_form :: "(string \<Rightarrow> nat) \<Rightarrow> poll_form \<Rightarrow> app_error + unit" where
  "validate_poll_form graphemes poll =
     (let options = pf_options poll in
      if length options < 2 then invalid ''must have at least 2 options''
      else if length options > POLL_MAX_OPTIONS then invalid (''can have at most '' @ dec_nat POLL_MAX_OPTIONS @ '' options'')
      else if list_ex (\<lambda>opt. trimmed opt = []) options then invalid ''options cannot be blank''
      else if list_ex (\<lambda>opt. graphemes opt > POLL_MAX_OPTION_CHARS) options then
        invalid (''options cannot be longer than '' @ dec_nat POLL_MAX_OPTION_CHARS @ '' characters'')
      else if \<not> distinct options then invalid ''options must be unique''
      else case pf_expires_in poll of
        None \<Rightarrow> invalid ''expiration can't be blank''
      | Some secs \<Rightarrow>
          if secs < POLL_MIN_EXPIRATION then invalid ''duration is too short''
          else if secs > POLL_MAX_EXPIRATION then invalid ''duration is too long''
          else Inr ())"

definition ends_at :: "poll_request \<Rightarrow> poll_form \<Rightarrow> int option" where
  "ends_at rq form = map_option (\<lambda>secs. pq_now rq + seconds secs) (pf_expires_in form)"

definition is_set :: "bool option \<Rightarrow> bool" where
  "is_set b = (case b of None \<Rightarrow> False | Some x \<Rightarrow> x)"

definition link_poll :: "int \<Rightarrow> int option \<Rightarrow> poll_db \<Rightarrow> poll_db" where
  "link_poll status_id poll db =
     db\<lparr>pl_statuses := map (\<lambda>s. if ps_id s = status_id then s\<lparr>ps_poll := poll\<rparr> else s) (pl_statuses db)\<rparr>"

definition insert_poll :: "poll_row \<Rightarrow> poll_db \<Rightarrow> poll_db" where
  "insert_poll poll db = db\<lparr>pl_polls := pl_polls db @ [poll\<lparr>po_id := pl_next_poll db\<rparr>], pl_next_poll := pl_next_poll db + 1\<rparr>"

definition form_poll :: "poll_request \<Rightarrow> int \<Rightarrow> int \<Rightarrow> poll_form \<Rightarrow> poll_row" where
  "form_poll rq status_id account_id form =
     \<lparr>po_id = 0, po_account = account_id, po_status = status_id, po_expires_at = ends_at rq form, po_options = pf_options form,
      po_tallies = [], po_multiple = is_set (pf_multiple form), po_hide_totals = is_set (pf_hide_totals form),
      po_votes_count = 0, po_voters_count = None\<rparr>"

text \<open>The poll of a new post, whose form was validated before.\<close>

definition create_poll :: "poll_request \<Rightarrow> int \<Rightarrow> int \<Rightarrow> poll_form \<Rightarrow> poll_db \<Rightarrow> (app_error + unit) \<times> poll_db" where
  "create_poll rq status_id account_id form db =
     (if pq_down rq PoCreate then (failed_query, db)
      else let db1 = insert_poll (form_poll rq status_id account_id form) db in
        if pq_down rq PoLink then (failed_query, db1)
        else (Inr (), link_poll status_id (Some (pl_next_poll db)) db1))"

definition clear_votes :: "int \<Rightarrow> poll_db \<Rightarrow> poll_db" where
  "clear_votes i db = db\<lparr>pl_votes := filter (\<lambda>v. vo_poll v \<noteq> i) (pl_votes db)\<rparr>"

text \<open>The poll of an edited post. Errors of these queries are dropped; deleting a poll deletes its votes.\<close>

definition apply_poll_edit ::
  "poll_request \<Rightarrow> int \<Rightarrow> int \<Rightarrow> poll_form option option \<Rightarrow> poll_row option \<Rightarrow> poll_db \<Rightarrow> poll_db" where
  "apply_poll_edit rq status_id account_id form existing db =
     (case form of
        Some (Some pf) \<Rightarrow>
          (case existing of
             Some ep \<Rightarrow>
               let options_changed = (po_options ep \<noteq> pf_options pf \<or> po_multiple ep \<noteq> is_set (pf_multiple pf));
                   db1 = (if options_changed \<and> \<not> pq_down rq PoClear then clear_votes (po_id ep) db else db)
               in if pq_down rq PoEdit then db1
                  else change_poll (po_id ep) (\<lambda>p. p\<lparr>po_options := pf_options pf, po_multiple := is_set (pf_multiple pf),
                    po_hide_totals := is_set (pf_hide_totals pf), po_expires_at := ends_at rq pf,
                    po_votes_count := int (length (votes_on (po_id ep) db1)), po_tallies := []\<rparr>) db1
           | None \<Rightarrow>
               if pq_down rq PoCreate then db
               else let db1 = insert_poll (form_poll rq status_id account_id pf) db in
                 if pq_down rq PoLink then db1 else link_poll status_id (Some (pl_next_poll db)) db1)
      | Some None \<Rightarrow>
          (case existing of None \<Rightarrow> db | Some ep \<Rightarrow>
             let db1 = (if pq_down rq PoClear then db else clear_votes (po_id ep) db);
                 db2 = (if pq_down rq PoLink then db1 else link_poll status_id None db1)
             in if pq_down rq PoDelete then db2
                else clear_votes (po_id ep) (db2\<lparr>pl_polls := filter (\<lambda>p. po_id p \<noteq> po_id ep) (pl_polls db2)\<rparr>))
      | None \<Rightarrow> db)"

text \<open>\<open>other\<close>: something else of the post changes too.\<close>

definition edit_poll ::
  "poll_request \<Rightarrow> (string \<Rightarrow> nat) \<Rightarrow> int \<Rightarrow> int \<Rightarrow> poll_form option option \<Rightarrow> bool \<Rightarrow> poll_db \<Rightarrow> (app_error + unit) \<times> poll_db" where
  "edit_poll rq graphemes status_id account_id form other db =
     (case (case form of Some (Some pf) \<Rightarrow> validate_poll_form graphemes pf | _ \<Rightarrow> Inr ()) of
        Inl e \<Rightarrow> (Inl e, db)
      | Inr _ \<Rightarrow>
          if pq_down rq PoFetch then (failed_query, db)
          else let existing = find (\<lambda>p. po_status p = status_id) (pl_polls db);
                   poll_changed = (case (form, existing) of
                       (Some (Some pf), Some ep) \<Rightarrow> pf_options pf \<noteq> po_options ep \<or> is_set (pf_multiple pf) \<noteq> po_multiple ep \<or>
                         is_set (pf_hide_totals pf) \<noteq> po_hide_totals ep
                     | (Some (Some pf), None) \<Rightarrow> True
                     | (Some None, Some ep) \<Rightarrow> True
                     | _ \<Rightarrow> False)
            in (Inr (), if other \<or> poll_changed then apply_poll_edit rq status_id account_id form existing db else db))"

section \<open>Polls of other servers\<close>

definition wrap64 :: "int \<Rightarrow> int" where
  "wrap64 i = signed_take_bit 63 i"

definition total_items :: "json \<Rightarrow> int" where
  "total_items item = (case Option.bind (Option.bind (jget item ''replies'') (\<lambda>r. jget r ''totalItems'')) (\<lambda>v. case v of JInt i \<Rightarrow>
     if - (2 ^ 63) \<le> i \<and> i < 2 ^ 63 then Some i else None | _ \<Rightarrow> None) of None \<Rightarrow> 0 | Some i \<Rightarrow> i)"

text \<open>The sum of the tallies wraps, as a release build's does. \<open>rfc3339\<close> reads a time (crate \<^verbatim>\<open>chrono\<close>).\<close>

definition remote_poll :: "(string \<Rightarrow> int option) \<Rightarrow> int \<Rightarrow> int \<Rightarrow> json \<Rightarrow> json list \<Rightarrow> poll_row" where
  "remote_poll rfc3339 status_id account_id object items =
     \<lparr>po_id = 0, po_account = account_id, po_status = status_id,
      po_expires_at = Option.bind (jget_str object ''endTime'') rfc3339,
      po_options = List.map_filter (\<lambda>item. jget_str item ''name'') items, po_tallies = map total_items items,
      po_multiple = (jget object ''anyOf'' \<noteq> None), po_hide_totals = False,
      po_votes_count = foldl (\<lambda>n i. wrap64 (n + i)) 0 (map total_items items), po_voters_count = None\<rparr>"

definition poll_items :: "json \<Rightarrow> json list option" where
  "poll_items object = (case (case jget object ''oneOf'' of Some v \<Rightarrow> Some v | None \<Rightarrow> jget object ''anyOf'') of
     Some (JList items) \<Rightarrow> Some items | _ \<Rightarrow> None)"

definition sync_remote_poll ::
  "poll_request \<Rightarrow> (string \<Rightarrow> int option) \<Rightarrow> int \<Rightarrow> int \<Rightarrow> json \<Rightarrow> poll_db \<Rightarrow> (app_error + unit) \<times> poll_db" where
  "sync_remote_poll rq rfc3339 status_id account_id object db =
     (case poll_items object of None \<Rightarrow> (Inr (), db) | Some items \<Rightarrow>
      let new = remote_poll rfc3339 status_id account_id object items in
      if po_options new = [] then (Inr (), db)
      else if pq_down rq PoFetch then (failed_query, db)
      else case find (\<lambda>p. po_status p = status_id) (pl_polls db) of
        Some old \<Rightarrow>
          if pq_down rq PoEdit then (failed_query, db)
          else (Inr (), change_poll (po_id old) (\<lambda>p. p\<lparr>po_options := po_options new, po_tallies := po_tallies new,
            po_votes_count := po_votes_count new, po_multiple := po_multiple new, po_expires_at := po_expires_at new\<rparr>) db)
      | None \<Rightarrow>
          if pq_down rq PoCreate then (failed_query, db)
          else let db1 = insert_poll new db in
            if pq_down rq PoLink then (failed_query, db1)
            else (Inr (), link_poll status_id (Some (pl_next_poll db)) db1))"

end
