(* ===== verification/PollTheorems.thy ===== *)
theory PollTheorems
  imports Polls
begin

text \<open>
  Polls of local posts count right whatever is asked, votes and edits of them coming in any order;
  what a form with several choices stores.
\<close>

section \<open>What the operations do to the ballots\<close>

definition ballots :: "poll_db \<Rightarrow> int \<Rightarrow> (int \<times> int) list" where
  "ballots db i = map (\<lambda>v. (vo_account v, vo_choice v)) (votes_on i db)"

definition poll_core :: "poll_row \<Rightarrow> int \<times> int \<times> string list \<times> bool" where
  "poll_core p = (po_id p, po_status p, po_options p, po_multiple p)"

definition poll_cores :: "poll_db \<Rightarrow> (int \<times> int \<times> string list \<times> bool) list" where
  "poll_cores db = map poll_core (pl_polls db)"

lemma ballots_insert [simp]:
  "ballots (insert_vote j a c u db) = (ballots db)(j := ballots db j @ [(a, c)])"
  by (rule ext) (simp add: ballots_def votes_on_def insert_vote_def)

lemma insert_vote_rest [simp]:
  "poll_cores (insert_vote j a c u db) = poll_cores db" "pl_next_poll (insert_vote j a c u db) = pl_next_poll db"
  "pl_polls (insert_vote j a c u db) = pl_polls db" "pl_next_vote (insert_vote j a c u db) = pl_next_vote db + 1"
  by (simp_all add: poll_cores_def insert_vote_def)

lemma ballots_change [simp]: "ballots (change_poll j f db) = ballots db" "pl_next_poll (change_poll j f db) = pl_next_poll db"
  by (simp_all add: ballots_def votes_on_def change_poll_def fun_eq_iff)

lemma counts_keep [simp]:
  "ballots (recount j db) = ballots db" "ballots (one_more_voter j db) = ballots db"
  "pl_next_poll (recount j db) = pl_next_poll db" "pl_next_poll (one_more_voter j db) = pl_next_poll db"
  "poll_cores (recount j db) = poll_cores db" "poll_cores (one_more_voter j db) = poll_cores db"
  by (simp_all add: recount_def one_more_voter_def poll_cores_def change_poll_def poll_core_def ballots_def votes_on_def fun_eq_iff)

lemma ballots_clear [simp]:
  "ballots (clear_votes j db) = (ballots db)(j := [])" "poll_cores (clear_votes j db) = poll_cores db"
  "pl_next_poll (clear_votes j db) = pl_next_poll db"
  by (simp_all add: fun_eq_iff ballots_def votes_on_def clear_votes_def poll_cores_def conj_commute cong: conj_cong)

lemma link_poll_keeps [simp]:
  "ballots (link_poll s i db) = ballots db" "poll_cores (link_poll s i db) = poll_cores db" "pl_next_poll (link_poll s i db) = pl_next_poll db"
  by (simp_all add: ballots_def votes_on_def link_poll_def poll_cores_def fun_eq_iff)

lemma insert_poll_keeps [simp]:
  "ballots (insert_poll p db) = ballots db" "pl_next_poll (insert_poll p db) = pl_next_poll db + 1"
  "poll_cores (insert_poll p db) = poll_cores db @ [(pl_next_poll db, po_status p, po_options p, po_multiple p)]"
  by (simp_all add: ballots_def votes_on_def insert_poll_def poll_cores_def poll_core_def fun_eq_iff)

lemma ballots_map: "(\<And>v. vo_account (f v) = vo_account v \<and> vo_poll (f v) = vo_poll v \<and> vo_choice (f v) = vo_choice v) \<Longrightarrow>
  ballots (db\<lparr>pl_votes := map f (pl_votes db)\<rparr>) = ballots db"
  by (simp add: ballots_def votes_on_def fun_eq_iff filter_map o_def)

lemma send_votes_keeps:
  "ballots (send_votes rq poll actor owner irt inbox k votes db) = ballots db \<and>
   pl_polls (send_votes rq poll actor owner irt inbox k votes db) = pl_polls db \<and>
   pl_next_poll (send_votes rq poll actor owner irt inbox k votes db) = pl_next_poll db"
proof (induction rq poll actor owner irt inbox k votes db rule: send_votes.induct)
  case (2 rq poll actor owner irt inbox k vote_id choice votes db)
  have out: "ballots (d\<lparr>pl_outbox := x\<rparr>) = ballots d" for d x by (simp add: ballots_def votes_on_def fun_eq_iff)
  have uri: "ballots (db\<lparr>pl_votes := map (\<lambda>v. if vo_id v = vote_id then v\<lparr>vo_uri := u\<rparr> else v) (pl_votes db)\<rparr>) = ballots db" for u
    by (rule ballots_map) simp
  show ?case
  proof (cases "nat choice \<ge> length (po_options poll) \<or> pq_down rq (PoVoteUri k) \<or> pq_down rq (PoDeliver k)")
    case True
    then show ?thesis using 2(1) uri by (auto simp: Let_def)
  next
    case False
    then have n: "\<not> nat choice \<ge> length (po_options poll)" "\<not> pq_down rq (PoVoteUri k)" "\<not> pq_down rq (PoDeliver k)" by simp_all
    define uri' where "uri' = actor @ ''#votes/'' @ dec vote_id"
    define db1 where "db1 = db\<lparr>pl_votes := map (\<lambda>v. if vo_id v = vote_id then v\<lparr>vo_uri := Some uri'\<rparr> else v) (pl_votes db)\<rparr>"
    define db2 where "db2 = db1\<lparr>pl_outbox := pl_outbox db1 @ [(inbox, vote_activity actor owner irt uri' (po_options poll ! nat choice))]\<rparr>"
    have step: "send_votes rq poll actor owner irt inbox k ((vote_id, choice) # votes) db = send_votes rq poll actor owner irt inbox (Suc k) votes db2"
      by (simp only: send_votes.simps n Let_def if_False uri'_def db1_def db2_def)
    have ih: "ballots (send_votes rq poll actor owner irt inbox (Suc k) votes db2) = ballots db2 \<and>
        pl_polls (send_votes rq poll actor owner irt inbox (Suc k) votes db2) = pl_polls db2 \<and>
        pl_next_poll (send_votes rq poll actor owner irt inbox (Suc k) votes db2) = pl_next_poll db2"
      unfolding db2_def db1_def uri'_def by (rule 2(2) [OF n(1,2) refl refl n(3)])
    have "ballots db2 = ballots db" "pl_polls db2 = pl_polls db" "pl_next_poll db2 = pl_next_poll db"
      using uri unfolding db2_def out db1_def by simp_all
    then show ?thesis unfolding step using ih by simp
  qed
qed simp

lemma federate_keeps [simp]:
  "ballots (federate_poll_votes rq poll voter votes db) = ballots db"
  "pl_polls (federate_poll_votes rq poll voter votes db) = pl_polls db"
  "pl_next_poll (federate_poll_votes rq poll voter votes db) = pl_next_poll db"
  by (simp_all add: federate_poll_votes_def send_votes_keeps Let_def split: option.split)

lemma federate_cores [simp]: "poll_cores (federate_poll_votes rq poll voter votes db) = poll_cores db"
  by (simp add: poll_cores_def)

definition valid_choice :: "poll_row \<Rightarrow> int \<Rightarrow> bool" where
  "valid_choice poll c \<longleftrightarrow> 0 \<le> c \<and> c < int (length (po_options poll))"

lemma insert_votes_stores:
  assumes "insert_votes rq poll voter k choices db = (r, db1)"
  obtains n where "ballots db1 = (ballots db)(po_id poll := ballots db (po_id poll) @ map (Pair voter) (take n (takeWhile (valid_choice poll) choices)))"
    "pl_polls db1 = pl_polls db" "pl_next_poll db1 = pl_next_poll db"
  using assms
proof (induction rq poll voter k choices db arbitrary: r thesis rule: insert_votes.induct)
  case (1 rq poll voter k db)
  then show ?case by (simp add: fun_eq_iff)
next
  case (2 rq poll voter k choice choices db)
  show ?case
  proof (cases "valid_choice poll choice \<and> \<not> pq_down rq (PoInsert k)")
    case False
    then have "db1 = db" using 2(3) by (auto simp: valid_choice_def split: if_splits)
    then show ?thesis using 2(2) [of 0] by simp
  next
    case True
    then have ok: "\<not> (choice < 0 \<or> choice \<ge> int (length (po_options poll)))" "\<not> pq_down rq (PoInsert k)" by (auto simp: valid_choice_def)
    obtain r1 where r1: "insert_votes rq poll voter (Suc k) choices (insert_vote (po_id poll) voter choice None db) = (r1, db1)"
      using 2(3) ok by (auto split: prod.splits sum.splits)
    obtain n where n: "ballots db1 = (ballots (insert_vote (po_id poll) voter choice None db))
        (po_id poll := ballots (insert_vote (po_id poll) voter choice None db) (po_id poll) @ map (Pair voter) (take n (takeWhile (valid_choice poll) choices)))"
      "pl_polls db1 = pl_polls db" "pl_next_poll db1 = pl_next_poll db"
      using 2(1) [OF ok _ r1] by (metis insert_vote_rest(2,3))
    show ?thesis by (rule 2(2) [of "Suc n"]) (use n True in simp_all)
  qed
qed

section \<open>Polls of local posts\<close>

text \<open>\<open>mine\<close>: the posts of this server.\<close>

definition cores_ok :: "(int \<Rightarrow> bool) \<Rightarrow> (int \<times> int \<times> string list \<times> bool) list \<Rightarrow> int \<Rightarrow> (int \<Rightarrow> (int \<times> int) list) \<Rightarrow> bool" where
  "cores_ok mine ps nxt B \<longleftrightarrow>
     distinct (map fst ps) \<and> (\<forall>i \<in> fst ` set ps. i < nxt) \<and> (\<forall>i. B i \<noteq> [] \<longrightarrow> i \<in> fst ` set ps) \<and>
     (\<forall>(i, st, opts, multi) \<in> set ps. mine st \<longrightarrow>
        (\<forall>(a, c) \<in> set (B i). 0 \<le> c \<and> c < int (length opts)) \<and> (multi \<or> distinct (map fst (B i))))"

definition polls_ok :: "(int \<Rightarrow> bool) \<Rightarrow> poll_db \<Rightarrow> bool" where
  "polls_ok mine db = cores_ok mine (poll_cores db) (pl_next_poll db) (ballots db)"

lemma cores_okD:
  assumes "cores_ok mine ps nxt B"
  shows "distinct (map fst ps)" "i \<in> fst ` set ps \<Longrightarrow> i < nxt" "B i \<noteq> [] \<Longrightarrow> i \<in> fst ` set ps"
    and "(i, st, opts, multi) \<in> set ps \<Longrightarrow> mine st \<Longrightarrow> (a, c) \<in> set (B i) \<Longrightarrow> 0 \<le> c \<and> c < int (length opts)"
    and "(i, st, opts, multi) \<in> set ps \<Longrightarrow> mine st \<Longrightarrow> multi \<or> distinct (map fst (B i))"
  using assms unfolding cores_ok_def by fast+

lemma cores_okI:
  assumes "distinct (map fst ps)" "\<And>i. i \<in> fst ` set ps \<Longrightarrow> i < nxt" "\<And>i. B i \<noteq> [] \<Longrightarrow> i \<in> fst ` set ps"
    and "\<And>i st opts multi a c. (i, st, opts, multi) \<in> set ps \<Longrightarrow> mine st \<Longrightarrow> (a, c) \<in> set (B i) \<Longrightarrow> 0 \<le> c \<and> c < int (length opts)"
    and "\<And>i st opts multi. (i, st, opts, multi) \<in> set ps \<Longrightarrow> mine st \<Longrightarrow> multi \<or> distinct (map fst (B i))"
  shows "cores_ok mine ps nxt B"
  using assms unfolding cores_ok_def by fast

lemma core_unique:
  "distinct (map fst ps) \<Longrightarrow> (i, x) \<in> set ps \<Longrightarrow> (i, y) \<in> set ps \<Longrightarrow> x = y"
  by (rule eq_key_imp_eq_value)

lemma cores_ok_vote:
  assumes "cores_ok mine ps nxt B" "(i, st, opts, multi) \<in> set ps"
    and "\<And>c. c \<in> set cs \<Longrightarrow> 0 \<le> c \<and> c < int (length opts)"
    and "multi \<or> length cs \<le> 1 \<and> voter \<notin> fst ` set (B i)"
  shows "cores_ok mine ps nxt (B(i := B i @ map (Pair voter) cs))"
proof (rule cores_okI)
  note ok = cores_okD [OF assms(1)]
  have own: "st' = st \<and> opts' = opts \<and> multi' = multi" if "(i, st', opts', multi') \<in> set ps" for st' opts' multi'
    using core_unique [OF ok(1) that assms(2)] by simp
  show "distinct (map fst ps)" by (fact ok(1))
  show "j < nxt" if "j \<in> fst ` set ps" for j using ok(2) [OF that] .
  show "j \<in> fst ` set ps" if "(B(i := B i @ map (Pair voter) cs)) j \<noteq> []" for j
    using that ok(3) [of j] assms(2) by (cases "j = i") force+
  show "0 \<le> c \<and> c < int (length opts')"
    if "(j, st', opts', multi') \<in> set ps" "mine st'" "(a, c) \<in> set ((B(i := B i @ map (Pair voter) cs)) j)" for j st' opts' multi' a c
    using that ok(4) [OF that(1,2)] assms(3) own by (cases "j = i") auto
  show "multi' \<or> distinct (map fst ((B(i := B i @ map (Pair voter) cs)) j))"
    if "(j, st', opts', multi') \<in> set ps" "mine st'" for j st' opts' multi'
  proof (cases "j = i")
    case True
    have "length cs \<le> 1 \<Longrightarrow> distinct (map fst (map (Pair voter) cs))" by (cases cs) auto
    then show ?thesis using True ok(5) [OF that] own [of st' opts' multi'] that assms(4) by (auto simp: image_iff)
  next
    case False
    then show ?thesis using ok(5) [OF that] by simp
  qed
qed

lemma cores_ok_new:
  assumes "cores_ok mine ps nxt B"
  shows "cores_ok mine (ps @ [(nxt, st, opts, multi)]) (nxt + 1) B"
proof -
  note ok = cores_okD [OF assms]
  have fresh: "nxt \<notin> fst ` set ps" "B nxt = []" using ok(2,3) [of nxt] by auto
  show ?thesis
  proof (rule cores_okI)
    show "distinct (map fst (ps @ [(nxt, st, opts, multi)]))" using ok(1) fresh by auto
    show "i < nxt + 1" if "i \<in> fst ` set (ps @ [(nxt, st, opts, multi)])" for i using that ok(2) [of i] by force
    show "i \<in> fst ` set (ps @ [(nxt, st, opts, multi)])" if "B i \<noteq> []" for i using ok(3) [OF that] by auto
    show "0 \<le> c \<and> c < int (length opts')"
      if "(i, st', opts', multi') \<in> set (ps @ [(nxt, st, opts, multi)])" "mine st'" "(a, c) \<in> set (B i)" for i st' opts' multi' a c
      using that ok(4) [of i st' opts' multi' a c] fresh by auto
    show "multi' \<or> distinct (map fst (B i))" if "(i, st', opts', multi') \<in> set (ps @ [(nxt, st, opts, multi)])" "mine st'" for i st' opts' multi'
      using that ok(5) [of i st' opts' multi'] fresh by auto
  qed
qed

lemma cores_ok_less:
  assumes "cores_ok mine ps nxt B" "\<And>j. B' j = B j \<or> B' j = []"
  shows "cores_ok mine ps nxt B'"
proof (rule cores_okI)
  note ok = cores_okD [OF assms(1)]
  show "distinct (map fst ps)" by (fact ok(1))
  show "i < nxt" if "i \<in> fst ` set ps" for i using ok(2) [OF that] .
  show "i \<in> fst ` set ps" if "B' i \<noteq> []" for i using ok(3) [of i] assms(2) [of i] that by auto
  show "0 \<le> c \<and> c < int (length opts')" if "(i, st', opts', multi') \<in> set ps" "mine st'" "(a, c) \<in> set (B' i)" for i st' opts' multi' a c
    using that ok(4) [of i st' opts' multi' a c] assms(2) [of i] by auto
  show "multi' \<or> distinct (map fst (B' i))" if "(i, st', opts', multi') \<in> set ps" "mine st'" for i st' opts' multi'
    using that ok(5) [of i st' opts' multi'] assms(2) [of i] by auto
qed

text \<open>An edit may change what a poll offers when it has no votes left, or when the post is not local.\<close>

lemma cores_ok_edit:
  assumes "cores_ok mine ps nxt B" "\<And>st opts multi. (i, st, opts, multi) \<in> set ps \<Longrightarrow>
    B i = [] \<or> \<not> mine st \<or> (opts, multi) = (opts', multi')"
  shows "cores_ok mine (map (\<lambda>(j, st, opts, multi). if j = i then (j, st, opts', multi') else (j, st, opts, multi)) ps) nxt B"
    (is "cores_ok mine (map ?f ps) nxt B")
proof (rule cores_okI)
  note ok = cores_okD [OF assms(1)]
  have fst: "fst (?f p) = fst p" for p by (cases p) auto
  have ids: "map fst (map ?f ps) = map fst ps" "fst ` set (map ?f ps) = fst ` set ps"
    by (auto simp: fst image_image o_def)
  show "distinct (map fst (map ?f ps))" by (simp only: ids ok(1))
  show "j < nxt" if "j \<in> fst ` set (map ?f ps)" for j using ok(2) that unfolding ids by blast
  show "j \<in> fst ` set (map ?f ps)" if "B j \<noteq> []" for j using ok(3) [OF that] unfolding ids .
  show "0 \<le> c \<and> c < int (length opts'')"
    if x: "(j, st, opts'', multi'') \<in> set (map ?f ps)" "mine st" "(a, c) \<in> set (B j)" for j st opts'' multi'' a c
  proof -
    obtain opts0 multi0 where p: "(j, st, opts0, multi0) \<in> set ps" "j = i \<Longrightarrow> opts'' = opts'" "j \<noteq> i \<Longrightarrow> opts'' = opts0"
      using x(1) by (force split: if_splits)
    then show ?thesis using ok(4) [OF p(1) x(2,3)] assms(2) [of st opts0 multi0] x by (cases "j = i") auto
  qed
  show "multi'' \<or> distinct (map fst (B j))" if x: "(j, st, opts'', multi'') \<in> set (map ?f ps)" "mine st" for j st opts'' multi''
  proof -
    obtain opts0 multi0 where p: "(j, st, opts0, multi0) \<in> set ps" "j = i \<Longrightarrow> multi'' = multi'" "j \<noteq> i \<Longrightarrow> multi'' = multi0"
      using x(1) by (force split: if_splits)
    then show ?thesis using ok(5) [OF p(1) x(2)] assms(2) [of st opts0 multi0] x by (cases "j = i") auto
  qed
qed

lemma cores_ok_delete:
  assumes "cores_ok mine ps nxt B" "B' = B(i := [])"
  shows "cores_ok mine (filter (\<lambda>p. fst p \<noteq> i) ps) nxt B'"
proof (rule cores_okI)
  note ok = cores_okD [OF assms(1)]
  show "distinct (map fst (filter (\<lambda>p. fst p \<noteq> i) ps))" using ok(1) by (simp add: distinct_map_filter)
  show "j < nxt" if "j \<in> fst ` set (filter (\<lambda>p. fst p \<noteq> i) ps)" for j using ok(2) [of j] that by auto
  show "j \<in> fst ` set (filter (\<lambda>p. fst p \<noteq> i) ps)" if "B' j \<noteq> []" for j
    using ok(3) [of j] that assms(2) by (auto split: if_splits)
  show "0 \<le> c \<and> c < int (length opts)"
    if "(j, st, opts, multi) \<in> set (filter (\<lambda>p. fst p \<noteq> i) ps)" "mine st" "(a, c) \<in> set (B' j)" for j st opts multi a c
    using that ok(4) [of j st opts multi a c] assms(2) by auto
  show "multi \<or> distinct (map fst (B' j))" if "(j, st, opts, multi) \<in> set (filter (\<lambda>p. fst p \<noteq> i) ps)" "mine st" for j st opts multi
    using that ok(5) [of j st opts multi] assms(2) by auto
qed

section \<open>Every operation keeps them\<close>

lemma poll_core_in: "find P (pl_polls db) = Some p \<Longrightarrow> (po_id p, po_status p, po_options p, po_multiple p) \<in> set (poll_cores db)"
  by (auto simp: poll_cores_def poll_core_def find_Some_iff in_set_conv_nth intro!: image_eqI)

lemma polls_ok_same:
  "polls_ok mine db \<Longrightarrow> poll_cores db' = poll_cores db \<Longrightarrow> pl_next_poll db' = pl_next_poll db \<Longrightarrow> ballots db' = ballots db \<Longrightarrow> polls_ok mine db'"
  by (simp add: polls_ok_def)

lemma polls_ok_change:
  assumes "polls_ok mine db" "\<And>p. po_id (f p) = po_id p \<and> po_status (f p) = po_status p \<and> po_options (f p) = opts \<and> po_multiple (f p) = multi"
    and "\<And>p. p \<in> set (pl_polls db) \<Longrightarrow> po_id p = i \<Longrightarrow> ballots db i = [] \<or> \<not> mine (po_status p) \<or> (po_options p, po_multiple p) = (opts, multi)"
  shows "polls_ok mine (change_poll i f db)"
proof -
  have cores: "poll_cores (change_poll i f db) =
      map (\<lambda>(j, st, o', m'). if j = i then (j, st, opts, multi) else (j, st, o', m')) (poll_cores db)"
    using assms(2) by (simp add: poll_cores_def change_poll_def poll_core_def)
  have "ballots db i = [] \<or> \<not> mine st \<or> (o', m') = (opts, multi)" if "(i, st, o', m') \<in> set (poll_cores db)" for st o' m'
    using that assms(3) by (auto simp: poll_cores_def poll_core_def)
  then show ?thesis
    using cores_ok_edit [of mine "poll_cores db" "pl_next_poll db" "ballots db" i opts multi] assms(1) cores
    by (simp add: polls_ok_def)
qed

lemma polls_ok_insert: "polls_ok mine db \<Longrightarrow> polls_ok mine (insert_poll p db)"
  by (simp add: polls_ok_def cores_ok_new)

lemma polls_ok_clear: "polls_ok mine db \<Longrightarrow> polls_ok mine (clear_votes i db)"
  unfolding polls_ok_def ballots_clear by (erule cores_ok_less) simp

lemma polls_ok_vote:
  assumes "polls_ok mine db" "find P (pl_polls db) = Some p" "\<And>c. c \<in> set cs \<Longrightarrow> valid_choice p c"
    and "po_multiple p \<or> length cs \<le> 1 \<and> voter \<notin> fst ` set (ballots db (po_id p))"
    and "poll_cores db' = poll_cores db" "pl_next_poll db' = pl_next_poll db"
      "ballots db' = (ballots db)(po_id p := ballots db (po_id p) @ map (Pair voter) cs)"
  shows "polls_ok mine db'"
  unfolding polls_ok_def assms(5-7)
  by (rule cores_ok_vote [OF assms(1) [unfolded polls_ok_def] poll_core_in [OF assms(2)]])
    (use assms(3,4) in \<open>auto simp: valid_choice_def\<close>)

lemma votes_of_ballots: "votes_of i voter db = [] \<longleftrightarrow> voter \<notin> fst ` set (ballots db i)"
  by (auto simp: votes_of_def ballots_def filter_empty_conv image_image)

lemma vote_poll_keeps: "polls_ok mine db \<Longrightarrow> polls_ok mine (snd (vote_poll rq i auth choices db))"
proof -
  assume ok: "polls_ok mine db"
  let ?voter = "au_account auth"
  define check where "check = res_bind (require_scope auth ''write:statuses'') (\<lambda>_. res_bind (fetch_poll rq PoFetch i db) (\<lambda>poll.
          res_bind (may_vote rq poll ?voter choices db) (\<lambda>_. if pq_down rq PoFirst then failed_query else Inr poll)))"
  show ?thesis
  proof (cases check)
    case (Inl e)
    then show ?thesis using ok by (simp add: vote_poll_def check_def Let_def)
  next
    case (Inr poll)
    then have p: "find (\<lambda>p. po_id p = i) (pl_polls db) = Some poll" and may: "may_vote rq poll ?voter choices db = Inr ()"
      by (auto simp: check_def fetch_poll_def failed_query_def res_bind_def split: sum.splits option.splits if_splits)
    have i: "po_id poll = i" using p by (auto simp: find_Some_iff)
    obtain r db1 where v: "insert_votes rq poll ?voter 0 choices db = (r, db1)" by fastforce
    obtain n where n: "ballots db1 = (ballots db)(po_id poll := ballots db (po_id poll) @ map (Pair ?voter) (take n (takeWhile (valid_choice poll) choices)))"
      "pl_polls db1 = pl_polls db" "pl_next_poll db1 = pl_next_poll db" by (rule insert_votes_stores [OF v])
    have single: "po_multiple poll \<or> length (take n (takeWhile (valid_choice poll) choices)) \<le> 1 \<and> ?voter \<notin> fst ` set (ballots db (po_id poll))"
    proof (cases "po_multiple poll")
      case False
      then have "length choices \<le> 1" "votes_of i ?voter db = []"
        using may i by (auto simp: may_vote_def failed_query_def split: if_splits)
      then show ?thesis using i length_takeWhile_le [of "valid_choice poll" choices] by (auto simp: votes_of_ballots min_def)
    qed simp
    have "valid_choice poll c" if "c \<in> set (take n (takeWhile (valid_choice poll) choices))" for c
      using that by (meson in_set_takeD set_takeWhileD)
    then have ok1: "polls_ok mine db1"
      by (rule polls_ok_vote [OF ok p _ single]) (use n in \<open>simp_all add: poll_cores_def\<close>)
    have "poll_cores (snd (vote_poll rq i auth choices db)) = poll_cores db1 \<and>
        pl_next_poll (snd (vote_poll rq i auth choices db)) = pl_next_poll db1 \<and> ballots (snd (vote_poll rq i auth choices db)) = ballots db1"
    proof -
      have upd: "ballots (d\<lparr>pl_updates := u\<rparr>) = ballots d" "poll_cores (d\<lparr>pl_updates := u\<rparr>) = poll_cores d" for d u
        by (simp_all add: ballots_def votes_on_def poll_cores_def fun_eq_iff)
      show ?thesis
        unfolding vote_poll_def Let_def check_def [symmetric] Inr
        by (simp add: v upd split: sum.split)
    qed
    then show ?thesis using polls_ok_same [OF ok1] by blast
  qed
qed

lemma position_less: "name \<in> set xs \<Longrightarrow> length (takeWhile (\<lambda>x. x \<noteq> name) xs) < length xs"
  by (induction xs) auto

lemma position_valid:
  "name \<in> set (po_options p) \<Longrightarrow> valid_choice p (int (length (takeWhile (\<lambda>opt. opt \<noteq> name) (po_options p))))"
  by (simp add: valid_choice_def position_less)

lemma vote_note_keeps:
  "polls_ok mine db \<Longrightarrow> polls_ok mine (snd (handle_poll_vote_note rq voter status_id name uri db))"
proof -
  assume ok: "polls_ok mine db"
  show ?thesis
  proof (cases "find (\<lambda>p. po_status p = status_id) (pl_polls db)")
    case None
    then show ?thesis using ok by (simp add: handle_poll_vote_note_def)
  next
    case (Some poll)
    let ?i = "po_id poll" and ?c = "int (length (takeWhile (\<lambda>opt. opt \<noteq> name) (po_options poll)))"
    let ?out = "snd (handle_poll_vote_note rq voter status_id name uri db)" and ?db1 = "insert_vote (po_id poll) voter ?c (Some uri) db"
    consider "?out = db" | "name \<in> set (po_options poll)" "po_multiple poll \<or> votes_of ?i voter db = []"
      "poll_cores ?out = poll_cores ?db1" "pl_next_poll ?out = pl_next_poll ?db1" "ballots ?out = ballots ?db1"
    proof (cases "pq_down rq PoFetch \<or> expired (pq_now rq) poll \<or> name \<notin> set (po_options poll) \<or> pq_down rq PoVoted \<or>
        \<not> po_multiple poll \<and> votes_of ?i voter db \<noteq> [] \<or> pq_down rq (PoInsert 0)")
      case True
      then have "?out = db" using Some by (auto simp: handle_poll_vote_note_def Let_def)
      then show ?thesis using that(1) by blast
    next
      case False
      then show ?thesis using Some by (intro that(2)) (auto simp: handle_poll_vote_note_def Let_def)
    qed
    then show ?thesis
    proof cases
      case 1
      then show ?thesis using ok by simp
    next
      case 2
      show ?thesis
        by (rule polls_ok_vote [OF ok Some, of "[?c]" voter])
          (use 2 position_valid in \<open>auto simp: votes_of_ballots\<close>)
    qed
  qed
qed

lemma create_poll_keeps: "polls_ok mine db \<Longrightarrow> polls_ok mine (snd (create_poll rq s a form db))"
  by (auto simp: create_poll_def Let_def intro: polls_ok_insert polls_ok_same)

lemma delete_poll_keeps:
  assumes "polls_ok mine db"
  shows "polls_ok mine (clear_votes i (db\<lparr>pl_polls := filter (\<lambda>p. po_id p \<noteq> i) (pl_polls db)\<rparr>))"
proof -
  have "ballots (db\<lparr>pl_polls := x\<rparr>) = ballots db" for x by (simp add: ballots_def votes_on_def fun_eq_iff)
  moreover have "poll_cores (db\<lparr>pl_polls := filter (\<lambda>p. po_id p \<noteq> i) (pl_polls db)\<rparr>) = filter (\<lambda>p. fst p \<noteq> i) (poll_cores db)"
    by (simp add: poll_cores_def poll_core_def filter_map o_def)
  ultimately show ?thesis
    using cores_ok_delete [of mine "poll_cores db" "pl_next_poll db" "ballots db" "(ballots db)(i := [])" i] assms
    by (simp add: polls_ok_def)
qed

lemma polls_ok_ids: "polls_ok mine db \<Longrightarrow> distinct (map po_id (pl_polls db))"
  by (simp add: polls_ok_def cores_ok_def poll_cores_def poll_core_def o_def)

lemma apply_edit_keeps:
  assumes ok: "polls_ok mine db" and found: "existing = find (\<lambda>p. po_status p = s) (pl_polls db)"
    and up: "\<not> (pq_down rq PoClear \<and> \<not> pq_down rq PoEdit)"
  shows "polls_ok mine (apply_poll_edit rq s a form existing db)"
proof -
  have one: "p = q" if "p \<in> set (pl_polls db)" "q \<in> set (pl_polls db)" "po_id p = po_id q" for p q
    by (rule distinct_map_inj [OF polls_ok_ids [OF ok] that])
  show ?thesis
  proof (cases form)
    case None
    then show ?thesis using ok by (simp add: apply_poll_edit_def)
  next
    case (Some change)
    show ?thesis
    proof (cases change)
      case gone: None
      show ?thesis
      proof (cases existing)
        case None
        then show ?thesis using Some gone ok by (simp add: apply_poll_edit_def)
      next
        case old: (Some ep)
        define db1 where "db1 = (if pq_down rq PoClear then db else clear_votes (po_id ep) db)"
        define db2 where "db2 = (if pq_down rq PoLink then db1 else link_poll s None db1)"
        have "polls_ok mine db1" using ok by (simp add: db1_def polls_ok_clear)
        then have "polls_ok mine db2" by (auto simp: db2_def elim: polls_ok_same)
        then show ?thesis using Some gone old delete_poll_keeps [of mine db2 "po_id ep"]
          by (simp add: apply_poll_edit_def Let_def db1_def [symmetric] db2_def [symmetric])
      qed
    next
      case form: (Some pf)
      show ?thesis
      proof (cases existing)
        case None
        then show ?thesis using Some form ok
          by (auto simp: apply_poll_edit_def Let_def intro: polls_ok_insert polls_ok_same)
      next
        case old: (Some ep)
        have ep: "ep \<in> set (pl_polls db)" using old found by (metis find_Some_iff nth_mem)
        define changed where "changed = (po_options ep \<noteq> pf_options pf \<or> po_multiple ep \<noteq> is_set (pf_multiple pf))"
        define db1 where "db1 = (if changed \<and> \<not> pq_down rq PoClear then clear_votes (po_id ep) db else db)"
        have ok1: "polls_ok mine db1" using ok by (simp add: db1_def polls_ok_clear)
        have edit: "apply_poll_edit rq s a form existing db = (if pq_down rq PoEdit then db1
            else change_poll (po_id ep) (\<lambda>p. p\<lparr>po_options := pf_options pf, po_multiple := is_set (pf_multiple pf),
                    po_hide_totals := is_set (pf_hide_totals pf), po_expires_at := ends_at rq pf,
                    po_votes_count := int (length (votes_on (po_id ep) db1)), po_tallies := []\<rparr>) db1)"
          using Some form old by (simp add: apply_poll_edit_def Let_def changed_def db1_def)
        show ?thesis
        proof (cases "pq_down rq PoEdit")
          case True
          then show ?thesis using ok1 edit by simp
        next
          case False
          have "pl_polls db1 = pl_polls db" by (simp add: db1_def clear_votes_def)
          then have "ballots db1 (po_id ep) = [] \<or> \<not> mine (po_status p) \<or> (po_options p, po_multiple p) = (pf_options pf, is_set (pf_multiple pf))"
            if "p \<in> set (pl_polls db1)" "po_id p = po_id ep" for p
            using one [of p ep] that ep up False by (auto simp: db1_def changed_def)
          then show ?thesis unfolding edit using False
            by (auto intro!: polls_ok_change [OF ok1, where opts = "pf_options pf" and multi = "is_set (pf_multiple pf)"])
        qed
      qed
    qed
  qed
qed

lemma edit_keeps:
  "polls_ok mine db \<Longrightarrow> \<not> (pq_down rq PoClear \<and> \<not> pq_down rq PoEdit) \<Longrightarrow> polls_ok mine (snd (edit_poll rq g s a form other db))"
  by (simp add: edit_poll_def Let_def apply_edit_keeps split: sum.split)

lemma sync_keeps:
  assumes ok: "polls_ok mine db" and remote: "\<not> mine s"
  shows "polls_ok mine (snd (sync_remote_poll rq rfc3339 s a object db))"
proof (cases "poll_items object")
  case None
  then show ?thesis using ok by (simp add: sync_remote_poll_def)
next
  case (Some items)
  define new where "new = remote_poll rfc3339 s a object items"
  show ?thesis
  proof (cases "find (\<lambda>p. po_status p = s) (pl_polls db)")
    case None
    then show ?thesis using Some ok
      by (auto simp: sync_remote_poll_def Let_def failed_query_def intro: polls_ok_insert polls_ok_same)
  next
    case old: (Some ep)
    have ep: "ep \<in> set (pl_polls db)" "po_status ep = s" using old by (auto simp: find_Some_iff)
    have one: "p = ep" if "p \<in> set (pl_polls db)" "po_id p = po_id ep" for p
      by (rule distinct_map_inj [OF polls_ok_ids [OF ok] that(1) ep(1) that(2)])
    have "polls_ok mine (change_poll (po_id ep) (\<lambda>p. p\<lparr>po_options := po_options new, po_tallies := po_tallies new,
            po_votes_count := po_votes_count new, po_multiple := po_multiple new, po_expires_at := po_expires_at new\<rparr>) db)"
      by (rule polls_ok_change [OF ok, where opts = "po_options new" and multi = "po_multiple new"]) (use one ep remote in auto)
    then show ?thesis using Some old ok by (simp add: sync_remote_poll_def new_def Let_def failed_query_def)
  qed
qed

text \<open>
  Everything that writes the tables, in any order, whoever asks and whatever queries fail, but for
  an edit that changes what a poll offers and fails only to clear its votes.
\<close>

inductive polling :: "(int \<Rightarrow> bool) \<Rightarrow> poll_db \<Rightarrow> bool" for mine where
  polling_start: "pl_polls db = [] \<Longrightarrow> pl_votes db = [] \<Longrightarrow> polling mine db"
| polling_create: "polling mine db \<Longrightarrow> polling mine (snd (create_poll rq s a form db))"
| polling_vote: "polling mine db \<Longrightarrow> polling mine (snd (vote_poll rq i auth choices db))"
| polling_note: "polling mine db \<Longrightarrow> polling mine (snd (handle_poll_vote_note rq voter s name uri db))"
| polling_edit: "polling mine db \<Longrightarrow> \<not> (pq_down rq PoClear \<and> \<not> pq_down rq PoEdit) \<Longrightarrow>
    polling mine (snd (edit_poll rq graphemes s a change other db))"
| polling_sync: "polling mine db \<Longrightarrow> \<not> mine s \<Longrightarrow> polling mine (snd (sync_remote_poll rq rfc3339 s a object db))"

lemma polling_ok: "polling mine db \<Longrightarrow> polls_ok mine db"
proof (induction rule: polling.induct)
  case (polling_start db)
  then show ?case by (simp add: polls_ok_def cores_ok_def poll_cores_def ballots_def votes_on_def)
qed (rule create_poll_keeps vote_poll_keeps vote_note_keeps edit_keeps sync_keeps, assumption+)+

lemma sum_counts:
  "\<forall>v \<in> set vs. 0 \<le> vo_choice v \<and> vo_choice v < int n \<Longrightarrow>
   sum_list (map (\<lambda>k. int (length (filter (\<lambda>v. vo_choice v = int k) vs))) [0..<n]) = int (length vs)"
proof (induction vs)
  case (Cons v vs)
  then obtain c where c: "vo_choice v = int c" "c < n" using nonneg_int_cases by fastforce
  have "sum_list (map (\<lambda>k. int (length (filter (\<lambda>w. vo_choice w = int k) (v # vs)))) [0..<n]) =
      sum_list (map (\<lambda>k. (if k = c then 1 else 0) + int (length (filter (\<lambda>w. vo_choice w = int k) vs))) [0..<n])"
    by (rule arg_cong [where f = sum_list], rule map_cong) (use c in auto)
  also have "\<dots> = sum_list (map (\<lambda>k. if k = c then 1 else 0) [0..<n]) +
      sum_list (map (\<lambda>k. int (length (filter (\<lambda>w. vo_choice w = int k) vs))) [0..<n])"
    by (rule sum_list_addf)
  also have "sum_list (map (\<lambda>k. if k = c then 1 else 0 :: int) [0..<n]) = 1"
    using c(2) by (simp add: interv_sum_list_conv_sum_set_nat)
  finally show ?case using Cons by simp
qed simp

text \<open>
  C34: Whatever is created, voted, edited and received, one request after another and with any query
  failing (save the one that clears the votes of an edited poll whose options are then written), a
  poll of this server's own posts adds up for whoever looks at it: the counts of its options, when they are shown, are those of all its votes,
  and when it takes a single choice there are as many votes as voters and nobody has two.
\<close>

theorem local_polls_add_up:
  assumes "polling mine db" "p \<in> set (pl_polls db)" "mine (po_status p)" "poll_from_db rq p viewer db = Inr view"
  shows "(pv_expired view \<or> \<not> po_hide_totals p \<longrightarrow> sum_list (map (the \<circ> snd) (pv_options view)) = pv_votes_count view) \<and>
    (\<not> po_multiple p \<longrightarrow> pv_votes_count view = int (length (voters_on (po_id p) db)) \<and>
       (\<forall>own. pv_own_votes view = Some own \<longrightarrow> length own \<le> 1))"
proof (intro conjI impI allI)
  note ok = polling_ok [OF assms(1), unfolded polls_ok_def]
  have core: "(po_id p, po_status p, po_options p, po_multiple p) \<in> set (poll_cores db)"
    using assms(2) by (auto simp: poll_cores_def poll_core_def)
  have in_range: "\<forall>v \<in> set (votes_on (po_id p) db). 0 \<le> vo_choice v \<and> vo_choice v < int (length (po_options p))"
    using cores_okD(4) [OF ok core assms(3)] by (force simp: ballots_def)
  have count: "pv_votes_count view = int (length (votes_on (po_id p) db))"
    using assms(4) by (auto simp: poll_from_db_def failed_query_def Let_def split: if_splits)
  show "sum_list (map (the \<circ> snd) (pv_options view)) = pv_votes_count view" if "pv_expired view \<or> \<not> po_hide_totals p"
  proof -
    have "pv_options view = map (\<lambda>(k, title). (title, Some (count_for (po_id p) (int k) db))) (enumerate 0 (po_options p))"
      using assms(4) that by (auto simp: poll_from_db_def failed_query_def Let_def split: if_splits)
    moreover have "map (the \<circ> snd) (map (\<lambda>(k, title). (title, Some (f k))) xs) = map f (map fst xs)" for f :: "nat \<Rightarrow> int" and xs :: "(nat \<times> string) list"
      by (induction xs) auto
    ultimately have "map (the \<circ> snd) (pv_options view) = map (\<lambda>k. count_for (po_id p) (int k) db) (map fst (enumerate 0 (po_options p)))"
      by (simp only:)
    also have "map fst (enumerate 0 (po_options p)) = [0..<length (po_options p)]" by simp
    finally have "map (the \<circ> snd) (pv_options view) = map (\<lambda>k. count_for (po_id p) (int k) db) [0..<length (po_options p)]" .
    then show ?thesis using sum_counts [OF in_range] count by (simp add: count_for_def)
  qed
  assume single: "\<not> po_multiple p"
  have once: "distinct (map vo_account (votes_on (po_id p) db))"
    using cores_okD(5) [OF ok core assms(3)] single by (simp add: ballots_def o_def)
  then show "pv_votes_count view = int (length (voters_on (po_id p) db))"
    using count by (simp add: voters_on_def distinct_remdups_id)
  fix own
  assume "pv_own_votes view = Some own"
  then obtain v where "own = sort (map vo_choice (votes_of (po_id p) v db))"
    using assms(4) by (auto simp: poll_from_db_def failed_query_def Let_def split: if_splits option.splits)
  moreover have "length (filter (\<lambda>w. vo_account w = v) vs) \<le> 1" if "distinct (map vo_account vs)" for vs
    using that
  proof (induction vs)
    case (Cons w vs)
    then have "vo_account w = v \<Longrightarrow> filter (\<lambda>w. vo_account w = v) vs = []" by (auto simp: filter_empty_conv image_iff)
    then show ?case using Cons by simp
  qed simp
  ultimately show "length own \<le> 1" using once by (simp add: votes_of_def)
qed

section \<open>Forms with several choices\<close>

lemma insert_votes_up:
  assumes "\<And>c. \<not> pq_down rq c"
  shows "ballots (snd (insert_votes rq poll voter k choices db)) =
      (ballots db)(po_id poll := ballots db (po_id poll) @ map (Pair voter) (takeWhile (valid_choice poll) choices)) \<and>
    pl_polls (snd (insert_votes rq poll voter k choices db)) = pl_polls db \<and>
    (if list_all (valid_choice poll) choices then \<exists>created. fst (insert_votes rq poll voter k choices db) = Inr created
     else fst (insert_votes rq poll voter k choices db) = Inl (Unprocessable ''Invalid choice index''))"
proof (induction choices arbitrary: k db)
  case (Cons c choices)
  show ?case
  proof (cases "valid_choice poll c")
    case False
    then show ?thesis by (auto simp: valid_choice_def fun_eq_iff)
  next
    case True
    then have ok: "\<not> (c < 0 \<or> c \<ge> int (length (po_options poll)))" by (auto simp: valid_choice_def)
    define rest where "rest = insert_votes rq poll voter (Suc k) choices (insert_vote (po_id poll) voter c None db)"
    obtain r db1 where rest': "rest = (r, db1)" by fastforce
    note ih = Cons [of "Suc k" "insert_vote (po_id poll) voter c None db", folded rest_def, unfolded rest' fst_conv snd_conv]
    have b: "ballots db1 = (ballots db)(po_id poll := ballots db (po_id poll) @ map (Pair voter) (takeWhile (valid_choice poll) (c # choices)))"
      using ih [THEN conjunct1] True by (simp add: fun_eq_iff)
    have p: "pl_polls db1 = pl_polls db" using ih [THEN conjunct2, THEN conjunct1] by simp
    have all: "list_all (valid_choice poll) (c # choices) = list_all (valid_choice poll) choices" using True by simp
    have out: "insert_votes rq poll voter k (c # choices) db = (case rest of
        (Inl e, db1) \<Rightarrow> (Inl e, db1) | (Inr created, db1) \<Rightarrow> (Inr ((pl_next_vote db, c) # created), db1))"
      using ok assms unfolding rest_def by simp
    show ?thesis
    proof (cases "list_all (valid_choice poll) choices")
      case True
      then obtain created where "r = Inr created" using ih [THEN conjunct2, THEN conjunct2] by auto
      then show ?thesis unfolding out rest' all using b p True by simp
    next
      case False
      then have "r = Inl (Unprocessable ''Invalid choice index'')" using ih [THEN conjunct2, THEN conjunct2] by simp
      then show ?thesis unfolding out rest' all using b p False by simp
    qed
  qed
qed (simp add: fun_eq_iff)

lemma find_changed_poll:
  "find (\<lambda>p. po_id p = i) (pl_polls db) = Some poll \<Longrightarrow> (\<And>p. po_id (f p) = po_id p) \<Longrightarrow>
   find (\<lambda>p. po_id p = i) (pl_polls (change_poll j f db)) = Some (if i = j then f poll else poll)"
proof -
  assume f: "\<And>p. po_id (f p) = po_id p"
  have "find (\<lambda>p. po_id p = i) ps = Some poll \<Longrightarrow>
      find (\<lambda>p. po_id p = i) (map (\<lambda>p. if po_id p = j then f p else p) ps) = Some (if i = j then f poll else poll)" for ps
  proof (induction ps)
    case (Cons p ps)
    then show ?case by (cases "po_id p = i"; cases "po_id p = j") (simp_all add: f)
  qed simp
  then show "find (\<lambda>p. po_id p = i) (pl_polls db) = Some poll \<Longrightarrow>
      find (\<lambda>p. po_id p = i) (pl_polls (change_poll j f db)) = Some (if i = j then f poll else poll)"
    by (simp add: change_poll_def)
qed

lemma length_ballots: "length (votes_on i db) = length (ballots db i)"
  by (simp add: ballots_def)

text \<open>
  C35: A form for a running poll of several choices, when the database is up, stores every choice up
  to the first that is no option, repeated ones again: a vote with all choices good is counted once
  for each choice on the form, and one with a bad choice is refused although the choices before it
  are stored, the counts of the poll left as they were.
\<close>

theorem every_choice_of_a_form_is_stored:
  assumes up: "\<And>c. \<not> pq_down rq c" and scope: "require_scope auth ''write:statuses'' = Inr ()"
    and found: "find (\<lambda>p. po_id p = i) (pl_polls db) = Some poll"
    and open_poll: "\<not> expired (pq_now rq) poll" "po_multiple poll" "po_account poll \<noteq> au_account auth"
  shows "ballots (snd (vote_poll rq i auth choices db)) i =
      ballots db i @ map (Pair (au_account auth)) (takeWhile (valid_choice poll) choices) \<and>
    (if list_all (valid_choice poll) choices
     then \<exists>view. fst (vote_poll rq i auth choices db) = Inr view \<and> pv_votes_count view = int (length (votes_on i db)) + int (length choices)
     else fst (vote_poll rq i auth choices db) = Inl (Unprocessable ''Invalid choice index'') \<and>
       pl_polls (snd (vote_poll rq i auth choices db)) = pl_polls db)"
proof -
  let ?voter = "au_account auth"
  have i: "po_id poll = i" using found by (auto simp: find_Some_iff)
  obtain r db1 where v: "insert_votes rq poll ?voter 0 choices db = (r, db1)" by fastforce
  note stored = insert_votes_up [OF up, of poll ?voter 0 choices db, unfolded v fst_conv snd_conv i]
  have check: "res_bind (require_scope auth ''write:statuses'') (\<lambda>_. res_bind (fetch_poll rq PoFetch i db) (\<lambda>poll.
          res_bind (may_vote rq poll ?voter choices db) (\<lambda>_. if pq_down rq PoFirst then failed_query else Inr poll))) = Inr poll"
    using up open_poll by (simp add: scope fetch_poll_def found may_vote_def res_bind_def)
  have upd: "ballots (d\<lparr>pl_updates := u\<rparr>) = ballots d" for d u
    by (simp add: ballots_def votes_on_def fun_eq_iff)
  show ?thesis
  proof (cases "list_all (valid_choice poll) choices")
    case False
    then have "vote_poll rq i auth choices db = (Inl (Unprocessable ''Invalid choice index''), db1)"
      using stored unfolding vote_poll_def Let_def check by (simp add: v)
    then show ?thesis using stored False by simp
  next
    case True
    then obtain created where r: "r = Inr created" using stored by auto
    have all: "takeWhile (valid_choice poll) choices = choices" using True by (simp add: list_all_iff)
    define db3 where "db3 = (if votes_of i ?voter db = [] then one_more_voter i (recount i db1) else recount i db1)"
    define db4 where "db4 = federate_poll_votes rq poll ?voter created db3"
    have "find (\<lambda>p. po_id p = i) (pl_polls db1) = Some poll" using stored found by simp
    then have "\<exists>p. find (\<lambda>p. po_id p = i) (pl_polls db4) = Some p"
      by (auto simp: db4_def db3_def recount_def one_more_voter_def find_changed_poll)
    then obtain p' where p': "find (\<lambda>p. po_id p = i) (pl_polls db4) = Some p'" by blast
    have id': "po_id p' = i" using p' by (auto simp: find_Some_iff)
    define db5 where "db5 = (if po_hide_totals p' then db4 else db4\<lparr>pl_updates := pl_updates db4 @ [po_status p']\<rparr>)"
    have out: "vote_poll rq i auth choices db = (poll_from_db rq p' (Some ?voter) db5, db5)"
      using open_poll(2) up p' unfolding vote_poll_def Let_def check db5_def db4_def db3_def
      by (cases "votes_of i ?voter db = []") (simp_all add: v r fetch_poll_def)
    have b: "ballots db5 = (ballots db)(i := ballots db i @ map (Pair ?voter) choices)"
      using stored all by (simp add: db5_def upd db4_def db3_def)
    have "\<exists>view. poll_from_db rq p' (Some ?voter) db5 = Inr view \<and> pv_votes_count view = int (length (votes_on i db5))"
      using up id' by (simp add: poll_from_db_def Let_def)
    moreover have "int (length (votes_on i db5)) = int (length (votes_on i db)) + int (length choices)"
      unfolding length_ballots b by simp
    ultimately show ?thesis unfolding all using out b True by auto
  qed
qed

text \<open>A poll of two options, open, and a voter who repeats the first.\<close>

definition sample_poll_request :: poll_request where
  "sample_poll_request = \<lparr>pq_now = 10, pq_down = \<lambda>_. False, pq_domain = ''e.x'', pq_signing_key = \<lambda>_. True\<rparr>"

definition sample_poll :: poll_row where
  "sample_poll = \<lparr>po_id = 7, po_account = 1, po_status = 3, po_expires_at = Some 99, po_options = [''a'', ''b''], po_tallies = [],
     po_multiple = True, po_hide_totals = False, po_votes_count = 0, po_voters_count = None\<rparr>"

definition sample_poll_db :: poll_db where
  "sample_poll_db = \<lparr>pl_polls = [sample_poll], pl_votes = [], pl_people = [], pl_statuses = [], pl_next_poll = 8, pl_next_vote = 0,
     pl_outbox = [], pl_updates = []\<rparr>"

definition sample_voter :: auth where
  "sample_voter = \<lparr>au_account = 2, au_scopes = [''write'']\<rparr>"

lemma every_choice_of_a_form_is_stored_witness:
  "ballots (snd (vote_poll sample_poll_request 7 sample_voter [0, 0, 0] sample_poll_db)) 7 = [(2, 0), (2, 0), (2, 0)] \<and>
   fst (vote_poll sample_poll_request 7 sample_voter [0, 9] sample_poll_db) = Inl (Unprocessable ''Invalid choice index'')"
proof -
  have ok: "require_scope sample_voter ''write:statuses'' = Inr ()" by code_simp
  have valid: "valid_choice sample_poll 0" "\<not> valid_choice sample_poll 9" "au_account sample_voter = 2" by code_simp+
  have none: "ballots sample_poll_db 7 = []" by code_simp
  note stored = every_choice_of_a_form_is_stored [of sample_poll_request sample_voter 7 sample_poll_db sample_poll]
  have hyp: "\<And>c. \<not> pq_down sample_poll_request c" "find (\<lambda>p. po_id p = 7) (pl_polls sample_poll_db) = Some sample_poll"
    "\<not> expired (pq_now sample_poll_request) sample_poll" "po_multiple sample_poll" "po_account sample_poll \<noteq> au_account sample_voter"
    by (simp_all add: sample_poll_request_def sample_poll_db_def sample_poll_def expired_def sample_voter_def)
  show ?thesis
    using stored [OF hyp(1) ok hyp(2-5), of "[0, 0, 0]"] stored [OF hyp(1) ok hyp(2-5), of "[0, 9]"] none
    by (simp add: valid)
qed

lemma local_polls_add_up_witness:
  "case poll_from_db sample_poll_request (hd (pl_polls (snd (create_poll sample_poll_request 3 1
      \<lparr>pf_options = [''a'', ''b''], pf_expires_in = Some 300, pf_multiple = None, pf_hide_totals = None\<rparr> (sample_poll_db\<lparr>pl_polls := []\<rparr>))))) (Some 2)
      (snd (create_poll sample_poll_request 3 1 \<lparr>pf_options = [''a'', ''b''], pf_expires_in = Some 300, pf_multiple = None, pf_hide_totals = None\<rparr>
        (sample_poll_db\<lparr>pl_polls := []\<rparr>))) of
     Inr view \<Rightarrow> sum_list (map (the \<circ> snd) (pv_options view)) = pv_votes_count view | Inl e \<Rightarrow> False"
proof -
  define form where "form = \<lparr>pf_options = [''a'', ''b''], pf_expires_in = Some 300, pf_multiple = None, pf_hide_totals = None\<rparr>"
  define db where "db = snd (create_poll sample_poll_request 3 1 form (sample_poll_db\<lparr>pl_polls := []\<rparr>))"
  have run: "polling (\<lambda>_. True) db"
    unfolding db_def by (rule polling_create, rule polling_start) (simp_all add: sample_poll_db_def)
  have polls: "pl_polls db = [(form_poll sample_poll_request 3 1 form)\<lparr>po_id := 8\<rparr>]"
    by (simp add: db_def create_poll_def sample_poll_request_def insert_poll_def link_poll_def sample_poll_db_def Let_def)
  then obtain view where view: "poll_from_db sample_poll_request (hd (pl_polls db)) (Some 2) db = Inr view"
    by (simp add: poll_from_db_def sample_poll_request_def Let_def)
  have "\<not> po_hide_totals (hd (pl_polls db))" by (simp add: polls form_poll_def form_def is_set_def)
  then have "sum_list (map (the \<circ> snd) (pv_options view)) = pv_votes_count view"
    using local_polls_add_up [OF run _ _ view] polls by simp
  then show ?thesis using view unfolding form_def [symmetric] db_def [symmetric] by simp
qed

end
