(* ===== verification/PollExpiry.thy ===== *)
theory PollExpiry
  imports PollTheorems "HOL-Library.Sublist"
begin

text \<open>
  What others are told of a poll: the Question of \<^verbatim>\<open>src/api/ap/note.rs\<close>, and the notifier of ended
  polls of \<^verbatim>\<open>src/background.rs\<close>, with the proof of what it
  tells: each ended poll, once unless a pass fails.
\<close>

section \<open>The Question other servers are sent\<close>

text \<open>\<open>iso8601\<close> writes a time (crate \<^verbatim>\<open>chrono\<close>). Here a poll is over at its very end, not only after it.\<close>

definition note_expired :: "int \<Rightarrow> poll_row \<Rightarrow> bool" where
  "note_expired now poll = (case po_expires_at poll of None \<Rightarrow> False | Some e \<Rightarrow> e \<le> now)"

definition question_members :: "poll_request \<Rightarrow> (int \<Rightarrow> string) \<Rightarrow> poll_row \<Rightarrow> poll_db \<Rightarrow> (string \<times> json) list" where
  "question_members rq iso8601 poll db =
     (let over = note_expired (pq_now rq) poll; show_totals = (over \<or> \<not> po_hide_totals poll);
          options = map (\<lambda>(k, option). JObject [(''type'', JString ''Note''), (''name'', JString option),
              (''replies'', JObject [(''type'', JString ''Collection''),
                 (''totalItems'', if show_totals then JInt (count_for (po_id poll) (int k) db) else JNull)])])
            (enumerate 0 (po_options poll))
      in [(''type'', JString ''Question''), (if po_multiple poll then ''anyOf'' else ''oneOf'', JList options)] @
         (case po_expires_at poll of None \<Rightarrow> [] | Some e \<Rightarrow>
            (''endTime'', JString (iso8601 e)) # (if over then [(''closed'', JString (iso8601 e))] else [])) @
         (case po_voters_count poll of None \<Rightarrow> [] | Some n \<Rightarrow> [(''votersCount'', JInt n)]))"

definition question_note ::
  "poll_request \<Rightarrow> (int \<Rightarrow> string) \<Rightarrow> int \<Rightarrow> (string \<times> json) list \<Rightarrow> poll_db \<Rightarrow> app_error + (string \<times> json) list" where
  "question_note rq iso8601 status_id note db =
     (if pq_down rq PoFetch then failed_query
      else case find (\<lambda>p. po_status p = status_id) (pl_polls db) of None \<Rightarrow> Inr note | Some poll \<Rightarrow>
        if pq_down rq PoCounts then failed_query
        else Inr (fold (\<lambda>(k, v). jinsert k v) (question_members rq iso8601 poll db) note))"

section \<open>The notifier\<close>

record poll_expiry_mark =
  pm_expires_at :: int
  pm_id :: int

definition POLL_EXPIRY_BATCH :: nat where "POLL_EXPIRY_BATCH = 100"

definition end_key :: "poll_row \<Rightarrow> int \<times> int" where
  "end_key p = (the (po_expires_at p), po_id p)"

definition mark_key :: "poll_expiry_mark \<Rightarrow> int \<times> int" where
  "mark_key m = (pm_expires_at m, pm_id m)"

definition ends_after :: "poll_expiry_mark \<Rightarrow> poll_row \<Rightarrow> bool" where
  "ends_after m p \<longleftrightarrow> po_expires_at p \<noteq> None \<and> mark_key m < end_key p"

definition ended_polls :: "int \<Rightarrow> poll_expiry_mark \<Rightarrow> poll_db \<Rightarrow> poll_row list" where
  "ended_polls now m db =
     take POLL_EXPIRY_BATCH (sort_key end_key (filter (\<lambda>p. ends_after m p \<and> the (po_expires_at p) \<le> now) (pl_polls db)))"

datatype poll_notice = PollUpdate int | PollEnded int int int

text \<open>Stops at the first query that fails; \<open>False\<close> then.\<close>

fun notify_polls :: "poll_request \<Rightarrow> nat \<Rightarrow> poll_row list \<Rightarrow> poll_db \<Rightarrow> bool \<times> poll_notice list" where
  "notify_polls rq k [] db = (True, [])"
| "notify_polls rq k (poll # polls) db =
     (if pq_down rq (PoVotersOf k) then (False, [PollUpdate (po_status poll)])
      else let recipients = remdups_adj (po_account poll # voters_on (po_id poll) db);
               (completed, notices) = notify_polls rq (Suc k) polls db
        in (completed, PollUpdate (po_status poll) # map (\<lambda>r. PollEnded r (po_account poll) (po_status poll)) recipients @ notices))"

definition first_mark :: "int \<Rightarrow> poll_expiry_mark" where
  "first_mark now = \<lparr>pm_expires_at = now - seconds (2 * 60), pm_id = 2 ^ 63 - 1\<rparr>"

definition notify_polls_expired_after ::
  "poll_request \<Rightarrow> poll_expiry_mark option \<Rightarrow> poll_db \<Rightarrow> (app_error + poll_expiry_mark \<times> nat) \<times> poll_notice list" where
  "notify_polls_expired_after rq mark db =
     (if pq_down rq PoExpired then (failed_query, [])
      else let now = pq_now rq;
               mark = (case mark of None \<Rightarrow> first_mark now | Some m \<Rightarrow> m);
               ended = ended_polls now mark db;
               handled = length ended;
               reached = (if ended \<noteq> [] \<and> handled = POLL_EXPIRY_BATCH
                 then \<lparr>pm_expires_at = the (po_expires_at (last ended)), pm_id = po_id (last ended)\<rparr>
                 else \<lparr>pm_expires_at = now, pm_id = 2 ^ 63 - 1\<rparr>)
        in case notify_polls rq 0 ended db of
          (True, notices) \<Rightarrow> (Inr (reached, handled), notices)
        | (False, notices) \<Rightarrow> (failed_query, notices))"

text \<open>
  One pass of \<^verbatim>\<open>run_poll_expiry\<close>: a failing one keeps the mark. The second part is how many polls it
  handled.
\<close>

definition run_poll_expiry ::
  "poll_request \<Rightarrow> poll_expiry_mark option \<Rightarrow> poll_db \<Rightarrow> poll_expiry_mark option \<times> nat option \<times> poll_notice list" where
  "run_poll_expiry rq mark db =
     (case notify_polls_expired_after rq mark db of
        (Inr (reached, handled), notices) \<Rightarrow> (Some reached, Some handled, notices)
      | (Inl e, notices) \<Rightarrow> (mark, None, notices))"

section \<open>What the notifier tells\<close>

text \<open>
  Passes from the mark \<open>m0\<close> on, while the polls stay as they are and the clock does not go back: how
  many failed, the mark that was reached, and everything that was told. (A pass without a mark that
  goes through is one from \<open>first_mark\<close>.)
\<close>

inductive expiry_run :: "poll_db \<Rightarrow> poll_expiry_mark \<Rightarrow> nat \<Rightarrow> poll_expiry_mark \<Rightarrow> poll_notice list \<Rightarrow> bool" for db m0 where
  expiry_begin: "expiry_run db m0 0 m0 []"
| expiry_pass: "expiry_run db m0 failures m sent \<Longrightarrow> pm_expires_at m \<le> pq_now rq \<Longrightarrow>
    run_poll_expiry rq (Some m) db = (Some m', handled, notices) \<Longrightarrow>
    expiry_run db m0 (case handled of None \<Rightarrow> Suc failures | Some _ \<Rightarrow> failures) m' (sent @ notices)"

text \<open>What is told of a poll: an Update, and a notice to its author and to its voters.\<close>

definition poll_notices :: "poll_db \<Rightarrow> poll_row \<Rightarrow> poll_notice list" where
  "poll_notices db p = PollUpdate (po_status p) #
     map (\<lambda>r. PollEnded r (po_account p) (po_status p)) (remdups_adj (po_account p # voters_on (po_id p) db))"

definition told_of :: "poll_db \<Rightarrow> poll_row list \<Rightarrow> poll_notice list" where
  "told_of db ps = concat (map (poll_notices db) ps)"

text \<open>The polls that ended after one mark and up to another, oldest first.\<close>

definition ended_between :: "poll_db \<Rightarrow> poll_expiry_mark \<Rightarrow> poll_expiry_mark \<Rightarrow> poll_row list" where
  "ended_between db m0 m = sort_key end_key (filter (\<lambda>p. ends_after m0 p \<and> \<not> ends_after m p) (pl_polls db))"

lemma told_of_append: "told_of db (ps @ qs) = told_of db ps @ told_of db qs"
  by (simp add: told_of_def)

lemma notify_polls_told:
  "notify_polls rq k polls db = (True, notices) \<Longrightarrow> notices = told_of db polls"
  by (induction polls arbitrary: k notices) (auto simp: told_of_def poll_notices_def split: if_splits prod.splits)

lemma notify_polls_stops:
  "notify_polls rq k polls db = (False, notices) \<Longrightarrow>
   \<exists>ps p rest. polls = ps @ p # rest \<and> notices = told_of db ps @ [PollUpdate (po_status p)]"
proof (induction polls arbitrary: k notices)
  case (Cons q polls)
  show ?case
  proof (cases "pq_down rq (PoVotersOf k)")
    case True
    then show ?thesis using Cons.prems by (intro exI [of _ "[]"]) (auto simp: told_of_def)
  next
    case False
    then obtain more where more: "notify_polls rq (Suc k) polls db = (False, more)" "notices = poll_notices db q @ more"
      using Cons.prems by (auto simp: poll_notices_def Let_def split: prod.splits)
    then obtain ps p rest where "polls = ps @ p # rest" "more = told_of db ps @ [PollUpdate (po_status p)]"
      using Cons.IH by blast
    then show ?thesis using more(2) by (intro exI [of _ "q # ps"]) (auto simp: told_of_def)
  qed
qed simp

text \<open>The first of a list sorted by distinct keys are those up to the last of them.\<close>

lemma take_sorted:
  assumes "sorted (map f xs)" "distinct (map f xs)" "take n xs \<noteq> []"
  shows "set (take n xs) = {x \<in> set xs. f x \<le> f (last (take n xs))}"
proof -
  have first: "f x \<le> f (last (take n xs))" if "x \<in> set (take n xs)" for x
  proof -
    have "sorted (map f (butlast (take n xs) @ [last (take n xs)]))"
      using assms(1,3) by (metis append_butlast_last_id sorted_wrt_take take_map)
    moreover have "x \<in> set (butlast (take n xs) @ [last (take n xs)])" using that assms(3) by simp
    ultimately show ?thesis by (auto simp: sorted_append)
  qed
  have rest: "f (last (take n xs)) < f x" if "x \<in> set (drop n xs)" for x
  proof -
    have "sorted (map f (take n xs) @ map f (drop n xs))" "distinct (map f (take n xs) @ map f (drop n xs))"
      using assms(1,2) by (simp_all add: map_append [symmetric] del: map_append)
    then have "f (last (take n xs)) \<le> f x" "f (last (take n xs)) \<noteq> f x"
      using that last_in_set [OF assms(3)] by (force simp: sorted_append)+
    then show ?thesis by simp
  qed
  have "x \<in> set xs \<Longrightarrow> x \<in> set (take n xs) \<or> x \<in> set (drop n xs)" for x by (metis append_take_drop_id Un_iff set_append)
  then show ?thesis using first rest by (auto dest: in_set_takeD) (meson linorder_not_le)
qed

lemma keys_distinct: "distinct (map po_id ps) \<Longrightarrow> distinct (map end_key ps)"
  by (auto simp: distinct_map inj_on_def end_key_def)

lemma ended_polls_facts:
  assumes "distinct (map po_id (pl_polls db))"
  shows "sorted (map end_key (ended_polls now m db))" "distinct (map end_key (ended_polls now m db))"
    and "p \<in> set (ended_polls now m db) \<Longrightarrow> p \<in> set (pl_polls db) \<and> ends_after m p \<and> the (po_expires_at p) \<le> now"
proof -
  show "sorted (map end_key (ended_polls now m db))"
    unfolding ended_polls_def take_map [symmetric] by (rule sorted_wrt_take, rule sorted_sort_key)
  show "distinct (map end_key (ended_polls now m db))"
    unfolding ended_polls_def take_map [symmetric]
    using keys_distinct [OF assms] by (intro distinct_take) (auto simp: distinct_map inj_on_def)
  show "p \<in> set (ended_polls now m db) \<Longrightarrow> p \<in> set (pl_polls db) \<and> ends_after m p \<and> the (po_expires_at p) \<le> now"
    unfolding ended_polls_def by (auto dest: in_set_takeD)
qed

lemma pass_reaches:
  assumes "distinct (map po_id (pl_polls db))" "\<And>p. p \<in> set (pl_polls db) \<Longrightarrow> po_id p < 2 ^ 63"
    and "pm_expires_at m \<le> pq_now rq" "pm_id m < 2 ^ 63"
    and pass: "run_poll_expiry rq (Some m) db = (Some reached, Some n, notices)"
  shows "notices = told_of db (ended_polls (pq_now rq) m db) \<and>
    set (ended_polls (pq_now rq) m db) = {p \<in> set (pl_polls db). ends_after m p \<and> \<not> ends_after reached p} \<and>
    mark_key m \<le> mark_key reached \<and> pm_id reached < 2 ^ 63 \<and> n = length (ended_polls (pq_now rq) m db) \<and>
    (n < POLL_EXPIRY_BATCH \<longrightarrow> reached = \<lparr>pm_expires_at = pq_now rq, pm_id = 2 ^ 63 - 1\<rparr>)"
proof -
  let ?E = "ended_polls (pq_now rq) m db"
  have run: "notify_polls_expired_after rq (Some m) db = (Inr (reached, n), notices)"
    using pass by (auto simp: run_poll_expiry_def split: prod.splits sum.splits)
  then have told: "notices = told_of db ?E"
    by (auto simp: notify_polls_expired_after_def failed_query_def Let_def split: if_splits prod.splits bool.splits
        dest: notify_polls_told)
  define S where "S = sort_key end_key (filter (\<lambda>p. ends_after m p \<and> the (po_expires_at p) \<le> pq_now rq) (pl_polls db))"
  have E: "?E = take POLL_EXPIRY_BATCH S" by (simp add: ended_polls_def S_def)
  have S: "sorted (map end_key S)" "distinct (map end_key S)"
    "set S = {p \<in> set (pl_polls db). ends_after m p \<and> the (po_expires_at p) \<le> pq_now rq}"
    using keys_distinct [OF assms(1)] by (auto simp: S_def distinct_map inj_on_def)
  have n: "n = length ?E" and reached: "reached = (if ?E \<noteq> [] \<and> length ?E = POLL_EXPIRY_BATCH
      then \<lparr>pm_expires_at = the (po_expires_at (last ?E)), pm_id = po_id (last ?E)\<rparr>
      else \<lparr>pm_expires_at = pq_now rq, pm_id = 2 ^ 63 - 1\<rparr>)"
    using run by (auto simp: notify_polls_expired_after_def failed_query_def Let_def split: if_splits prod.splits bool.splits)
  show ?thesis
  proof (cases "?E \<noteq> [] \<and> length ?E = POLL_EXPIRY_BATCH")
    case True
    have key: "mark_key reached = end_key (last ?E)" using True reached by (simp add: mark_key_def end_key_def)
    have last: "last ?E \<in> set (pl_polls db)" "ends_after m (last ?E)" "the (po_expires_at (last ?E)) \<le> pq_now rq"
      using ended_polls_facts(3) [OF assms(1) last_in_set [OF True [THEN conjunct1]]] by simp_all
    have "set ?E = {p \<in> set S. end_key p \<le> end_key (last ?E)}"
      using take_sorted [OF S(1,2), of POLL_EXPIRY_BATCH] True by (simp add: E)
    also have "\<dots> = {p \<in> set (pl_polls db). ends_after m p \<and> \<not> ends_after reached p}"
      using last(3) by (auto simp: S(3) ends_after_def key not_less) (auto simp: end_key_def less_eq_prod_def)
    finally have "set ?E = {p \<in> set (pl_polls db). ends_after m p \<and> \<not> ends_after reached p}" .
    moreover have "mark_key m \<le> mark_key reached" using last(2) key by (simp add: ends_after_def less_imp_le)
    moreover have "pm_id reached < 2 ^ 63" using assms(2) [OF last(1)] True reached by simp
    ultimately show ?thesis using told n True by simp
  next
    case False
    have r: "reached = \<lparr>pm_expires_at = pq_now rq, pm_id = 2 ^ 63 - 1\<rparr>" using reached unfolding if_not_P [OF False] .
    have "?E = S" using False E by (cases "POLL_EXPIRY_BATCH \<le> length S") (auto simp: POLL_EXPIRY_BATCH_def min_def split: if_splits)
    moreover have "\<not> ends_after reached p \<longleftrightarrow> the (po_expires_at p) \<le> pq_now rq" if "p \<in> set (pl_polls db)" "po_expires_at p \<noteq> None" for p
      using assms(2) [OF that(1)] that(2) by (auto simp: ends_after_def r mark_key_def end_key_def)
    ultimately have "set ?E = {p \<in> set (pl_polls db). ends_after m p \<and> \<not> ends_after reached p}"
      using S(3) by (auto simp: ends_after_def)
    moreover have "mark_key m \<le> mark_key reached" using assms(3,4) by (auto simp: r mark_key_def less_eq_prod_def)
    ultimately show ?thesis using told n r by simp
  qed
qed

lemma ended_between_facts:
  assumes "distinct (map po_id (pl_polls db))"
  shows "sorted (map end_key (ended_between db m0 m))" "distinct (map end_key (ended_between db m0 m))"
    and "set (ended_between db m0 m) = {p \<in> set (pl_polls db). ends_after m0 p \<and> \<not> ends_after m p}"
  using keys_distinct [OF assms] by (auto simp: ended_between_def distinct_map inj_on_def)

text \<open>A list is \<open>ended_between\<close> when it has its polls in their order.\<close>

lemma ended_between_eq:
  assumes "distinct (map po_id (pl_polls db))" "sorted (map end_key ps)" "distinct (map end_key ps)"
    and "set ps = {p \<in> set (pl_polls db). ends_after m0 p \<and> \<not> ends_after m p}"
  shows "ended_between db m0 m = ps"
  using ended_between_facts [OF assms(1), of m0 m] assms(2-4) keys_distinct [OF assms(1)]
  by (intro map_sorted_distinct_set_unique [of end_key]) (auto simp: distinct_map inj_on_def)

text \<open>What lies between two marks is what lies up to a mark between them, and then the rest.\<close>

lemma ended_between_append:
  assumes "distinct (map po_id (pl_polls db))" "mark_key m0 \<le> mark_key m" "mark_key m \<le> mark_key m'"
  shows "ended_between db m0 m' = ended_between db m0 m @ ended_between db m m'"
proof (rule ended_between_eq [OF assms(1)])
  note low = ended_between_facts [OF assms(1), of m0 m] and high = ended_between_facts [OF assms(1), of m m']
  have across: "end_key p < end_key q" if "p \<in> set (ended_between db m0 m)" "q \<in> set (ended_between db m m')" for p q
  proof -
    have "end_key p \<le> mark_key m" using that(1) low(3) by (auto simp: ends_after_def not_less)
    moreover have "mark_key m < end_key q" using that(2) high(3) by (auto simp: ends_after_def)
    ultimately show ?thesis by (rule order.strict_trans1)
  qed
  show "sorted (map end_key (ended_between db m0 m @ ended_between db m m'))"
    using low(1) high(1) across by (auto simp: sorted_append less_imp_le)
  have "end_key p \<noteq> end_key q" if "p \<in> set (ended_between db m0 m)" "q \<in> set (ended_between db m m')" for p q
    using across [OF that] by simp
  then have "set (map end_key (ended_between db m0 m)) \<inter> set (map end_key (ended_between db m m')) = {}"
    unfolding set_map by blast
  then show "distinct (map end_key (ended_between db m0 m @ ended_between db m m'))"
    using low(2) high(2) by (simp only: map_append distinct_append simp_thms)
  show "set (ended_between db m0 m @ ended_between db m m') = {p \<in> set (pl_polls db). ends_after m0 p \<and> \<not> ends_after m' p}"
    using assms(2,3) low(3) high(3) by (auto simp: ends_after_def)
qed

text \<open>A pass that goes through tells of what lies between the marks; a failing one of some of it.\<close>

lemma pass_tells:
  assumes "distinct (map po_id (pl_polls db))" "\<And>p. p \<in> set (pl_polls db) \<Longrightarrow> po_id p < 2 ^ 63"
    and "pm_expires_at m \<le> pq_now rq" "pm_id m < 2 ^ 63"
    and "run_poll_expiry rq (Some m) db = (Some reached, Some n, notices)"
  shows "notices = told_of db (ended_between db m reached) \<and> mark_key m \<le> mark_key reached \<and> pm_id reached < 2 ^ 63"
proof -
  note pass = pass_reaches [OF assms] and E = ended_polls_facts [OF assms(1), where now = "pq_now rq" and m = m]
  have "ended_between db m reached = ended_polls (pq_now rq) m db"
    by (rule ended_between_eq [OF assms(1) E(1,2)]) (simp add: pass)
  then show ?thesis using pass by simp
qed

lemma failing_pass_tells:
  assumes "run_poll_expiry rq (Some m) db = (m', None, notices)"
  shows "m' = Some m \<and> (notices = [] \<or>
    (\<exists>ps p rest. ended_polls (pq_now rq) m db = ps @ p # rest \<and> notices = told_of db ps @ [PollUpdate (po_status p)]))"
proof (cases "pq_down rq PoExpired")
  case True
  then show ?thesis using assms by (simp add: run_poll_expiry_def notify_polls_expired_after_def failed_query_def)
next
  case False
  obtain through told where run: "notify_polls rq 0 (ended_polls (pq_now rq) m db) db = (through, told)" by fastforce
  then have stops: "\<not> through" "m' = Some m" "notices = told" using assms False
    by (cases through, simp_all add: run_poll_expiry_def notify_polls_expired_after_def failed_query_def Let_def)+
  have "notify_polls rq 0 (ended_polls (pq_now rq) m db) db = (False, notices)" using run stops by simp
  from notify_polls_stops [OF this] show ?thesis using stops(2) by blast
qed

lemma told_of_iff: "x \<in> set (told_of db ps) \<longleftrightarrow> (\<exists>p \<in> set ps. x \<in> set (poll_notices db p))"
  by (auto simp: told_of_def)

lemma expiry_run_told:
  assumes "distinct (map po_id (pl_polls db))" "\<And>p. p \<in> set (pl_polls db) \<Longrightarrow> po_id p < 2 ^ 63" "pm_id m0 < 2 ^ 63"
  shows "expiry_run db m0 failures m sent \<Longrightarrow>
    mark_key m0 \<le> mark_key m \<and> pm_id m < 2 ^ 63 \<and>
    (failures = 0 \<longrightarrow> sent = told_of db (ended_between db m0 m)) \<and>
    subseq (told_of db (ended_between db m0 m)) sent \<and>
    (\<forall>x \<in> set sent. \<exists>p \<in> set (pl_polls db). ends_after m0 p \<and> x \<in> set (poll_notices db p))"
proof (induction rule: expiry_run.induct)
  case expiry_begin
  have "ended_between db m0 m0 = []" by (simp add: ended_between_def filter_empty_conv)
  then show ?case using assms(3) by (simp add: told_of_def)
next
  case (expiry_pass failures m sent rq m' handled notices)
  note before = expiry_pass.IH
  show ?case
  proof (cases handled)
    case None
    then have pass: "run_poll_expiry rq (Some m) db = (Some m', None, notices)" using expiry_pass.hyps(3) by simp
    have "m' = m" using failing_pass_tells [OF pass] by simp
    moreover have "\<exists>p \<in> set (pl_polls db). ends_after m0 p \<and> x \<in> set (poll_notices db p)" if x: "x \<in> set notices" for x
    proof -
      obtain ps p rest where E: "ended_polls (pq_now rq) m db = ps @ p # rest" "notices = told_of db ps @ [PollUpdate (po_status p)]"
        using failing_pass_tells [OF pass] x by auto
      then obtain q where q: "q \<in> set (ended_polls (pq_now rq) m db)" "x \<in> set (poll_notices db q)"
        using x by (auto simp: told_of_iff poll_notices_def)
      then show ?thesis
        using ended_polls_facts(3) [OF assms(1) q(1)] before by (auto simp: ends_after_def)
    qed
    ultimately show ?thesis using before None by (auto intro: subseq_rev_drop_many)
  next
    case (Some n)
    then have pass: "run_poll_expiry rq (Some m) db = (Some m', Some n, notices)" using expiry_pass.hyps(3) by simp
    note told = pass_tells [OF assms(1,2) expiry_pass.hyps(2) before [THEN conjunct2, THEN conjunct1] pass]
    have all: "told_of db (ended_between db m0 m') = told_of db (ended_between db m0 m) @ notices"
      using ended_between_append [OF assms(1), of m0 m m'] before told by (simp add: told_of_append)
    have "\<exists>p \<in> set (pl_polls db). ends_after m0 p \<and> x \<in> set (poll_notices db p)" if "x \<in> set notices" for x
      using that told ended_between_facts(3) [OF assms(1), of m m'] before by (auto simp: told_of_iff ends_after_def)
    then show ?thesis using before told Some by (auto simp: all list_emb_append_mono)
  qed
qed

text \<open>
  C36: While the polls stay as they are, the notifier, through any passes from a first mark on, tells
  of the polls that ended since then and of no other: when no pass fails, what it told is exactly
  the Update of each of them and the notice to its author and its voters, once each and in the order
  the polls ended, however many end at the same instant and however full the batches are; when
  passes fail, all of that is told in this order too, with repetitions in between (a failing pass
  keeps the mark). And after a pass that goes through and does not fill its batch it has told of
  every poll that ended by then.
\<close>

theorem ended_polls_are_told:
  assumes "distinct (map po_id (pl_polls db))" "\<And>p. p \<in> set (pl_polls db) \<Longrightarrow> po_id p < 2 ^ 63" "pm_id m0 < 2 ^ 63"
    and "expiry_run db m0 failures m sent" "pm_expires_at m \<le> pq_now rq"
    and "run_poll_expiry rq (Some m) db = (Some m', Some n, notices)"
  shows "(failures = 0 \<longrightarrow> sent @ notices = told_of db (ended_between db m0 m')) \<and>
    subseq (told_of db (ended_between db m0 m')) (sent @ notices) \<and>
    (\<forall>x \<in> set (sent @ notices). \<exists>p \<in> set (pl_polls db). ends_after m0 p \<and> x \<in> set (poll_notices db p)) \<and>
    (n < POLL_EXPIRY_BATCH \<longrightarrow> ended_between db m0 m' =
       sort_key end_key (filter (\<lambda>p. ends_after m0 p \<and> the (po_expires_at p) \<le> pq_now rq) (pl_polls db)))"
proof -
  have id: "pm_id m < 2 ^ 63" using expiry_run_told [OF assms(1-4)] by simp
  note run = expiry_run_told [OF assms(1-3) expiry_pass [OF assms(4-6)]]
  have "ended_between db m0 m' =
      sort_key end_key (filter (\<lambda>p. ends_after m0 p \<and> the (po_expires_at p) \<le> pq_now rq) (pl_polls db))" if "n < POLL_EXPIRY_BATCH"
  proof -
    have m': "m' = \<lparr>pm_expires_at = pq_now rq, pm_id = 2 ^ 63 - 1\<rparr>" using pass_reaches [OF assms(1,2,5) id assms(6)] that by simp
    have "\<not> ends_after m' p \<longleftrightarrow> the (po_expires_at p) \<le> pq_now rq" if "p \<in> set (pl_polls db)" "ends_after m0 p" for p
      using assms(2) [OF that(1)] that(2) by (auto simp: ends_after_def m' mark_key_def end_key_def)
    then have "filter (\<lambda>p. ends_after m0 p \<and> \<not> ends_after m' p) (pl_polls db) =
        filter (\<lambda>p. ends_after m0 p \<and> the (po_expires_at p) \<le> pq_now rq) (pl_polls db)"
      by (intro filter_cong [OF refl]) (auto simp: ends_after_def)
    then show ?thesis by (simp only: ended_between_def)
  qed
  then show ?thesis using run by (simp only: option.case implies_True_equals triv_forall_equality True_implies_equals) blast
qed

text \<open>
  A pass in which the query of the voters of a later poll fails has told of the polls before it, and
  the pass after it tells of them again.
\<close>

theorem failing_pass_is_told_again:
  assumes "distinct (map po_id (pl_polls db))" "\<And>p. p \<in> set (pl_polls db) \<Longrightarrow> po_id p < 2 ^ 63" "pm_id m < 2 ^ 63"
    and "pm_expires_at m \<le> pq_now rq" "notify_polls rq 0 (ended_polls (pq_now rq) m db) db = (False, notices)"
    and "\<not> pq_down rq PoExpired" "\<forall>q. \<not> pq_down rq' q" "pq_now rq' = pq_now rq"
  obtains ps p rest where "ended_polls (pq_now rq) m db = ps @ p # rest"
    and "run_poll_expiry rq (Some m) db = (Some m, None, told_of db ps @ [PollUpdate (po_status p)])"
    and "snd (snd (run_poll_expiry rq' (Some m) db)) = told_of db (ps @ p # rest)"
proof -
  have up: "notify_polls rq' k polls db = (True, told_of db polls)" for k polls
    using assms(7) by (induction polls arbitrary: k) (simp_all add: told_of_def poll_notices_def)
  have "run_poll_expiry rq (Some m) db = (Some m, None, notices)"
    using assms(5,6) by (simp add: run_poll_expiry_def notify_polls_expired_after_def Let_def failed_query_def)
  moreover obtain ps p rest where "ended_polls (pq_now rq) m db = ps @ p # rest" "notices = told_of db ps @ [PollUpdate (po_status p)]"
    using notify_polls_stops [OF assms(5)] by blast
  moreover have "snd (snd (run_poll_expiry rq' (Some m) db)) = told_of db (ended_polls (pq_now rq) m db)"
    using assms(7,8) by (simp add: run_poll_expiry_def notify_polls_expired_after_def Let_def up)
  ultimately show ?thesis by (intro that) simp_all
qed

text \<open>Two polls, one of which has ended.\<close>

definition sample_ended_db :: poll_db where
  "sample_ended_db = sample_poll_db\<lparr>pl_polls := [sample_poll\<lparr>po_expires_at := Some 5\<rparr>, sample_poll\<lparr>po_id := 9\<rparr>]\<rparr>"

lemma ended_polls_are_told_witness:
  "fst (snd (run_poll_expiry sample_poll_request (Some (first_mark 10)) sample_ended_db)) = Some 1 \<and>
   snd (snd (run_poll_expiry sample_poll_request (Some (first_mark 10)) sample_ended_db)) =
     told_of sample_ended_db [sample_poll\<lparr>po_expires_at := Some 5\<rparr>]"
proof -
  let ?m = "\<lparr>pm_expires_at = 10, pm_id = 2 ^ 63 - 1\<rparr>"
  obtain notices where pass: "run_poll_expiry sample_poll_request (Some (first_mark 10)) sample_ended_db = (Some ?m, Some 1, notices)"
  proof
    have "ended_polls 10 (first_mark 10) sample_ended_db = [sample_poll\<lparr>po_expires_at := Some 5\<rparr>]" by code_simp
    then show "run_poll_expiry sample_poll_request (Some (first_mark 10)) sample_ended_db = (Some ?m, Some 1, snd (notify_polls
        sample_poll_request 0 [sample_poll\<lparr>po_expires_at := Some 5\<rparr>] sample_ended_db))"
      by (simp add: run_poll_expiry_def notify_polls_expired_after_def sample_poll_request_def POLL_EXPIRY_BATCH_def split: prod.split)
  qed
  have hyp: "distinct (map po_id (pl_polls sample_ended_db))" "p \<in> set (pl_polls sample_ended_db) \<Longrightarrow> po_id p < 2 ^ 63"
    "pm_id (first_mark 10) < 2 ^ 63" "pm_expires_at (first_mark 10) \<le> pq_now sample_poll_request" for p
    by (auto simp: sample_ended_db_def sample_poll_db_def sample_poll_def first_mark_def sample_poll_request_def seconds_def)
  have "[] @ notices = told_of sample_ended_db (ended_between sample_ended_db (first_mark 10) ?m)"
    using ended_polls_are_told [OF hyp(1-3) expiry_begin hyp(4) pass] by simp
  moreover have "ended_between sample_ended_db (first_mark 10) ?m = [sample_poll\<lparr>po_expires_at := Some 5\<rparr>]" by code_simp
  ultimately show ?thesis using pass by simp
qed

end
