(* ===== verification/RemoteIp.thy ===== *)
theory RemoteIp
  imports Database RustText "HOL-Library.Word"
begin

unbundle bit_operations_syntax

text \<open>
  \<^verbatim>\<open>src/remote_ip.rs\<close>: whose request it is, told from its peer and the \<^verbatim>\<open>X-Forwarded-For\<close> header, and
  which addresses are blocked. Addresses are words; they are read as \<^verbatim>\<open>IpAddr::from_str\<close> of Rust's
  standard library reads them.
\<close>

datatype ip_addr = V4 "32 word" | V6 "128 word"

section \<open>Reading an address\<close>

definition to_digit :: "nat \<Rightarrow> char \<Rightarrow> nat option" where
  "to_digit radix c =
     (let n = code c;
          d = (if 48 \<le> n \<and> n \<le> 57 then Some (n - 48)
               else if 97 \<le> n \<and> n \<le> 122 then Some (n - 87) else if 65 \<le> n \<and> n \<le> 90 then Some (n - 55) else None)
      in case d of Some v \<Rightarrow> if v < radix then Some v else None | None \<Rightarrow> None)"

definition digits_value :: "nat \<Rightarrow> string \<Rightarrow> nat" where
  "digits_value radix s = foldl (\<lambda>n c. n * radix + the (to_digit radix c)) 0 s"

text \<open>A number of at most \<open>max_digits\<close> digits and below \<open>bound\<close>, and what follows it.\<close>

definition read_number :: "nat \<Rightarrow> nat \<Rightarrow> bool \<Rightarrow> nat \<Rightarrow> string \<Rightarrow> (nat \<times> string) option" where
  "read_number radix max_digits allow_zero_prefix bound s =
     (let digits = takeWhile (\<lambda>c. to_digit radix c \<noteq> None) s; rest = dropWhile (\<lambda>c. to_digit radix c \<noteq> None) s in
      if digits = [] \<or> length digits > max_digits \<or> digits_value radix digits \<ge> bound \<or>
         \<not> allow_zero_prefix \<and> hd digits = CHR ''0'' \<and> length digits > 1 then None
      else Some (digits_value radix digits, rest))"

definition read_given_char :: "char \<Rightarrow> string \<Rightarrow> string option" where
  "read_given_char c s = (if s \<noteq> [] \<and> hd s = c then Some (drop 1 s) else None)"

definition read_separator :: "char \<Rightarrow> nat \<Rightarrow> (string \<Rightarrow> 'a option) \<Rightarrow> string \<Rightarrow> 'a option" where
  "read_separator sep i inner s = (if i > 0 then Option.bind (read_given_char sep s) inner else inner s)"

fun read_octets :: "nat \<Rightarrow> nat \<Rightarrow> string \<Rightarrow> (nat list \<times> string) option" where
  "read_octets 0 i s = Some ([], s)"
| "read_octets (Suc n) i s =
     (case read_separator (CHR ''.'') i (read_number 10 3 False 256) s of None \<Rightarrow> None | Some (b, rest) \<Rightarrow>
        (case read_octets n (Suc i) rest of None \<Rightarrow> None | Some (bs, rest') \<Rightarrow> Some (b # bs, rest')))"

definition read_ipv4_addr :: "string \<Rightarrow> (nat list \<times> string) option" where
  "read_ipv4_addr s = read_octets 4 0 s"

text \<open>\<open>n\<close> groups are left of the limit; whether they ended in an embedded IPv4 address.\<close>

fun read_groups :: "nat \<Rightarrow> nat \<Rightarrow> string \<Rightarrow> nat list \<times> bool \<times> string" where
  "read_groups 0 i s = ([], False, s)"
| "read_groups (Suc n) i s =
     (case (if n > 0 then read_separator (CHR '':'') i read_ipv4_addr s else None) of
        Some (bs, rest) \<Rightarrow> ([bs ! 0 * 256 + bs ! 1, bs ! 2 * 256 + bs ! 3], True, rest)
      | None \<Rightarrow>
          (case read_separator (CHR '':'') i (read_number 16 4 True 65536) s of
             None \<Rightarrow> ([], False, s)
           | Some (g, rest) \<Rightarrow> (case read_groups n (Suc i) rest of (gs, v4, rest') \<Rightarrow> (g # gs, v4, rest'))))"

definition read_ipv6_addr :: "string \<Rightarrow> (nat list \<times> string) option" where
  "read_ipv6_addr s =
     (case read_groups 8 0 s of (head, head_ipv4, rest) \<Rightarrow>
      if length head = 8 then Some (head, rest)
      else if head_ipv4 then None
      else case Option.bind (read_given_char (CHR '':'') rest) (read_given_char (CHR '':'')) of
        None \<Rightarrow> None
      | Some rest' \<Rightarrow>
          (case read_groups (8 - (length head + 1)) 0 rest' of (tail, _, rest'') \<Rightarrow>
           Some (head @ replicate (8 - length head - length tail) 0 @ tail, rest'')))"

definition from_digits :: "nat \<Rightarrow> nat list \<Rightarrow> nat" where
  "from_digits base ds = foldl (\<lambda>n d. n * base + d) 0 ds"

definition parse_ip :: "string \<Rightarrow> ip_addr option" where
  "parse_ip s =
     (case read_ipv4_addr s of
        Some (bs, rest) \<Rightarrow> if rest = [] then Some (V4 (of_nat (from_digits 256 bs))) else None
      | None \<Rightarrow> (case read_ipv6_addr s of
          Some (gs, rest) \<Rightarrow> if rest = [] then Some (V6 (of_nat (from_digits 65536 gs))) else None
        | None \<Rightarrow> None))"

section \<open>Ranges\<close>

record cidr =
  ci_addr :: ip_addr
  ci_prefix :: nat

definition addr_bits :: "ip_addr \<Rightarrow> nat" where
  "addr_bits a = (case a of V4 _ \<Rightarrow> 32 | V6 _ \<Rightarrow> 128)"

definition parse_cidr :: "string \<Rightarrow> cidr option" where
  "parse_cidr s =
     (case split_once (\<lambda>c. c = CHR ''/'') (trimmed s) of
        Some (a, p) \<Rightarrow> Option.bind (parse_ip a) (\<lambda>addr. map_option (\<lambda>n. \<lparr>ci_addr = addr, ci_prefix = min n (addr_bits addr)\<rparr>) (parse_unsigned 8 p))
      | None \<Rightarrow> map_option (\<lambda>addr. \<lparr>ci_addr = addr, ci_prefix = addr_bits addr\<rparr>) (parse_ip (trimmed s)))"

definition to_ipv4_mapped :: "128 word \<Rightarrow> 32 word option" where
  "to_ipv4_mapped a = (if drop_bit 32 a = 0xFFFF then Some (ucast a) else None)"

text \<open>\<^verbatim>\<open>MAX.checked_shl(n).unwrap_or(0)\<close>.\<close>

definition checked_shl_max :: "nat \<Rightarrow> 'a::len word" where
  "checked_shl_max n = (if n < LENGTH('a) then push_bit n (- 1) else 0)"

definition cidr_contains :: "cidr \<Rightarrow> ip_addr \<Rightarrow> bool" where
  "cidr_contains c ip =
     (case (ci_addr c, (case (ci_addr c, ip) of (V4 _, V6 v6) \<Rightarrow> map_option V4 (to_ipv4_mapped v6) | _ \<Rightarrow> Some ip)) of
        (V4 net, Some (V4 a)) \<Rightarrow> (let mask = checked_shl_max (32 - ci_prefix c) in net AND mask = a AND mask)
      | (V6 net, Some (V6 a)) \<Rightarrow> (let mask = checked_shl_max (128 - ci_prefix c) in net AND mask = a AND mask)
      | _ \<Rightarrow> False)"

section \<open>Whose request it is\<close>

definition TRUSTED_PROXIES :: "string list" where
  "TRUSTED_PROXIES = [''127.0.0.0/8'', ''::1/128'', ''fc00::/7'', ''10.0.0.0/8'', ''172.16.0.0/12'', ''192.168.0.0/16'',
     ''169.254.0.0/16'', ''fe80::/10'']"

text \<open>\<open>extra\<close> is \<^verbatim>\<open>TRUSTED_PROXY_IP\<close>.\<close>

definition trusted_proxies :: "string option \<Rightarrow> cidr list" where
  "trusted_proxies extra = List.map_filter parse_cidr TRUSTED_PROXIES @
     (case extra of None \<Rightarrow> [] | Some s \<Rightarrow> List.map_filter parse_cidr (split_by (\<lambda>c. c = CHR '','') s))"

definition trusted :: "string option \<Rightarrow> ip_addr \<Rightarrow> bool" where
  "trusted extra ip = list_ex (\<lambda>c. cidr_contains c ip) (trusted_proxies extra)"

definition forwarded_addresses :: "string \<Rightarrow> ip_addr list" where
  "forwarded_addresses v = List.map_filter (\<lambda>s. parse_ip (trimmed s)) (split_by (\<lambda>c. c = CHR '','') v)"

definition calculate :: "string option \<Rightarrow> ip_addr option \<Rightarrow> string option \<Rightarrow> ip_addr option" where
  "calculate extra peer forwarded_for =
     (let forwarded = (case forwarded_for of None \<Rightarrow> [] | Some v \<Rightarrow> forwarded_addresses v);
          chain = (case peer of None \<Rightarrow> [] | Some p \<Rightarrow> [p]) @ rev forwarded
      in case find (\<lambda>ip. \<not> trusted extra ip) chain of
           Some ip \<Rightarrow> Some ip
         | None \<Rightarrow> if chain = [] then None else Some (last chain))"

text \<open>
  The headers of a request in the order they came, names in lower case. \<open>to_str\<close> is
  \<^verbatim>\<open>HeaderValue::to_str\<close> of the \<^verbatim>\<open>http\<close> crate, whose documentation says that it gives the text when
  the value holds only visible ASCII characters, and an error otherwise.
\<close>

definition layer :: "(string \<Rightarrow> string option) \<Rightarrow> string option \<Rightarrow> ip_addr option \<Rightarrow> (string \<times> string) list \<Rightarrow> ip_addr option" where
  "layer to_str extra peer headers =
     calculate extra peer
       (Option.bind (map_option snd (find (\<lambda>(name, _). name = ''x-forwarded-for'') headers)) to_str)"

section \<open>Blocked addresses\<close>

record ip_block_row =
  ib_range :: cidr
  ib_severity :: int
  ib_expires_at :: "int option"

definition SIGN_UP_REQUIRES_APPROVAL :: int where "SIGN_UP_REQUIRES_APPROVAL = 5000"
definition SIGN_UP_BLOCK :: int where "SIGN_UP_BLOCK = 5500"
definition NO_ACCESS :: int where "NO_ACCESS = 9999"

definition block_active :: "int \<Rightarrow> int \<Rightarrow> ip_block_row \<Rightarrow> bool" where
  "block_active now severity b \<longleftrightarrow> ib_severity b = severity \<and> (case ib_expires_at b of None \<Rightarrow> True | Some e \<Rightarrow> e > now)"

text \<open>PostgreSQL's \<^verbatim>\<open><<=\<close>, which never holds between an address and a range of the other kind.\<close>

definition inet_within :: "ip_addr \<Rightarrow> cidr \<Rightarrow> bool" where
  "inet_within ip c = (addr_bits ip = addr_bits (ci_addr c) \<and> cidr_contains c ip)"

definition blocked_with :: "bool \<Rightarrow> int \<Rightarrow> ip_block_row list \<Rightarrow> ip_addr \<Rightarrow> int \<Rightarrow> bool" where
  "blocked_with down now rows ip severity =
     (\<not> down \<and> list_ex (\<lambda>b. block_active now severity b \<and> inet_within ip (ib_range b)) rows)"

definition sign_up_blocked :: "bool \<Rightarrow> int \<Rightarrow> ip_block_row list \<Rightarrow> ip_addr option \<Rightarrow> bool" where
  "sign_up_blocked down now rows ip = (case ip of None \<Rightarrow> False | Some a \<Rightarrow> blocked_with down now rows a SIGN_UP_BLOCK)"

definition sign_up_requires_approval :: "bool \<Rightarrow> int \<Rightarrow> ip_block_row list \<Rightarrow> ip_addr option \<Rightarrow> bool" where
  "sign_up_requires_approval down now rows ip =
     (case ip of None \<Rightarrow> False | Some a \<Rightarrow> blocked_with down now rows a SIGN_UP_REQUIRES_APPROVAL)"

text \<open>
  The ranges without access, kept ten seconds for each instance (by its domain); none when the query
  fails. The query and the reading of the clock when the ranges are kept are one instant here.
\<close>

type_synonym block_cache = "string \<Rightarrow> (int \<times> cidr list) option"

definition FRESH :: int where "FRESH = seconds 10"

definition access_ranges :: "bool \<Rightarrow> int \<Rightarrow> string \<Rightarrow> ip_block_row list \<Rightarrow> block_cache \<Rightarrow> cidr list \<times> block_cache" where
  "access_ranges down now domain rows cache =
     (case (case cache domain of Some (filled, ranges) \<Rightarrow> if now - filled < FRESH then Some ranges else None | None \<Rightarrow> None) of
        Some ranges \<Rightarrow> (ranges, cache)
      | None \<Rightarrow> let ranges = (if down then [] else map ib_range (filter (block_active now NO_ACCESS) rows))
          in (ranges, cache(domain \<mapsto> (now, ranges))))"

definition no_access :: "bool \<Rightarrow> int \<Rightarrow> string \<Rightarrow> ip_block_row list \<Rightarrow> ip_addr \<Rightarrow> block_cache \<Rightarrow> bool \<times> block_cache" where
  "no_access down now domain rows ip cache =
     (case access_ranges down now domain rows cache of (ranges, cache') \<Rightarrow> (list_ex (\<lambda>c. cidr_contains c ip) ranges, cache'))"

text \<open>Whether the request is answered 403.\<close>

definition deny_blocked :: "bool \<Rightarrow> int \<Rightarrow> string \<Rightarrow> ip_block_row list \<Rightarrow> ip_addr option \<Rightarrow> block_cache \<Rightarrow> bool \<times> block_cache" where
  "deny_blocked down now domain rows ip cache =
     (case ip of None \<Rightarrow> (False, cache) | Some a \<Rightarrow> no_access down now domain rows a cache)"

section \<open>A range is a common prefix\<close>

lemma bit_checked_shl_max: "bit (checked_shl_max n :: 'a::len word) k \<longleftrightarrow> n \<le> k \<and> k < LENGTH('a)"
  by (auto simp: checked_shl_max_def bit_simps)

lemma masked_eq:
  assumes "p \<le> LENGTH('a)"
  shows "a AND checked_shl_max (LENGTH('a) - p) = b AND checked_shl_max (LENGTH('a) - p) \<longleftrightarrow>
    (\<forall>i < p. bit (a :: 'a::len word) (LENGTH('a) - 1 - i) = bit b (LENGTH('a) - 1 - i))"
proof
  assume "a AND checked_shl_max (LENGTH('a) - p) = b AND checked_shl_max (LENGTH('a) - p)"
  then have eq: "bit a k = bit b k" if "LENGTH('a) - p \<le> k" "k < LENGTH('a)" for k
    using that by (auto simp: bit_eq_iff bit_and_iff bit_checked_shl_max)
  show "\<forall>i < p. bit a (LENGTH('a) - 1 - i) = bit b (LENGTH('a) - 1 - i)"
    using eq assms by auto
next
  assume same: "\<forall>i < p. bit a (LENGTH('a) - 1 - i) = bit b (LENGTH('a) - 1 - i)"
  have "bit a k = bit b k" if "LENGTH('a) - p \<le> k" "k < LENGTH('a)" for k
    using same [rule_format, of "LENGTH('a) - 1 - k"] that by simp
  then show "a AND checked_shl_max (LENGTH('a) - p) = b AND checked_shl_max (LENGTH('a) - p)"
    by (auto simp: bit_eq_iff bit_and_iff bit_checked_shl_max)
qed

text \<open>The leading bits of an address.\<close>

definition leading :: "nat \<Rightarrow> ip_addr \<Rightarrow> bool list" where
  "leading n ip = (case ip of V4 a \<Rightarrow> map (\<lambda>i. bit a (31 - i)) [0..<n] | V6 a \<Rightarrow> map (\<lambda>i. bit a (127 - i)) [0..<n])"

text \<open>
  C38: An address is in a range, whatever the length of its prefix (none and all bits included),
  exactly when it is of the same kind and begins with the same bits; to a range of IPv4 an IPv6
  address that maps one counts as that one.
\<close>

theorem range_is_a_common_prefix:
  assumes "ci_prefix c \<le> addr_bits (ci_addr c)"
  shows "cidr_contains c ip \<longleftrightarrow> (case (ci_addr c, ip) of
      (V4 net, V4 a) \<Rightarrow> leading (ci_prefix c) (V4 net) = leading (ci_prefix c) (V4 a)
    | (V4 net, V6 a) \<Rightarrow> drop_bit 32 a = 0xFFFF \<and> leading (ci_prefix c) (V4 net) = leading (ci_prefix c) (V4 (ucast a))
    | (V6 net, V6 a) \<Rightarrow> leading (ci_prefix c) (V6 net) = leading (ci_prefix c) (V6 a)
    | (V6 net, V4 a) \<Rightarrow> False)"
  using assms masked_eq [where 'a = 32, of "ci_prefix c"] masked_eq [where 'a = 128, of "ci_prefix c"]
  by (auto simp: cidr_contains_def addr_bits_def leading_def to_ipv4_mapped_def Let_def split: ip_addr.splits option.splits)

lemma range_is_a_common_prefix_witness:
  "cidr_contains \<lparr>ci_addr = V4 0xC0000200, ci_prefix = 24\<rparr> (V4 0xC0000209) \<and>
   leading 24 (V4 0xC0000200) = leading 24 (V4 0xC0000209)"
proof -
  have "leading 24 (V4 0xC0000200) = leading 24 (V4 0xC0000209)" by code_simp
  then show ?thesis
    using range_is_a_common_prefix [of "\<lparr>ci_addr = V4 0xC0000200, ci_prefix = 24\<rparr>" "V4 0xC0000209"] by (simp add: addr_bits_def)
qed

section \<open>Forged addresses\<close>

lemma split_by_append: "p c \<Longrightarrow> split_by p (a @ c # b) = split_by p a @ split_by p b"
  by (induction a) (auto split: list.split)

lemma forwarded_append: "forwarded_addresses (a @ '','' @ b) = forwarded_addresses a @ forwarded_addresses b"
  by (simp add: forwarded_addresses_def split_by_append List.map_filter_def)

text \<open>The addresses the proxies saw, nearest first: the peer and what they appended.\<close>

definition seen_chain :: "ip_addr option \<Rightarrow> string \<Rightarrow> ip_addr list" where
  "seen_chain peer added = (case peer of None \<Rightarrow> [] | Some p \<Rightarrow> [p]) @ rev (forwarded_addresses added)"

lemma nearest_untrusted:
  assumes "\<exists>ip \<in> set (seen_chain peer added). \<not> trusted extra ip"
  shows "calculate extra peer (Some (forged @ '','' @ added)) = find (\<lambda>ip. \<not> trusted extra ip) (seen_chain peer added)"
    and "calculate extra peer (Some added) = find (\<lambda>ip. \<not> trusted extra ip) (seen_chain peer added)"
proof -
  obtain ip where ip: "find (\<lambda>ip. \<not> trusted extra ip) (seen_chain peer added) = Some ip"
    using assms by (cases "find (\<lambda>ip. \<not> trusted extra ip) (seen_chain peer added)") (auto simp: find_None_iff)
  have "find P (xs @ ys) = Some x" if "find P xs = Some x" for P :: "ip_addr \<Rightarrow> bool" and xs ys x
    using that by (induction xs) auto
  from this [OF ip] have "find (\<lambda>ip. \<not> trusted extra ip) (seen_chain peer added @ rev (forwarded_addresses forged)) = Some ip" .
  then have "calculate extra peer (Some (forged @ '','' @ added)) = Some ip"
    unfolding calculate_def Let_def option.case forwarded_append rev_append seen_chain_def append_assoc by simp
  then show "calculate extra peer (Some (forged @ '','' @ added)) = find (\<lambda>ip. \<not> trusted extra ip) (seen_chain peer added)"
    using ip by simp
  show "calculate extra peer (Some added) = find (\<lambda>ip. \<not> trusted extra ip) (seen_chain peer added)"
    using ip unfolding calculate_def Let_def option.case seen_chain_def by simp
qed

text \<open>Space to tilde: the characters that \<open>to_str\<close> is documented to read.\<close>

definition visible_ascii :: "char \<Rightarrow> bool" where
  "visible_ascii c \<longleftrightarrow> 32 \<le> code c \<and> code c < 127"

text \<open>The first \<^verbatim>\<open>X-Forwarded-For\<close> line of a request; no header before it has that name.\<close>

lemma layer_reads_the_first_line:
  "list_all (\<lambda>(name, _). name \<noteq> ''x-forwarded-for'') before \<Longrightarrow>
   layer to_str extra peer (before @ (''x-forwarded-for'', v) # after) = calculate extra peer (to_str v)"
  by (induction before) (auto simp: layer_def)

text \<open>
  C39: A client that puts addresses of its own in front of the \<^verbatim>\<open>X-Forwarded-For\<close> line its proxies
  complete does not change whose request it is. When that line holds visible ASCII only, and is the
  first of its name, and an address that is no trusted proxy is among those the proxies saw (the
  peer and what they appended after the client's text), the nearest such address is taken, whatever
  the client's text and the other headers are. (The line of the request has to be readable: see
  \<open>unreadable_line_hides_the_client\<close>.)
\<close>

theorem forged_addresses_do_not_count:
  assumes "\<And>v. list_all visible_ascii v \<Longrightarrow> to_str v = Some v"
    and "list_all visible_ascii (forged @ '','' @ added)"
    and "list_all (\<lambda>(name, _). name \<noteq> ''x-forwarded-for'') before"
    and "\<exists>ip \<in> set (seen_chain peer added). \<not> trusted extra ip"
  shows "layer to_str extra peer (before @ (''x-forwarded-for'', forged @ '','' @ added) # after) =
      layer to_str extra peer [(''x-forwarded-for'', added)] \<and>
    layer to_str extra peer [(''x-forwarded-for'', added)] = find (\<lambda>ip. \<not> trusted extra ip) (seen_chain peer added)"
proof -
  have "list_all visible_ascii added" using assms(2) by simp
  then show ?thesis
    using layer_reads_the_first_line [OF assms(3)] layer_reads_the_first_line [of "[]"] nearest_untrusted [OF assms(4)]
      assms(1) [OF assms(2)] assms(1) by simp
qed

text \<open>
  A line that cannot be read, and every line after the first, are left out: one such character of
  the client's makes the peer, a trusted proxy, the client, whatever the proxies appended, and with
  it the address that the blocks are asked for.
\<close>

theorem unreadable_line_hides_the_client:
  assumes "to_str (forged @ '','' @ added) = None" and "list_all (\<lambda>(name, _). name \<noteq> ''x-forwarded-for'') before"
  shows "layer to_str extra (Some proxy) (before @ (''x-forwarded-for'', forged @ '','' @ added) # after) = Some proxy"
  using layer_reads_the_first_line [OF assms(2)] assms(1) by (simp add: calculate_def)

text \<open>The proxies trusted by default, as words.\<close>

lemma octets_unroll: "read_octets 4 i s = read_octets (Suc (Suc (Suc (Suc 0)))) i s"
  by (simp add: numeral_eq_Suc)

lemma groups_unroll:
  "read_groups 8 i s = read_groups (Suc (Suc (Suc (Suc (Suc (Suc (Suc (Suc 0)))))))) i s"
  "read_groups 7 i s = read_groups (Suc (Suc (Suc (Suc (Suc (Suc (Suc 0))))))) i s"
  by (simp_all add: numeral_eq_Suc)

lemma zeros_unroll: "replicate 7 (0 :: nat) = [0, 0, 0, 0, 0, 0, 0]"
  by (simp add: numeral_eq_Suc)

lemma groups_nil [simp]: "read_groups n i [] = ([], False, [])"
  by (cases n) (simp_all add: read_separator_def read_given_char_def read_ipv4_addr_def read_number_def octets_unroll)

lemmas ip_eval = parse_ip_def read_ipv4_addr_def read_ipv6_addr_def read_separator_def read_given_char_def
  read_number_def digits_value_def from_digits_def to_digit_def code_def octets_unroll groups_unroll zeros_unroll

lemmas cidr_eval = parse_cidr_def trimmed_def trim_end_def is_space_def parse_unsigned_def parse_digits_def is_digit_def
  undec_nat_def undigit_def addr_bits_def

lemma default_proxies: "trusted_proxies None =
    [\<lparr>ci_addr = V4 0x7F000000, ci_prefix = 8\<rparr>, \<lparr>ci_addr = V6 1, ci_prefix = 128\<rparr>,
     \<lparr>ci_addr = V6 0xFC000000000000000000000000000000, ci_prefix = 7\<rparr>, \<lparr>ci_addr = V4 0x0A000000, ci_prefix = 8\<rparr>,
     \<lparr>ci_addr = V4 0xAC100000, ci_prefix = 12\<rparr>, \<lparr>ci_addr = V4 0xC0A80000, ci_prefix = 16\<rparr>,
     \<lparr>ci_addr = V4 0xA9FE0000, ci_prefix = 16\<rparr>, \<lparr>ci_addr = V6 0xFE800000000000000000000000000000, ci_prefix = 10\<rparr>]"
proof -
  have parsed: "parse_ip ''127.0.0.0'' = Some (V4 0x7F000000)" "parse_ip ''::1'' = Some (V6 1)"
    "parse_ip ''fc00::'' = Some (V6 0xFC000000000000000000000000000000)" "parse_ip ''10.0.0.0'' = Some (V4 0x0A000000)"
    "parse_ip ''172.16.0.0'' = Some (V4 0xAC100000)" "parse_ip ''192.168.0.0'' = Some (V4 0xC0A80000)"
    "parse_ip ''169.254.0.0'' = Some (V4 0xA9FE0000)" "parse_ip ''fe80::'' = Some (V6 0xFE800000000000000000000000000000)"
    by (simp_all add: ip_eval)
  show ?thesis
    by (simp add: trusted_proxies_def TRUSTED_PROXIES_def List.map_filter_def cidr_eval code_def parsed)
qed

lemma forged_addresses_do_not_count_witness:
  "layer (\<lambda>v. if list_all visible_ascii v then Some v else None) None (Some (V4 0x7F000001))
     [(''host'', ''e.x''), (''x-forwarded-for'', ''198.51.100.7'' @ '','' @ ''203.0.113.5''), (''x-forwarded-for'', ''192.0.2.1'')] =
   Some (V4 0xCB007105)"
proof -
  have "parse_ip ''203.0.113.5'' = Some (V4 0xCB007105)" by (simp add: ip_eval)
  then have chain: "seen_chain (Some (V4 0x7F000001)) ''203.0.113.5'' = [V4 0x7F000001, V4 0xCB007105]"
    by (simp add: seen_chain_def forwarded_addresses_def List.map_filter_def trimmed_def trim_end_def is_space_def code_def)
  have trust: "trusted None (V4 0x7F000001)" "\<not> trusted None (V4 0xCB007105)"
    by (simp_all add: trusted_def default_proxies cidr_contains_def checked_shl_max_def Let_def mask_eq_exp_minus_1)
  have "list_all visible_ascii (''198.51.100.7'' @ '','' @ ''203.0.113.5'')"
    by (simp add: visible_ascii_def code_def)
  then show ?thesis
    using forged_addresses_do_not_count [of "\<lambda>v. if list_all visible_ascii v then Some v else None" "''198.51.100.7''" "''203.0.113.5''"
      "[(''host'', ''e.x'')]" "Some (V4 0x7F000001)" None "[(''x-forwarded-for'', ''192.0.2.1'')]"] chain trust
    by simp
qed

section \<open>Blocks are enforced\<close>

text \<open>Requests, to any instance, with a block in place from a time on and the database up since.\<close>

inductive answering :: "int \<Rightarrow> ip_block_row \<Rightarrow> block_cache \<Rightarrow> bool" for since b where
  answering_start: "(\<And>d filled ranges. cache d = Some (filled, ranges) \<Longrightarrow> filled < since) \<Longrightarrow> answering since b cache"
| answering_request: "answering since b cache \<Longrightarrow>
    (since \<le> now \<Longrightarrow> \<not> down \<and> b \<in> set rows \<and> block_active now NO_ACCESS b) \<Longrightarrow>
    answering since b (snd (deny_blocked down now domain rows ip cache))"

lemma answering_filled:
  "answering since b cache \<Longrightarrow> cache d = Some (filled, ranges) \<Longrightarrow> since \<le> filled \<Longrightarrow> ib_range b \<in> set ranges"
proof (induction arbitrary: d filled ranges rule: answering.induct)
  case (answering_start cache)
  then show ?case by fastforce
next
  case (answering_request cache now down rows domain ip)
  have "snd (access_ranges down now domain rows cache) = cache \<or> snd (access_ranges down now domain rows cache) =
      cache(domain \<mapsto> (now, if down then [] else map ib_range (filter (block_active now NO_ACCESS) rows)))"
    by (simp add: access_ranges_def Let_def split: option.split)
  then consider "snd (deny_blocked down now domain rows ip cache) = cache"
    | "snd (deny_blocked down now domain rows ip cache) =
        cache(domain \<mapsto> (now, if down then [] else map ib_range (filter (block_active now NO_ACCESS) rows)))"
    by (cases ip; cases "access_ranges down now domain rows cache") (auto simp: deny_blocked_def no_access_def)
  then show ?case
  proof cases
    case 1
    then show ?thesis using answering_request by simp
  next
    case 2
    then show ?thesis using answering_request by (cases "d = domain") auto
  qed
qed

text \<open>
  C40: An address under a \<^verbatim>\<open>no_access\<close> block is answered 403 by every instance from ten seconds after
  the block came into force on, whatever was asked and remembered before, as long as the database
  answers.
\<close>

theorem blocks_are_enforced:
  assumes "answering since b cache" "since + FRESH \<le> now" "\<not> down" "b \<in> set rows" "block_active now NO_ACCESS b"
    and "cidr_contains (ib_range b) ip"
  shows "fst (deny_blocked down now domain rows (Some ip) cache)"
proof -
  obtain ranges cache' where ranges: "access_ranges down now domain rows cache = (ranges, cache')" by fastforce
  have "ib_range b \<in> set ranges"
  proof (cases "\<exists>filled old. cache domain = Some (filled, old) \<and> now - filled < FRESH")
    case True
    then obtain filled where "cache domain = Some (filled, ranges)" "now - filled < FRESH"
      using ranges by (auto simp: access_ranges_def)
    then show ?thesis using answering_filled [OF assms(1)] assms(2) by fastforce
  next
    case False
    then have "ranges = map ib_range (filter (block_active now NO_ACCESS) rows)"
      using ranges assms(3) by (auto simp: access_ranges_def Let_def split: option.splits if_splits)
    then show ?thesis using assms(4,5) by simp
  qed
  then show ?thesis using assms(6) by (auto simp: deny_blocked_def no_access_def ranges list_ex_iff)
qed

lemma blocks_are_enforced_witness:
  "fst (deny_blocked False 10000005 ''e.x'' [\<lparr>ib_range = \<lparr>ci_addr = V4 0, ci_prefix = 0\<rparr>, ib_severity = 9999, ib_expires_at = None\<rparr>]
     (Some (V4 7)) (\<lambda>_. None))"
  by (rule blocks_are_enforced [where since = 5 and b = "\<lparr>ib_range = \<lparr>ci_addr = V4 0, ci_prefix = 0\<rparr>, ib_severity = 9999, ib_expires_at = None\<rparr>"])
    (auto simp: FRESH_def seconds_def block_active_def NO_ACCESS_def cidr_contains_def checked_shl_max_def Let_def intro: answering_start)

end
