(* ===== verification/Spec2Isabelle.thy ===== *)
theory Spec2Isabelle
  imports FanoutTheorems BuildTheorems JobsTheorems RolesTheorems DerTheorems X509Theorems CsvTheorems SearchTheorems
    CborTheorems TwoFactorTheorems RateLimit OAuthTheorems SessionFacts BreakerTheorems DeliveryTheorems PollExpiry RemoteIp
begin

text \<open>
  eunha is a server for the fediverse in Rust that keeps Mastodon's database and API. Its parts
  meet in three stores: PostgreSQL (accounts, posts, roles, jobs), Redis (feeds, locks, counters,
  pending sign-ins, circuit breakers) and the queue of ojak, its ActivityPub library. This
  development models the parts whose logic is their own, each as functions of the state it keeps.

  \<^bold>\<open>How code is modelled.\<close> A table is the list of its rows and a query a function of the tables; a
  Redis key space is a function from names to values. Errors are the left side of a sum or
  \<^verbatim>\<open>None\<close>. Whatever answers from outside may fail: the calls that fail are an argument
  (\<open>db_down\<close>, \<open>mo_down\<close>, \<open>up\<close>, or the oracle of \<open>FeedRedis\<close>), so a theorem about all arguments is
  one about failures anywhere. The clock, random draws, and functions of other crates (signatures,
  hashes, URL and date parsing, JSON text) are arguments too, with what is relied on as
  hypotheses. Machine integers are words, or integers with the wrap written out where the code
  can reach it. Loops are recursive functions; where the recursion is not structural there is a
  measure (\<open>vacuum_loop\<close>: the users left after the last id; \<open>parse_rows\<close>, \<open>read_all\<close>, \<open>p_clauses\<close>:
  the input left), or a bound of the code itself is the fuel (\<open>MAX_DEPTH\<close> certificates of a chain,
  \<open>MAX_CBOR_DEPTH\<close> levels of CBOR, past which the code answers an error as the model does).

  \<^bold>\<open>Shared.\<close> \<open>EunhaPrelude\<close>: decimals, \<^verbatim>\<open>f64\<close> conversion, the state-and-error shape with its weakest
  preconditions (\<open>wp_rules\<close>). \<open>RustText\<close>, \<open>Utf8\<close>, \<open>Json\<close>: strings, UTF-8 and \<^verbatim>\<open>serde_json\<close>.
  \<open>Errors\<close> is \<^verbatim>\<open>src/error.rs\<close>. \<open>RedisKeys\<close> is \<^verbatim>\<open>src/redis_keys.rs\<close>: the prefix of an instance and
  the names of its keys, which never meet those of another instance.

  \<^bold>\<open>Feeds\<close> (\<^verbatim>\<open>src/feed.rs\<close>). \<open>FeedRedis\<close> is the interface to Redis (locales \<open>feed_redis\<close>,
  \<open>reliable_feed_redis\<close>) with a model of the commands used as its instance. \<open>FeedCore\<close> has one feed
  (\<^verbatim>\<open>push\<close>, \<^verbatim>\<open>remove_from_feed\<close>, \<^verbatim>\<open>trim\<close>, \<^verbatim>\<open>get\<close>, \<^verbatim>\<open>clean_feed\<close>), \<open>FeedFilter\<close> what a receiver does not want
  to see, \<open>FeedFanout\<close> where a status goes, \<open>FeedBuild\<close> populating, merging, clearing and the vacuum,
  over the tables of \<open>Database\<close>. \<open>FeedSpec\<close> gives each operation as the commands it amounts to,
  \<open>FeedWindow\<close> and \<open>FeedTracking\<close> the invariants (no post twice among the newest eighty; what is
  tracked is in the feed), \<open>FeedFilterFacts\<close>, \<open>FeedFanoutFacts\<close>, \<open>FeedBuildFacts\<close> what the queries
  compute, and \<open>FeedTheorems\<close>, \<open>FanoutTheorems\<close>, \<open>BuildTheorems\<close> the properties.

  \<^bold>\<open>Jobs\<close> (\<^verbatim>\<open>src/jobs/mod.rs\<close>). \<open>Jobs\<close> has queueing, claiming, leases, retries and pruning as operations
  on the table; \<open>JobsFacts\<close> runs them against each other with clocks and dying processes and keeps the
  table consistent; \<open>JobsTheorems\<close>: a leased job is not claimed again, a failing job runs to its
  limit, a unique job is queued once, and a run whose lease was taken over frees the job of another.

  \<^bold>\<open>Roles\<close> (\<^verbatim>\<open>src/moderation/role.rs\<close>, \<^verbatim>\<open>src/api/mastodon/admin/roles.rs\<close>, parts of \<^verbatim>\<open>users.rs\<close> and
  \<^verbatim>\<open>middleware.rs\<close>). \<open>Roles\<close>, \<open>RolesAdmin\<close>: the role an account is judged by and the requests that
  change roles; \<open>RolesFacts\<close>, \<open>RolesTheorems\<close>: what the queries compute is the role held, and no
  sequence of requests raises the one who makes them.

  \<^bold>\<open>Signing in.\<close> \<open>Coordination\<close>: what expires in Redis, as the locale \<open>expiring_store\<close>, and the locks of
  \<^verbatim>\<open>src/redis_lock.rs\<close> that rest on its laws. \<open>TwoFactor\<close> is \<^verbatim>\<open>src/two_factor.rs\<close>, \<open>WebAuthn\<close> and \<open>Cbor\<close>
  are \<^verbatim>\<open>src/webauthn.rs\<close>, \<open>SignIn\<close> is \<^verbatim>\<open>src/api/account/sign_in.rs\<close>, which calls all three.
  \<open>SignInFacts\<close> follows the pending sign-ins, \<open>SignInTheorems\<close> shows that a session needs both
  factors, \<open>TwoFactorTheorems\<close> and \<open>RateLimit\<close> how often codes work and how many may be tried,
  \<open>CborTheorems\<close> that reading undoes writing and yields well-typed values. \<open>Sessions\<close> is
  \<^verbatim>\<open>src/sessions.rs\<close>, the sessions of browsers and their tokens, and \<open>OAuth\<close> is
  \<^verbatim>\<open>src/api/mastodon/oauth.rs\<close>: applications, codes and tokens, over both; \<open>OAuthTheorems\<close> follows the
  tables through any requests: a token of a user needs a code of its own that the user signed in for, or
  is that of a session the authorization page opened for them. \<open>SessionFacts\<close>: no more than ten sessions
  of a user, and what becomes of sessions that share a token.

  \<^bold>\<open>Polls.\<close> \<open>Polls\<close>: the tables of polls and votes and everything that writes them: \<^verbatim>\<open>src/api/mastodon/polls.rs\<close>,
  the poll parts of \<^verbatim>\<open>statuses/post.rs\<close>, \<^verbatim>\<open>statuses/edit.rs\<close>, \<^verbatim>\<open>src/api/ap/inbox.rs\<close> and \<^verbatim>\<open>inbox/create.rs\<close>.
  \<open>PollTheorems\<close>: the counts of a local poll add up, and what a form with bad or repeated choices
  leaves behind. \<open>PollExpiry\<close>: the Question of \<^verbatim>\<open>src/api/ap/note.rs\<close> and the notifier of
  \<^verbatim>\<open>src/background.rs\<close>, which tells of every ended poll, once unless a pass fails.

  \<^bold>\<open>Client addresses.\<close> \<open>RemoteIp\<close> is \<^verbatim>\<open>src/remote_ip.rs\<close>: ranges, whose request it is behind proxies, and
  the blocks of addresses.

  \<^bold>\<open>Certificates\<close> (\<^verbatim>\<open>src/webauthn/der.rs\<close>, \<^verbatim>\<open>x509.rs\<close>). \<open>Der\<close>, \<open>X509\<close>, \<open>X509Chain\<close>; \<open>DerTheorems\<close>,
  \<open>X509Theorems\<close>: a verified chain ends in a trusted root, with every link signed by the next, but a
  trusted root can take the place of a leaf that bears its name.

  \<^bold>\<open>Federation\<close> (\<^verbatim>\<open>src/federation/\<close>). \<open>FederationPolicy\<close> is \<^verbatim>\<open>addressing.rs\<close> and \<^verbatim>\<open>moderation.rs\<close>, \<open>Delivery\<close>
  the recipients and the queueing of \<^verbatim>\<open>delivery.rs\<close>, \<open>Breakers\<close> its retries and circuit breakers on
  \<open>Coordination\<close>'s store and lock, \<open>DeliveryFailures\<close> is \<^verbatim>\<open>delivery_failures.rs\<close>, its calls in steps that
  interleave: seven failing days mark a host. \<open>DeliveryTheorems\<close>: a limited post goes to its audience and nobody else; \<open>BreakerTheorems\<close>: ten failures hold an inbox,
  one probe goes through at a time. \<open>LocalUris\<close> is \<^verbatim>\<open>tag.rs\<close> and \<^verbatim>\<open>local_uri.rs\<close>: the URIs of what is
  local name what they were made for.

  \<^bold>\<open>Texts.\<close> \<open>Csv\<close>, \<open>CsvTheorems\<close>: \<^verbatim>\<open>src/portability/csv.rs\<close>. \<open>SearchQuery\<close>, \<open>SearchRequest\<close>,
  \<open>SearchTheorems\<close>: \<^verbatim>\<open>src/search/query.rs\<close>, the syntax of post searches and the request made of it.

  \<^bold>\<open>Not modelled.\<close> The REST handlers and serializers (SQL and JSON without logic of their own beyond
  what is here), inbound ActivityPub and remote accounts (over ojak, which is not in the sources),
  HTML formatting (regular expressions and a parser of other crates), media tools, Elasticsearch
  and object storage, streaming, mail, configuration and process set-up, the attestation formats of
  security keys, the moderation services, imports and exports other than CSV, and the web client.
  Async tasks are modelled as steps that can come in any order where their order matters, and not
  at all where they only log.
\<close>

end
